(* ===== verification/Prelude.thy ===== *)
theory Prelude
  imports Main
begin

text \<open>
  Shared vocabulary of the development. A Rust \<open>Result<T, E>\<close> is the sum \<open>'e + 'a\<close> with
  \<open>Inl\<close> for \<open>Err\<close>; an operation on \<open>&mut self\<close> that returns a \<open>Result\<close> gives the pair of that
  result and the state it leaves behind, because the state a failing operation has already
  written stays written. \<open>try_st\<close> is the operator \<open>?\<close> in such an operation.
\<close>

named_theorems result_simps \<open>evaluation of results and of the question-mark operator\<close>

type_synonym ('e, 'a, 's) st_result = "('e + 'a) \<times> 's"

definition ok_or :: "'a option \<Rightarrow> 'e \<Rightarrow> 'e + 'a" where
  "ok_or x e = (case x of None \<Rightarrow> Inl e | Some a \<Rightarrow> Inr a)"

definition is_ok :: "'e + 'a \<Rightarrow> bool" where
  "is_ok r = (case r of Inl _ \<Rightarrow> False | Inr _ \<Rightarrow> True)"

definition and_then :: "'e + 'a \<Rightarrow> ('a \<Rightarrow> 'e + 'b) \<Rightarrow> 'e + 'b" where
  "and_then r f = (case r of Inl e \<Rightarrow> Inl e | Inr a \<Rightarrow> f a)"

definition map_err :: "('e \<Rightarrow> 'f) \<Rightarrow> 'e + 'a \<Rightarrow> 'f + 'a" where
  "map_err f r = (case r of Inl e \<Rightarrow> Inl (f e) | Inr a \<Rightarrow> Inr a)"

definition option_transpose :: "('e + 'a) option \<Rightarrow> 'e + 'a option" where
  "option_transpose x = (case x of None \<Rightarrow> Inr None | Some (Inl e) \<Rightarrow> Inl e | Some (Inr a) \<Rightarrow> Inr (Some a))"

fun collect_results :: "('e + 'a) list \<Rightarrow> 'e + 'a list" where
  "collect_results [] = Inr []"
| "collect_results (Inl e # rs) = Inl e"
| "collect_results (Inr a # rs) = (case collect_results rs of Inl e \<Rightarrow> Inl e | Inr xs \<Rightarrow> Inr (a # xs))"

definition try_st :: "'s \<Rightarrow> 'e + 'a \<Rightarrow> ('a \<Rightarrow> ('e, 'b, 's) st_result) \<Rightarrow> ('e, 'b, 's) st_result" where
  "try_st s r k = (case r of Inl e \<Rightarrow> (Inl e, s) | Inr a \<Rightarrow> k a)"

text \<open>A loop whose body may leave with \<open>?\<close>: the results in order, or the first error.\<close>

fun run_all :: "('s \<Rightarrow> 'x \<Rightarrow> ('e, 'r, 's) st_result) \<Rightarrow> 's \<Rightarrow> 'x list \<Rightarrow> ('e, 'r list, 's) st_result" where
  "run_all body s [] = (Inr [], s)"
| "run_all body s (x # xs) =
     (case body s x of
        (Inl e, s') \<Rightarrow> (Inl e, s')
      | (Inr r, s') \<Rightarrow>
          (case run_all body s' xs of
             (Inl e, s'') \<Rightarrow> (Inl e, s'')
           | (Inr rs, s'') \<Rightarrow> (Inr (r # rs), s'')))"

definition vec_get :: "'a list \<Rightarrow> nat \<Rightarrow> 'a option" where
  "vec_get xs i = (if i < length xs then Some (xs ! i) else None)"

subsection \<open>Results\<close>

lemma ok_or_simps [simp, result_simps]:
  "ok_or None e = Inl e"
  "ok_or (Some a) e = Inr a"
  by (simp_all add: ok_or_def)

lemma ok_or_eq_Inr [simp]: "ok_or x e = Inr a \<longleftrightarrow> x = Some a"
  by (cases x) auto

lemma ok_or_eq_Inl [simp]: "ok_or x e = Inl f \<longleftrightarrow> x = None \<and> f = e"
  by (cases x) auto

lemma is_ok_simps [simp, result_simps]:
  "is_ok (Inr a)"
  "\<not> is_ok (Inl e)"
  by (simp_all add: is_ok_def)

lemma is_ok_iff: "is_ok r \<longleftrightarrow> (\<exists>a. r = Inr a)"
  by (cases r) auto

lemma and_then_simps [simp, result_simps]:
  "and_then (Inl e) f = Inl e"
  "and_then (Inr a) f = f a"
  by (simp_all add: and_then_def)

lemma map_err_simps [simp, result_simps]:
  "map_err f (Inl e) = Inl (f e)"
  "map_err f (Inr a) = Inr a"
  by (simp_all add: map_err_def)

lemma map_err_eq_Inr: "map_err f r = Inr a \<longleftrightarrow> r = Inr a"
  by (cases r) simp_all

lemma option_transpose_simps [simp, result_simps]:
  "option_transpose None = Inr None"
  "option_transpose (Some (Inl e)) = Inl e"
  "option_transpose (Some (Inr a)) = Inr (Some a)"
  by (simp_all add: option_transpose_def)

lemma try_st_simps [simp, result_simps]:
  "try_st s (Inl e) k = (Inl e, s)"
  "try_st s (Inr a) k = k a"
  by (simp_all add: try_st_def)

lemma collect_results_Inr:
  "collect_results rs = Inr xs \<longleftrightarrow> rs = map Inr xs"
proof (induction rs arbitrary: xs rule: collect_results.induct)
  case (3 a rs)
  show ?case
  proof (cases "collect_results rs")
    case (Inl e)
    have "rs \<noteq> map Inr ys" for ys :: "'b list"
      using "3" [of ys] Inl by simp
    with Inl show ?thesis by (cases xs) auto
  next
    case (Inr ys)
    with "3" [of ys] show ?thesis by (cases xs) (auto dest: "3" [THEN iffD2])
  qed
qed auto

lemma collect_results_Inl:
  "collect_results rs = Inl e \<Longrightarrow> Inl e \<in> set rs"
  by (induction rs rule: collect_results.induct) (auto split: sum.splits)

lemma collect_results_map_Inr:
  "collect_results (map f xs) = Inr ys \<Longrightarrow>
     length ys = length xs \<and> (\<forall>i < length xs. f (xs ! i) = Inr (ys ! i))"
  by (simp add: collect_results_Inr list_eq_iff_nth_eq)

lemma collect_results_map_rel:
  "collect_results (map f xs) = Inr ys \<longleftrightarrow> list_all2 (\<lambda>x y. f x = Inr y) xs ys"
  by (auto simp: collect_results_Inr list_eq_iff_nth_eq list_all2_conv_all_nth)

lemma collect_results_total:
  "(\<And>x. x \<in> set xs \<Longrightarrow> \<exists>y. f x = Inr y) \<Longrightarrow> \<exists>ys. collect_results (map f xs) = Inr ys"
  by (induction xs) fastforce+

lemma collect_results_Cons_Inr:
  "collect_results (r # rs) = Inr ys \<longleftrightarrow> (\<exists>y ys'. r = Inr y \<and> collect_results rs = Inr ys' \<and> ys = y # ys')"
  by (cases r) (auto split: sum.splits)

lemma collect_results_map_ok [simp]: "collect_results (map (\<lambda>x. Inr (g x)) xs) = Inr (map g xs)"
  by (induction xs) simp_all

lemma and_then_eq_Inr: "and_then r f = Inr b \<longleftrightarrow> (\<exists>a. r = Inr a \<and> f a = Inr b)"
  by (cases r) simp_all

subsection \<open>Loops\<close>

lemma run_all_invariant:
  assumes "\<And>s x. x \<in> set xs \<Longrightarrow> I s \<Longrightarrow> I (snd (body s x))" and "I s"
  shows "I (snd (run_all body s xs))"
  using assms
proof (induction xs arbitrary: s)
  case (Cons x xs)
  obtain r s' where b: "body s x = (r, s')" by fastforce
  with Cons.prems have "I s'" by (metis list.set_intros(1) snd_conv)
  with Cons b have "I (snd (run_all body s' xs))" by simp
  with b \<open>I s'\<close> show ?case by (auto split: sum.splits prod.splits)
qed simp

text \<open>With an invariant under which the body succeeds, the loop succeeds.\<close>

lemma run_all_total:
  assumes "\<And>s x. x \<in> set xs \<Longrightarrow> I s \<Longrightarrow> \<exists>r s'. body s x = (Inr r, s') \<and> I s'" and "I s"
  shows "\<exists>rs s'. run_all body s xs = (Inr rs, s') \<and> I s' \<and> length rs = length xs"
  using assms
proof (induction xs arbitrary: s)
  case (Cons x xs)
  obtain r s1 where b: "body s x = (Inr r, s1)" and i: "I s1" using Cons.prems by (metis list.set_intros(1))
  obtain rs s' where "run_all body s1 xs = (Inr rs, s')" "I s'" "length rs = length xs"
    using Cons.IH [OF _ i] Cons.prems(1) by (metis list.set_intros(2))
  with b show ?case by simp
qed simp

lemma run_all_error:
  assumes "\<And>s x r s'. x \<in> set xs \<Longrightarrow> I s \<Longrightarrow> body s x = (Inr r, s') \<Longrightarrow> I s'"
    and "\<And>s x e s'. x \<in> set xs \<Longrightarrow> I s \<Longrightarrow> body s x = (Inl e, s') \<Longrightarrow> E e"
    and "I s" and "run_all body s xs = (Inl e, s')"
  shows "E e"
  using assms
proof (induction xs arbitrary: s)
  case Nil
  from Nil.prems(4) show ?case by simp
next
  case (Cons x xs)
  obtain r s1 where b: "body s x = (r, s1)" by fastforce
  show ?case
  proof (cases r)
    case (Inl e')
    with b Cons.prems(4) have "e' = e" by simp
    with Cons.prems(2) [of x s e' s1] Cons.prems(3) b Inl show ?thesis by simp
  next
    case (Inr r')
    have run: "run_all body s1 xs = (Inl e, s')"
      using b Inr Cons.prems(4) by (auto split: sum.splits prod.splits)
    have i: "I s1" using Cons.prems(1) [of x s r' s1] Cons.prems(3) b Inr by simp
    show ?thesis
    proof (rule Cons.IH [OF _ _ i run])
      show "I t'" if "y \<in> set xs" "I t" "body t y = (Inr r, t')" for t y r t'
        using that by (intro Cons.prems(1) [of y t r t']) auto
      show "E f" if "y \<in> set xs" "I t" "body t y = (Inl f, t')" for t y f t'
        using that by (intro Cons.prems(2) [of y t f t']) auto
    qed
  qed
qed

text \<open>A fact about each result that later iterations keep holds of all results at the end.\<close>

lemma run_all_results:
  assumes "\<And>s x r s'. x \<in> set xs \<Longrightarrow> I s \<Longrightarrow> body s x = (Inr r, s') \<Longrightarrow> I s' \<and> Q s' r"
    and "\<And>s x q r s'. x \<in> set xs \<Longrightarrow> I s \<Longrightarrow> Q s q \<Longrightarrow> body s x = (Inr r, s') \<Longrightarrow> Q s' q"
    and "I s" and "run_all body s xs = (Inr rs, s')"
  shows "I s' \<and> length rs = length xs \<and> (\<forall>r \<in> set rs. Q s' r) \<and> (\<forall>q. Q s q \<longrightarrow> Q s' q)"
  using assms
proof (induction xs arbitrary: s rs)
  case Nil
  from Nil.prems(3,4) show ?case by auto
next
  case (Cons x xs)
  obtain r s1 where b: "body s x = (Inr r, s1)"
    using Cons.prems(4) by (auto split: sum.splits prod.splits)
  with Cons.prems(4) obtain rs' where rs: "run_all body s1 xs = (Inr rs', s')" "rs = r # rs'"
    by (auto split: sum.splits prod.splits)
  have s1: "I s1" "Q s1 r" using Cons.prems(1) [OF _ Cons.prems(3) b] by simp_all
  have keep: "Q s1 q" if "Q s q" for q using Cons.prems(2) [OF _ Cons.prems(3) that b] by simp
  have "I s' \<and> length rs' = length xs \<and> (\<forall>r \<in> set rs'. Q s' r) \<and> (\<forall>q. Q s1 q \<longrightarrow> Q s' q)"
  proof (rule Cons.IH [OF _ _ s1(1) rs(1)])
    show "I t' \<and> Q t' r" if "y \<in> set xs" "I t" "body t y = (Inr r, t')" for t y r t'
      using that by (intro Cons.prems(1) [of y t r t']) auto
    show "Q t' q" if "y \<in> set xs" "I t" "Q t q" "body t y = (Inr r, t')" for t y q r t'
      using that by (intro Cons.prems(2) [of y t q r t']) auto
  qed
  with rs(2) s1(2) keep show ?case by simp
qed

subsection \<open>Vectors\<close>

lemma vec_get_Some: "vec_get xs i = Some x \<longleftrightarrow> i < length xs \<and> xs ! i = x"
  by (simp add: vec_get_def)

lemma vec_get_None: "vec_get xs i = None \<longleftrightarrow> length xs \<le> i"
  by (simp add: vec_get_def)

lemma vec_get_append_new [simp]: "vec_get (xs @ [x]) (length xs) = Some x"
  by (simp add: vec_get_def)

lemma vec_get_append_mid [simp]: "vec_get (xs @ x # ys) (length xs) = Some x"
  by (simp add: vec_get_def)

lemma vec_get_append_old: "i < length xs \<Longrightarrow> vec_get (xs @ [x]) i = vec_get xs i"
  by (simp add: vec_get_def nth_append)

lemma vec_get_set: "vec_get xs i = Some x \<Longrightarrow> x \<in> set xs"
  by (auto simp: vec_get_Some)

subsection \<open>Association lists\<close>

lemma map_of_functional:
  assumes "\<And>m n. (v, m) \<in> set xs \<Longrightarrow> (v, n) \<in> set xs \<Longrightarrow> m = n"
  shows "map_of xs v = Some n \<longleftrightarrow> (v, n) \<in> set xs"
  using assms by (metis map_of_SomeD weak_map_of_SomeI)

lemma set_map_filter: "set (List.map_filter f xs) = {y. \<exists>x \<in> set xs. f x = Some y}"
  by (induction xs) (auto simp: List.map_filter_simps split: option.splits)

lemma list_all2_in_set2: "list_all2 P xs ys \<Longrightarrow> y \<in> set ys \<Longrightarrow> \<exists>x \<in> set xs. P x y"
  by (induction rule: list_all2_induct) auto

lemma list_all2_compose:
  assumes "list_all2 P xs ys" and "list_all2 Q ys zs"
    and "\<And>x y z. x \<in> set xs \<Longrightarrow> P x y \<Longrightarrow> Q y z \<Longrightarrow> R x z"
  shows "list_all2 R xs zs"
  using assms by (auto simp: list_all2_conv_all_nth)

text \<open>\<open>map.entry(k).or_default()\<close>, updated by \<open>f\<close>.\<close>

fun entry_or_default :: "'k \<Rightarrow> ('v list \<Rightarrow> 'v list) \<Rightarrow> ('k \<times> 'v list) list \<Rightarrow> ('k \<times> 'v list) list" where
  "entry_or_default k f [] = [(k, f [])]"
| "entry_or_default k f ((k', vs) # m) = (if k' = k then (k', f vs) # m else (k', vs) # entry_or_default k f m)"

lemma entry_fst: "fst ` set (entry_or_default k f m) = insert k (fst ` set m)"
proof (induction m)
  case (Cons kv m)
  then show ?case by (cases kv; cases "fst kv = k") (simp_all add: insert_commute insert_absorb)
qed simp

lemma map_of_entry:
  "map_of (entry_or_default k f m) = (map_of m)(k \<mapsto> f (case map_of m k of None \<Rightarrow> [] | Some vs \<Rightarrow> vs))"
proof (induction m)
  case (Cons kv m)
  obtain a vs where kv: "kv = (a, vs)" by (cases kv)
  show ?case
  proof (cases "a = k")
    case True
    then show ?thesis by (simp add: kv fun_eq_iff)
  next
    case False
    with Cons.IH show ?thesis by (auto simp: kv fun_eq_iff)
  qed
qed simp

subsection \<open>Decimal numerals\<close>

fun show_nat :: "nat \<Rightarrow> string" where
  "show_nat n = (if n < 10 then [char_of (48 + n)] else show_nat (n div 10) @ [char_of (48 + n mod 10)])"

declare show_nat.simps [simp del]

definition show_int :: "int \<Rightarrow> string" where
  "show_int i = (if i < 0 then ''-'' @ show_nat (nat (- i)) else show_nat (nat i))"

subsection \<open>Products of lists\<close>

lemma product_lists_snoc:
  "product_lists (xss @ [xs]) = concat (map (\<lambda>p. map (\<lambda>x. p @ [x]) xs) (product_lists xss))"
proof (induction xss)
  case Nil
  show ?case by (induction xs) simp_all
next
  case (Cons ys xss)
  show ?case unfolding append_Cons product_lists.simps Cons.IH
    by (induction ys) (simp_all add: map_concat comp_def)
qed

lemma length_concat_uniform: "(\<And>x. x \<in> set xs \<Longrightarrow> length (f x) = n) \<Longrightarrow> length (concat (map f xs)) = length xs * n"
  by (induction xs) simp_all

lemma concat_map_nth:
  "(\<And>x. x \<in> set xs \<Longrightarrow> length (f x) = n) \<Longrightarrow> i < length xs * n \<Longrightarrow> concat (map f xs) ! i = f (xs ! (i div n)) ! (i mod n)"
proof (induction xs arbitrary: i)
  case (Cons x xs)
  have n: "length (f x) = n" "0 < n" using Cons.prems by (auto intro: Nat.gr0I)
  show ?case
  proof (cases "i < n")
    case False
    then have "i - n < length xs * n" using Cons.prems(2) by simp
    with Cons.IH [of "i - n"] Cons.prems(1) False n show ?thesis
      by (simp add: nth_append le_div_geq le_mod_geq)
  qed (simp add: nth_append n)
qed simp

lemma length_product_lists: "length (product_lists xss) = prod_list (map length xss)"
proof (induction xss)
  case (Cons xs xss)
  have "length (product_lists (xs # xss)) = length xs * length (product_lists xss)"
    unfolding product_lists.simps by (rule length_concat_uniform) simp
  with Cons show ?case by simp
qed simp

lemma product_lists_snoc_nth:
  assumes "i < length (product_lists xss) * length xs"
  shows "product_lists (xss @ [xs]) ! i = product_lists xss ! (i div length xs) @ [xs ! (i mod length xs)]"
proof -
  have "0 < length xs" using assms by (auto intro: Nat.gr0I)
  then show ?thesis
    unfolding product_lists_snoc using assms by (subst concat_map_nth [where n = "length xs"]) simp_all
qed

end
