(* ===== verification/Dense_Map.thy ===== *)
theory Dense_Map
  imports Prelude
begin

text \<open>
  The index-keyed map of \<open>hyperswitch_constraint_graph/src/dense_map.rs\<close>: a vector whose positions
  are the keys. A key type is any type with the two functions of the trait \<open>EntityId\<close>, which the
  operations take as arguments. The locale \<open>entity_keys\<close> is the contract of that trait and carries
  the laws of the map (what a lookup returns after a push or a write, which keys exist, what an
  iteration visits) once for every key type.
\<close>

record 'v dense_map =
  dm_data :: "'v list"

definition dm_new :: "'v dense_map" where
  "dm_new = \<lparr>dm_data = []\<rparr>"

definition dm_push :: "(nat \<Rightarrow> 'k) \<Rightarrow> 'v dense_map \<Rightarrow> 'v \<Rightarrow> 'k \<times> 'v dense_map" where
  "dm_push with_id m elem =
     (let curr_len = length (dm_data m)
      in (with_id curr_len, m\<lparr>dm_data := dm_data m @ [elem]\<rparr>))"

definition dm_get :: "('k \<Rightarrow> nat) \<Rightarrow> 'v dense_map \<Rightarrow> 'k \<Rightarrow> 'v option" where
  "dm_get get_id m idx = vec_get (dm_data m) (get_id idx)"

text \<open>\<open>get_mut\<close> hands out a reference; the model applies the write made through it.\<close>

definition dm_get_mut :: "('k \<Rightarrow> nat) \<Rightarrow> 'v dense_map \<Rightarrow> 'k \<Rightarrow> ('v \<Rightarrow> 'v) \<Rightarrow> 'v dense_map option" where
  "dm_get_mut get_id m idx write =
     (case vec_get (dm_data m) (get_id idx) of
        None \<Rightarrow> None
      | Some v \<Rightarrow> Some (m\<lparr>dm_data := (dm_data m)[get_id idx := write v]\<rparr>))"

definition dm_contains_key :: "('k \<Rightarrow> nat) \<Rightarrow> 'v dense_map \<Rightarrow> 'k \<Rightarrow> bool" where
  "dm_contains_key get_id m key = (get_id key < length (dm_data m))"

definition dm_keys :: "(nat \<Rightarrow> 'k) \<Rightarrow> 'v dense_map \<Rightarrow> 'k list" where
  "dm_keys with_id m = map with_id [0..<length (dm_data m)]"

definition dm_values :: "'v dense_map \<Rightarrow> 'v list" where
  "dm_values m = dm_data m"

definition dm_iter :: "(nat \<Rightarrow> 'k) \<Rightarrow> 'v dense_map \<Rightarrow> ('k \<times> 'v) list" where
  "dm_iter with_id m = map (\<lambda>(i, v). (with_id i, v)) (List.enumerate 0 (dm_data m))"

definition dm_from_iter :: "'v list \<Rightarrow> 'v dense_map" where
  "dm_from_iter xs = \<lparr>dm_data = xs\<rparr>"

lemmas dense_map_defs = dm_new_def dm_push_def dm_get_def dm_get_mut_def dm_contains_key_def
  dm_keys_def dm_values_def dm_iter_def dm_from_iter_def

lemma dm_data_new [simp]: "dm_data dm_new = []"
  by (simp add: dm_new_def)

lemma dm_data_push [simp]:
  "dm_data (snd (dm_push with_id m v)) = dm_data m @ [v]"
  "fst (dm_push with_id m v) = with_id (length (dm_data m))"
  by (simp_all add: dm_push_def Let_def)

lemma dm_values_eq [simp]: "dm_values m = dm_data m"
  by (simp add: dm_values_def)

lemma map_of_enumerate: "map_of (List.enumerate n xs) i = (if n \<le> i then vec_get xs (i - n) else None)"
proof (induction xs arbitrary: n)
  case (Cons x xs)
  then show ?case
    by (auto simp: vec_get_def nth_Cons' Suc_diff_le)
qed (simp add: vec_get_def)

locale entity_keys =
  fixes get_id :: "'k \<Rightarrow> nat"
    and with_id :: "nat \<Rightarrow> 'k"
  assumes get_with [simp]: "get_id (with_id n) = n"
    and with_get [simp]: "with_id (get_id k) = k"
begin

lemma with_id_inj: "inj with_id"
  by (metis get_with injI)

lemma get_id_eq: "get_id j = get_id k \<longleftrightarrow> j = k"
  by (metis with_get)

lemma contains_iff_get: "dm_contains_key get_id m k \<longleftrightarrow> (\<exists>v. dm_get get_id m k = Some v)"
  by (simp add: dm_contains_key_def dm_get_def vec_get_def)

lemma get_new: "dm_get get_id dm_new k = None"
  by (simp add: dm_get_def vec_get_def)

lemma get_push:
  "dm_get get_id (snd (dm_push with_id m v)) k =
     (if k = fst (dm_push with_id m v) then Some v else dm_get get_id m k)"
  by (auto simp: dm_get_def vec_get_def nth_append less_Suc_eq dest: arg_cong [where f = with_id])

lemma push_fresh: "dm_get get_id m (fst (dm_push with_id m v)) = None"
  by (simp add: dm_get_def vec_get_def)

lemma get_mut_get:
  "dm_get_mut get_id m k f = Some m' \<Longrightarrow>
     dm_get get_id m' j = (if j = k then map_option f (dm_get get_id m k) else dm_get get_id m j)"
  by (auto simp: dm_get_mut_def dm_get_def vec_get_def nth_list_update get_id_eq
      split: option.splits if_splits)

lemma get_mut_defined: "(\<exists>m'. dm_get_mut get_id m k f = Some m') \<longleftrightarrow> dm_contains_key get_id m k"
  by (simp add: dm_get_mut_def vec_get_def dm_contains_key_def split: option.splits)

lemma set_keys: "set (dm_keys with_id m) = {k. dm_contains_key get_id m k}"
proof -
  have "k \<in> with_id ` {0..<length (dm_data m)}" if "get_id k < length (dm_data m)" for k
    using that by (metis atLeastLessThan_iff image_eqI le0 with_get)
  then show ?thesis by (auto simp: dm_keys_def dm_contains_key_def)
qed

lemma distinct_keys: "distinct (dm_keys with_id m)"
  by (simp add: dm_keys_def distinct_map inj_on_subset [OF with_id_inj])

lemma map_fst_iter: "map fst (dm_iter with_id m) = dm_keys with_id m"
  by (rule nth_equalityI) (simp_all add: dm_iter_def dm_keys_def enumerate_eq_zip)

lemma map_of_with_id: "map_of (map (\<lambda>(i, v). (with_id i, v)) xs) k = map_of xs (get_id k)"
  by (induction xs) auto

lemma iter_lookup: "map_of (dm_iter with_id m) k = dm_get get_id m k"
  by (simp add: dm_iter_def map_of_with_id map_of_enumerate dm_get_def)

end

end
