(* ===== verification/Cgraph_Types.thy ===== *)
theory Cgraph_Types
  imports Dense_Map
begin

text \<open>
  The data of the constraint graph, from \<open>types.rs\<close> and \<open>error.rs\<close> of
  \<open>hyperswitch_constraint_graph\<close>: node, edge and domain identifiers, nodes, edges, strengths and
  relations with their resolution rules, the analysis traces and errors, the memo table and the
  cycle table. The value type \<open>'v\<close>, its key type \<open>'k\<close> and the metadata type \<open>'m\<close> are those of the
  traits \<open>ValueNode\<close>, \<open>KeyNode\<close> and \<open>Metadata\<close>; the trait \<open>CheckingContext\<close> is a record of its two
  query methods. A hash set is the list of its elements in iteration order, without repetitions.
  A \<open>Weak\<close> reference to a trace is the trace itself: the memo table owns every trace an error
  refers to.
\<close>

subsection \<open>Identifiers\<close>

datatype node_id = NodeId (node_get_id: nat)

datatype edge_id = EdgeId (edge_get_id: nat)

datatype domain_id = DomainId (domain_get_id: nat)

datatype domain_identifier = DomainIdentifier (domain_into_inner: string)

subsection \<open>Nodes and edges\<close>

datatype ('v, 'k) node_value = KeyOf 'k | ValueOf 'v

datatype ('v, 'k) node_type =
    AllAggregator
  | AnyAggregator
  | InAggregator "'v list"
  | ValueNode "('v, 'k) node_value"

record ('v, 'k) node =
  node_type :: "('v, 'k) node_type"
  preds :: "edge_id list"
  succs :: "edge_id list"

definition node_new :: "('v, 'k) node_type \<Rightarrow> ('v, 'k) node" where
  "node_new nt = \<lparr>node_type = nt, preds = [], succs = []\<rparr>"

datatype strength = Weak | Normal | Strong

datatype relation = Positive | Negative

datatype relation_resolution = RPositive | RNegative | Contradictory

record edge =
  edge_strength :: strength
  edge_relation :: relation
  edge_pred :: node_id
  edge_succ :: node_id
  edge_domain :: "domain_id option"

record domain_info =
  info_domain_identifier :: domain_identifier
  info_domain_description :: string

fun strength_rank :: "strength \<Rightarrow> nat" where
  "strength_rank Weak = 0"
| "strength_rank Normal = 1"
| "strength_rank Strong = 2"

text \<open>\<open>derive(PartialOrd, Ord)\<close> orders the variants as they are declared.\<close>

instantiation strength :: linorder
begin

definition less_eq_strength :: "strength \<Rightarrow> strength \<Rightarrow> bool" where
  "less_eq_strength a b = (strength_rank a \<le> strength_rank b)"

definition less_strength :: "strength \<Rightarrow> strength \<Rightarrow> bool" where
  "less_strength a b = (strength_rank a < strength_rank b)"

instance
proof
  fix x y z :: strength
  show "x < y \<longleftrightarrow> x \<le> y \<and> \<not> y \<le> x" by (auto simp: less_eq_strength_def less_strength_def)
  show "x \<le> x" by (simp add: less_eq_strength_def)
  show "x \<le> y \<Longrightarrow> y \<le> z \<Longrightarrow> x \<le> z" by (simp add: less_eq_strength_def)
  show "x \<le> y \<Longrightarrow> y \<le> x \<Longrightarrow> x = y"
    by (cases x; cases y) (simp_all add: less_eq_strength_def)
  show "x \<le> y \<or> y \<le> x" by (auto simp: less_eq_strength_def)
qed

end

definition get_resolved_strength :: "strength \<Rightarrow> strength \<Rightarrow> strength" where
  "get_resolved_strength prev_strength curr_strength = max prev_strength curr_strength"

definition relation_bool :: "relation \<Rightarrow> bool" where
  "relation_bool r = (case r of Positive \<Rightarrow> True | Negative \<Rightarrow> False)"

definition resolution_of :: "relation \<Rightarrow> relation_resolution" where
  "resolution_of r = (case r of Positive \<Rightarrow> RPositive | Negative \<Rightarrow> RNegative)"

definition get_resolved_relation :: "relation_resolution \<Rightarrow> relation_resolution \<Rightarrow> relation_resolution" where
  "get_resolved_relation prev_relation curr_relation =
     (if prev_relation \<noteq> curr_relation then Contradictory else curr_relation)"

subsection \<open>Traces and errors\<close>

datatype 't value_trace_predecessor = Mandatory 't | OneOf "'t list"

datatype ('v, 'k, 'm) analysis_trace =
    TraceValue "('v, 'k) node_value" relation "('v, 'k, 'm) analysis_trace value_trace_predecessor option"
      "string option" "'m option"
  | AllAggregation "('v, 'k, 'm) analysis_trace list" "string option" "'m option"
  | AnyAggregation "('v, 'k, 'm) analysis_trace list" "string option" "'m option"
  | InAggregation "'v list" "'v option" relation "string option" "'m option"
  | Contradiction relation_resolution

datatype ('v, 'k, 'm) graph_error =
    EdgeNotFound
  | ConflictingEdgeCreated
  | CycleDetected
  | DomainNotFound
  | MalformedGraph string
  | NodeNotFound
  | ValueNodeNotFound 'v
  | NoInAggregatorValues
  | AnalysisError "('v, 'k, 'm) analysis_trace"

definition get_analysis_trace ::
  "('v, 'k, 'm) graph_error \<Rightarrow> ('v, 'k, 'm) graph_error + ('v, 'k, 'm) analysis_trace" where
  "get_analysis_trace e = (case e of AnalysisError trace \<Rightarrow> Inr trace | _ \<Rightarrow> Inl e)"

subsection \<open>Checking state\<close>

type_synonym memo_key = "node_id \<times> relation \<times> strength"

type_synonym ('v, 'k, 'm) memoization = "memo_key \<rightharpoonup> (('v, 'k, 'm) analysis_trace + unit)"

type_synonym cycle_check = "node_id \<rightharpoonup> (strength \<times> relation_resolution)"

definition memo_new :: "('v, 'k, 'm) memoization" where
  "memo_new = Map.empty"

definition cycle_new :: cycle_check where
  "cycle_new = Map.empty"

record ('v, 'k) checking_context =
  check_presence :: "('v, 'k) node_value \<Rightarrow> strength \<Rightarrow> bool"
  get_values_by_key :: "'k \<Rightarrow> 'v list option"

subsection \<open>The identifiers are keys of dense maps\<close>

interpretation node_keys: entity_keys node_get_id NodeId
  by unfold_locales auto

interpretation edge_keys: entity_keys edge_get_id EdgeId
  by unfold_locales auto

interpretation domain_keys: entity_keys domain_get_id DomainId
  by unfold_locales auto

subsection \<open>Resolution rules\<close>

lemma relation_bool_simps [simp]: "relation_bool Positive" "\<not> relation_bool Negative"
  by (simp_all add: relation_bool_def)

lemma resolution_of_simps [simp]:
  "resolution_of Positive = RPositive" "resolution_of Negative = RNegative"
  by (simp_all add: resolution_of_def)

lemma resolution_of_consistent [simp]: "resolution_of r \<noteq> Contradictory"
  by (cases r) simp_all

lemma get_analysis_trace_simps [simp]:
  "get_analysis_trace (AnalysisError t) = Inr t"
  by (simp add: get_analysis_trace_def)

lemma get_analysis_trace_Inl: "get_analysis_trace e = Inl e' \<Longrightarrow> e' = e \<and> (\<forall>t. e \<noteq> AnalysisError t)"
  by (cases e) (auto simp: get_analysis_trace_def)

lemma node_new_simps [simp]:
  "node_type (node_new nt) = nt" "preds (node_new nt) = []" "succs (node_new nt) = []"
  by (simp_all add: node_new_def)

end
