(* ===== verification/Cgraph_Builder.thy ===== *)
theory Cgraph_Builder
  imports Cgraph_Types
begin

text \<open>
  The graph builder of \<open>hyperswitch_constraint_graph/src/builder.rs\<close> and the finished graph of
  \<open>graph.rs\<close> with its wire form. Every operation on \<open>&mut self\<close> returns its result together with
  the builder it leaves behind, also when it fails. The invariant \<open>builder_inv\<close> ties the five
  redundant indexes of a builder (predecessor and successor lists, value map, edge map, domain
  map) to its node, edge and domain tables; every operation keeps it, so it holds in every state
  a client can reach.
\<close>

subsection \<open>State\<close>

datatype domain_id_or_identifier =
    ByDomainId domain_id
  | ByDomainIdentifier domain_identifier

record ('v, 'k, 'm) constraint_graph_builder =
  b_domain :: "domain_info dense_map"
  b_nodes :: "('v, 'k) node dense_map"
  b_edges :: "edge dense_map"
  b_domain_identifier_map :: "domain_identifier \<rightharpoonup> domain_id"
  b_value_map :: "('v, 'k) node_value \<rightharpoonup> node_id"
  b_edges_map :: "node_id \<times> node_id \<times> domain_id option \<rightharpoonup> edge_id"
  b_node_info :: "string option dense_map"
  b_node_metadata :: "'m option dense_map"

record ('v, 'k, 'm) constraint_graph =
  domain :: "domain_info dense_map"
  domain_identifier_map :: "domain_identifier \<rightharpoonup> domain_id"
  nodes :: "('v, 'k) node dense_map"
  edges :: "edge dense_map"
  value_map :: "('v, 'k) node_value \<rightharpoonup> node_id"
  node_info :: "string option dense_map"
  node_metadata :: "'m option dense_map"

record ('v, 'k) constraint_graph_wire =
  wire_domain :: "domain_info dense_map"
  wire_domain_identifier_map :: "domain_identifier \<rightharpoonup> domain_id"
  wire_nodes :: "('v, 'k) node dense_map"
  wire_edges :: "edge dense_map"

abbreviation get_node :: "('v, 'k) node dense_map \<Rightarrow> node_id \<Rightarrow> ('v, 'k) node option" where
  "get_node \<equiv> dm_get node_get_id"

abbreviation get_edge :: "edge dense_map \<Rightarrow> edge_id \<Rightarrow> edge option" where
  "get_edge \<equiv> dm_get edge_get_id"

abbreviation get_domain :: "domain_info dense_map \<Rightarrow> domain_id \<Rightarrow> domain_info option" where
  "get_domain \<equiv> dm_get domain_get_id"

subsection \<open>Operations\<close>

definition builder_new :: "('v, 'k, 'm) constraint_graph_builder" where
  "builder_new =
     \<lparr>b_domain = dm_new, b_nodes = dm_new, b_edges = dm_new,
      b_domain_identifier_map = Map.empty, b_value_map = Map.empty, b_edges_map = Map.empty,
      b_node_info = dm_new, b_node_metadata = dm_new\<rparr>"

definition build :: "('v, 'k, 'm) constraint_graph_builder \<Rightarrow> ('v, 'k, 'm) constraint_graph" where
  "build b =
     \<lparr>domain = b_domain b, domain_identifier_map = b_domain_identifier_map b,
      nodes = b_nodes b, edges = b_edges b, value_map = b_value_map b,
      node_info = b_node_info b, node_metadata = b_node_metadata b\<rparr>"

definition retrieve_domain_from_identifier ::
  "('v, 'k, 'm) constraint_graph_builder \<Rightarrow> domain_identifier \<Rightarrow> ('v, 'k, 'm) graph_error + domain_id" where
  "retrieve_domain_from_identifier b domain_ident =
     ok_or (b_domain_identifier_map b domain_ident) DomainNotFound"

definition ensure_node_exists ::
  "('v, 'k, 'm) constraint_graph_builder \<Rightarrow> node_id \<Rightarrow> ('v, 'k, 'm) graph_error + unit" where
  "ensure_node_exists b i =
     (if dm_contains_key node_get_id (b_nodes b) i then Inr () else Inl NodeNotFound)"

definition ensure_domain_exists ::
  "('v, 'k, 'm) constraint_graph_builder \<Rightarrow> domain_id \<Rightarrow> ('v, 'k, 'm) graph_error + unit" where
  "ensure_domain_exists b i =
     (if dm_contains_key domain_get_id (b_domain b) i then Inr () else Inl DomainNotFound)"

definition make_domain ::
  "('v, 'k, 'm) constraint_graph_builder \<Rightarrow> string \<Rightarrow> string
   \<Rightarrow> (('v, 'k, 'm) graph_error, domain_id, ('v, 'k, 'm) constraint_graph_builder) st_result" where
  "make_domain b ident description =
     (let domain_identifier = DomainIdentifier ident
      in case b_domain_identifier_map b domain_identifier of
           None \<Rightarrow>
             (let (domain_id, dmn') = dm_push DomainId (b_domain b)
                    \<lparr>info_domain_identifier = domain_identifier, info_domain_description = description\<rparr>
              in (Inr domain_id,
                  b\<lparr>b_domain := dmn',
                    b_domain_identifier_map := (b_domain_identifier_map b)(domain_identifier \<mapsto> domain_id)\<rparr>))
         | Some domain_id \<Rightarrow> (Inr domain_id, b))"

text \<open>The three statements with which every node constructor stores a new node.\<close>

definition push_node ::
  "('v, 'k, 'm) constraint_graph_builder \<Rightarrow> ('v, 'k) node_type \<Rightarrow> string option \<Rightarrow> 'm option
   \<Rightarrow> node_id \<times> ('v, 'k, 'm) constraint_graph_builder" where
  "push_node b nt info meta =
     (let (node_id, nodes') = dm_push NodeId (b_nodes b) (node_new nt);
          (_, info') = dm_push NodeId (b_node_info b) info;
          (_, meta') = dm_push NodeId (b_node_metadata b) meta
      in (node_id, b\<lparr>b_nodes := nodes', b_node_info := info', b_node_metadata := meta'\<rparr>))"

definition make_value_node ::
  "('v, 'k, 'm) constraint_graph_builder \<Rightarrow> ('v, 'k) node_value \<Rightarrow> string option \<Rightarrow> 'm option
   \<Rightarrow> node_id \<times> ('v, 'k, 'm) constraint_graph_builder" where
  "make_value_node b value info meta =
     (case b_value_map b value of
        Some node_id \<Rightarrow> (node_id, b)
      | None \<Rightarrow>
          (let (node_id, b') = push_node b (ValueNode value) info meta
           in (node_id, b'\<lparr>b_value_map := (b_value_map b')(value \<mapsto> node_id)\<rparr>)))"

definition resolve_domain ::
  "('v, 'k, 'm) constraint_graph_builder \<Rightarrow> domain_id_or_identifier \<Rightarrow> ('v, 'k, 'm) graph_error + domain_id" where
  "resolve_domain b d =
     (case d of
        ByDomainIdentifier ident \<Rightarrow> retrieve_domain_from_identifier b ident
      | ByDomainId i \<Rightarrow> and_then (ensure_domain_exists b i) (\<lambda>_. Inr i))"

definition add_edge ::
  "('v, 'k, 'm) constraint_graph_builder \<Rightarrow> edge
   \<Rightarrow> (('v, 'k, 'm) graph_error, edge_id, ('v, 'k, 'm) constraint_graph_builder) st_result" where
  "add_edge b e =
     (let (edge_id, edges') = dm_push EdgeId (b_edges b) e;
          b1 = b\<lparr>b_edges := edges',
                 b_edges_map := (b_edges_map b)((edge_pred e, edge_succ e, edge_domain e) \<mapsto> edge_id)\<rparr>
      in case dm_get_mut node_get_id (b_nodes b1) (edge_pred e) (\<lambda>n. n\<lparr>succs := succs n @ [edge_id]\<rparr>) of
           None \<Rightarrow> (Inl NodeNotFound, b1)
         | Some nodes1 \<Rightarrow>
             (let b2 = b1\<lparr>b_nodes := nodes1\<rparr>
              in case dm_get_mut node_get_id (b_nodes b2) (edge_succ e) (\<lambda>n. n\<lparr>preds := preds n @ [edge_id]\<rparr>) of
                   None \<Rightarrow> (Inl NodeNotFound, b2)
                 | Some nodes2 \<Rightarrow> (Inr edge_id, b2\<lparr>b_nodes := nodes2\<rparr>)))"

definition make_edge ::
  "('v, 'k, 'm) constraint_graph_builder \<Rightarrow> node_id \<Rightarrow> node_id \<Rightarrow> strength \<Rightarrow> relation
   \<Rightarrow> domain_id_or_identifier option
   \<Rightarrow> (('v, 'k, 'm) graph_error, edge_id, ('v, 'k, 'm) constraint_graph_builder) st_result" where
  "make_edge b pred_id succ_id strength relation dmn =
     try_st b (ensure_node_exists b pred_id) (\<lambda>_.
     try_st b (ensure_node_exists b succ_id) (\<lambda>_.
     try_st b (option_transpose (map_option (resolve_domain b) dmn)) (\<lambda>domain_id.
       case Option.bind (b_edges_map b (pred_id, succ_id, domain_id))
              (\<lambda>edge_id. map_option (\<lambda>edge. (edge_id, edge)) (get_edge (b_edges b) edge_id)) of
         None \<Rightarrow>
           add_edge b \<lparr>edge_strength = strength, edge_relation = relation, edge_pred = pred_id,
                       edge_succ = succ_id, edge_domain = domain_id\<rparr>
       | Some (edge_id, edge) \<Rightarrow>
           (if edge_strength edge = strength \<and> edge_relation edge = relation then (Inr edge_id, b)
            else (Inl ConflictingEdgeCreated, b)))))"

fun ensure_nodes_exist ::
  "('v, 'k, 'm) constraint_graph_builder \<Rightarrow> (node_id \<times> relation \<times> strength) list
   \<Rightarrow> ('v, 'k, 'm) graph_error + unit" where
  "ensure_nodes_exist b [] = Inr ()"
| "ensure_nodes_exist b ((node_id, _, _) # ns) =
     and_then (ensure_node_exists b node_id) (\<lambda>_. ensure_nodes_exist b ns)"

fun make_aggregator_edges ::
  "('v, 'k, 'm) constraint_graph_builder \<Rightarrow> node_id \<Rightarrow> domain_id option
   \<Rightarrow> (node_id \<times> relation \<times> strength) list
   \<Rightarrow> (('v, 'k, 'm) graph_error, unit, ('v, 'k, 'm) constraint_graph_builder) st_result" where
  "make_aggregator_edges b aggregator_id dmn [] = (Inr (), b)"
| "make_aggregator_edges b aggregator_id dmn ((node_id, relation, strength) # ns) =
     (case make_edge b node_id aggregator_id strength relation (map_option ByDomainId dmn) of
        (Inl e, b') \<Rightarrow> (Inl e, b')
      | (Inr _, b') \<Rightarrow> make_aggregator_edges b' aggregator_id dmn ns)"

definition make_all_aggregator ::
  "('v, 'k, 'm) constraint_graph_builder \<Rightarrow> (node_id \<times> relation \<times> strength) list
   \<Rightarrow> string option \<Rightarrow> 'm option \<Rightarrow> domain_id option
   \<Rightarrow> (('v, 'k, 'm) graph_error, node_id, ('v, 'k, 'm) constraint_graph_builder) st_result" where
  "make_all_aggregator b ns info meta dmn =
     try_st b (ensure_nodes_exist b ns) (\<lambda>_.
       let (aggregator_id, b1) = push_node b AllAggregator info meta
       in case make_aggregator_edges b1 aggregator_id dmn ns of
            (Inl e, b2) \<Rightarrow> (Inl e, b2)
          | (Inr _, b2) \<Rightarrow> (Inr aggregator_id, b2))"

definition make_any_aggregator ::
  "('v, 'k, 'm) constraint_graph_builder \<Rightarrow> (node_id \<times> relation \<times> strength) list
   \<Rightarrow> string option \<Rightarrow> 'm option \<Rightarrow> domain_id option
   \<Rightarrow> (('v, 'k, 'm) graph_error, node_id, ('v, 'k, 'm) constraint_graph_builder) st_result" where
  "make_any_aggregator b ns info meta dmn =
     try_st b (ensure_nodes_exist b ns) (\<lambda>_.
       let (aggregator_id, b1) = push_node b AnyAggregator info meta
       in case make_aggregator_edges b1 aggregator_id dmn ns of
            (Inl e, b2) \<Rightarrow> (Inl e, b2)
          | (Inr _, b2) \<Rightarrow> (Inr aggregator_id, b2))"

definition make_in_aggregator ::
  "('v \<Rightarrow> 'k) \<Rightarrow> ('v, 'k, 'm) constraint_graph_builder \<Rightarrow> 'v list \<Rightarrow> string option \<Rightarrow> 'm option
   \<Rightarrow> (('v, 'k, 'm) graph_error, node_id, ('v, 'k, 'm) constraint_graph_builder) st_result" where
  "make_in_aggregator get_key b values info meta =
     (case values of
        [] \<Rightarrow> (Inl NoInAggregatorValues, b)
      | v # _ \<Rightarrow>
          (let key = get_key v
           in if \<exists>val \<in> set values. get_key val \<noteq> key
              then (Inl (MalformedGraph ''Values for 'In' aggregator not of same key''), b)
              else (let (node_id, b') = push_node b (InAggregator (remdups values)) info meta
                    in (Inr node_id, b'))))"

subsection \<open>The wire form\<close>

text \<open>Serialisation drops the three fields marked \<open>serde(skip)\<close>; \<open>From<ConstraintGraphWire>\<close> rebuilds the value map.\<close>

definition to_wire :: "('v, 'k, 'm) constraint_graph \<Rightarrow> ('v, 'k) constraint_graph_wire" where
  "to_wire g =
     \<lparr>wire_domain = domain g, wire_domain_identifier_map = domain_identifier_map g,
      wire_nodes = nodes g, wire_edges = edges g\<rparr>"

definition from_wire :: "('v, 'k) constraint_graph_wire \<Rightarrow> ('v, 'k, 'm) constraint_graph" where
  "from_wire w =
     (let entries = List.map_filter
            (\<lambda>(node_id, node). case node_type node of ValueNode value \<Rightarrow> Some (value, node_id) | _ \<Rightarrow> None)
            (dm_iter NodeId (wire_nodes w))
      in \<lparr>domain = wire_domain w, domain_identifier_map = wire_domain_identifier_map w,
          nodes = wire_nodes w, edges = wire_edges w,
          value_map = map_of (rev entries),
          node_info = dm_new, node_metadata = dm_new\<rparr>)"

subsection \<open>The invariant\<close>

definition edges_into :: "edge list \<Rightarrow> node_id \<Rightarrow> edge_id list" where
  "edges_into es n = map EdgeId (filter (\<lambda>i. edge_succ (es ! i) = n) [0..<length es])"

definition edges_from :: "edge list \<Rightarrow> node_id \<Rightarrow> edge_id list" where
  "edges_from es n = map EdgeId (filter (\<lambda>i. edge_pred (es ! i) = n) [0..<length es])"

definition links_ok :: "('v, 'k) node list \<Rightarrow> edge list \<Rightarrow> bool" where
  "links_ok ns es \<longleftrightarrow>
     (\<forall>i < length ns. preds (ns ! i) = edges_into es (NodeId i) \<and> succs (ns ! i) = edges_from es (NodeId i))"

definition edge_ends_ok :: "nat \<Rightarrow> nat \<Rightarrow> edge list \<Rightarrow> bool" where
  "edge_ends_ok n_nodes n_domains es \<longleftrightarrow>
     (\<forall>e \<in> set es. node_get_id (edge_pred e) < n_nodes \<and> node_get_id (edge_succ e) < n_nodes
        \<and> (\<forall>d. edge_domain e = Some d \<longrightarrow> domain_get_id d < n_domains))"

definition value_index_ok :: "(('v, 'k) node_value \<rightharpoonup> node_id) \<Rightarrow> ('v, 'k) node dense_map \<Rightarrow> bool" where
  "value_index_ok m ns \<longleftrightarrow>
     (\<forall>v n. m v = Some n \<longleftrightarrow> (\<exists>nd. get_node ns n = Some nd \<and> node_type nd = ValueNode v))"

definition edge_index_ok :: "(node_id \<times> node_id \<times> domain_id option \<rightharpoonup> edge_id) \<Rightarrow> edge dense_map \<Rightarrow> bool" where
  "edge_index_ok m es \<longleftrightarrow>
     (\<forall>p s d e. m (p, s, d) = Some e \<longleftrightarrow>
        (\<exists>ed. get_edge es e = Some ed \<and> edge_pred ed = p \<and> edge_succ ed = s \<and> edge_domain ed = d))"

definition domain_index_ok :: "(domain_identifier \<rightharpoonup> domain_id) \<Rightarrow> domain_info dense_map \<Rightarrow> bool" where
  "domain_index_ok m ds \<longleftrightarrow>
     (\<forall>i d. m i = Some d \<longleftrightarrow> (\<exists>inf. get_domain ds d = Some inf \<and> info_domain_identifier inf = i))"

definition in_sets_ok :: "('v \<Rightarrow> 'k) \<Rightarrow> ('v, 'k) node list \<Rightarrow> bool" where
  "in_sets_ok get_key ns \<longleftrightarrow>
     (\<forall>nd \<in> set ns. \<forall>vs. node_type nd = InAggregator vs \<longrightarrow>
        vs \<noteq> [] \<and> distinct vs \<and> (\<forall>v \<in> set vs. get_key v = get_key (hd vs)))"

definition builder_inv :: "('v \<Rightarrow> 'k) \<Rightarrow> ('v, 'k, 'm) constraint_graph_builder \<Rightarrow> bool" where
  "builder_inv get_key b \<longleftrightarrow>
     links_ok (dm_data (b_nodes b)) (dm_data (b_edges b))
     \<and> edge_ends_ok (length (dm_data (b_nodes b))) (length (dm_data (b_domain b))) (dm_data (b_edges b))
     \<and> value_index_ok (b_value_map b) (b_nodes b)
     \<and> edge_index_ok (b_edges_map b) (b_edges b)
     \<and> domain_index_ok (b_domain_identifier_map b) (b_domain b)
     \<and> in_sets_ok get_key (dm_data (b_nodes b))
     \<and> length (dm_data (b_node_info b)) = length (dm_data (b_nodes b))
     \<and> length (dm_data (b_node_metadata b)) = length (dm_data (b_nodes b))"

text \<open>No operation removes or changes what is already there: tables only grow at the end.\<close>

definition extends ::
  "('v, 'k, 'm) constraint_graph_builder \<Rightarrow> ('v, 'k, 'm) constraint_graph_builder \<Rightarrow> bool" where
  "extends b b' \<longleftrightarrow>
     (\<exists>ts. map node_type (dm_data (b_nodes b')) = map node_type (dm_data (b_nodes b)) @ ts)
     \<and> (\<exists>es. dm_data (b_edges b') = dm_data (b_edges b) @ es)
     \<and> (\<exists>ds. dm_data (b_domain b') = dm_data (b_domain b) @ ds)"

subsection \<open>Edge lists\<close>

lemma edges_into_Nil [simp]: "edges_into [] n = []" "edges_from [] n = []"
  by (simp_all add: edges_into_def edges_from_def)

lemma edges_into_snoc:
  "edges_into (es @ [e]) n = edges_into es n @ (if edge_succ e = n then [EdgeId (length es)] else [])"
proof -
  have "filter (\<lambda>i. edge_succ ((es @ [e]) ! i) = n) [0..<length es] = filter (\<lambda>i. edge_succ (es ! i) = n) [0..<length es]"
    by (rule filter_cong) (simp_all add: nth_append)
  then show ?thesis by (simp add: edges_into_def)
qed

lemma edges_from_snoc:
  "edges_from (es @ [e]) n = edges_from es n @ (if edge_pred e = n then [EdgeId (length es)] else [])"
proof -
  have "filter (\<lambda>i. edge_pred ((es @ [e]) ! i) = n) [0..<length es] = filter (\<lambda>i. edge_pred (es ! i) = n) [0..<length es]"
    by (rule filter_cong) (simp_all add: nth_append)
  then show ?thesis by (simp add: edges_from_def)
qed

lemma in_edges_into: "EdgeId i \<in> set (edges_into es n) \<longleftrightarrow> i < length es \<and> edge_succ (es ! i) = n"
  by (auto simp: edges_into_def)

lemma edges_into_fresh:
  "edge_ends_ok k d es \<Longrightarrow> edges_into es (NodeId k) = [] \<and> edges_from es (NodeId k) = []"
  unfolding edges_into_def edges_from_def edge_ends_ok_def
  by (auto simp: filter_empty_conv) (metis less_irrefl node_id.sel nth_mem)+

subsection \<open>Reading the indexes\<close>

lemma domain_indexD:
  "domain_index_ok m ds \<Longrightarrow> m i = Some d \<Longrightarrow> \<exists>inf. get_domain ds d = Some inf \<and> info_domain_identifier inf = i"
  by (simp add: domain_index_ok_def)

lemma edge_indexD:
  "edge_index_ok m es \<Longrightarrow> m (p, s, d) = Some e \<Longrightarrow>
     \<exists>ed. get_edge es e = Some ed \<and> edge_pred ed = p \<and> edge_succ ed = s \<and> edge_domain ed = d"
  by (simp add: edge_index_ok_def)

subsection \<open>Growth\<close>

lemma extends_refl [simp]: "extends b b"
  by (simp add: extends_def)

lemma extends_trans [trans]: "extends a b \<Longrightarrow> extends b c \<Longrightarrow> extends a c"
  by (auto simp: extends_def)

subsection \<open>Preservation\<close>

lemma builder_new_inv: "builder_inv get_key builder_new"
  by (simp add: builder_inv_def builder_new_def links_ok_def edge_ends_ok_def value_index_ok_def
      edge_index_ok_def domain_index_ok_def in_sets_ok_def node_keys.get_new edge_keys.get_new
      domain_keys.get_new)

lemma value_index_push:
  assumes "value_index_ok m ns" and new: "\<And>v. nt = ValueNode v \<Longrightarrow> m v = None"
  shows "value_index_ok
     (case nt of ValueNode v \<Rightarrow> m(v \<mapsto> NodeId (length (dm_data ns))) | _ \<Rightarrow> m)
     (ns\<lparr>dm_data := dm_data ns @ [node_new nt]\<rparr>)"
proof -
  have get: "get_node (ns\<lparr>dm_data := dm_data ns @ [node_new nt]\<rparr>) n =
      (if n = NodeId (length (dm_data ns)) then Some (node_new nt) else get_node ns n)" for n
    using node_keys.get_push [of ns "node_new nt" n] by (simp add: dm_push_def)
  have fresh: "get_node ns (NodeId (length (dm_data ns))) = None"
    using node_keys.push_fresh [of ns "node_new nt"] by (simp add: dm_push_def)
  show ?thesis
    using assms fresh unfolding value_index_ok_def get
    by (cases nt) (simp_all split: if_splits, metis option.discI)
qed

lemma links_push:
  assumes "links_ok ns es" and "edge_ends_ok (length ns) d es"
  shows "links_ok (ns @ [node_new nt]) es"
  using assms edges_into_fresh [OF assms(2)]
  by (auto simp: links_ok_def nth_append less_Suc_eq)

lemma edge_ends_Suc:
  "edge_ends_ok k d es \<Longrightarrow> edge_ends_ok (Suc k) d es"
  "edge_ends_ok k d es \<Longrightarrow> edge_ends_ok k (Suc d) es"
  by (auto simp: edge_ends_ok_def less_Suc_eq)

lemma push_node_eq:
  "push_node b nt info meta =
     (NodeId (length (dm_data (b_nodes b))),
      b\<lparr>b_nodes := (b_nodes b)\<lparr>dm_data := dm_data (b_nodes b) @ [node_new nt]\<rparr>,
        b_node_info := (b_node_info b)\<lparr>dm_data := dm_data (b_node_info b) @ [info]\<rparr>,
        b_node_metadata := (b_node_metadata b)\<lparr>dm_data := dm_data (b_node_metadata b) @ [meta]\<rparr>\<rparr>)"
  by (simp add: push_node_def dm_push_def Let_def)

lemma in_sets_push:
  assumes "in_sets_ok get_key ns"
    and "\<And>vs. nt = InAggregator vs \<Longrightarrow>
      vs \<noteq> [] \<and> distinct vs \<and> (\<forall>v \<in> set vs. get_key v = get_key (hd vs))"
  shows "in_sets_ok get_key (ns @ [node_new nt])"
  using assms unfolding in_sets_ok_def by (metis Un_iff empty_iff empty_set insert_iff list.simps(15)
      node_new_simps(1) set_append)

lemma push_node_inv_parts:
  assumes "builder_inv get_key b"
    and "\<And>vs. nt = InAggregator vs \<Longrightarrow>
      vs \<noteq> [] \<and> distinct vs \<and> (\<forall>v \<in> set vs. get_key v = get_key (hd vs))"
    and "value_index_ok vm ((b_nodes b)\<lparr>dm_data := dm_data (b_nodes b) @ [node_new nt]\<rparr>)"
  shows "builder_inv get_key ((snd (push_node b nt info meta))\<lparr>b_value_map := vm\<rparr>)"
  using assms(1,3) in_sets_push [of get_key "dm_data (b_nodes b)" nt, OF _ assms(2)]
    links_push [of "dm_data (b_nodes b)" "dm_data (b_edges b)" "length (dm_data (b_domain b))" nt]
  by (simp add: push_node_eq builder_inv_def edge_ends_Suc)

lemma push_node_inv:
  assumes inv: "builder_inv get_key b" and nv: "\<And>v. nt \<noteq> ValueNode v"
    and ins: "\<And>vs. nt = InAggregator vs \<Longrightarrow>
      vs \<noteq> [] \<and> distinct vs \<and> (\<forall>v \<in> set vs. get_key v = get_key (hd vs))"
  shows "builder_inv get_key (snd (push_node b nt info meta))"
proof -
  have "value_index_ok (b_value_map b) ((b_nodes b)\<lparr>dm_data := dm_data (b_nodes b) @ [node_new nt]\<rparr>)"
    using value_index_push [of "b_value_map b" "b_nodes b" nt] inv nv
    by (cases nt) (auto simp: builder_inv_def)
  from push_node_inv_parts [OF inv ins this] show ?thesis
    by (simp add: push_node_eq)
qed

lemma push_node_extends: "extends b (snd (push_node b nt info meta))"
  by (simp add: push_node_eq extends_def)

lemma make_value_node_inv:
  assumes "builder_inv get_key b"
  shows "builder_inv get_key (snd (make_value_node b v info meta))"
proof (cases "b_value_map b v")
  case None
  have "value_index_ok ((b_value_map b)(v \<mapsto> NodeId (length (dm_data (b_nodes b)))))
      ((b_nodes b)\<lparr>dm_data := dm_data (b_nodes b) @ [node_new (ValueNode v)]\<rparr>)"
    using value_index_push [of "b_value_map b" "b_nodes b" "ValueNode v"] assms None
    by (simp add: builder_inv_def)
  from push_node_inv_parts [OF assms _ this] None show ?thesis
    by (simp add: make_value_node_def push_node_eq)
qed (use assms in \<open>simp add: make_value_node_def\<close>)

lemma make_value_node_extends: "extends b (snd (make_value_node b v info meta))"
  by (auto simp: make_value_node_def push_node_eq extends_def split: option.splits)

lemma make_domain_inv:
  assumes inv: "builder_inv get_key b"
  shows "builder_inv get_key (snd (make_domain b ident desc))"
proof (cases "b_domain_identifier_map b (DomainIdentifier ident)")
  case None
  let ?inf = "\<lparr>info_domain_identifier = DomainIdentifier ident, info_domain_description = desc\<rparr>"
  let ?d = "DomainId (length (dm_data (b_domain b)))"
  have get: "get_domain ((b_domain b)\<lparr>dm_data := dm_data (b_domain b) @ [?inf]\<rparr>) d =
      (if d = ?d then Some ?inf else get_domain (b_domain b) d)" for d
    using domain_keys.get_push [of "b_domain b" ?inf d] by (simp add: dm_push_def)
  have fresh: "get_domain (b_domain b) ?d = None"
    using domain_keys.push_fresh [of "b_domain b" ?inf] by (simp add: dm_push_def)
  have idx: "domain_index_ok (b_domain_identifier_map b) (b_domain b)"
    using inv by (simp add: builder_inv_def)
  have "domain_index_ok ((b_domain_identifier_map b)(DomainIdentifier ident \<mapsto> ?d))
      ((b_domain b)\<lparr>dm_data := dm_data (b_domain b) @ [?inf]\<rparr>)"
    unfolding domain_index_ok_def get
    using idx [unfolded domain_index_ok_def] fresh None
    by (simp split: if_splits) (metis option.discI)
  with inv None show ?thesis
    by (simp add: make_domain_def dm_push_def Let_def builder_inv_def edge_ends_Suc)
qed (use inv in \<open>simp add: make_domain_def\<close>)

lemma make_domain_extends: "extends b (snd (make_domain b ident desc))"
  by (auto simp: make_domain_def dm_push_def Let_def extends_def split: option.splits)

subsection \<open>Linking an edge\<close>

definition link_nodes :: "('v, 'k) node list \<Rightarrow> nat \<Rightarrow> nat \<Rightarrow> edge_id \<Rightarrow> ('v, 'k) node list" where
  "link_nodes ns p s e =
     (let ns1 = ns[p := (ns ! p)\<lparr>succs := succs (ns ! p) @ [e]\<rparr>]
      in ns1[s := (ns1 ! s)\<lparr>preds := preds (ns1 ! s) @ [e]\<rparr>])"

lemma length_link_nodes [simp]: "length (link_nodes ns p s e) = length ns"
  by (simp add: link_nodes_def Let_def)

lemma link_nodes_nth:
  assumes "p < length ns" "s < length ns" "i < length ns"
  shows "node_type (link_nodes ns p s e ! i) = node_type (ns ! i)"
    and "preds (link_nodes ns p s e ! i) = preds (ns ! i) @ (if i = s then [e] else [])"
    and "succs (link_nodes ns p s e ! i) = succs (ns ! i) @ (if i = p then [e] else [])"
  using assms by (auto simp: link_nodes_def Let_def nth_list_update)

lemma link_nodes_types:
  "p < length ns \<Longrightarrow> s < length ns \<Longrightarrow> map node_type (link_nodes ns p s e) = map node_type ns"
  by (simp add: list_eq_iff_nth_eq link_nodes_nth)

lemma value_index_types:
  "value_index_ok m ns \<longleftrightarrow>
     (\<forall>v n. m v = Some n \<longleftrightarrow> vec_get (map node_type (dm_data ns)) (node_get_id n) = Some (ValueNode v))"
  by (auto simp: value_index_ok_def dm_get_def vec_get_def)

lemma in_sets_types:
  "in_sets_ok get_key ns \<longleftrightarrow>
     (\<forall>nt \<in> set (map node_type ns). \<forall>vs. nt = InAggregator vs \<longrightarrow>
        vs \<noteq> [] \<and> distinct vs \<and> (\<forall>v \<in> set vs. get_key v = get_key (hd vs)))"
  by (auto simp: in_sets_ok_def)

lemma value_index_cong:
  "map node_type (dm_data ns) = map node_type (dm_data ns') \<Longrightarrow> value_index_ok m ns = value_index_ok m ns'"
  unfolding value_index_types by simp

lemma in_sets_cong:
  "map node_type ns = map node_type ns' \<Longrightarrow> in_sets_ok get_key ns = in_sets_ok get_key ns'"
  unfolding in_sets_types by simp

lemma add_edge_eq:
  assumes "node_get_id (edge_pred e) < length (dm_data (b_nodes b))"
    and "node_get_id (edge_succ e) < length (dm_data (b_nodes b))"
  shows "add_edge b e =
    (Inr (EdgeId (length (dm_data (b_edges b)))),
     b\<lparr>b_edges := (b_edges b)\<lparr>dm_data := dm_data (b_edges b) @ [e]\<rparr>,
       b_edges_map := (b_edges_map b)((edge_pred e, edge_succ e, edge_domain e) \<mapsto> EdgeId (length (dm_data (b_edges b)))),
       b_nodes := (b_nodes b)\<lparr>dm_data := link_nodes (dm_data (b_nodes b)) (node_get_id (edge_pred e))
         (node_get_id (edge_succ e)) (EdgeId (length (dm_data (b_edges b))))\<rparr>\<rparr>)"
  using assms
  by (simp add: add_edge_def dm_push_def dm_get_mut_def vec_get_def link_nodes_def Let_def)

lemma edge_index_push:
  assumes idx: "edge_index_ok m es" and new: "m (edge_pred e, edge_succ e, edge_domain e) = None"
  shows "edge_index_ok (m((edge_pred e, edge_succ e, edge_domain e) \<mapsto> EdgeId (length (dm_data es))))
     (es\<lparr>dm_data := dm_data es @ [e]\<rparr>)"
proof -
  have get: "get_edge (es\<lparr>dm_data := dm_data es @ [e]\<rparr>) i =
      (if i = EdgeId (length (dm_data es)) then Some e else get_edge es i)" for i
    using edge_keys.get_push [of es e i] by (simp add: dm_push_def)
  have fresh: "get_edge es (EdgeId (length (dm_data es))) = None"
    using edge_keys.push_fresh [of es e] by (simp add: dm_push_def)
  show ?thesis
    unfolding edge_index_ok_def get using idx [unfolded edge_index_ok_def] fresh new
    by (simp split: if_splits) (metis option.discI)
qed

lemma links_link:
  assumes "links_ok ns es" and "node_get_id (edge_pred e) < length ns" "node_get_id (edge_succ e) < length ns"
  shows "links_ok (link_nodes ns (node_get_id (edge_pred e)) (node_get_id (edge_succ e)) (EdgeId (length es)))
     (es @ [e])"
  using assms
  by (auto simp: links_ok_def link_nodes_nth edges_into_snoc edges_from_snoc node_keys.get_id_eq)

lemma add_edge_inv:
  assumes inv: "builder_inv get_key b"
    and p: "node_get_id (edge_pred e) < length (dm_data (b_nodes b))"
    and s: "node_get_id (edge_succ e) < length (dm_data (b_nodes b))"
    and d: "\<And>d. edge_domain e = Some d \<Longrightarrow> domain_get_id d < length (dm_data (b_domain b))"
    and new: "b_edges_map b (edge_pred e, edge_succ e, edge_domain e) = None"
  shows "builder_inv get_key (snd (add_edge b e))"
proof -
  have "edge_ends_ok (length (dm_data (b_nodes b))) (length (dm_data (b_domain b))) (dm_data (b_edges b) @ [e])"
    using inv p s d by (simp add: builder_inv_def edge_ends_ok_def)
  moreover note types = link_nodes_types [OF p s, of "EdgeId (length (dm_data (b_edges b)))"]
  ultimately show ?thesis
    using inv p s edge_index_push [of "b_edges_map b" "b_edges b" e] new
      links_link [of "dm_data (b_nodes b)" "dm_data (b_edges b)" e]
      in_sets_cong [OF types, of get_key] 
      value_index_cong [of "(b_nodes b)\<lparr>dm_data := link_nodes (dm_data (b_nodes b)) (node_get_id (edge_pred e))
         (node_get_id (edge_succ e)) (EdgeId (length (dm_data (b_edges b))))\<rparr>" "b_nodes b"] types
    by (simp add: add_edge_eq builder_inv_def)
qed

lemma add_edge_extends:
  assumes "node_get_id (edge_pred e) < length (dm_data (b_nodes b))"
    and "node_get_id (edge_succ e) < length (dm_data (b_nodes b))"
  shows "extends b (snd (add_edge b e))"
  using assms by (simp add: add_edge_eq extends_def link_nodes_types)

subsection \<open>Edges, aggregators\<close>

lemma ensure_node_exists_simp [simp]:
  "ensure_node_exists b n = (if node_get_id n < length (dm_data (b_nodes b)) then Inr () else Inl NodeNotFound)"
  by (simp add: ensure_node_exists_def dm_contains_key_def)

lemma resolve_domain_bound:
  assumes "builder_inv get_key b" and "resolve_domain b d = Inr i"
  shows "domain_get_id i < length (dm_data (b_domain b))"
proof (cases d)
  case (ByDomainId j)
  with assms show ?thesis
    by (auto simp: resolve_domain_def ensure_domain_exists_def dm_contains_key_def split: if_splits)
next
  case (ByDomainIdentifier ident)
  with assms have "b_domain_identifier_map b ident = Some i"
    by (simp add: resolve_domain_def retrieve_domain_from_identifier_def)
  with assms(1) obtain inf where "get_domain (b_domain b) i = Some inf"
    unfolding builder_inv_def by (metis domain_indexD)
  then show ?thesis by (simp add: dm_get_def vec_get_Some)
qed

text \<open>The three outcomes of \<open>make_edge\<close> on a consistent builder.\<close>

lemma make_edge_cases:
  assumes inv: "builder_inv get_key b"
  obtains (unchanged) r where "make_edge b p s st rel dmn = (r, b)"
  | (added) e where "make_edge b p s st rel dmn = add_edge b e"
      "node_get_id (edge_pred e) < length (dm_data (b_nodes b))"
      "node_get_id (edge_succ e) < length (dm_data (b_nodes b))"
      "\<And>d. edge_domain e = Some d \<Longrightarrow> domain_get_id d < length (dm_data (b_domain b))"
      "b_edges_map b (edge_pred e, edge_succ e, edge_domain e) = None"
      "edge_pred e = p" "edge_succ e = s" "edge_strength e = st" "edge_relation e = rel"
proof (cases "node_get_id p < length (dm_data (b_nodes b)) \<and> node_get_id s < length (dm_data (b_nodes b))")
  case False
  then have "\<exists>r. make_edge b p s st rel dmn = (r, b)"
    by (cases "node_get_id p < length (dm_data (b_nodes b))") (simp_all add: make_edge_def)
  with unchanged show thesis by blast
next
  case True
  show thesis
  proof (cases "option_transpose (map_option (resolve_domain b) dmn)")
    case (Inl e)
    with True have "make_edge b p s st rel dmn = (Inl e, b)" by (simp add: make_edge_def)
    with unchanged show thesis by blast
  next
    case (Inr did)
    then have bound: "\<And>d. did = Some d \<Longrightarrow> domain_get_id d < length (dm_data (b_domain b))"
      by (cases dmn) (auto simp: option_transpose_def split: sum.splits dest: resolve_domain_bound [OF inv])
    show thesis
    proof (cases "b_edges_map b (p, s, did)")
      case None
      with True Inr have "make_edge b p s st rel dmn =
        add_edge b \<lparr>edge_strength = st, edge_relation = rel, edge_pred = p, edge_succ = s, edge_domain = did\<rparr>"
        by (simp add: make_edge_def)
      with added None True bound show thesis by fastforce
    next
      case (Some eid)
      with inv obtain ed where "get_edge (b_edges b) eid = Some ed"
        unfolding builder_inv_def by (metis edge_indexD)
      with True Inr Some have "\<exists>r. make_edge b p s st rel dmn = (r, b)"
        by (simp add: make_edge_def)
      with unchanged show thesis by blast
    qed
  qed
qed

lemma make_edge_inv:
  assumes "builder_inv get_key b"
  shows "builder_inv get_key (snd (make_edge b p s st rel dmn)) \<and> extends b (snd (make_edge b p s st rel dmn))"
  using assms
proof (cases rule: make_edge_cases [where p = p and s = s and st = st and rel = rel and dmn = dmn])
  case (unchanged r)
  with assms show ?thesis by simp
next
  case (added e)
  then show ?thesis using add_edge_inv [OF assms] add_edge_extends by metis
qed

lemma make_aggregator_edges_inv:
  assumes "builder_inv get_key b"
  shows "builder_inv get_key (snd (make_aggregator_edges b agg dmn ns))
    \<and> extends b (snd (make_aggregator_edges b agg dmn ns))"
  using assms
proof (induction b agg dmn ns rule: make_aggregator_edges.induct)
  case (2 b agg dmn n rel st ns)
  obtain r b' where e: "make_edge b n agg st rel (map_option ByDomainId dmn) = (r, b')" by fastforce
  with make_edge_inv [OF "2.prems", of n agg st rel "map_option ByDomainId dmn"]
  have "builder_inv get_key b'" "extends b b'" by simp_all
  with "2.IH" e show ?case by (cases r) (auto intro: extends_trans)
qed simp

lemma push_then_edges:
  assumes "builder_inv get_key b" and "nt = AllAggregator \<or> nt = AnyAggregator"
  shows "builder_inv get_key (snd (make_aggregator_edges (snd (push_node b nt info meta)) agg dmn ns))"
    and "extends b (snd (make_aggregator_edges (snd (push_node b nt info meta)) agg dmn ns))"
  using make_aggregator_edges_inv [OF push_node_inv [OF assms(1), of nt info meta]] assms(2)
  by (auto intro: extends_trans [OF push_node_extends])

lemma make_all_aggregator_inv:
  assumes "builder_inv get_key b"
  shows "builder_inv get_key (snd (make_all_aggregator b ns info meta dmn))
    \<and> extends b (snd (make_all_aggregator b ns info meta dmn))"
  using assms push_then_edges [OF assms, of AllAggregator info meta]
  by (simp add: make_all_aggregator_def try_st_def case_prod_beta Let_def split: sum.splits prod.splits)

lemma make_any_aggregator_inv:
  assumes "builder_inv get_key b"
  shows "builder_inv get_key (snd (make_any_aggregator b ns info meta dmn))
    \<and> extends b (snd (make_any_aggregator b ns info meta dmn))"
  using assms push_then_edges [OF assms, of AnyAggregator info meta]
  by (simp add: make_any_aggregator_def try_st_def case_prod_beta Let_def split: sum.splits prod.splits)

lemma make_in_aggregator_inv:
  assumes inv: "builder_inv get_key b"
  shows "builder_inv get_key (snd (make_in_aggregator get_key b vs info meta))
    \<and> extends b (snd (make_in_aggregator get_key b vs info meta))"
proof (cases "\<exists>k. vs \<noteq> [] \<and> (\<forall>v \<in> set vs. get_key v = k)")
  case False
  then have "vs = [] \<or> (\<exists>v \<in> set vs. get_key v \<noteq> get_key (hd vs))" by blast
  with inv show ?thesis by (cases vs) (simp_all add: make_in_aggregator_def Let_def)
next
  case True
  then obtain k where vs: "vs \<noteq> []" and k: "\<And>v. v \<in> set vs \<Longrightarrow> get_key v = k" by blast
  have hd: "remdups vs \<noteq> []" "hd (remdups vs) \<in> set vs"
    using vs by (metis hd_in_set remdups_eq_nil_iff set_remdups)+
  have "builder_inv get_key (snd (push_node b (InAggregator (remdups vs)) info meta))"
    by (rule push_node_inv [OF inv]) (use hd k in \<open>simp_all\<close>)
  moreover have "make_in_aggregator get_key b vs info meta =
      map_prod Inr id (push_node b (InAggregator (remdups vs)) info meta)"
    using vs k by (cases vs) (auto simp: make_in_aggregator_def case_prod_beta map_prod_def)
  ultimately show ?thesis by (simp add: push_node_extends)
qed

subsection \<open>The contract of a builder operation\<close>

locale builder_operation =
  fixes get_key :: "'v \<Rightarrow> 'k"
    and run :: "('v, 'k, 'm) constraint_graph_builder \<Rightarrow> 'r \<times> ('v, 'k, 'm) constraint_graph_builder"
  assumes keeps_inv: "builder_inv get_key b \<Longrightarrow> builder_inv get_key (snd (run b))"
    and grows: "builder_inv get_key b \<Longrightarrow> extends b (snd (run b))"
begin

lemma edge_stays:
  assumes "builder_inv get_key b" and "get_edge (b_edges b) e = Some ed"
  shows "get_edge (b_edges (snd (run b))) e = Some ed"
  using grows [OF assms(1)] assms(2)
  by (auto simp: extends_def dm_get_def vec_get_Some nth_append)

lemma type_stays:
  assumes "builder_inv get_key b" and "vec_get (map node_type (dm_data (b_nodes b))) i = Some nt"
  shows "vec_get (map node_type (dm_data (b_nodes (snd (run b))))) i = Some nt"
  using grows [OF assms(1)] assms(2)
  by (auto simp: extends_def vec_get_def nth_append simp del: nth_map length_map split: if_splits)

lemma value_lookup_stays:
  assumes "builder_inv get_key b" and "b_value_map b v = Some n"
  shows "b_value_map (snd (run b)) v = Some n"
  using type_stays [OF assms(1), of "node_get_id n" "ValueNode v"] assms(2)
    assms(1) keeps_inv [OF assms(1)]
  unfolding builder_inv_def value_index_types by metis

end

interpretation make_domain_op: builder_operation get_key "\<lambda>b. make_domain b ident desc" for get_key ident desc
  by unfold_locales (simp_all add: make_domain_inv make_domain_extends)

interpretation make_value_node_op: builder_operation get_key "\<lambda>b. make_value_node b v info meta" for get_key v info meta
  by unfold_locales (simp_all add: make_value_node_inv make_value_node_extends)

interpretation make_edge_op: builder_operation get_key "\<lambda>b. make_edge b p s st rel dmn" for get_key p s st rel dmn
  by unfold_locales (simp_all add: make_edge_inv)

interpretation make_all_aggregator_op: builder_operation get_key "\<lambda>b. make_all_aggregator b ns info meta dmn"
  for get_key ns info meta dmn
  by unfold_locales (simp_all add: make_all_aggregator_inv)

interpretation make_any_aggregator_op: builder_operation get_key "\<lambda>b. make_any_aggregator b ns info meta dmn"
  for get_key ns info meta dmn
  by unfold_locales (simp_all add: make_any_aggregator_inv)

interpretation make_in_aggregator_op: builder_operation get_key "\<lambda>b. make_in_aggregator get_key b vs info meta"
  for get_key vs info meta
  by unfold_locales (simp_all add: make_in_aggregator_inv)

subsection \<open>Reachable builders\<close>

inductive builder_step ::
  "('v \<Rightarrow> 'k) \<Rightarrow> ('v, 'k, 'm) constraint_graph_builder \<Rightarrow> ('v, 'k, 'm) constraint_graph_builder \<Rightarrow> bool"
  for get_key where
  step_domain: "builder_step get_key b (snd (make_domain b ident desc))"
| step_value: "builder_step get_key b (snd (make_value_node b v info meta))"
| step_edge: "builder_step get_key b (snd (make_edge b p s st rel dmn))"
| step_all: "builder_step get_key b (snd (make_all_aggregator b ns info meta did))"
| step_any: "builder_step get_key b (snd (make_any_aggregator b ns info meta did))"
| step_in: "builder_step get_key b (snd (make_in_aggregator get_key b vs info meta))"

inductive builder_reachable :: "('v \<Rightarrow> 'k) \<Rightarrow> ('v, 'k, 'm) constraint_graph_builder \<Rightarrow> bool"
  for get_key where
  reach_new: "builder_reachable get_key builder_new"
| reach_step: "builder_reachable get_key b \<Longrightarrow> builder_step get_key b b' \<Longrightarrow> builder_reachable get_key b'"

lemma builder_step_inv: "builder_step get_key b b' \<Longrightarrow> builder_inv get_key b \<Longrightarrow> builder_inv get_key b' \<and> extends b b'"
  by (induction rule: builder_step.induct)
    (simp_all add: make_domain_inv make_domain_extends make_value_node_inv make_value_node_extends
      make_edge_inv make_all_aggregator_inv make_any_aggregator_inv make_in_aggregator_inv)

lemma reachable_inv: "builder_reachable get_key b \<Longrightarrow> builder_inv get_key b"
  by (induction rule: builder_reachable.induct) (auto simp: builder_new_inv dest: builder_step_inv)

lemma extends_node_type:
  assumes "extends b b'" and "get_node (b_nodes b) n = Some nd"
  shows "\<exists>nd'. get_node (b_nodes b') n = Some nd' \<and> node_type nd' = node_type nd"
proof -
  obtain ts where ts: "map node_type (dm_data (b_nodes b')) = map node_type (dm_data (b_nodes b)) @ ts"
    using assms(1) by (auto simp: extends_def)
  have i: "node_get_id n < length (dm_data (b_nodes b))" and nd: "dm_data (b_nodes b) ! node_get_id n = nd"
    using assms(2) by (auto simp: dm_get_def vec_get_Some)
  have "length (dm_data (b_nodes b)) \<le> length (dm_data (b_nodes b'))"
    using arg_cong [OF ts, of length] by simp
  moreover have "map node_type (dm_data (b_nodes b')) ! node_get_id n = node_type nd"
    using i nd by (simp add: ts nth_append)
  ultimately show ?thesis using i by (auto simp: dm_get_def vec_get_def)
qed

lemma extends_edge: "extends b b' \<Longrightarrow> get_edge (b_edges b) e = Some ed \<Longrightarrow> get_edge (b_edges b') e = Some ed"
  by (auto simp: extends_def dm_get_def vec_get_Some nth_append)

lemma extends_domain: "extends b b' \<Longrightarrow> get_domain (b_domain b) d = Some di \<Longrightarrow> get_domain (b_domain b') d = Some di"
  by (auto simp: extends_def dm_get_def vec_get_Some nth_append)

lemma extends_edge_index:
  assumes "extends b b'" "builder_inv get_key b" "builder_inv get_key b'" "b_edges_map b k = Some e"
  shows "b_edges_map b' k = Some e"
proof -
  obtain p s d where k: "k = (p, s, d)" by (cases k)
  have i: "edge_index_ok (b_edges_map b) (b_edges b)" "edge_index_ok (b_edges_map b') (b_edges b')"
    using assms(2,3) by (simp_all add: builder_inv_def)
  from i(1) assms(4) k obtain ed where "get_edge (b_edges b) e = Some ed" "edge_pred ed = p" "edge_succ ed = s" "edge_domain ed = d"
    unfolding edge_index_ok_def by blast
  then show ?thesis using i(2) extends_edge [OF assms(1)] k unfolding edge_index_ok_def by blast
qed

lemma extends_domain_index:
  assumes "extends b b'" "builder_inv get_key b" "builder_inv get_key b'" "b_domain_identifier_map b i = Some d"
  shows "b_domain_identifier_map b' i = Some d"
  using assms extends_domain [OF assms(1)] unfolding builder_inv_def domain_index_ok_def by blast

lemma builder_value_stays:
  assumes "builder_step get_key b b'" and "builder_inv get_key b" and "b_value_map b v = Some n"
  shows "b_value_map b' v = Some n"
  using assms
  by (induction rule: builder_step.induct)
    (simp_all add: make_domain_op.value_lookup_stays make_value_node_op.value_lookup_stays
      make_edge_op.value_lookup_stays make_all_aggregator_op.value_lookup_stays
      make_any_aggregator_op.value_lookup_stays make_in_aggregator_op.value_lookup_stays)

subsection \<open>Finished graphs\<close>

definition graph_inv :: "('v \<Rightarrow> 'k) \<Rightarrow> ('v, 'k, 'm) constraint_graph \<Rightarrow> bool" where
  "graph_inv get_key g \<longleftrightarrow>
     links_ok (dm_data (nodes g)) (dm_data (edges g))
     \<and> edge_ends_ok (length (dm_data (nodes g))) (length (dm_data (domain g))) (dm_data (edges g))
     \<and> value_index_ok (value_map g) (nodes g)
     \<and> domain_index_ok (domain_identifier_map g) (domain g)
     \<and> in_sets_ok get_key (dm_data (nodes g))"

lemma build_inv: "builder_inv get_key b \<Longrightarrow> graph_inv get_key (build b)"
  by (simp add: builder_inv_def graph_inv_def build_def)

lemma value_index_unique: "value_index_ok m ns \<Longrightarrow> value_index_ok m' ns \<Longrightarrow> m = m'"
  unfolding value_index_ok_def by (intro ext) (metis not_Some_eq)

lemma from_wire_value_index:
  fixes w :: "('v, 'k) constraint_graph_wire" and m :: "('v, 'k) node_value \<rightharpoonup> node_id"
  assumes idx: "value_index_ok m (wire_nodes w)"
  shows "value_map (from_wire w :: ('v, 'k, 'm) constraint_graph) = m"
proof -
  define entries where "entries = List.map_filter
      (\<lambda>(node_id, node). case node_type node of ValueNode value \<Rightarrow> Some (value, node_id) | _ \<Rightarrow> None)
      (dm_iter NodeId (wire_nodes w))"
  have "distinct (map fst (dm_iter NodeId (wire_nodes w)))"
    by (simp add: node_keys.map_fst_iter node_keys.distinct_keys)
  then have iter: "(n, nd) \<in> set (dm_iter NodeId (wire_nodes w)) \<longleftrightarrow> get_node (wire_nodes w) n = Some nd" for n nd
    by (simp only: map_of_eq_Some_iff [symmetric] node_keys.iter_lookup)
  have entry: "(case nt of ValueNode u \<Rightarrow> Some (u, i) | _ \<Rightarrow> None) = Some (v, n) \<longleftrightarrow> nt = ValueNode v \<and> i = n"
    for nt :: "('v, 'k) node_type" and v and i n :: node_id
    by (cases nt) auto
  have "(v, n) \<in> set entries \<longleftrightarrow>
      (\<exists>nd. (n, nd) \<in> set (dm_iter NodeId (wire_nodes w)) \<and> node_type nd = ValueNode v)" for v n
    by (auto simp: entries_def set_map_filter entry intro!: bexI [of _ "(n, _)"])
  then have mem: "(v, n) \<in> set entries \<longleftrightarrow> m v = Some n" for v n
    using iter idx by (simp add: value_index_ok_def)
  have "map_of (rev entries) v = Some n \<longleftrightarrow> m v = Some n" for v n
    using mem by (subst map_of_functional) auto
  then have "map_of (rev entries) = m" by (intro ext) (metis not_Some_eq)
  then show ?thesis by (simp add: from_wire_def entries_def Let_def)
qed

subsection \<open>What the operations do\<close>

lemma make_value_node_lookup:
  assumes "make_value_node b v info meta = (n, b')"
  shows "b_value_map b' v = Some n"
  using assms by (auto simp: make_value_node_def case_prod_beta split: option.splits)

lemma make_edge_stored:
  assumes inv: "builder_inv get_key b" and ok: "make_edge b p s st rel dmn = (Inr e, b')"
  shows "\<exists>ed. get_edge (b_edges b') e = Some ed \<and> edge_pred ed = p \<and> edge_succ ed = s
     \<and> edge_strength ed = st \<and> edge_relation ed = rel
     \<and> option_transpose (map_option (resolve_domain b) dmn) = Inr (edge_domain ed)
     \<and> dm_data (b_edges b') = dm_data (b_edges b) @ (if e = EdgeId (length (dm_data (b_edges b))) then [ed] else [])"
proof -
  have ns: "node_get_id p < length (dm_data (b_nodes b))" "node_get_id s < length (dm_data (b_nodes b))"
    using ok by (auto simp: make_edge_def split: if_splits)
  obtain did where did: "option_transpose (map_option (resolve_domain b) dmn) = Inr did"
    using ok ns by (cases "option_transpose (map_option (resolve_domain b) dmn)") (auto simp: make_edge_def)
  show ?thesis
  proof (cases "b_edges_map b (p, s, did)")
    case None
    with ok ns did show ?thesis
      by (auto simp: make_edge_def add_edge_eq dm_get_def)
  next
    case (Some e')
    obtain ed where ed: "get_edge (b_edges b) e' = Some ed" "edge_pred ed = p" "edge_succ ed = s" "edge_domain ed = did"
      using inv Some unfolding builder_inv_def by (metis edge_indexD)
    with ok ns did Some have "e = e'" "b' = b" "edge_strength ed = st" "edge_relation ed = rel"
      by (simp_all add: make_edge_def split: if_splits)
    moreover have "e' \<noteq> EdgeId (length (dm_data (b_edges b)))"
      using ed(1) by (auto simp: dm_get_def vec_get_Some)
    ultimately show ?thesis using ed did by auto
  qed
qed

text \<open>The domain of an edge, as \<open>make_edge\<close> resolves it.\<close>

definition edge_domain_of ::
  "('v, 'k, 'm) constraint_graph_builder \<Rightarrow> domain_id_or_identifier option \<Rightarrow> ('v, 'k, 'm) graph_error + domain_id option" where
  "edge_domain_of b dmn = option_transpose (map_option (resolve_domain b) dmn)"

lemma edge_endsD:
  assumes "builder_inv get_key b" and "get_edge (b_edges b) e = Some ed"
  shows "node_get_id (edge_pred ed) < length (dm_data (b_nodes b))" "node_get_id (edge_succ ed) < length (dm_data (b_nodes b))"
  using assms unfolding builder_inv_def edge_ends_ok_def dm_get_def by (metis vec_get_set)+

lemma make_edge_known:
  assumes inv: "builder_inv get_key b"
    and ends: "node_get_id p < length (dm_data (b_nodes b))" "node_get_id s < length (dm_data (b_nodes b))"
    and did: "edge_domain_of b dmn = Inr (edge_domain ed)"
    and ed: "get_edge (b_edges b) e = Some ed" "edge_pred ed = p" "edge_succ ed = s"
  shows "make_edge b p s st rel dmn =
           (if edge_strength ed = st \<and> edge_relation ed = rel then Inr e else Inl ConflictingEdgeCreated, b)"
proof -
  have "b_edges_map b (p, s, edge_domain ed) = Some e"
    using inv ed unfolding builder_inv_def edge_index_ok_def by blast
  then show ?thesis using ends did ed(1) by (simp add: make_edge_def edge_domain_of_def)
qed

lemma make_edge_other_domain:
  assumes inv: "builder_inv get_key b"
    and ends: "node_get_id p < length (dm_data (b_nodes b))" "node_get_id s < length (dm_data (b_nodes b))"
    and did: "edge_domain_of b dmn = Inr did" and ed: "get_edge (b_edges b) e = Some ed" "did \<noteq> edge_domain ed"
  shows "fst (make_edge b p s st rel dmn) \<noteq> Inr e"
    and "b_edges_map b (p, s, did) = None \<Longrightarrow> is_ok (fst (make_edge b p s st rel dmn))"
proof -
  show "fst (make_edge b p s st rel dmn) \<noteq> Inr e"
  proof
    assume "fst (make_edge b p s st rel dmn) = Inr e"
    then obtain b' where b': "make_edge b p s st rel dmn = (Inr e, b')" by (metis prod.collapse)
    obtain ed' where ed': "get_edge (b_edges b') e = Some ed'" "edge_domain_of b dmn = Inr (edge_domain ed')"
      using make_edge_stored [OF inv b'] by (auto simp: edge_domain_of_def)
    have "get_edge (b_edges b') e = Some ed"
      using make_edge_op.edge_stays [OF inv ed(1), of p s st rel dmn] b' by simp
    then show False using ed' did ed(2) by simp
  qed
  show "is_ok (fst (make_edge b p s st rel dmn))" if "b_edges_map b (p, s, did) = None"
    using that ends did by (simp add: make_edge_def edge_domain_of_def add_edge_eq)
qed

definition into :: "edge list \<Rightarrow> node_id \<Rightarrow> (node_id \<times> relation \<times> strength) set" where
  "into es a = (\<lambda>e. (edge_pred e, edge_relation e, edge_strength e)) ` {e \<in> set es. edge_succ e = a}"

lemma make_edge_into:
  assumes "builder_inv get_key b" and "make_edge b p a st rel dmn = (Inr e, b')"
  shows "into (dm_data (b_edges b')) a = insert (p, rel, st) (into (dm_data (b_edges b)) a)"
proof -
  obtain ed where ed: "get_edge (b_edges b') e = Some ed" "edge_pred ed = p" "edge_succ ed = a"
      "edge_strength ed = st" "edge_relation ed = rel"
    and es: "dm_data (b_edges b') = dm_data (b_edges b) @ (if e = EdgeId (length (dm_data (b_edges b))) then [ed] else [])"
    using make_edge_stored [OF assms] by blast
  have "ed \<in> set (dm_data (b_edges b'))" using ed(1) by (auto simp: dm_get_def intro: vec_get_set)
  then have "set (dm_data (b_edges b')) = insert ed (set (dm_data (b_edges b)))" using es by auto
  with ed(2-) show ?thesis by (auto simp: into_def)
qed

lemma make_aggregator_edges_into:
  assumes "builder_inv get_key b" and "make_aggregator_edges b agg dmn ns = (Inr u, b')"
  shows "into (dm_data (b_edges b')) agg = into (dm_data (b_edges b)) agg \<union> set ns"
  using assms
proof (induction b agg dmn ns rule: make_aggregator_edges.induct)
  case (2 b agg dmn n rel st ns)
  obtain r b1 where e: "make_edge b n agg st rel (map_option ByDomainId dmn) = (r, b1)" by fastforce
  with "2.prems" obtain e' where r: "r = Inr e'" by (cases r) auto
  have "builder_inv get_key b1"
    using make_edge_inv [OF "2.prems"(1), of n agg st rel "map_option ByDomainId dmn"] e by simp
  with "2.IH" [OF e [symmetric] r] "2.prems" e r make_edge_into [OF "2.prems"(1) e [unfolded r]]
  show ?case by auto
qed simp

lemma preds_into:
  assumes inv: "builder_inv get_key b" and nd: "get_node (b_nodes b) a = Some nd"
  shows "into (dm_data (b_edges b)) a =
    (\<lambda>e. (edge_pred e, edge_relation e, edge_strength e)) `
      {ed. \<exists>i \<in> set (preds nd). get_edge (b_edges b) i = Some ed}"
proof -
  have "preds nd = edges_into (dm_data (b_edges b)) a"
    using inv nd by (auto simp: builder_inv_def links_ok_def dm_get_def vec_get_Some)
  then have "{ed. \<exists>i \<in> set (preds nd). get_edge (b_edges b) i = Some ed} =
      {ed \<in> set (dm_data (b_edges b)). edge_succ ed = a}"
    by (auto simp: edges_into_def dm_get_def vec_get_Some in_set_conv_nth)
  then show ?thesis by (simp add: into_def)
qed

lemma aggregator_edges_complete:
  assumes inv: "builder_inv get_key b" and nt: "nt = AllAggregator \<or> nt = AnyAggregator"
    and push: "push_node b nt info meta = (a, b1)"
    and ok: "make_aggregator_edges b1 a dmn ns = (Inr u, b')"
  shows "\<exists>nd. get_node (b_nodes b') a = Some nd \<and> node_type nd = nt
    \<and> (\<lambda>e. (edge_pred e, edge_relation e, edge_strength e)) `
        {ed. \<exists>i \<in> set (preds nd). get_edge (b_edges b') i = Some ed} = set ns"
proof -
  have b1: "builder_inv get_key b1" using push_node_inv [OF inv, of nt info meta] push nt by auto
  have b': "builder_inv get_key b'" "extends b1 b'"
    using make_aggregator_edges_inv [OF b1, of a dmn ns] ok by simp_all
  have a: "a = NodeId (length (dm_data (b_nodes b)))" and es: "dm_data (b_edges b1) = dm_data (b_edges b)"
    and ns: "map node_type (dm_data (b_nodes b1)) = map node_type (dm_data (b_nodes b)) @ [nt]"
    using push by (auto simp: push_node_eq)
  have "into (dm_data (b_edges b1)) a = {}"
    using inv by (force simp: into_def es a builder_inv_def edge_ends_ok_def)
  then have into: "into (dm_data (b_edges b')) a = set ns"
    using make_aggregator_edges_into [OF b1 ok] by simp
  obtain ts where "map node_type (dm_data (b_nodes b')) = map node_type (dm_data (b_nodes b)) @ nt # ts"
    using b'(2) ns by (auto simp: extends_def)
  then have "vec_get (map node_type (dm_data (b_nodes b'))) (node_get_id a) = Some nt"
    by (metis a length_map node_id.sel vec_get_append_mid)
  then obtain nd where nd: "get_node (b_nodes b') a = Some nd" "node_type nd = nt"
    by (auto simp: dm_get_def vec_get_def split: if_splits)
  show ?thesis
    by (rule exI [of _ nd]) (use nd into preds_into [OF b'(1) nd(1)] in simp)
qed

subsection \<open>A small graph\<close>

text \<open>Two values of different keys, the second strongly requiring the first, both required by an aggregator.\<close>

definition example_key :: "nat \<Rightarrow> nat" where
  "example_key v = v div 10"

definition example_values :: "(nat, nat, unit) constraint_graph_builder" where
  "example_values =
     snd (make_edge
       (snd (make_value_node (snd (make_value_node builder_new (ValueOf 11) None None)) (ValueOf 21) None None))
       (NodeId 0) (NodeId 1) Strong Positive None)"

definition example_builder :: "(nat, nat, unit) constraint_graph_builder" where
  "example_builder =
     snd (make_all_aggregator example_values
       [(NodeId 0, Positive, Strong), (NodeId 1, Positive, Normal)] None None None)"

lemma example_values_reachable: "builder_reachable example_key example_values"
  unfolding example_values_def
  by (rule reach_step [OF reach_step [OF reach_step [OF reach_new step_value] step_value] step_edge])

lemma example_reachable: "builder_reachable example_key example_builder"
  unfolding example_builder_def
  by (rule reach_step [OF example_values_reachable step_all])

definition example_domain :: "(nat, nat, unit) constraint_graph_builder" where
  "example_domain = snd (make_domain builder_new ''pm'' ''payment method'')"

lemma example_domain_reachable: "builder_reachable example_key example_domain"
  unfolding example_domain_def by (rule reach_step [OF reach_new step_domain])

lemmas example_eval = example_builder_def example_values_def make_all_aggregator_def make_edge_def
  make_value_node_def push_node_eq add_edge_eq builder_new_def link_nodes_def node_new_def
  resolve_domain_def build_def dm_new_def dm_get_def vec_get_def

lemma example_values_nodes:
  "dm_data (b_nodes example_values) =
     [\<lparr>node_type = ValueNode (ValueOf 11), preds = [], succs = [EdgeId 0]\<rparr>,
      \<lparr>node_type = ValueNode (ValueOf 21), preds = [EdgeId 0], succs = []\<rparr>]"
  by (simp add: example_eval)

lemma example_edges:
  "dm_data (edges (build example_builder)) =
     [\<lparr>edge_strength = Strong, edge_relation = Positive, edge_pred = NodeId 0, edge_succ = NodeId 1, edge_domain = None\<rparr>,
      \<lparr>edge_strength = Strong, edge_relation = Positive, edge_pred = NodeId 0, edge_succ = NodeId 2, edge_domain = None\<rparr>,
      \<lparr>edge_strength = Normal, edge_relation = Positive, edge_pred = NodeId 1, edge_succ = NodeId 2, edge_domain = None\<rparr>]"
  by (simp add: example_eval)

lemma example_nodes:
  "dm_data (nodes (build example_builder)) =
     [\<lparr>node_type = ValueNode (ValueOf 11), preds = [], succs = [EdgeId 0, EdgeId 1]\<rparr>,
      \<lparr>node_type = ValueNode (ValueOf 21), preds = [EdgeId 0], succs = [EdgeId 2]\<rparr>,
      \<lparr>node_type = AllAggregator, preds = [EdgeId 1, EdgeId 2], succs = []\<rparr>]"
  by (simp add: example_eval)

subsection \<open>Properties\<close>

text \<open>
  C4. In every builder a client can reach, the redundant tables agree: the predecessor and successor
  lists of each node are exactly the edges into and out of it in creation order, the value map
  holds exactly the value nodes, the edge map exactly the edges by their ends and domain, the
  domain map exactly the domains by identifier, every edge ends in existing nodes and an
  existing domain, and every in-aggregator has a non-empty set of values of one key.
\<close>

theorem builder_tables_consistent:
  assumes "builder_reachable get_key b"
  shows "builder_inv get_key b"
  using assms by (rule reachable_inv)

theorem builder_tables_consistent_witness: "builder_inv example_key example_builder"
  by (rule builder_tables_consistent [OF example_reachable])

text \<open>
  C5. No builder operation invalidates an identifier handed out before: after any step from a
  reachable builder, also a failing one, every value is still found at its node, every node keeps
  its type, every edge its contents and its place in the table of edges, every domain its
  identifier and description, and every domain identifier the domain it names.
\<close>

theorem builder_ids_stable:
  assumes "builder_reachable get_key b" and "builder_step get_key b b'"
  shows "(\<forall>v n. b_value_map b v = Some n \<longrightarrow> b_value_map b' v = Some n)
    \<and> (\<forall>e ed. get_edge (b_edges b) e = Some ed \<longrightarrow> get_edge (b_edges b') e = Some ed)
    \<and> (\<forall>k e. b_edges_map b k = Some e \<longrightarrow> b_edges_map b' k = Some e)
    \<and> (\<forall>n nd. get_node (b_nodes b) n = Some nd \<longrightarrow>
         (\<exists>nd'. get_node (b_nodes b') n = Some nd' \<and> node_type nd' = node_type nd))
    \<and> (\<forall>d inf. get_domain (b_domain b) d = Some inf \<longrightarrow> get_domain (b_domain b') d = Some inf)
    \<and> (\<forall>i d. b_domain_identifier_map b i = Some d \<longrightarrow> b_domain_identifier_map b' i = Some d)"
proof -
  have inv: "builder_inv get_key b" using assms(1) by (rule reachable_inv)
  then have inv': "builder_inv get_key b'" and ext: "extends b b'" using builder_step_inv [OF assms(2)] by blast+
  show ?thesis
    using builder_value_stays [OF assms(2) inv] extends_node_type [OF ext] extends_edge [OF ext]
      extends_edge_index [OF ext inv inv'] extends_domain [OF ext] extends_domain_index [OF ext inv inv'] by blast
qed

theorem builder_ids_stable_witness:
  "b_value_map example_values (ValueOf 21) = Some (NodeId 1)
   \<and> b_value_map example_builder (ValueOf 21) = Some (NodeId 1)
   \<and> (\<exists>nd'. get_node (b_nodes example_builder) (NodeId 1) = Some nd' \<and> node_type nd' = ValueNode (ValueOf 21))
   \<and> b_domain_identifier_map (snd (make_domain example_domain ''card'' ''card payments'')) (DomainIdentifier ''pm'')
       = Some (DomainId 0)"
proof -
  have step: "builder_step example_key example_values example_builder"
    unfolding example_builder_def by (rule step_all)
  have v: "b_value_map example_values (ValueOf 21) = Some (NodeId 1)" by (simp add: example_eval)
  have n: "get_node (b_nodes example_values) (NodeId 1) =
      Some \<lparr>node_type = ValueNode (ValueOf 21), preds = [EdgeId 0], succs = []\<rparr>"
    by (simp add: dm_get_def vec_get_def example_values_nodes)
  have "b_domain_identifier_map example_domain (DomainIdentifier ''pm'') = Some (DomainId 0)"
    by (simp add: example_domain_def make_domain_def builder_new_def dm_new_def dm_push_def Let_def)
  then have "b_domain_identifier_map (snd (make_domain example_domain ''card'' ''card payments'')) (DomainIdentifier ''pm'')
       = Some (DomainId 0)"
    using builder_ids_stable [OF example_domain_reachable step_domain] by blast
  then show ?thesis
    using builder_ids_stable [OF example_values_reachable step] v n by fastforce
qed

text \<open>
  C6. \<open>make_edge\<close> on a reachable builder, in any domain or in none: a call that succeeds returns the
  identifier of an edge with the given ends, strength, relation and domain. A repeated call in the
  same domain, however the domain is named, returns the same identifier and changes nothing when
  strength and relation are the same, and is refused with \<open>ConflictingEdgeCreated\<close> and changes nothing
  when they are not. A call in another domain never returns this edge, and is never refused because
  of it.
\<close>

theorem make_edge_idempotent_or_conflict:
  assumes "builder_reachable get_key b" and "make_edge b p s st rel dmn = (Inr e, b')"
  shows "\<exists>did. edge_domain_of b dmn = Inr did
    \<and> get_edge (b_edges b') e = Some \<lparr>edge_strength = st, edge_relation = rel, edge_pred = p, edge_succ = s, edge_domain = did\<rparr>
    \<and> (\<forall>dmn2 st2 rel2. edge_domain_of b' dmn2 = Inr did \<longrightarrow>
         make_edge b' p s st2 rel2 dmn2 = (if st2 = st \<and> rel2 = rel then Inr e else Inl ConflictingEdgeCreated, b'))
    \<and> (\<forall>dmn2 did2 st2 rel2. edge_domain_of b' dmn2 = Inr did2 \<longrightarrow> did2 \<noteq> did \<longrightarrow>
         fst (make_edge b' p s st2 rel2 dmn2) \<noteq> Inr e
         \<and> (b_edges_map b' (p, s, did2) = None \<longrightarrow> is_ok (fst (make_edge b' p s st2 rel2 dmn2))))"
proof -
  have inv: "builder_inv get_key b" using assms(1) by (rule reachable_inv)
  then have inv': "builder_inv get_key b'" using make_edge_op.keeps_inv [OF inv, of p s st rel dmn] assms(2) by simp
  obtain ed where ed: "get_edge (b_edges b') e = Some ed" "edge_pred ed = p" "edge_succ ed = s"
      "edge_strength ed = st" "edge_relation ed = rel" "edge_domain_of b dmn = Inr (edge_domain ed)"
    using make_edge_stored [OF inv assms(2)] by (auto simp: edge_domain_of_def)
  have ends: "node_get_id p < length (dm_data (b_nodes b'))" "node_get_id s < length (dm_data (b_nodes b'))"
    using edge_endsD [OF inv' ed(1)] ed(2,3) by simp_all
  have "make_edge b' p s st2 rel2 dmn2 = (if st2 = st \<and> rel2 = rel then Inr e else Inl ConflictingEdgeCreated, b')"
    if "edge_domain_of b' dmn2 = Inr (edge_domain ed)" for dmn2 st2 rel2
    using make_edge_known [OF inv' ends that ed(1-3)] ed(4,5) by auto
  moreover have "fst (make_edge b' p s st2 rel2 dmn2) \<noteq> Inr e
      \<and> (b_edges_map b' (p, s, did2) = None \<longrightarrow> is_ok (fst (make_edge b' p s st2 rel2 dmn2)))"
    if "edge_domain_of b' dmn2 = Inr did2" "did2 \<noteq> edge_domain ed" for dmn2 did2 st2 rel2
    using make_edge_other_domain [OF inv' ends that(1) ed(1)] that(2) by auto
  ultimately show ?thesis
    using ed by (intro exI [of _ "edge_domain ed"]) auto
qed

theorem make_edge_idempotent_or_conflict_witness:
  "\<exists>b'. make_edge example_builder (NodeId 0) (NodeId 1) Strong Positive None = (Inr (EdgeId 0), b')
     \<and> make_edge b' (NodeId 0) (NodeId 1) Strong Positive None = (Inr (EdgeId 0), b')
     \<and> make_edge b' (NodeId 0) (NodeId 1) Weak Positive None = (Inl ConflictingEdgeCreated, b')"
proof -
  have first: "make_edge example_builder (NodeId 0) (NodeId 1) Strong Positive None = (Inr (EdgeId 0), example_builder)"
    by (simp add: example_eval)
  have "edge_domain_of example_builder None = Inr None" by (simp add: edge_domain_of_def)
  then show ?thesis
    using first make_edge_idempotent_or_conflict [OF example_reachable first] by auto
qed

text \<open>
  C7. An aggregator gets exactly the predecessors it was asked for: when \<open>make_all_aggregator\<close> on a
  reachable builder succeeds, the returned node is an all-aggregator and the edges in its
  predecessor list carry exactly the given nodes, relations and strengths.
\<close>

theorem make_all_aggregator_complete:
  assumes "builder_reachable get_key b" and "make_all_aggregator b ns info meta dmn = (Inr a, b')"
  shows "\<exists>nd. get_node (b_nodes b') a = Some nd \<and> node_type nd = AllAggregator
    \<and> (\<lambda>e. (edge_pred e, edge_relation e, edge_strength e)) `
        {ed. \<exists>i \<in> set (preds nd). get_edge (b_edges b') i = Some ed} = set ns"
proof -
  obtain a1 b1 where push: "push_node b AllAggregator info meta = (a1, b1)" by fastforce
  obtain u where "make_aggregator_edges b1 a1 dmn ns = (Inr u, b')" "a1 = a"
    using assms(2) push by (auto simp: make_all_aggregator_def try_st_def split: sum.splits prod.splits)
  with aggregator_edges_complete [OF reachable_inv [OF assms(1)] _ push] show ?thesis by blast
qed

theorem make_all_aggregator_complete_witness:
  "\<exists>nd. get_node (b_nodes example_builder) (NodeId 2) = Some nd \<and> node_type nd = AllAggregator
    \<and> (\<lambda>e. (edge_pred e, edge_relation e, edge_strength e)) `
        {ed. \<exists>i \<in> set (preds nd). get_edge (b_edges example_builder) i = Some ed} =
      {(NodeId 0, Positive, Strong), (NodeId 1, Positive, Normal)}"
proof -
  have "make_all_aggregator example_values [(NodeId 0, Positive, Strong), (NodeId 1, Positive, Normal)] None None None =
      (Inr (NodeId 2), example_builder)"
    by (simp add: example_eval)
  from make_all_aggregator_complete [OF example_values_reachable this] show ?thesis by simp
qed

text \<open>
  C8. Serialising a finished graph and reading it back loses nothing that checking uses: the value
  map rebuilt from the nodes is the builder's, domains, nodes and edges are unchanged, and only the
  diagnostic tables \<open>node_info\<close> and \<open>node_metadata\<close> come back empty.
\<close>

theorem wire_roundtrip:
  fixes b :: "('v, 'k, 'm) constraint_graph_builder"
  assumes "builder_reachable get_key b"
  shows "(from_wire (to_wire (build b)) :: ('v, 'k, 'm) constraint_graph) =
    (build b)\<lparr>node_info := dm_new, node_metadata := dm_new\<rparr>"
proof -
  have "value_index_ok (value_map (build b)) (wire_nodes (to_wire (build b)))"
    using reachable_inv [OF assms] by (simp add: build_def to_wire_def builder_inv_def)
  then have "value_map (from_wire (to_wire (build b)) :: ('v, 'k, 'm) constraint_graph) = value_map (build b)"
    by (rule from_wire_value_index)
  then show ?thesis by (simp add: from_wire_def to_wire_def build_def Let_def)
qed

theorem wire_roundtrip_witness:
  "value_map (from_wire (to_wire (build example_builder)) :: (nat, nat, unit) constraint_graph) (ValueOf 21) = Some (NodeId 1)"
  unfolding wire_roundtrip [OF example_reachable] by (simp add: example_eval)

end
