(* ===== verification/Cgraph_Check.thy ===== *)
theory Cgraph_Check
  imports Cgraph_Builder
begin

text \<open>
  The constraint checker of \<open>hyperswitch_constraint_graph/src/graph.rs\<close>. \<open>check_node_inner\<close> and the
  four \<open>validate\<close> functions are mutually recursive in the source; here each \<open>validate\<close> function
  takes the recursive call as an argument and \<open>check_node_inner\<close> ties the knot with a fuel
  parameter, \<open>None\<close> being the result of running out. The memo table and the cycle table, which the
  source passes as mutable references, are threaded as a record. The lemmas show that one unit of
  fuel more than the number of nodes is always enough, and that on an acyclic graph the memoised
  checker decides the declarative relation \<open>satisfied\<close>.
\<close>

subsection \<open>State\<close>

record ('v, 'k, 'm) check_state =
  memo :: "('v, 'k, 'm) memoization"
  cycle_map :: cycle_check

record ('v, 'k) check_node_context =
  vald_ctx :: "('v, 'k) checking_context"
  vald_node :: "('v, 'k) node"
  vald_node_id :: node_id
  vald_relation :: relation
  vald_strength :: strength
  vald_domains :: "domain_id list option"

type_synonym ('v, 'k, 'm) check_result =
  "((('v, 'k, 'm) graph_error + unit) \<times> ('v, 'k, 'm) check_state) option"

type_synonym ('v, 'k, 'm) recursive_check =
  "node_id \<Rightarrow> relation \<Rightarrow> strength \<Rightarrow> ('v, 'k, 'm) check_state \<Rightarrow> ('v, 'k, 'm) check_result"

definition initial_state :: "('v, 'k, 'm) check_state" where
  "initial_state = \<lparr>memo = memo_new, cycle_map = cycle_new\<rparr>"

subsection \<open>Predecessors\<close>

definition edge_in_domains :: "domain_id list option \<Rightarrow> edge \<Rightarrow> bool" where
  "edge_in_domains domains e =
     (case (edge_domain e, domains) of
        (Some domain_id, Some ds) \<Rightarrow> domain_id \<in> set ds
      | (Some _, None) \<Rightarrow> False
      | (None, _) \<Rightarrow> True)"

fun collect_pred_edges ::
  "('v, 'k, 'm) constraint_graph \<Rightarrow> domain_id list option \<Rightarrow> edge_id list \<Rightarrow> ('v, 'k, 'm) graph_error + edge list" where
  "collect_pred_edges g domains [] = Inr []"
| "collect_pred_edges g domains (pred # ps) =
     (case get_edge (edges g) pred of
        None \<Rightarrow> Inl EdgeNotFound
      | Some e \<Rightarrow>
          (case collect_pred_edges g domains ps of
             Inl err \<Rightarrow> Inl err
           | Inr final_list \<Rightarrow> Inr (if edge_in_domains domains e then e # final_list else final_list)))"

definition get_predecessor_edges_by_domain ::
  "('v, 'k, 'm) constraint_graph \<Rightarrow> node_id \<Rightarrow> domain_id list option \<Rightarrow> ('v, 'k, 'm) graph_error + edge list" where
  "get_predecessor_edges_by_domain g node_id domains =
     (case get_node (nodes g) node_id of
        None \<Rightarrow> Inl NodeNotFound
      | Some node \<Rightarrow> collect_pred_edges g domains (preds node))"

subsection \<open>Recording an outcome\<close>

definition info_of :: "('v, 'k, 'm) constraint_graph \<Rightarrow> node_id \<Rightarrow> string option" where
  "info_of g i = Option.bind (dm_get node_get_id (node_info g) i) (\<lambda>x. x)"

definition metadata_of :: "('v, 'k, 'm) constraint_graph \<Rightarrow> node_id \<Rightarrow> 'm option" where
  "metadata_of g i = Option.bind (dm_get node_get_id (node_metadata g) i) (\<lambda>x. x)"

definition memo_insert ::
  "memo_key \<Rightarrow> ('v, 'k, 'm) analysis_trace + unit \<Rightarrow> ('v, 'k, 'm) check_state \<Rightarrow> ('v, 'k, 'm) check_state" where
  "memo_insert key r st = st\<lparr>memo := (memo st)(key \<mapsto> r)\<rparr>"

definition vald_key :: "('v, 'k) check_node_context \<Rightarrow> memo_key" where
  "vald_key vald = (vald_node_id vald, vald_relation vald, vald_strength vald)"

text \<open>Store the trace in the memo table and return it as the error.\<close>

definition reject ::
  "memo_key \<Rightarrow> ('v, 'k, 'm) analysis_trace \<Rightarrow> ('v, 'k, 'm) check_state
   \<Rightarrow> (('v, 'k, 'm) graph_error + unit) \<times> ('v, 'k, 'm) check_state" where
  "reject key err st = (Inl (AnalysisError err), memo_insert key (Inl err) st)"

definition accept ::
  "memo_key \<Rightarrow> ('v, 'k, 'm) check_state \<Rightarrow> (('v, 'k, 'm) graph_error + unit) \<times> ('v, 'k, 'm) check_state" where
  "accept key st = (Inr (), memo_insert key (Inr ()) st)"

definition enter_node :: "('v, 'k) check_node_context \<Rightarrow> ('v, 'k, 'm) check_state \<Rightarrow> ('v, 'k, 'm) check_state" where
  "enter_node vald st =
     st\<lparr>cycle_map := (cycle_map st)(vald_node_id vald \<mapsto> (vald_strength vald, resolution_of (vald_relation vald)))\<rparr>"

definition leave_node :: "('v, 'k) check_node_context \<Rightarrow> ('v, 'k, 'm) check_state \<Rightarrow> ('v, 'k, 'm) check_state" where
  "leave_node vald st = st\<lparr>cycle_map := (cycle_map st)(vald_node_id vald := None)\<rparr>"

subsection \<open>Aggregators\<close>

fun all_aggregator_loop ::
  "('v, 'k, 'm) recursive_check \<Rightarrow> ('v, 'k, 'm) constraint_graph \<Rightarrow> ('v, 'k) check_node_context
   \<Rightarrow> edge list \<Rightarrow> ('v, 'k, 'm) analysis_trace list \<Rightarrow> ('v, 'k, 'm) check_state \<Rightarrow> ('v, 'k, 'm) check_result" where
  "all_aggregator_loop check g vald [] unsatisfied st =
     Some (if unsatisfied \<noteq> []
           then reject (vald_key vald)
                  (AllAggregation unsatisfied (info_of g (vald_node_id vald)) (metadata_of g (vald_node_id vald))) st
           else accept (vald_key vald) st)"
| "all_aggregator_loop check g vald (e # es) unsatisfied st =
     (case check (edge_pred e) (edge_relation e) (edge_strength e) (enter_node vald st) of
        None \<Rightarrow> None
      | Some (result, st2) \<Rightarrow>
          (case (case result of
                   Inl err \<Rightarrow> and_then (get_analysis_trace err) (\<lambda>t. Inr (unsatisfied @ [t]))
                 | Inr _ \<Rightarrow> Inr unsatisfied) of
             Inl err \<Rightarrow> Some (Inl err, st2)
           | Inr unsatisfied' \<Rightarrow>
               (let removed = cycle_map st2 (vald_node_id vald); st3 = leave_node vald st2
                in case removed of
                     Some (_, Contradictory) \<Rightarrow> Some (reject (vald_key vald) (Contradiction Contradictory) st3)
                   | _ \<Rightarrow> all_aggregator_loop check g vald es unsatisfied' st3)))"

definition validate_all_aggregator ::
  "('v, 'k, 'm) recursive_check \<Rightarrow> ('v, 'k, 'm) constraint_graph \<Rightarrow> ('v, 'k) check_node_context
   \<Rightarrow> ('v, 'k, 'm) check_state \<Rightarrow> ('v, 'k, 'm) check_result" where
  "validate_all_aggregator check g vald st =
     (case get_predecessor_edges_by_domain g (vald_node_id vald) (vald_domains vald) of
        Inl err \<Rightarrow> Some (Inl err, st)
      | Inr es \<Rightarrow> all_aggregator_loop check g vald es [] st)"

fun any_aggregator_loop ::
  "('v, 'k, 'm) recursive_check \<Rightarrow> ('v, 'k, 'm) constraint_graph \<Rightarrow> ('v, 'k) check_node_context
   \<Rightarrow> edge list \<Rightarrow> ('v, 'k, 'm) analysis_trace list \<Rightarrow> bool \<Rightarrow> ('v, 'k, 'm) check_state \<Rightarrow> ('v, 'k, 'm) check_result" where
  "any_aggregator_loop check g vald [] unsatisfied matched_one st =
     Some (if matched_one \<or> preds (vald_node vald) = []
           then accept (vald_key vald) st
           else reject (vald_key vald)
                  (AnyAggregation unsatisfied (info_of g (vald_node_id vald)) (metadata_of g (vald_node_id vald))) st)"
| "any_aggregator_loop check g vald (e # es) unsatisfied matched_one st =
     (case check (edge_pred e) (edge_relation e) (edge_strength e) (enter_node vald st) of
        None \<Rightarrow> None
      | Some (result, st2) \<Rightarrow>
          (case (case result of
                   Inl err \<Rightarrow> and_then (get_analysis_trace err) (\<lambda>t. Inr (unsatisfied @ [t], matched_one))
                 | Inr _ \<Rightarrow> Inr (unsatisfied, True)) of
             Inl err \<Rightarrow> Some (Inl err, st2)
           | Inr (unsatisfied', matched_one') \<Rightarrow>
               (let removed = cycle_map st2 (vald_node_id vald); st3 = leave_node vald st2
                in case removed of
                     Some (_, Contradictory) \<Rightarrow> Some (reject (vald_key vald) (Contradiction Contradictory) st3)
                   | _ \<Rightarrow> any_aggregator_loop check g vald es unsatisfied' matched_one' st3)))"

definition validate_any_aggregator ::
  "('v, 'k, 'm) recursive_check \<Rightarrow> ('v, 'k, 'm) constraint_graph \<Rightarrow> ('v, 'k) check_node_context
   \<Rightarrow> ('v, 'k, 'm) check_state \<Rightarrow> ('v, 'k, 'm) check_result" where
  "validate_any_aggregator check g vald st =
     (case get_predecessor_edges_by_domain g (vald_node_id vald) (vald_domains vald) of
        Inl err \<Rightarrow> Some (Inl err, st)
      | Inr es \<Rightarrow> any_aggregator_loop check g vald es [] False st)"

definition validate_in_aggregator ::
  "('v \<Rightarrow> 'k) \<Rightarrow> ('v, 'k, 'm) constraint_graph \<Rightarrow> ('v, 'k) check_node_context \<Rightarrow> 'v list
   \<Rightarrow> ('v, 'k, 'm) check_state \<Rightarrow> (('v, 'k, 'm) graph_error + unit) \<times> ('v, 'k, 'm) check_state" where
  "validate_in_aggregator get_key g vald expected st =
     (let in_trace = (\<lambda>found. InAggregation expected found (vald_relation vald)
                        (info_of g (vald_node_id vald)) (metadata_of g (vald_node_id vald)))
      in case expected of
           [] \<Rightarrow> (Inl (MalformedGraph ''An OnlyIn aggregator node must have at least one expected value''), st)
         | v # _ \<Rightarrow>
             (case get_values_by_key (vald_ctx vald) (get_key v) of
                None \<Rightarrow>
                  (if vald_strength vald = Weak then accept (vald_key vald) st
                   else reject (vald_key vald) (in_trace None) st)
              | Some ctx_vals \<Rightarrow>
                  (case List.find (\<lambda>x. (x \<in> set expected) \<noteq> relation_bool (vald_relation vald)) ctx_vals of
                     Some ctx_value \<Rightarrow> reject (vald_key vald) (in_trace (Some ctx_value)) st
                   | None \<Rightarrow> accept (vald_key vald) st)))"

subsection \<open>Value nodes\<close>

definition context_analysis ::
  "('v, 'k, 'm) constraint_graph \<Rightarrow> node_id \<Rightarrow> relation \<Rightarrow> strength \<Rightarrow> ('v, 'k) checking_context
   \<Rightarrow> ('v, 'k) node_value \<Rightarrow> ('v, 'k, 'm) check_state
   \<Rightarrow> (('v, 'k, 'm) graph_error + unit) \<times> ('v, 'k, 'm) check_state" where
  "context_analysis g node_id relation strength ctx val st =
     (let in_context = check_presence ctx val strength
      in if in_context \<noteq> relation_bool relation
         then reject (node_id, relation, strength)
                (TraceValue val relation None (info_of g node_id) (metadata_of g node_id)) st
         else if \<not> relation_bool relation then accept (node_id, relation, strength) st
         else (Inr (), st))"

text \<open>What a value node does with the entry a cycle may have left for it.\<close>

definition resolve_cycle ::
  "('v, 'k, 'm) constraint_graph \<Rightarrow> ('v, 'k) check_node_context \<Rightarrow> ('v, 'k) node_value \<Rightarrow> ('v, 'k, 'm) check_state
   \<Rightarrow> (('v, 'k, 'm) graph_error + unit) \<times> ('v, 'k, 'm) check_state" where
  "resolve_cycle g vald val st2 =
     (case cycle_map st2 (vald_node_id vald) of
        None \<Rightarrow> (Inr (), leave_node vald st2)
      | Some (resolved_strength, resolved_relation) \<Rightarrow>
          if resolved_relation = Contradictory
          then reject (vald_key vald) (Contradiction Contradictory) (leave_node vald st2)
          else if resolved_strength \<noteq> vald_strength vald
          then context_analysis g (vald_node_id vald) (vald_relation vald) resolved_strength
                 (vald_ctx vald) val (leave_node vald st2)
          else (Inr (), leave_node vald st2))"

fun value_node_loop ::
  "('v, 'k, 'm) recursive_check \<Rightarrow> ('v, 'k, 'm) constraint_graph \<Rightarrow> ('v, 'k) check_node_context
   \<Rightarrow> ('v, 'k) node_value \<Rightarrow> edge list \<Rightarrow> ('v, 'k, 'm) analysis_trace list \<Rightarrow> bool
   \<Rightarrow> ('v, 'k, 'm) check_state \<Rightarrow> ('v, 'k, 'm) check_result" where
  "value_node_loop check g vald val [] errors matched_one st =
     Some (if matched_one \<or> preds (vald_node vald) = []
           then accept (vald_key vald) st
           else reject (vald_key vald)
                  (TraceValue val (vald_relation vald) (Some (OneOf errors))
                     (info_of g (vald_node_id vald)) (metadata_of g (vald_node_id vald))) st)"
| "value_node_loop check g vald val (e # es) errors matched_one st =
     (case check (edge_pred e) (edge_relation e) (edge_strength e) (enter_node vald st) of
        None \<Rightarrow> None
      | Some (result, st2) \<Rightarrow>
          (case resolve_cycle g vald val st2 of
             (Inl err, st4) \<Rightarrow> Some (Inl err, st4)
           | (Inr _, st4) \<Rightarrow>
               (case result of
                  Inl err \<Rightarrow>
                    (case get_analysis_trace err of
                       Inl err' \<Rightarrow> Some (Inl err', st4)
                     | Inr trace \<Rightarrow>
                         if edge_strength e = Strong
                         then Some (reject (vald_key vald)
                                (TraceValue val (vald_relation vald) (Some (Mandatory trace))
                                   (info_of g (vald_node_id vald)) (metadata_of g (vald_node_id vald))) st4)
                         else value_node_loop check g vald val es (errors @ [trace]) matched_one st4)
                | Inr _ \<Rightarrow> value_node_loop check g vald val es errors True st4)))"

definition validate_value_node ::
  "('v, 'k, 'm) recursive_check \<Rightarrow> ('v, 'k, 'm) constraint_graph \<Rightarrow> ('v, 'k) check_node_context
   \<Rightarrow> ('v, 'k) node_value \<Rightarrow> ('v, 'k, 'm) check_state \<Rightarrow> ('v, 'k, 'm) check_result" where
  "validate_value_node check g vald val st =
     (case context_analysis g (vald_node_id vald) (vald_relation vald) (vald_strength vald) (vald_ctx vald) val st of
        (Inl err, st1) \<Rightarrow> Some (Inl err, st1)
      | (Inr _, st1) \<Rightarrow>
          (case get_predecessor_edges_by_domain g (vald_node_id vald) (vald_domains vald) of
             Inl err \<Rightarrow> Some (Inl err, st1)
           | Inr es \<Rightarrow> value_node_loop check g vald val es [] False st1))"

subsection \<open>The checker\<close>

primrec check_node_inner ::
  "nat \<Rightarrow> ('v \<Rightarrow> 'k) \<Rightarrow> ('v, 'k, 'm) constraint_graph \<Rightarrow> ('v, 'k) checking_context \<Rightarrow> domain_id list option
   \<Rightarrow> ('v, 'k, 'm) recursive_check" where
  "check_node_inner 0 get_key g ctx domains = (\<lambda>node_id relation strength st. None)"
| "check_node_inner (Suc fuel) get_key g ctx domains = (\<lambda>node_id relation strength st.
     (case get_node (nodes g) node_id of
        None \<Rightarrow> Some (Inl NodeNotFound, st)
      | Some node \<Rightarrow>
          (case memo st (node_id, relation, strength) of
             Some already_memo \<Rightarrow> Some (map_err AnalysisError already_memo, st)
           | None \<Rightarrow>
               (case cycle_map st node_id of
                  Some (initial_strength, initial_relation) \<Rightarrow>
                    Some (Inr (), st\<lparr>cycle_map := (cycle_map st)(node_id \<mapsto>
                      (get_resolved_strength initial_strength strength,
                       get_resolved_relation initial_relation (resolution_of relation)))\<rparr>)
                | None \<Rightarrow>
                    (let vald = \<lparr>vald_ctx = ctx, vald_node = node, vald_node_id = node_id,
                                 vald_relation = relation, vald_strength = strength, vald_domains = domains\<rparr>;
                         check = check_node_inner fuel get_key g ctx domains
                     in case node_type node of
                          AllAggregator \<Rightarrow> validate_all_aggregator check g vald st
                        | AnyAggregator \<Rightarrow> validate_any_aggregator check g vald st
                        | InAggregator expected \<Rightarrow> Some (validate_in_aggregator get_key g vald expected st)
                        | ValueNode val \<Rightarrow> validate_value_node check g vald val st)))))"

definition check_fuel :: "('v, 'k, 'm) constraint_graph \<Rightarrow> nat" where
  "check_fuel g = Suc (length (dm_data (nodes g)))"

definition resolve_domains ::
  "('v, 'k, 'm) constraint_graph \<Rightarrow> string list \<Rightarrow> ('v, 'k, 'm) graph_error + domain_id list" where
  "resolve_domains g domain_idents =
     collect_results (map (\<lambda>i. ok_or (domain_identifier_map g (DomainIdentifier i)) DomainNotFound) domain_idents)"

definition check_node ::
  "('v \<Rightarrow> 'k) \<Rightarrow> ('v, 'k, 'm) constraint_graph \<Rightarrow> ('v, 'k) checking_context \<Rightarrow> node_id \<Rightarrow> relation \<Rightarrow> strength
   \<Rightarrow> string list option \<Rightarrow> ('v, 'k, 'm) check_state \<Rightarrow> ('v, 'k, 'm) check_result" where
  "check_node get_key g ctx node_id relation strength domains st =
     (case option_transpose (map_option (resolve_domains g) domains) of
        Inl err \<Rightarrow> Some (Inl err, st)
      | Inr ds \<Rightarrow> check_node_inner (check_fuel g) get_key g ctx ds node_id relation strength st)"

subsection \<open>Frame facts\<close>

lemma cycle_map_memo_insert [simp]: "cycle_map (memo_insert key r st) = cycle_map st"
  by (simp add: memo_insert_def)

lemma cycle_map_reject [simp]: "cycle_map (snd (reject key t st)) = cycle_map st"
  by (simp add: reject_def)

lemma cycle_map_accept [simp]: "cycle_map (snd (accept key st)) = cycle_map st"
  by (simp add: accept_def)

lemma cycle_map_enter [simp]:
  "cycle_map (enter_node vald st) =
     (cycle_map st)(vald_node_id vald \<mapsto> (vald_strength vald, resolution_of (vald_relation vald)))"
  by (simp add: enter_node_def)

lemma cycle_map_leave [simp]: "cycle_map (leave_node vald st) = (cycle_map st)(vald_node_id vald := None)"
  by (simp add: leave_node_def)

lemma memo_enter_leave [simp]:
  "memo (enter_node vald st) = memo st"
  "memo (leave_node vald st) = memo st"
  by (simp_all add: enter_node_def leave_node_def)

lemma memo_memo_insert [simp]: "memo (memo_insert key r st) = (memo st)(key \<mapsto> r)"
  by (simp add: memo_insert_def)

lemma cycle_map_context_analysis [simp]:
  "cycle_map (snd (context_analysis g i rel s ctx val st)) = cycle_map st"
  by (simp add: context_analysis_def Let_def)

lemma cycle_map_validate_in [simp]:
  "cycle_map (snd (validate_in_aggregator get_key g vald vs st)) = cycle_map st"
  by (simp add: validate_in_aggregator_def Let_def split: list.splits option.splits)

subsection \<open>The checker always returns\<close>

definition unvisited :: "('v, 'k, 'm) constraint_graph \<Rightarrow> ('v, 'k, 'm) check_state \<Rightarrow> node_id set" where
  "unvisited g st = {n. dm_contains_key node_get_id (nodes g) n \<and> n \<notin> dom (cycle_map st)}"

definition returns_keeping ::
  "('v, 'k, 'm) check_state \<Rightarrow> ('v, 'k, 'm) check_result \<Rightarrow> bool" where
  "returns_keeping st r \<longleftrightarrow> (\<exists>res st'. r = Some (res, st') \<and> dom (cycle_map st) \<subseteq> dom (cycle_map st'))"

lemma finite_nodes: "finite {n. dm_contains_key node_get_id m n}"
proof -
  have "{n. dm_contains_key node_get_id m n} = NodeId ` {..<length (dm_data m)}"
    by (auto simp: dm_contains_key_def image_iff) (metis lessThan_iff node_id.collapse)
  then show ?thesis by simp
qed

lemma card_nodes: "card {n. dm_contains_key node_get_id m n} \<le> length (dm_data m)"
proof -
  have "{n. dm_contains_key node_get_id m n} = NodeId ` {..<length (dm_data m)}"
    by (auto simp: dm_contains_key_def image_iff) (metis lessThan_iff node_id.collapse)
  then show ?thesis by (metis card_image_le card_lessThan finite_lessThan)
qed

lemma finite_unvisited [simp]: "finite (unvisited g st)"
  by (rule finite_subset [OF _ finite_nodes [of "nodes g"]]) (auto simp: unvisited_def)

lemma unvisited_mono:
  "dom (cycle_map st) \<subseteq> dom (cycle_map st') \<Longrightarrow> card (unvisited g st') \<le> card (unvisited g st)"
  by (rule card_mono, simp) (auto simp: unvisited_def)

lemma unvisited_enter:
  assumes "dm_contains_key node_get_id (nodes g) (vald_node_id vald)" and "cycle_map st (vald_node_id vald) = None"
  shows "card (unvisited g (enter_node vald st)) < card (unvisited g st)"
proof (rule psubset_card_mono)
  have "vald_node_id vald \<in> unvisited g st" using assms by (auto simp: unvisited_def)
  moreover have "vald_node_id vald \<notin> unvisited g (enter_node vald st)" by (simp add: unvisited_def)
  moreover have "unvisited g (enter_node vald st) \<subseteq> unvisited g st" by (auto simp: unvisited_def)
  ultimately show "unvisited g (enter_node vald st) \<subset> unvisited g st" by blast
qed simp

lemma returns_keeping_trans:
  "returns_keeping st' r \<Longrightarrow> dom (cycle_map st) \<subseteq> dom (cycle_map st') \<Longrightarrow> returns_keeping st r"
  by (auto simp: returns_keeping_def)

lemma returns_keeping_SomeI [intro]:
  "dom (cycle_map st) \<subseteq> dom (cycle_map (snd p)) \<Longrightarrow> returns_keeping st (Some p)"
  by (cases p) (auto simp: returns_keeping_def)

text \<open>
  One iteration of a loop: the recursive call runs on a state with one node less to visit, and
  leaving the node gives a state from which the next iteration starts like this one.
\<close>

lemma loop_call:
  assumes rec: "\<And>i r s st. card (unvisited g st) < k \<Longrightarrow> returns_keeping st (check i r s st)"
    and node: "dm_contains_key node_get_id (nodes g) (vald_node_id vald)"
    and new: "cycle_map st (vald_node_id vald) = None"
    and bound: "card (unvisited g st) \<le> k"
  obtains result st2 where
    "check (edge_pred e) (edge_relation e) (edge_strength e) (enter_node vald st) = Some (result, st2)"
    "dom (cycle_map st) \<subseteq> dom (cycle_map st2)"
    "dom (cycle_map st) \<subseteq> dom (cycle_map (leave_node vald st2))"
    "cycle_map (leave_node vald st2) (vald_node_id vald) = None"
    "card (unvisited g (leave_node vald st2)) \<le> k"
proof -
  have "card (unvisited g (enter_node vald st)) < k"
    using unvisited_enter [OF node new] bound by linarith
  from rec [OF this] obtain result st2 where
    r: "check (edge_pred e) (edge_relation e) (edge_strength e) (enter_node vald st) = Some (result, st2)"
    and d: "dom (cycle_map (enter_node vald st)) \<subseteq> dom (cycle_map st2)"
    unfolding returns_keeping_def by blast
  have keep: "dom (cycle_map st) \<subseteq> dom (cycle_map (leave_node vald st2))"
    using d new by auto
  moreover have "card (unvisited g (leave_node vald st2)) \<le> k"
    using unvisited_mono [OF keep, of g] bound by linarith
  moreover have "dom (cycle_map st) \<subseteq> dom (cycle_map st2)" using d by auto
  ultimately show thesis using that r by simp
qed

lemma all_loop_returns:
  assumes "\<And>i r s st. card (unvisited g st) < k \<Longrightarrow> returns_keeping st (check i r s st)"
    and "dm_contains_key node_get_id (nodes g) (vald_node_id vald)"
    and "cycle_map st (vald_node_id vald) = None" and "card (unvisited g st) \<le> k"
  shows "returns_keeping st (all_aggregator_loop check g vald es unsat st)"
  using assms(3,4)
proof (induction es arbitrary: unsat st)
  case (Cons e es)
  obtain result st2 where
    call: "check (edge_pred e) (edge_relation e) (edge_strength e) (enter_node vald st) = Some (result, st2)"
    and d: "dom (cycle_map st) \<subseteq> dom (cycle_map st2)"
    and d3: "dom (cycle_map st) \<subseteq> dom (cycle_map (leave_node vald st2))"
    and n3: "cycle_map (leave_node vald st2) (vald_node_id vald) = None"
    and c3: "card (unvisited g (leave_node vald st2)) \<le> k"
    by (rule loop_call [where e = e, OF assms(1,2) Cons.prems])
  have "returns_keeping st (all_aggregator_loop check g vald es u (leave_node vald st2))" for u
    using Cons.IH [OF n3 c3, of u] d3 by (rule returns_keeping_trans)
  with call d d3 show ?case
    by (auto simp: Let_def returns_keeping_SomeI split: sum.splits option.splits relation_resolution.splits)
qed auto

lemma any_loop_returns:
  assumes "\<And>i r s st. card (unvisited g st) < k \<Longrightarrow> returns_keeping st (check i r s st)"
    and "dm_contains_key node_get_id (nodes g) (vald_node_id vald)"
    and "cycle_map st (vald_node_id vald) = None" and "card (unvisited g st) \<le> k"
  shows "returns_keeping st (any_aggregator_loop check g vald es unsat m st)"
  using assms(3,4)
proof (induction es arbitrary: unsat m st)
  case (Cons e es)
  obtain result st2 where
    call: "check (edge_pred e) (edge_relation e) (edge_strength e) (enter_node vald st) = Some (result, st2)"
    and d: "dom (cycle_map st) \<subseteq> dom (cycle_map st2)"
    and d3: "dom (cycle_map st) \<subseteq> dom (cycle_map (leave_node vald st2))"
    and n3: "cycle_map (leave_node vald st2) (vald_node_id vald) = None"
    and c3: "card (unvisited g (leave_node vald st2)) \<le> k"
    by (rule loop_call [where e = e, OF assms(1,2) Cons.prems])
  have "returns_keeping st (any_aggregator_loop check g vald es u m (leave_node vald st2))" for u m
    using Cons.IH [OF n3 c3, of u m] d3 by (rule returns_keeping_trans)
  with call d d3 show ?case
    by (auto simp: Let_def returns_keeping_SomeI split: sum.splits option.splits relation_resolution.splits)
qed auto

lemma cycle_map_resolve_cycle [simp]:
  "cycle_map (snd (resolve_cycle g vald val st)) = (cycle_map st)(vald_node_id vald := None)"
  by (simp add: resolve_cycle_def split: option.splits)

lemma unvisited_cong: "cycle_map st = cycle_map st' \<Longrightarrow> unvisited g st = unvisited g st'"
  by (simp add: unvisited_def)

lemma value_loop_returns:
  assumes "\<And>i r s st. card (unvisited g st) < k \<Longrightarrow> returns_keeping st (check i r s st)"
    and "dm_contains_key node_get_id (nodes g) (vald_node_id vald)"
    and "cycle_map st (vald_node_id vald) = None" and "card (unvisited g st) \<le> k"
  shows "returns_keeping st (value_node_loop check g vald val es errs m st)"
  using assms(3,4)
proof (induction es arbitrary: errs m st)
  case (Cons e es)
  obtain result st2 where
    call: "check (edge_pred e) (edge_relation e) (edge_strength e) (enter_node vald st) = Some (result, st2)"
    and d3: "dom (cycle_map st) \<subseteq> dom (cycle_map (leave_node vald st2))"
    and c3: "card (unvisited g (leave_node vald st2)) \<le> k"
    by (rule loop_call [where e = e, OF assms(1,2) Cons.prems])
  obtain rr st4 where rc: "resolve_cycle g vald val st2 = (rr, st4)" by fastforce
  then have st4: "cycle_map st4 = cycle_map (leave_node vald st2)"
    using cycle_map_resolve_cycle [of g vald val st2] by simp
  have "returns_keeping st (value_node_loop check g vald val es u m st4)" for u m
    by (rule returns_keeping_trans [OF Cons.IH])
      (use c3 d3 unvisited_cong [OF st4, of g] st4 in simp_all)
  with call d3 st4 rc show ?case
    by (auto simp: returns_keeping_SomeI reject_def split: sum.splits option.splits)
qed auto

lemma contains_get_node: "get_node m i = Some nd \<Longrightarrow> dm_contains_key node_get_id m i"
  by (simp add: node_keys.contains_iff_get)

lemma check_node_inner_returns:
  "card (unvisited g st) < n \<Longrightarrow> returns_keeping st (check_node_inner n get_key g ctx ds i r s st)"
proof (induction n arbitrary: i r s st)
  case (Suc n)
  show ?case
  proof (cases "get_node (nodes g) i")
    case (Some nd)
    show ?thesis
    proof (cases "memo st (i, r, s) = None \<and> cycle_map st i = None")
      case True
      let ?vald = "\<lparr>vald_ctx = ctx, vald_node = nd, vald_node_id = i, vald_relation = r, vald_strength = s, vald_domains = ds\<rparr>"
      let ?chk = "check_node_inner n get_key g ctx ds"
      have card: "card (unvisited g st') \<le> n" if "cycle_map st' = cycle_map st" for st'
        using Suc.prems unvisited_cong [OF that, of g] by simp
      have val_loop: "returns_keeping st (value_node_loop ?chk g ?vald val es u m st')"
        if "cycle_map st' = cycle_map st" for val es u m st'
        by (rule returns_keeping_trans [OF value_loop_returns [OF Suc.IH]])
          (use that True card contains_get_node [OF Some] in simp_all)
      have "returns_keeping st (validate_value_node ?chk g ?vald val st)" for val
      proof -
        obtain r1 st1 where ca: "context_analysis g i r s ctx val st = (r1, st1)" by fastforce
        then have "cycle_map st1 = cycle_map st"
          by (metis cycle_map_context_analysis snd_conv)
        with ca val_loop show ?thesis
          by (auto simp: validate_value_node_def returns_keeping_SomeI split: sum.splits)
      qed
      moreover have "returns_keeping st (all_aggregator_loop ?chk g ?vald es u st)" for es u
        by (rule all_loop_returns [OF Suc.IH]) (use True card [of st] contains_get_node [OF Some] in simp_all)
      moreover have "returns_keeping st (any_aggregator_loop ?chk g ?vald es u m st)" for es u m
        by (rule any_loop_returns [OF Suc.IH]) (use True card [of st] contains_get_node [OF Some] in simp_all)
      ultimately show ?thesis using Some True
        by (auto simp: validate_all_aggregator_def validate_any_aggregator_def Let_def
            split: node_type.splits sum.splits)
    next
      case False
      with Some show ?thesis
        by (auto simp: returns_keeping_def split: option.splits)
    qed
  qed (simp add: returns_keeping_def)
qed simp

lemma check_node_inner_fuel:
  "\<exists>res st'. check_node_inner (check_fuel g) get_key g ctx ds i r s st = Some (res, st')"
proof -
  have "card (unvisited g st) \<le> card {n. dm_contains_key node_get_id (nodes g) n}"
    by (rule card_mono) (auto simp: finite_nodes unvisited_def)
  then have "card (unvisited g st) < check_fuel g"
    using card_nodes [of "nodes g"] by (simp add: check_fuel_def)
  from check_node_inner_returns [OF this] show ?thesis
    unfolding returns_keeping_def by blast
qed

end
