(* ===== verification/Cgraph_Sat.thy ===== *)
theory Cgraph_Sat
  imports Cgraph_Check
begin

text \<open>
  What the constraint checker means. \<open>satisfied\<close> says, without memo table, cycle table or traces,
  when a node holds in a context: an all-aggregator when every predecessor edge holds, an
  any-aggregator when one does, an in-aggregator when the context's values lie inside (or
  outside) the set, a value node when its presence agrees with the relation, every strong
  predecessor edge holds and some predecessor edge holds. On a graph whose edges ascend in some
  ranking the memoised checker decides this relation and keeps its memo table truthful.
\<close>

inductive satisfied ::
  "('v \<Rightarrow> 'k) \<Rightarrow> ('v, 'k, 'm) constraint_graph \<Rightarrow> ('v, 'k) checking_context \<Rightarrow> domain_id list option
   \<Rightarrow> node_id \<Rightarrow> relation \<Rightarrow> strength \<Rightarrow> bool"
  for get_key g ctx domains where
  sat_all:
  "get_node (nodes g) i = Some nd \<Longrightarrow> node_type nd = AllAggregator \<Longrightarrow>
   get_predecessor_edges_by_domain g i domains = Inr es \<Longrightarrow>
   (\<forall>e \<in> set es. satisfied get_key g ctx domains (edge_pred e) (edge_relation e) (edge_strength e)) \<Longrightarrow>
   satisfied get_key g ctx domains i r s"
| sat_any:
  "get_node (nodes g) i = Some nd \<Longrightarrow> node_type nd = AnyAggregator \<Longrightarrow>
   get_predecessor_edges_by_domain g i domains = Inr es \<Longrightarrow>
   preds nd = [] \<or> (\<exists>e \<in> set es. satisfied get_key g ctx domains (edge_pred e) (edge_relation e) (edge_strength e)) \<Longrightarrow>
   satisfied get_key g ctx domains i r s"
| sat_in:
  "get_node (nodes g) i = Some nd \<Longrightarrow> node_type nd = InAggregator vs \<Longrightarrow> vs \<noteq> [] \<Longrightarrow>
   (case get_values_by_key ctx (get_key (hd vs)) of
      None \<Rightarrow> s = Weak
    | Some xs \<Rightarrow> \<forall>x \<in> set xs. x \<in> set vs \<longleftrightarrow> relation_bool r) \<Longrightarrow>
   satisfied get_key g ctx domains i r s"
| sat_value:
  "get_node (nodes g) i = Some nd \<Longrightarrow> node_type nd = ValueNode v \<Longrightarrow>
   get_predecessor_edges_by_domain g i domains = Inr es \<Longrightarrow>
   check_presence ctx v s = relation_bool r \<Longrightarrow>
   (\<forall>e \<in> set es. edge_strength e = Strong \<longrightarrow>
      satisfied get_key g ctx domains (edge_pred e) (edge_relation e) (edge_strength e)) \<Longrightarrow>
   preds nd = [] \<or> (\<exists>e \<in> set es. satisfied get_key g ctx domains (edge_pred e) (edge_relation e) (edge_strength e)) \<Longrightarrow>
   satisfied get_key g ctx domains i r s"

definition acyclic_by :: "(node_id \<Rightarrow> nat) \<Rightarrow> ('v, 'k, 'm) constraint_graph \<Rightarrow> bool" where
  "acyclic_by rank g \<longleftrightarrow> (\<forall>e \<in> set (dm_data (edges g)). rank (edge_pred e) < rank (edge_succ e))"

definition memo_agrees ::
  "(memo_key \<Rightarrow> bool) \<Rightarrow> memo_key set \<Rightarrow> ('v, 'k, 'm) memoization \<Rightarrow> bool" where
  "memo_agrees P K m \<longleftrightarrow> (\<forall>key \<in> K. \<forall>x. m key = Some x \<longrightarrow> (is_ok x \<longleftrightarrow> P key))"

definition answers :: "bool \<Rightarrow> ('v, 'k, 'm) graph_error + unit \<Rightarrow> bool" where
  "answers P res = (case res of Inr _ \<Rightarrow> P | Inl e \<Rightarrow> \<not> P \<and> (\<exists>t. e = AnalysisError t))"

subsection \<open>Unfolding the relation\<close>

inductive_simps satisfied_iff: "satisfied get_key g ctx domains i r s"

lemma satisfied_all:
  "get_node (nodes g) i = Some nd \<Longrightarrow> node_type nd = AllAggregator \<Longrightarrow>
   get_predecessor_edges_by_domain g i domains = Inr es \<Longrightarrow>
   satisfied get_key g ctx domains i r s \<longleftrightarrow>
     (\<forall>e \<in> set es. satisfied get_key g ctx domains (edge_pred e) (edge_relation e) (edge_strength e))"
  by (subst satisfied_iff) simp

lemma satisfied_any:
  "get_node (nodes g) i = Some nd \<Longrightarrow> node_type nd = AnyAggregator \<Longrightarrow>
   get_predecessor_edges_by_domain g i domains = Inr es \<Longrightarrow>
   satisfied get_key g ctx domains i r s \<longleftrightarrow>
     (preds nd = [] \<or>
      (\<exists>e \<in> set es. satisfied get_key g ctx domains (edge_pred e) (edge_relation e) (edge_strength e)))"
  by (subst satisfied_iff) simp

lemma satisfied_in:
  "get_node (nodes g) i = Some nd \<Longrightarrow> node_type nd = InAggregator vs \<Longrightarrow> vs \<noteq> [] \<Longrightarrow>
   satisfied get_key g ctx domains i r s \<longleftrightarrow>
     (case get_values_by_key ctx (get_key (hd vs)) of
        None \<Rightarrow> s = Weak
      | Some xs \<Rightarrow> \<forall>x \<in> set xs. x \<in> set vs \<longleftrightarrow> relation_bool r)"
  by (subst satisfied_iff) simp

lemma satisfied_value:
  "get_node (nodes g) i = Some nd \<Longrightarrow> node_type nd = ValueNode v \<Longrightarrow>
   get_predecessor_edges_by_domain g i domains = Inr es \<Longrightarrow>
   satisfied get_key g ctx domains i r s \<longleftrightarrow>
     (check_presence ctx v s = relation_bool r
      \<and> (\<forall>e \<in> set es. edge_strength e = Strong \<longrightarrow>
           satisfied get_key g ctx domains (edge_pred e) (edge_relation e) (edge_strength e))
      \<and> (preds nd = [] \<or>
         (\<exists>e \<in> set es. satisfied get_key g ctx domains (edge_pred e) (edge_relation e) (edge_strength e))))"
  by (subst satisfied_iff) simp

subsection \<open>Predecessor edges of a consistent graph\<close>

lemma collect_pred_edges_total:
  "(\<And>i. i \<in> set ids \<Longrightarrow> \<exists>e. get_edge (edges g) i = Some e) \<Longrightarrow>
   \<exists>es. collect_pred_edges g ds ids = Inr es \<and>
     set es = {e. \<exists>i \<in> set ids. get_edge (edges g) i = Some e \<and> edge_in_domains ds e}"
proof (induction ids)
  case (Cons i ids)
  have "\<exists>es. collect_pred_edges g ds ids = Inr es \<and>
      set es = {e. \<exists>i \<in> set ids. get_edge (edges g) i = Some e \<and> edge_in_domains ds e}"
    by (rule Cons.IH) (use Cons.prems in simp)
  moreover obtain e where "get_edge (edges g) i = Some e" using Cons.prems [of i] by auto
  ultimately show ?case by auto
qed simp

lemma pred_edges:
  assumes inv: "graph_inv get_key g" and nd: "get_node (nodes g) i = Some nd"
  obtains es where "get_predecessor_edges_by_domain g i ds = Inr es"
    "\<And>e. e \<in> set es \<Longrightarrow> e \<in> set (dm_data (edges g)) \<and> edge_succ e = i \<and> (\<exists>nd. get_node (nodes g) (edge_pred e) = Some nd)"
proof -
  have pr: "preds nd = edges_into (dm_data (edges g)) i"
    using inv nd by (auto simp: graph_inv_def links_ok_def dm_get_def vec_get_Some)
  have ex: "\<exists>e. get_edge (edges g) j = Some e" if "j \<in> set (preds nd)" for j
    using that pr by (auto simp: edges_into_def dm_get_def vec_get_def)
  obtain es where es: "collect_pred_edges g ds (preds nd) = Inr es"
    "set es = {e. \<exists>i \<in> set (preds nd). get_edge (edges g) i = Some e \<and> edge_in_domains ds e}"
    using collect_pred_edges_total [OF ex] by blast
  show thesis
  proof
    show "get_predecessor_edges_by_domain g i ds = Inr es"
      using es nd by (simp add: get_predecessor_edges_by_domain_def)
    fix e assume "e \<in> set es"
    then have "e \<in> set (dm_data (edges g)) \<and> edge_succ e = i"
      using es(2) pr by (auto simp: edges_into_def dm_get_def vec_get_Some)
    moreover from this have "node_get_id (edge_pred e) < length (dm_data (nodes g))"
      using inv by (auto simp: graph_inv_def edge_ends_ok_def)
    ultimately show "e \<in> set (dm_data (edges g)) \<and> edge_succ e = i \<and> (\<exists>nd. get_node (nodes g) (edge_pred e) = Some nd)"
      by (simp add: dm_get_def vec_get_def)
  qed
qed

subsection \<open>Memo tables\<close>

lemma memo_agrees_subset: "memo_agrees P K m \<Longrightarrow> K' \<subseteq> K \<Longrightarrow> memo_agrees P K' m"
  by (auto simp: memo_agrees_def)

lemma memo_agrees_upd_outside: "memo_agrees P (K - {key}) m \<Longrightarrow> memo_agrees P (K - {key}) (m(key \<mapsto> x))"
  by (auto simp: memo_agrees_def)

lemma memo_agrees_upd: "memo_agrees P (K - {key}) m \<Longrightarrow> is_ok x = P key \<Longrightarrow> memo_agrees P K (m(key \<mapsto> x))"
  by (auto simp: memo_agrees_def)

lemma memo_agrees_empty [simp]: "memo_agrees P K Map.empty"
  by (simp add: memo_agrees_def)

definition good_answer ::
  "(memo_key \<Rightarrow> bool) \<Rightarrow> memo_key set \<Rightarrow> memo_key \<Rightarrow> ('v, 'k, 'm) check_state
   \<Rightarrow> (('v, 'k, 'm) graph_error + unit) \<times> ('v, 'k, 'm) check_state \<Rightarrow> bool" where
  "good_answer P K key st p \<longleftrightarrow>
     cycle_map (snd p) = cycle_map st \<and> memo_agrees P K (memo (snd p)) \<and> answers (P key) (fst p)"

lemma good_reject:
  "memo_agrees P (K - {key}) (memo st) \<Longrightarrow> \<not> P key \<Longrightarrow> cycle_map st = cycle_map st0 \<Longrightarrow>
   good_answer P K key st0 (reject key t st)"
  by (simp add: good_answer_def reject_def answers_def memo_agrees_upd)

lemma good_accept:
  "memo_agrees P (K - {key}) (memo st) \<Longrightarrow> P key \<Longrightarrow> cycle_map st = cycle_map st0 \<Longrightarrow>
   good_answer P K key st0 (accept key st)"
  by (simp add: good_answer_def accept_def answers_def memo_agrees_upd)

subsection \<open>One iteration of a loop\<close>

definition edge_key :: "edge \<Rightarrow> memo_key" where
  "edge_key e = (edge_pred e, edge_relation e, edge_strength e)"

definition below :: "(node_id \<Rightarrow> nat) \<Rightarrow> node_id \<Rightarrow> ('v, 'k, 'm) check_state \<Rightarrow> bool" where
  "below rank i st \<longleftrightarrow> (\<forall>k \<in> dom (cycle_map st). rank i < rank k)"

text \<open>What a loop over \<open>es\<close> may rely on in the recursive calls it makes.\<close>

definition calls_ok ::
  "(memo_key \<Rightarrow> bool) \<Rightarrow> memo_key set \<Rightarrow> (node_id \<Rightarrow> nat) \<Rightarrow> ('v, 'k, 'm) recursive_check \<Rightarrow> edge list \<Rightarrow> bool" where
  "calls_ok P K rank check es \<longleftrightarrow>
     (\<forall>e \<in> set es. \<forall>st p. memo_agrees P K (memo st) \<longrightarrow> below rank (edge_pred e) st \<longrightarrow>
        check (edge_pred e) (edge_relation e) (edge_strength e) st = Some p \<longrightarrow>
        good_answer P K (edge_key e) st p)"

lemma calls_ok_ConsD:
  assumes "calls_ok P K rank check (e # es)"
  shows "calls_ok P K rank check [e]" and "calls_ok P K rank check es"
  using assms by (simp_all add: calls_ok_def)

lemma loop_step:
  assumes calls: "calls_ok P K rank check [e]" and up: "rank (edge_pred e) < rank (vald_node_id vald)"
    and b: "below rank (vald_node_id vald) st" and m: "memo_agrees P K (memo st)"
    and call: "check (edge_pred e) (edge_relation e) (edge_strength e) (enter_node vald st) = Some (result, st2)"
  shows "cycle_map st2 (vald_node_id vald) = Some (vald_strength vald, resolution_of (vald_relation vald))"
    and "cycle_map (leave_node vald st2) = cycle_map st"
    and "memo_agrees P K (memo (leave_node vald st2))"
    and "answers (P (edge_key e)) result"
proof -
  have "below rank (edge_pred e) (enter_node vald st)"
    using b up by (auto simp: below_def) (metis domI order_less_trans)
  with calls m call have g: "good_answer P K (edge_key e) (enter_node vald st) (result, st2)"
    by (simp add: calls_ok_def)
  then have cm: "cycle_map st2 = cycle_map (enter_node vald st)" by (simp add: good_answer_def)
  then show "cycle_map st2 (vald_node_id vald) = Some (vald_strength vald, resolution_of (vald_relation vald))"
    by simp
  have "cycle_map st (vald_node_id vald) = None" using b by (auto simp: below_def)
  then show "cycle_map (leave_node vald st2) = cycle_map st" using cm by auto
  show "memo_agrees P K (memo (leave_node vald st2))" using g by (simp add: good_answer_def)
  show "answers (P (edge_key e)) result" using g by (simp add: good_answer_def)
qed

lemma answers_cases:
  assumes "answers P res"
  obtains "res = Inr ()" "P" | t where "res = Inl (AnalysisError t)" "\<not> P"
  using assms by (cases res) (auto simp: answers_def)

lemma below_cong: "cycle_map st = cycle_map st' \<Longrightarrow> below rank i st = below rank i st'"
  by (simp add: below_def)

lemma resolution_case [simp]:
  "(case resolution_of r of Contradictory \<Rightarrow> a | _ \<Rightarrow> b) = b"
  by (cases r) simp_all

lemma all_loop_answer:
  assumes "calls_ok P (K - {vald_key vald}) rank check es"
    and "\<forall>e \<in> set es. rank (edge_pred e) < rank (vald_node_id vald)"
    and "below rank (vald_node_id vald) st" and "memo_agrees P (K - {vald_key vald}) (memo st)"
    and "P (vald_key vald) \<longleftrightarrow> unsat = [] \<and> (\<forall>e \<in> set es. P (edge_key e))"
    and "cycle_map st = cycle_map st0"
    and "all_aggregator_loop check g vald es unsat st = Some p"
  shows "good_answer P K (vald_key vald) st0 p"
  using assms
proof (induction es arbitrary: unsat st)
  case Nil
  then show ?case by (auto intro: good_accept good_reject split: if_splits)
next
  case (Cons e es)
  obtain result st2 where call:
    "check (edge_pred e) (edge_relation e) (edge_strength e) (enter_node vald st) = Some (result, st2)"
    using Cons.prems(7) by (auto split: option.splits)
  have calls: "calls_ok P (K - {vald_key vald}) rank check [e]"
    and up: "rank (edge_pred e) < rank (vald_node_id vald)"
    using calls_ok_ConsD(1) [OF Cons.prems(1)] Cons.prems(2) by simp_all
  note s = loop_step [where check = check, OF calls up Cons.prems(3,4) call]
  have IH: "good_answer P K (vald_key vald) st0 p"
    if "all_aggregator_loop check g vald es u (leave_node vald st2) = Some p"
      and "P (vald_key vald) \<longleftrightarrow> u = [] \<and> (\<forall>e \<in> set es. P (edge_key e))" for u
    by (rule Cons.IH [OF _ _ _ s(3) that(2) _ that(1)])
      (use Cons.prems calls_ok_ConsD(2) [OF Cons.prems(1)] s(2) below_cong [OF s(2)] in simp_all)
  from s(4) show ?case
    by (cases rule: answers_cases) (use Cons.prems(5,7) call s(1) IH in \<open>auto simp: Let_def\<close>)
qed

lemma any_loop_answer:
  assumes "calls_ok P (K - {vald_key vald}) rank check es"
    and "\<forall>e \<in> set es. rank (edge_pred e) < rank (vald_node_id vald)"
    and "below rank (vald_node_id vald) st" and "memo_agrees P (K - {vald_key vald}) (memo st)"
    and "P (vald_key vald) \<longleftrightarrow> m \<or> preds (vald_node vald) = [] \<or> (\<exists>e \<in> set es. P (edge_key e))"
    and "cycle_map st = cycle_map st0"
    and "any_aggregator_loop check g vald es unsat m st = Some p"
  shows "good_answer P K (vald_key vald) st0 p"
  using assms
proof (induction es arbitrary: unsat m st)
  case Nil
  then show ?case by (auto intro: good_accept good_reject split: if_splits)
next
  case (Cons e es)
  obtain result st2 where call:
    "check (edge_pred e) (edge_relation e) (edge_strength e) (enter_node vald st) = Some (result, st2)"
    using Cons.prems(7) by (auto split: option.splits)
  have calls: "calls_ok P (K - {vald_key vald}) rank check [e]"
    and up: "rank (edge_pred e) < rank (vald_node_id vald)"
    using calls_ok_ConsD(1) [OF Cons.prems(1)] Cons.prems(2) by simp_all
  note s = loop_step [where check = check, OF calls up Cons.prems(3,4) call]
  have IH: "good_answer P K (vald_key vald) st0 p"
    if "any_aggregator_loop check g vald es u m' (leave_node vald st2) = Some p"
      and "P (vald_key vald) \<longleftrightarrow> m' \<or> preds (vald_node vald) = [] \<or> (\<exists>e \<in> set es. P (edge_key e))" for u m'
    by (rule Cons.IH [OF _ _ _ s(3) that(2) _ that(1)])
      (use Cons.prems calls_ok_ConsD(2) [OF Cons.prems(1)] s(2) below_cong [OF s(2)] in simp_all)
  from s(4) show ?case
    by (cases rule: answers_cases) (use Cons.prems(5,7) call s(1) IH in \<open>auto simp: Let_def\<close>)
qed

lemma resolve_cycle_untouched:
  "cycle_map st2 (vald_node_id vald) = Some (vald_strength vald, resolution_of (vald_relation vald)) \<Longrightarrow>
   resolve_cycle g vald val st2 = (Inr (), leave_node vald st2)"
  by (simp add: resolve_cycle_def)

lemma value_loop_answer:
  assumes "calls_ok P (K - {vald_key vald}) rank check es"
    and "\<forall>e \<in> set es. rank (edge_pred e) < rank (vald_node_id vald)"
    and "below rank (vald_node_id vald) st" and "memo_agrees P (K - {vald_key vald}) (memo st)"
    and "P (vald_key vald) \<longleftrightarrow>
      (\<forall>e \<in> set es. edge_strength e = Strong \<longrightarrow> P (edge_key e))
      \<and> (m \<or> preds (vald_node vald) = [] \<or> (\<exists>e \<in> set es. P (edge_key e)))"
    and "cycle_map st = cycle_map st0"
    and "value_node_loop check g vald val es errs m st = Some p"
  shows "good_answer P K (vald_key vald) st0 p"
  using assms
proof (induction es arbitrary: errs m st)
  case Nil
  then show ?case by (auto intro: good_accept good_reject split: if_splits)
next
  case (Cons e es)
  obtain result st2 where call:
    "check (edge_pred e) (edge_relation e) (edge_strength e) (enter_node vald st) = Some (result, st2)"
    using Cons.prems(7) by (auto split: option.splits)
  have calls: "calls_ok P (K - {vald_key vald}) rank check [e]"
    and up: "rank (edge_pred e) < rank (vald_node_id vald)"
    using calls_ok_ConsD(1) [OF Cons.prems(1)] Cons.prems(2) by simp_all
  note s = loop_step [where check = check, OF calls up Cons.prems(3,4) call]
  have IH: "good_answer P K (vald_key vald) st0 p"
    if "value_node_loop check g vald val es u m' (leave_node vald st2) = Some p"
      and "P (vald_key vald) \<longleftrightarrow>
      (\<forall>e \<in> set es. edge_strength e = Strong \<longrightarrow> P (edge_key e))
      \<and> (m' \<or> preds (vald_node vald) = [] \<or> (\<exists>e \<in> set es. P (edge_key e)))" for u m'
    by (rule Cons.IH [OF _ _ _ s(3) that(2) _ that(1)])
      (use Cons.prems calls_ok_ConsD(2) [OF Cons.prems(1)] s(2) below_cong [OF s(2)] in simp_all)
  have reject: "good_answer P K (vald_key vald) st0 (reject (vald_key vald) t (leave_node vald st2))"
    if "\<not> P (vald_key vald)" for t
    using that s(2,3) Cons.prems(6) by (intro good_reject) auto
  from s(4) show ?case
  proof (cases rule: answers_cases)
    case 1
    with Cons.prems(5,7) call IH show ?thesis
      by (auto simp: resolve_cycle_untouched [OF s(1)])
  next
    case (2 t)
    show ?thesis
    proof (cases "edge_strength e = Strong")
      case True
      with 2 Cons.prems(5) have "\<not> P (vald_key vald)" by auto
      with 2 Cons.prems(7) call True reject show ?thesis
        by (auto simp: resolve_cycle_untouched [OF s(1)])
    next
      case False
      with 2 Cons.prems(5,7) call IH show ?thesis
        by (auto simp: resolve_cycle_untouched [OF s(1)])
    qed
  qed
qed

lemma validate_in_answer:
  assumes "memo_agrees P K (memo st)" and "expected \<noteq> []"
    and "P (vald_key vald) \<longleftrightarrow>
      (case get_values_by_key (vald_ctx vald) (get_key (hd expected)) of
         None \<Rightarrow> vald_strength vald = Weak
       | Some xs \<Rightarrow> \<forall>x \<in> set xs. x \<in> set expected \<longleftrightarrow> relation_bool (vald_relation vald))"
  shows "good_answer P K (vald_key vald) st (validate_in_aggregator get_key g vald expected st)"
proof -
  have m: "memo_agrees P (K - {vald_key vald}) (memo st)"
    using assms(1) by (rule memo_agrees_subset) auto
  obtain v vs where "expected = v # vs" using assms(2) by (cases expected) auto
  with m assms(3) show ?thesis
    by (auto simp: validate_in_aggregator_def find_None_iff find_Some_iff Let_def
        intro!: good_accept good_reject split: option.splits dest: nth_mem)
qed

subsection \<open>The checker decides the relation\<close>

lemma check_node_inner_answer:
  assumes inv: "graph_inv get_key g" and acyc: "acyclic_by rank g"
    and "\<exists>nd. get_node (nodes g) i = Some nd"
    and "{k. rank (fst k) \<le> rank i} \<subseteq> K"
    and "memo_agrees (\<lambda>(i, r, s). satisfied get_key g ctx ds i r s) K (memo st)"
    and "below rank i st"
    and "check_node_inner n get_key g ctx ds i r s st = Some p"
  shows "good_answer (\<lambda>(i, r, s). satisfied get_key g ctx ds i r s) K (i, r, s) st p"
  using assms(3-)
proof (induction n arbitrary: i r s K st p)
  case (Suc n)
  let ?P = "\<lambda>(i, r, s). satisfied get_key g ctx ds i r s"
  let ?chk = "check_node_inner n get_key g ctx ds"
  obtain nd where nd: "get_node (nodes g) i = Some nd" using Suc.prems(1) by blast
  let ?vald = "\<lparr>vald_ctx = ctx, vald_node = nd, vald_node_id = i, vald_relation = r, vald_strength = s, vald_domains = ds\<rparr>"
  have key: "vald_key ?vald = (i, r, s)" by (simp add: vald_key_def)
  have cyc: "cycle_map st i = None" using Suc.prems(4) by (auto simp: below_def)
  obtain es where es: "get_predecessor_edges_by_domain g i ds = Inr es"
    and ends: "\<And>e. e \<in> set es \<Longrightarrow> e \<in> set (dm_data (edges g)) \<and> edge_succ e = i \<and> (\<exists>nd. get_node (nodes g) (edge_pred e) = Some nd)"
    using pred_edges [OF inv nd] by blast
  have up: "\<forall>e \<in> set es. rank (edge_pred e) < rank (vald_node_id ?vald)"
    using ends acyc by (auto simp: acyclic_by_def)
  have lower: "{k. rank (fst k) \<le> rank (edge_pred e)} \<subseteq> K - {(i, r, s)}" if "e \<in> set es" for e
    using up that Suc.prems(2) by fastforce
  have calls: "calls_ok ?P (K - {vald_key ?vald}) rank ?chk es"
    unfolding calls_ok_def key edge_key_def
    by (intro ballI allI impI, rule Suc.IH) (use ends lower in blast)+
  have m: "memo_agrees ?P (K - {vald_key ?vald}) (memo st)"
    using Suc.prems(3) by (rule memo_agrees_subset) auto
  have b: "below rank (vald_node_id ?vald) st" using Suc.prems(4) by simp
  note loop = calls up b m
  show ?case
  proof (cases "memo st (i, r, s)")
    case (Some x)
    have "(i, r, s) \<in> K" using Suc.prems(2) by auto
    with Some have "is_ok x \<longleftrightarrow> satisfied get_key g ctx ds i r s"
      using Suc.prems(3) unfolding memo_agrees_def by fastforce
    with Some nd Suc.prems(3,5) show ?thesis
      by (cases x) (auto simp: good_answer_def answers_def)
  next
    case None
    show ?thesis
    proof (cases "node_type nd")
      case AllAggregator
      have "good_answer ?P K (vald_key ?vald) st p"
        by (rule all_loop_answer [OF loop _ refl, where unsat = "[]" and g = g])
          (use nd None cyc es AllAggregator Suc.prems(5) satisfied_all [OF nd AllAggregator es] key in
            \<open>auto simp: validate_all_aggregator_def edge_key_def Let_def\<close>)
      then show ?thesis by (simp add: key)
    next
      case AnyAggregator
      have "good_answer ?P K (vald_key ?vald) st p"
        by (rule any_loop_answer [OF loop _ refl, where unsat = "[]" and m = False and g = g])
          (use nd None cyc es AnyAggregator Suc.prems(5) satisfied_any [OF nd AnyAggregator es] key in
            \<open>auto simp: validate_any_aggregator_def edge_key_def Let_def\<close>)
      then show ?thesis by (simp add: key)
    next
      case (InAggregator vs)
      have "nd \<in> set (dm_data (nodes g))" using nd by (auto simp: dm_get_def intro: vec_get_set)
      with inv InAggregator have "vs \<noteq> []" by (auto simp: graph_inv_def in_sets_ok_def)
      then have "good_answer ?P K (vald_key ?vald) st (validate_in_aggregator get_key g ?vald vs st)"
        using Suc.prems(3) satisfied_in [OF nd InAggregator, of get_key ctx ds r s]
        by (intro validate_in_answer) (simp_all add: key split: option.split)
      with nd None cyc InAggregator Suc.prems(5) show ?thesis by (simp add: key Let_def)
    next
      case (ValueNode v)
      obtain r1 st1 where ca: "context_analysis g i r s ctx v st = (r1, st1)" by fastforce
      show ?thesis
      proof (cases "check_presence ctx v s = relation_bool r")
        case False
        then have "\<not> satisfied get_key g ctx ds i r s"
          using satisfied_value [OF nd ValueNode es] by blast
        with False have "good_answer ?P K (i, r, s) st (context_analysis g i r s ctx v st)"
          using m by (auto simp: context_analysis_def key intro: good_reject)
        moreover have "\<exists>e. r1 = Inl e" using ca False by (auto simp: context_analysis_def reject_def)
        ultimately show ?thesis
          using nd None cyc ValueNode Suc.prems(5) ca by (auto simp: validate_value_node_def Let_def)
      next
        case True
        then have st1: "r1 = Inr ()" "cycle_map st1 = cycle_map st" "memo_agrees ?P (K - {vald_key ?vald}) (memo st1)"
          using ca m by (auto simp: context_analysis_def key accept_def memo_agrees_upd_outside split: if_splits)
        have b1: "below rank (vald_node_id ?vald) st1" using b below_cong [OF st1(2)] by blast
        have "good_answer ?P K (vald_key ?vald) st p"
          by (rule value_loop_answer [OF calls up b1 st1(3) _ st1(2), where errs = "[]" and m = False and g = g and val = v])
            (use nd None cyc es ValueNode Suc.prems(5) satisfied_value [OF nd ValueNode es] key ca st1(1) True in
              \<open>auto simp: validate_value_node_def edge_key_def Let_def\<close>)
        then show ?thesis by (simp add: key)
      qed
    qed
  qed
qed simp

subsection \<open>Only analysis errors\<close>

definition analysis_only :: "('v, 'k, 'm) graph_error + unit \<Rightarrow> bool" where
  "analysis_only res \<longleftrightarrow> (\<forall>e. res = Inl e \<longrightarrow> (\<exists>t. e = AnalysisError t))"

lemma analysis_only_simps [simp]:
  "analysis_only (Inr u)"
  "analysis_only (Inl (AnalysisError t))"
  "analysis_only (fst (reject key t st))"
  "analysis_only (fst (accept key st))"
  by (simp_all add: analysis_only_def reject_def accept_def)

lemma analysis_only_cases:
  assumes "analysis_only res"
  obtains "res = Inr ()" | t where "res = Inl (AnalysisError t)"
  using assms by (cases res) (auto simp: analysis_only_def)

lemma all_loop_analysis_only:
  assumes "\<forall>e \<in> set es. \<forall>st p. check (edge_pred e) (edge_relation e) (edge_strength e) st = Some p \<longrightarrow> analysis_only (fst p)"
    and "all_aggregator_loop check g vald es unsat st = Some p"
  shows "analysis_only (fst p)"
  using assms
proof (induction es arbitrary: unsat st)
  case (Cons e es)
  obtain result st2 where call:
    "check (edge_pred e) (edge_relation e) (edge_strength e) (enter_node vald st) = Some (result, st2)"
    using Cons.prems(2) by (auto split: option.splits)
  with Cons.prems(1) have "analysis_only result" by (metis fst_conv list.set_intros(1))
  then show ?case
    using Cons.IH Cons.prems call
    by (cases rule: analysis_only_cases)
      (auto simp: Let_def split: option.splits relation_resolution.splits prod.splits)
qed auto

lemma any_loop_analysis_only:
  assumes "\<forall>e \<in> set es. \<forall>st p. check (edge_pred e) (edge_relation e) (edge_strength e) st = Some p \<longrightarrow> analysis_only (fst p)"
    and "any_aggregator_loop check g vald es unsat m st = Some p"
  shows "analysis_only (fst p)"
  using assms
proof (induction es arbitrary: unsat m st)
  case (Cons e es)
  obtain result st2 where call:
    "check (edge_pred e) (edge_relation e) (edge_strength e) (enter_node vald st) = Some (result, st2)"
    using Cons.prems(2) by (auto split: option.splits)
  with Cons.prems(1) have "analysis_only result" by (metis fst_conv list.set_intros(1))
  then show ?case
    using Cons.IH Cons.prems call
    by (cases rule: analysis_only_cases)
      (auto simp: Let_def split: option.splits relation_resolution.splits prod.splits)
qed auto

lemma context_analysis_only [simp]: "analysis_only (fst (context_analysis g i rel s ctx val st))"
  by (simp add: context_analysis_def Let_def)

lemma resolve_cycle_analysis_only [simp]: "analysis_only (fst (resolve_cycle g vald val st))"
  by (simp add: resolve_cycle_def split: option.splits)

lemma value_loop_analysis_only:
  assumes "\<forall>e \<in> set es. \<forall>st p. check (edge_pred e) (edge_relation e) (edge_strength e) st = Some p \<longrightarrow> analysis_only (fst p)"
    and "value_node_loop check g vald val es errs m st = Some p"
  shows "analysis_only (fst p)"
  using assms
proof (induction es arbitrary: errs m st)
  case (Cons e es)
  obtain result st2 where call:
    "check (edge_pred e) (edge_relation e) (edge_strength e) (enter_node vald st) = Some (result, st2)"
    using Cons.prems(2) by (auto split: option.splits)
  obtain rr st4 where rc: "resolve_cycle g vald val st2 = (rr, st4)" by fastforce
  have "analysis_only rr" using resolve_cycle_analysis_only [of g vald val st2] rc by simp
  moreover from call Cons.prems(1) have "analysis_only result" by (metis fst_conv list.set_intros(1))
  ultimately show ?case
    using Cons.IH Cons.prems call rc
    by (auto elim!: analysis_only_cases split: if_splits)
qed auto

lemma validate_in_analysis_only:
  "vs \<noteq> [] \<Longrightarrow> analysis_only (fst (validate_in_aggregator get_key g vald vs st))"
  by (cases vs) (auto simp: validate_in_aggregator_def Let_def split: option.splits)

lemma check_node_inner_analysis_only:
  assumes inv: "graph_inv get_key g" and "\<exists>nd. get_node (nodes g) i = Some nd"
    and "check_node_inner n get_key g ctx ds i r s st = Some p"
  shows "analysis_only (fst p)"
  using assms(2-)
proof (induction n arbitrary: i r s st p)
  case (Suc n)
  obtain nd where nd: "get_node (nodes g) i = Some nd" using Suc.prems(1) by blast
  let ?chk = "check_node_inner n get_key g ctx ds"
  obtain es where es: "get_predecessor_edges_by_domain g i ds = Inr es"
    and ends: "\<And>e. e \<in> set es \<Longrightarrow> e \<in> set (dm_data (edges g)) \<and> edge_succ e = i \<and> (\<exists>nd. get_node (nodes g) (edge_pred e) = Some nd)"
    using pred_edges [OF inv nd] by blast
  then have calls: "\<forall>e \<in> set es. \<forall>st p. ?chk (edge_pred e) (edge_relation e) (edge_strength e) st = Some p \<longrightarrow> analysis_only (fst p)"
    using Suc.IH by blast
  have ins: "vs \<noteq> []" if "node_type nd = InAggregator vs" for vs
    using that nd inv by (auto simp: graph_inv_def in_sets_ok_def dm_get_def dest: vec_get_set)
  show ?case
  proof (cases "memo st (i, r, s) = None \<and> cycle_map st i = None")
    case False
    with nd Suc.prems(2) show ?thesis
      by (auto simp: analysis_only_def map_err_def split: option.splits sum.splits)
  next
    case True
    show ?thesis
    proof (cases "node_type nd")
      case AllAggregator
      with True nd es Suc.prems(2) show ?thesis
        by (auto simp: Let_def validate_all_aggregator_def intro: all_loop_analysis_only [OF calls])
    next
      case AnyAggregator
      with True nd es Suc.prems(2) show ?thesis
        by (auto simp: Let_def validate_any_aggregator_def intro: any_loop_analysis_only [OF calls])
    next
      case (InAggregator vs)
      with True nd Suc.prems(2) validate_in_analysis_only [OF ins [OF InAggregator]] show ?thesis
        by (auto simp: Let_def)
    next
      case (ValueNode v)
      obtain r1 st1 where ca: "context_analysis g i r s ctx v st = (r1, st1)" by fastforce
      then have "analysis_only r1" by (metis context_analysis_only fst_conv)
      with ca ValueNode True nd es Suc.prems(2) show ?thesis
        by (auto simp: Let_def validate_value_node_def elim!: analysis_only_cases
            intro: value_loop_analysis_only [OF calls])
    qed
  qed
qed simp

subsection \<open>Truthful memo tables\<close>

definition wf_memo ::
  "('v \<Rightarrow> 'k) \<Rightarrow> ('v, 'k, 'm) constraint_graph \<Rightarrow> ('v, 'k) checking_context \<Rightarrow> domain_id list option
   \<Rightarrow> ('v, 'k, 'm) check_state \<Rightarrow> bool" where
  "wf_memo get_key g ctx ds st \<longleftrightarrow>
     cycle_map st = Map.empty \<and> memo_agrees (\<lambda>(i, r, s). satisfied get_key g ctx ds i r s) UNIV (memo st)"

subsection \<open>A concrete context\<close>

definition example_context :: "(nat, nat) checking_context" where
  "example_context =
     \<lparr>check_presence = (\<lambda>v s. v = ValueOf 11),
      get_values_by_key = (\<lambda>k. if k = 1 then Some [11] else None)\<rparr>"

lemma example_acyclic: "acyclic_by node_get_id (build example_builder)"
  by (simp add: acyclic_by_def example_edges)

lemma example_wf_memo: "wf_memo example_key (build example_builder) ctx None initial_state"
  by (simp add: wf_memo_def initial_state_def memo_agrees_def memo_new_def cycle_new_def)

lemma example_node_2:
  "get_node (nodes (build example_builder)) (NodeId 2) =
     Some \<lparr>node_type = AllAggregator, preds = [EdgeId 1, EdgeId 2], succs = []\<rparr>"
  by (simp add: dm_get_def vec_get_def example_nodes numeral_2_eq_2)

lemma example_node_1:
  "get_node (nodes (build example_builder)) (NodeId 1) =
     Some \<lparr>node_type = ValueNode (ValueOf 21), preds = [EdgeId 0], succs = [EdgeId 2]\<rparr>"
  by (simp add: dm_get_def vec_get_def example_nodes)

subsection \<open>Properties\<close>

lemma check_node_total: "\<exists>res st'. check_node get_key g ctx i r s domains st = Some (res, st')"
  using check_node_inner_fuel by (auto simp: check_node_def split: sum.split)

lemma check_node_answers:
  assumes "builder_reachable get_key b" and "g = build b" and "acyclic_by rank g"
    and "get_node (nodes g) i = Some nd"
    and "option_transpose (map_option (resolve_domains g) domains) = Inr ds"
    and "wf_memo get_key g ctx ds st"
  shows "\<exists>res st'. check_node get_key g ctx i r s domains st = Some (res, st')
    \<and> answers (satisfied get_key g ctx ds i r s) res \<and> wf_memo get_key g ctx ds st'"
proof -
  have inv: "graph_inv get_key g" using assms(1,2) by (simp add: build_inv reachable_inv)
  obtain res st' where run: "check_node_inner (check_fuel g) get_key g ctx ds i r s st = Some (res, st')"
    using check_node_inner_fuel by blast
  have "good_answer (\<lambda>(i, r, s). satisfied get_key g ctx ds i r s) UNIV (i, r, s) st (res, st')"
    by (rule check_node_inner_answer [OF inv assms(3) _ _ _ _ run])
      (use assms(4,6) in \<open>auto simp: wf_memo_def below_def\<close>)
  with run assms(5,6) show ?thesis
    by (auto simp: check_node_def good_answer_def wf_memo_def)
qed

text \<open>
  C1. The checker decides the constraint semantics. On a graph made by the builder whose edges
  ascend in some ranking of the nodes, \<open>check_node\<close> started with a truthful memo table (for
  instance an empty one) returns \<open>Ok\<close> exactly when the node is satisfied in the context for the
  requested domains and an analysis error otherwise, and hands back a truthful memo table and an
  empty cycle table, so any number of checks may share the table.
\<close>

theorem check_node_decides:
  assumes "builder_reachable get_key b" and "g = build b" and "acyclic_by rank g"
    and "get_node (nodes g) i = Some nd"
    and "option_transpose (map_option (resolve_domains g) domains) = Inr ds"
    and "wf_memo get_key g ctx ds st"
  shows "\<exists>res st'. check_node get_key g ctx i r s domains st = Some (res, st')
    \<and> answers (satisfied get_key g ctx ds i r s) res \<and> wf_memo get_key g ctx ds st'"
  using assms by (rule check_node_answers)

theorem check_node_decides_witness:
  "\<exists>res st'. check_node example_key (build example_builder) example_context (NodeId 2) Positive Strong None initial_state
       = Some (res, st')
     \<and> answers (satisfied example_key (build example_builder) example_context None (NodeId 2) Positive Strong) res
     \<and> wf_memo example_key (build example_builder) example_context None st'"
  by (rule check_node_decides [OF example_reachable refl example_acyclic example_node_2 _ example_wf_memo]) simp

text \<open>
  C2. On every graph made by the builder, cycles included, the checker answers a node of the graph
  with \<open>Ok\<close> or with an analysis error: a missing node, a missing edge or a malformed aggregator is
  never reported, whatever the memo and cycle tables hold.
\<close>

theorem check_node_only_analysis_errors:
  assumes "builder_reachable get_key b" and "get_node (nodes (build b)) i = Some nd"
    and "option_transpose (map_option (resolve_domains (build b)) domains) = Inr ds"
    and "check_node get_key (build b) ctx i r s domains st = Some (Inl e, st')"
  shows "\<exists>t. e = AnalysisError t"
proof -
  have "graph_inv get_key (build b)" using assms(1) by (simp add: build_inv reachable_inv)
  from check_node_inner_analysis_only [OF this] assms(2-) show ?thesis
    by (fastforce simp: check_node_def analysis_only_def)
qed

theorem check_node_only_analysis_errors_witness:
  "\<exists>e st' t. check_node example_key (build example_builder) example_context (NodeId 1) Positive Strong None initial_state
       = Some (Inl e, st') \<and> e = AnalysisError t"
proof -
  obtain e st' where run: "check_node example_key (build example_builder) example_context (NodeId 1) Positive Strong None
      initial_state = Some (Inl e, st')"
    by (simp add: check_node_def check_fuel_def example_node_1 [simplified] initial_state_def memo_new_def cycle_new_def
      validate_value_node_def context_analysis_def example_context_def reject_def Let_def)
  have "\<exists>t. e = AnalysisError t"
    by (rule check_node_only_analysis_errors [OF example_reachable example_node_1 _ run]) simp
  with run show ?thesis by blast
qed

text \<open>
  C3. The checker always returns: on every graph, consistent or not, cyclic or not, and with every
  memo and cycle table, the recursion ends within one call per node still outside the cycle table.
\<close>

theorem check_node_returns: "\<exists>res st'. check_node get_key g ctx i r s domains st = Some (res, st')"
  by (rule check_node_total)

end
