(* ===== verification/Cgraph_Combine.thy ===== *)
theory Cgraph_Combine
  imports Cgraph_Builder
begin

text \<open>
  \<open>ConstraintGraph::combine\<close> of \<open>hyperswitch_constraint_graph/src/graph.rs\<close>: the domains, the nodes and
  then the edges of both graphs are replayed into a fresh builder, value nodes and domains being
  shared by name. The table from old to new node identifiers, which the source fills by pushing
  the new identifier of each node in turn, is the dense map of the identifiers in that order. The
  lemmas show that the result is again a consistent graph and that combining two consistent
  graphs can only fail because both hold contradicting edges between the same nodes.
\<close>

definition add_domain ::
  "('v, 'k, 'm) constraint_graph_builder \<Rightarrow> domain_info
   \<Rightarrow> (('v, 'k, 'm) graph_error, domain_id, ('v, 'k, 'm) constraint_graph_builder) st_result" where
  "add_domain b d = make_domain b (domain_into_inner (info_domain_identifier d)) (info_domain_description d)"

definition add_node ::
  "('v \<Rightarrow> 'k) \<Rightarrow> ('v, 'k, 'm) constraint_graph_builder \<Rightarrow> ('v, 'k) node
   \<Rightarrow> (('v, 'k, 'm) graph_error, node_id, ('v, 'k, 'm) constraint_graph_builder) st_result" where
  "add_node get_key b nd =
     (case node_type nd of
        ValueNode node_value \<Rightarrow> (let (n, b') = make_value_node b node_value None None in (Inr n, b'))
      | AllAggregator \<Rightarrow> make_all_aggregator b [] None None None
      | AnyAggregator \<Rightarrow> make_any_aggregator b [] None None None
      | InAggregator expected \<Rightarrow> make_in_aggregator get_key b expected None None)"

definition add_combined_edge ::
  "('v, 'k, 'm) constraint_graph \<Rightarrow> node_id dense_map \<Rightarrow> ('v, 'k, 'm) constraint_graph_builder \<Rightarrow> edge
   \<Rightarrow> (('v, 'k, 'm) graph_error, edge_id, ('v, 'k, 'm) constraint_graph_builder) st_result" where
  "add_combined_edge g old2new_id b e =
     try_st b (ok_or (dm_get node_get_id old2new_id (edge_pred e)) NodeNotFound) (\<lambda>new_pred_id.
     try_st b (ok_or (dm_get node_get_id old2new_id (edge_succ e)) NodeNotFound) (\<lambda>new_succ_id.
     try_st b (option_transpose (map_option (\<lambda>d. ok_or (get_domain (domain g) d) DomainNotFound) (edge_domain e))) (\<lambda>d.
       make_edge b new_pred_id new_succ_id (edge_strength e) (edge_relation e)
         (map_option (\<lambda>i. ByDomainIdentifier (info_domain_identifier i)) d))))"

definition combine ::
  "('v \<Rightarrow> 'k) \<Rightarrow> ('v, 'k, 'm) constraint_graph \<Rightarrow> ('v, 'k, 'm) constraint_graph
   \<Rightarrow> ('v, 'k, 'm) graph_error + ('v, 'k, 'm) constraint_graph" where
  "combine get_key g1 g2 =
     (case run_all add_domain builder_new (map snd (dm_iter DomainId (domain g1))) of
        (Inl e, _) \<Rightarrow> Inl e
      | (Inr _, b1) \<Rightarrow>
     (case run_all add_domain b1 (map snd (dm_iter DomainId (domain g2))) of
        (Inl e, _) \<Rightarrow> Inl e
      | (Inr _, b2) \<Rightarrow>
     (case run_all (add_node get_key) b2 (map snd (dm_iter NodeId (nodes g1))) of
        (Inl e, _) \<Rightarrow> Inl e
      | (Inr ids1, b3) \<Rightarrow>
     (case run_all (add_node get_key) b3 (map snd (dm_iter NodeId (nodes g2))) of
        (Inl e, _) \<Rightarrow> Inl e
      | (Inr ids2, b4) \<Rightarrow>
     (case run_all (add_combined_edge g1 (dm_from_iter ids1)) b4 (dm_values (edges g1)) of
        (Inl e, _) \<Rightarrow> Inl e
      | (Inr _, b5) \<Rightarrow>
     (case run_all (add_combined_edge g2 (dm_from_iter ids2)) b5 (dm_values (edges g2)) of
        (Inl e, _) \<Rightarrow> Inl e
      | (Inr _, b6) \<Rightarrow> Inr (build b6)))))))"

subsection \<open>Each replayed item is a builder operation\<close>

lemma map_snd_iter [simp]: "map snd (dm_iter f m) = dm_data m"
  by (rule nth_equalityI) (simp_all add: dm_iter_def enumerate_eq_zip)

lemma add_node_inv:
  assumes "builder_inv get_key b"
  shows "builder_inv get_key (snd (add_node get_key b nd)) \<and> extends b (snd (add_node get_key b nd))"
  using assms
  by (simp add: add_node_def case_prod_beta make_value_node_inv make_value_node_extends
      make_all_aggregator_inv make_any_aggregator_inv make_in_aggregator_inv split: node_type.splits)

lemma add_combined_edge_inv:
  assumes "builder_inv get_key b"
  shows "builder_inv get_key (snd (add_combined_edge g m b e)) \<and> extends b (snd (add_combined_edge g m b e))"
  using assms make_edge_inv [OF assms]
  by (simp add: add_combined_edge_def try_st_def split: sum.splits)

interpretation add_domain_op: builder_operation get_key "\<lambda>b. add_domain b d" for get_key d
  by unfold_locales (simp_all add: add_domain_def make_domain_inv make_domain_extends)

interpretation add_node_op: builder_operation get_key "\<lambda>b. add_node get_key b nd" for get_key nd
  by unfold_locales (simp_all add: add_node_inv)

interpretation add_combined_edge_op: builder_operation get_key "\<lambda>b. add_combined_edge g m b e" for get_key g m e
  by unfold_locales (simp_all add: add_combined_edge_inv)

text \<open>What holds of a builder after the domains and nodes of a graph were replayed into it.\<close>

definition has_node :: "('v, 'k, 'm) constraint_graph_builder \<Rightarrow> node_id \<Rightarrow> bool" where
  "has_node b n \<longleftrightarrow> node_get_id n < length (dm_data (b_nodes b))"

definition has_domains :: "domain_info list \<Rightarrow> ('v, 'k, 'm) constraint_graph_builder \<Rightarrow> bool" where
  "has_domains ds b \<longleftrightarrow> (\<forall>d \<in> set ds. b_domain_identifier_map b (info_domain_identifier d) \<noteq> None)"

lemma has_node_extends: "extends b b' \<Longrightarrow> has_node b n \<Longrightarrow> has_node b' n"
  unfolding extends_def has_node_def by (metis length_append length_map trans_less_add1)

lemma domain_lookup_extends:
  assumes "builder_inv get_key b" "builder_inv get_key b'" "extends b b'"
    and "b_domain_identifier_map b i = Some d"
  shows "b_domain_identifier_map b' i = Some d"
proof -
  have ok: "domain_index_ok (b_domain_identifier_map b) (b_domain b)"
    "domain_index_ok (b_domain_identifier_map b') (b_domain b')"
    using assms(1,2) by (simp_all add: builder_inv_def)
  then obtain inf where inf: "get_domain (b_domain b) d = Some inf" "info_domain_identifier inf = i"
    using assms(4) domain_indexD by metis
  then have "get_domain (b_domain b') d = Some inf"
    using assms(3) by (auto simp: extends_def dm_get_def vec_get_Some nth_append)
  with ok(2) inf show ?thesis by (auto simp: domain_index_ok_def)
qed

lemma has_domains_extends:
  "builder_inv get_key b \<Longrightarrow> builder_inv get_key b' \<Longrightarrow> extends b b' \<Longrightarrow> has_domains ds b \<Longrightarrow> has_domains ds b'"
  unfolding has_domains_def by (metis domain_lookup_extends not_None_eq)

subsection \<open>The combined graph is consistent\<close>

lemma run_all_inv:
  assumes "\<And>b x. builder_inv get_key b \<Longrightarrow> builder_inv get_key (snd (body b x))"
    and "builder_inv get_key b" and "run_all body b xs = (r, b')"
  shows "builder_inv get_key b'"
  using run_all_invariant [where I = "builder_inv get_key" and body = body and s = b and xs = xs] assms
  by (metis snd_conv)

lemma combine_consistent:
  fixes g1 g2 :: "('v, 'k, 'm) constraint_graph"
  assumes "combine get_key g1 g2 = Inr g"
  shows "graph_inv get_key g"
proof -
  obtain r1 and b1 :: "('v, 'k, 'm) constraint_graph_builder" where 1: "run_all add_domain builder_new (dm_data (domain g1)) = (r1, b1)" by fastforce
  obtain r2 b2 where 2: "run_all add_domain b1 (dm_data (domain g2)) = (r2, b2)" by fastforce
  obtain r3 b3 where 3: "run_all (add_node get_key) b2 (dm_data (nodes g1)) = (r3, b3)" by fastforce
  obtain r4 b4 where 4: "run_all (add_node get_key) b3 (dm_data (nodes g2)) = (r4, b4)" by fastforce
  obtain r5 b5 where 5: "run_all (add_combined_edge g1 (dm_from_iter (projr r3))) b4 (dm_data (edges g1)) = (r5, b5)"
    by fastforce
  obtain r6 b6 where 6: "run_all (add_combined_edge g2 (dm_from_iter (projr r4))) b5 (dm_data (edges g2)) = (r6, b6)"
    by fastforce
  have "builder_inv get_key b2"
    using run_all_inv [OF add_domain_op.keeps_inv run_all_inv [OF add_domain_op.keeps_inv builder_new_inv 1] 2] .
  then have "builder_inv get_key b4"
    using run_all_inv [OF add_node_op.keeps_inv run_all_inv [OF add_node_op.keeps_inv _ 3] 4] by blast
  then have "builder_inv get_key b6"
    using run_all_inv [OF add_combined_edge_op.keeps_inv run_all_inv [OF add_combined_edge_op.keeps_inv _ 5] 6] by blast
  moreover have "g = build b6"
    using assms 1 2 3 4 5 6 by (auto simp: combine_def split: sum.splits prod.splits)
  ultimately show ?thesis by (simp add: build_inv)
qed

subsection \<open>When combining fails\<close>

lemma add_domain_ok:
  assumes "builder_inv get_key b"
  shows "\<exists>d b'. add_domain b dm = (Inr d, b') \<and> builder_inv get_key b' \<and> extends b b'
     \<and> b_domain_identifier_map b' (info_domain_identifier dm) \<noteq> None"
proof -
  obtain r b' where e: "add_domain b dm = (r, b')" by fastforce
  have "builder_inv get_key b'" "extends b b'"
    using add_domain_op.keeps_inv [OF assms, of dm] add_domain_op.grows [OF assms, of dm] e by simp_all
  moreover have "\<exists>d. r = Inr d" "b_domain_identifier_map b' (info_domain_identifier dm) \<noteq> None"
    using e by (auto simp: add_domain_def make_domain_def Let_def case_prod_beta split: option.splits)
  ultimately show ?thesis using e by blast
qed

lemma run_all_add_domain:
  assumes "builder_inv get_key b"
  shows "\<exists>rs b'. run_all add_domain b ds = (Inr rs, b') \<and> builder_inv get_key b' \<and> extends b b' \<and> has_domains ds b'"
  using assms
proof (induction ds arbitrary: b)
  case (Cons d ds)
  obtain r b1 where 1: "add_domain b d = (Inr r, b1)" "builder_inv get_key b1" "extends b b1"
    "b_domain_identifier_map b1 (info_domain_identifier d) \<noteq> None"
    using add_domain_ok [OF Cons.prems, of d] by blast
  obtain rs b2 where 2: "run_all add_domain b1 ds = (Inr rs, b2)" "builder_inv get_key b2" "extends b1 b2" "has_domains ds b2"
    using Cons.IH [OF 1(2)] by blast
  have "b_domain_identifier_map b2 (info_domain_identifier d) \<noteq> None"
    using domain_lookup_extends [OF 1(2) 2(2,3)] 1(4) by blast
  with 1 2 show ?case by (auto simp: has_domains_def intro: extends_trans)
qed (simp add: has_domains_def)

lemma add_node_ok:
  assumes inv: "builder_inv get_key b"
    and ins: "\<And>vs. node_type nd = InAggregator vs \<Longrightarrow> vs \<noteq> [] \<and> (\<forall>v \<in> set vs. get_key v = get_key (hd vs))"
  shows "\<exists>n b'. add_node get_key b nd = (Inr n, b') \<and> has_node b' n"
proof (cases "node_type nd")
  case (ValueNode v)
  have "has_node (snd (make_value_node b v None None)) (fst (make_value_node b v None None))"
  proof -
    have "b_value_map (snd (make_value_node b v None None)) v = Some (fst (make_value_node b v None None))"
      using make_value_node_lookup [of b v None None] by (metis prod.collapse)
    with make_value_node_inv [OF inv, of v None None] show ?thesis
      by (auto simp: builder_inv_def value_index_ok_def has_node_def dm_get_def vec_get_Some)
  qed
  with ValueNode show ?thesis by (simp add: add_node_def case_prod_beta)
next
  case (InAggregator vs)
  obtain v ws where vs: "vs = v # ws" using ins [OF InAggregator] by (cases vs) blast+
  have "\<not> (\<exists>x \<in> set vs. get_key x \<noteq> get_key v)"
    using ins [OF InAggregator] unfolding vs list.sel by blast
  then have "make_in_aggregator get_key b vs None None =
      (let (n, b') = push_node b (InAggregator (remdups vs)) None None in (Inr n, b'))"
    by (simp only: make_in_aggregator_def vs list.case Let_def if_False)
  with InAggregator show ?thesis
    by (simp add: add_node_def push_node_eq has_node_def)
next
  case AllAggregator
  then show ?thesis by (simp add: add_node_def make_all_aggregator_def push_node_eq has_node_def)
next
  case AnyAggregator
  then show ?thesis by (simp add: add_node_def make_any_aggregator_def push_node_eq has_node_def)
qed

lemma run_all_add_node:
  assumes inv: "builder_inv get_key b" and ins: "in_sets_ok get_key ns"
  shows "\<exists>ids b'. run_all (add_node get_key) b ns = (Inr ids, b') \<and> builder_inv get_key b' \<and> extends b b'
     \<and> length ids = length ns \<and> (\<forall>n \<in> set ids. has_node b' n)"
  using assms
proof (induction ns arbitrary: b)
  case (Cons nd ns)
  have "vs \<noteq> [] \<and> (\<forall>v \<in> set vs. get_key v = get_key (hd vs))" if "node_type nd = InAggregator vs" for vs
    using Cons.prems(2) [unfolded in_sets_ok_def, rule_format, OF list.set_intros(1) that] by blast
  from add_node_ok [OF Cons.prems(1) this] obtain n b1 where
    n: "add_node get_key b nd = (Inr n, b1)" "has_node b1 n" by blast
  have b1: "builder_inv get_key b1" "extends b b1"
    using add_node_inv [OF Cons.prems(1), of nd] n(1) by simp_all
  have "in_sets_ok get_key ns" using Cons.prems(2) unfolding in_sets_ok_def by (meson list.set_intros(2))
  from Cons.IH [OF b1(1) this] obtain ids b' where
    "run_all (add_node get_key) b1 ns = (Inr ids, b')" "builder_inv get_key b'" "extends b1 b'"
    "length ids = length ns" "\<forall>n \<in> set ids. has_node b' n" by blast
  with n b1 show ?case by (auto intro: extends_trans has_node_extends)
qed simp

lemma make_edge_error:
  assumes inv: "builder_inv get_key b" and "has_node b p" "has_node b s"
    and "\<And>d. dmn = Some d \<Longrightarrow> \<exists>i. d = ByDomainIdentifier i \<and> b_domain_identifier_map b i \<noteq> None"
    and err: "make_edge b p s st rel dmn = (Inl e, b')"
  shows "e = ConflictingEdgeCreated"
proof -
  obtain did where did: "option_transpose (map_option (resolve_domain b) dmn) = Inr did"
    using assms(4) by (cases dmn) (auto simp: resolve_domain_def retrieve_domain_from_identifier_def)
  have ends: "node_get_id p < length (dm_data (b_nodes b))" "node_get_id s < length (dm_data (b_nodes b))"
    using assms(2,3) by (simp_all add: has_node_def)
  with err did show ?thesis
    by (auto simp: make_edge_def add_edge_eq split: option.splits if_splits)
qed

lemma run_all_edges_error:
  assumes g: "graph_inv get_key g" and inv: "builder_inv get_key b"
    and ids: "length ids = length (dm_data (nodes g))" "\<forall>n \<in> set ids. has_node b n"
    and ds: "has_domains (dm_data (domain g)) b"
    and err: "run_all (add_combined_edge g (dm_from_iter ids)) b (dm_data (edges g)) = (Inl e, b')"
  shows "e = ConflictingEdgeCreated"
proof (rule run_all_error [where E = "\<lambda>e. e = ConflictingEdgeCreated" and s = b
      and I = "\<lambda>b. builder_inv get_key b \<and> (\<forall>n \<in> set ids. has_node b n) \<and> has_domains (dm_data (domain g)) b", OF _ _ _ err])
  show "builder_inv get_key b \<and> (\<forall>n \<in> set ids. has_node b n) \<and> has_domains (dm_data (domain g)) b"
    using inv ids ds by simp
next
  fix s x r s'
  assume i: "builder_inv get_key s \<and> (\<forall>n \<in> set ids. has_node s n) \<and> has_domains (dm_data (domain g)) s"
    and step: "add_combined_edge g (dm_from_iter ids) s x = (Inr r, s')"
  from add_combined_edge_inv [of get_key s g "dm_from_iter ids" x] i step
  have "builder_inv get_key s'" "extends s s'" by simp_all
  with i show "builder_inv get_key s' \<and> (\<forall>n \<in> set ids. has_node s' n) \<and> has_domains (dm_data (domain g)) s'"
    using has_node_extends has_domains_extends by blast
next
  fix s x e s'
  assume x: "x \<in> set (dm_data (edges g))"
    and i: "builder_inv get_key s \<and> (\<forall>n \<in> set ids. has_node s n) \<and> has_domains (dm_data (domain g)) s"
    and step: "add_combined_edge g (dm_from_iter ids) s x = (Inl e, s')"
  have ends: "node_get_id (edge_pred x) < length ids" "node_get_id (edge_succ x) < length ids"
    "\<And>d. edge_domain x = Some d \<Longrightarrow> domain_get_id d < length (dm_data (domain g))"
    using g x ids(1) by (auto simp: graph_inv_def edge_ends_ok_def)
  define dmn where "dmn = map_option (\<lambda>d. ByDomainIdentifier (info_domain_identifier (dm_data (domain g) ! domain_get_id d))) (edge_domain x)"
  have "make_edge s (ids ! node_get_id (edge_pred x)) (ids ! node_get_id (edge_succ x)) (edge_strength x) (edge_relation x) dmn = (Inl e, s')"
    using step ends
    by (cases "edge_domain x") (simp_all add: add_combined_edge_def dm_get_def vec_get_def dm_from_iter_def dmn_def)
  then show "e = ConflictingEdgeCreated"
  proof (rule make_edge_error [rotated 4])
    show "builder_inv get_key s" "has_node s (ids ! node_get_id (edge_pred x))" "has_node s (ids ! node_get_id (edge_succ x))"
      using i ends by auto
    show "\<exists>i. d = ByDomainIdentifier i \<and> b_domain_identifier_map s i \<noteq> None" if "dmn = Some d" for d
      using that i ends(3) by (auto simp: dmn_def has_domains_def)
  qed
qed

lemma combine_error:
  fixes g1 g2 :: "('v, 'k, 'm) constraint_graph"
  assumes g1: "graph_inv get_key g1" and g2: "graph_inv get_key g2" and err: "combine get_key g1 g2 = Inl e"
  shows "e = ConflictingEdgeCreated"
proof -
  obtain r1 and b1 :: "('v, 'k, 'm) constraint_graph_builder" where 1: "run_all add_domain builder_new (dm_data (domain g1)) = (Inr r1, b1)"
    "builder_inv get_key b1" "has_domains (dm_data (domain g1)) b1"
    using run_all_add_domain [OF builder_new_inv] by blast
  obtain r2 b2 where 2: "run_all add_domain b1 (dm_data (domain g2)) = (Inr r2, b2)"
    "builder_inv get_key b2" "extends b1 b2" "has_domains (dm_data (domain g2)) b2"
    using run_all_add_domain [OF 1(2)] by blast
  obtain ids1 b3 where 3: "run_all (add_node get_key) b2 (dm_data (nodes g1)) = (Inr ids1, b3)"
    "builder_inv get_key b3" "extends b2 b3" "length ids1 = length (dm_data (nodes g1))" "\<forall>n \<in> set ids1. has_node b3 n"
    using run_all_add_node [OF 2(2)] g1 unfolding graph_inv_def by blast
  obtain ids2 b4 where 4: "run_all (add_node get_key) b3 (dm_data (nodes g2)) = (Inr ids2, b4)"
    "builder_inv get_key b4" "extends b3 b4" "length ids2 = length (dm_data (nodes g2))" "\<forall>n \<in> set ids2. has_node b4 n"
    using run_all_add_node [OF 3(2)] g2 unfolding graph_inv_def by blast
  have n1: "\<forall>n \<in> set ids1. has_node b4 n" using 3(5) 4(3) has_node_extends by blast
  have d: "has_domains (dm_data (domain g1)) b4" "has_domains (dm_data (domain g2)) b4"
    using 1 2 3 4 has_domains_extends by (meson extends_trans)+
  obtain r5 b5 where 5: "run_all (add_combined_edge g1 (dm_from_iter ids1)) b4 (dm_data (edges g1)) = (r5, b5)" by fastforce
  have b5: "builder_inv get_key b5 \<and> extends b4 b5"
  proof -
    have "builder_inv get_key (snd (run_all (add_combined_edge g1 (dm_from_iter ids1)) b4 (dm_data (edges g1)))) \<and>
      extends b4 (snd (run_all (add_combined_edge g1 (dm_from_iter ids1)) b4 (dm_data (edges g1))))"
      by (rule run_all_invariant) (use 4(2) add_combined_edge_inv extends_trans extends_refl in blast)+
    with 5 show ?thesis by simp
  qed
  obtain r6 b6 where 6: "run_all (add_combined_edge g2 (dm_from_iter ids2)) b5 (dm_data (edges g2)) = (r6, b6)" by fastforce
  have "r5 = Inl e \<or> r6 = Inl e"
    using err 1(1) 2(1) 3(1) 4(1) 5 6 by (auto simp: combine_def split: sum.splits)
  then show ?thesis
  proof
    assume "r5 = Inl e"
    with 5 run_all_edges_error [OF g1 4(2) 3(4) n1 d(1)] show ?thesis by blast
  next
    assume "r6 = Inl e"
    moreover have "\<forall>n \<in> set ids2. has_node b5 n" "has_domains (dm_data (domain g2)) b5"
      using 4 b5 d has_node_extends has_domains_extends by blast+
    ultimately show ?thesis using 6 run_all_edges_error [OF g2 _ 4(4)] b5 by blast
  qed
qed

subsection \<open>Properties\<close>

text \<open>
  C9. Combining two graphs made by the builder either gives a graph whose tables again agree (so it
  can be checked, combined and serialised like any other) or fails because the two hold edges
  of different strength or relation between the same nodes; no other error comes up.
\<close>

theorem combine_consistent_or_conflict:
  assumes "builder_reachable get_key b1" and "builder_reachable get_key b2"
  shows "(\<exists>g. combine get_key (build b1) (build b2) = Inr g \<and> graph_inv get_key g)
    \<or> combine get_key (build b1) (build b2) = Inl ConflictingEdgeCreated"
proof (cases "combine get_key (build b1) (build b2)")
  case (Inl e)
  with combine_error [of get_key "build b1" "build b2" e] assms show ?thesis
    by (simp add: build_inv reachable_inv)
next
  case (Inr g)
  with combine_consistent [of get_key "build b1" "build b2" g] show ?thesis by simp
qed

lemma example_combined:
  "combine example_key (build example_values) (build example_values) = Inr (build example_values)"
  by (simp add: combine_def add_node_def add_combined_edge_def dm_iter_def dm_values_def dm_from_iter_def example_eval)

theorem combine_consistent_or_conflict_witness:
  "combine example_key (build example_values) (build example_values) = Inr (build example_values)
   \<and> graph_inv example_key (build example_values)"
  using combine_consistent_or_conflict [OF example_values_reachable example_values_reachable] example_combined
  by auto

end
