(* ===== verification/Euclid_Enums.thy ===== *)
theory Euclid_Enums
  imports Prelude
begin

text \<open>
  The enumerations the routing language talks about: those of
  \<open>euclid/src/frontend/dir/enums.rs\<close> and \<open>euclid/src/enums.rs\<close> and the ones both take from
  \<open>common_enums\<close>, in the version 1 build without the optional features. A Rust variant
  \<open>CardType::Credit\<close> is the constructor \<open>CardType_Credit\<close>; \<open>X_iter\<close> is what the derived iterator of
  \<open>X\<close> yields, the variants in the order of their declaration. The 121 payment method types are
  divided, in that order, over four enumerations, because the cost of a datatype is quadratic in
  its constructors. Currencies, countries and routable connectors, of which the code only uses
  equality and iteration, are the types of their variant names: \<open>currency\<close> has exactly the elements
  \<open>cur v\<close> for the names \<open>v\<close> in \<open>currency_variants\<close>.
\<close>

subsection \<open>Enumerations with constructors\<close>

datatype (plugins only: code size) payment_method =
    PaymentMethod_Card | PaymentMethod_CardRedirect | PaymentMethod_PayLater | PaymentMethod_Wallet |
    PaymentMethod_BankRedirect | PaymentMethod_BankTransfer | PaymentMethod_Crypto |
    PaymentMethod_BankDebit | PaymentMethod_Reward | PaymentMethod_RealTimePayment | PaymentMethod_Upi |
    PaymentMethod_Voucher | PaymentMethod_GiftCard | PaymentMethod_OpenBanking |
    PaymentMethod_MobilePayment | PaymentMethod_NetworkToken

definition payment_method_iter :: "payment_method list" where
  "payment_method_iter =
    [PaymentMethod_Card, PaymentMethod_CardRedirect, PaymentMethod_PayLater, PaymentMethod_Wallet,
    PaymentMethod_BankRedirect, PaymentMethod_BankTransfer, PaymentMethod_Crypto, PaymentMethod_BankDebit,
    PaymentMethod_Reward, PaymentMethod_RealTimePayment, PaymentMethod_Upi, PaymentMethod_Voucher,
    PaymentMethod_GiftCard, PaymentMethod_OpenBanking, PaymentMethod_MobilePayment,
    PaymentMethod_NetworkToken]"

lemma set_payment_method_iter [simp]: "set payment_method_iter = UNIV"
  unfolding payment_method_iter_def by (auto intro: payment_method.exhaust)

datatype (plugins only: code size) card_type =
    CardType_Credit | CardType_Debit

definition card_type_iter :: "card_type list" where
  "card_type_iter =
    [CardType_Credit, CardType_Debit]"

lemma set_card_type_iter [simp]: "set card_type_iter = UNIV"
  unfolding card_type_iter_def by (auto intro: card_type.exhaust)

datatype (plugins only: code size) card_network =
    CardNetwork_Visa | CardNetwork_Mastercard | CardNetwork_AmericanExpress | CardNetwork_JCB |
    CardNetwork_DinersClub | CardNetwork_Discover | CardNetwork_CartesBancaires | CardNetwork_UnionPay |
    CardNetwork_Interac | CardNetwork_RuPay | CardNetwork_Maestro | CardNetwork_Star | CardNetwork_Pulse |
    CardNetwork_Accel | CardNetwork_Nyce | CardNetwork_Prop | CardNetwork_PrivateLabel |
    CardNetwork_Dinacard

definition card_network_iter :: "card_network list" where
  "card_network_iter =
    [CardNetwork_Visa, CardNetwork_Mastercard, CardNetwork_AmericanExpress, CardNetwork_JCB,
    CardNetwork_DinersClub, CardNetwork_Discover, CardNetwork_CartesBancaires, CardNetwork_UnionPay,
    CardNetwork_Interac, CardNetwork_RuPay, CardNetwork_Maestro, CardNetwork_Star, CardNetwork_Pulse,
    CardNetwork_Accel, CardNetwork_Nyce, CardNetwork_Prop, CardNetwork_PrivateLabel, CardNetwork_Dinacard]"

lemma set_card_network_iter [simp]: "set card_network_iter = UNIV"
  unfolding card_network_iter_def by (auto intro: card_network.exhaust)

datatype (plugins only: code size) pay_later_type =
    PayLaterType_Affirm | PayLaterType_AfterpayClearpay | PayLaterType_Alma | PayLaterType_Klarna |
    PayLaterType_PayBright | PayLaterType_Walley | PayLaterType_Flexiti | PayLaterType_Atome |
    PayLaterType_Breadpay | PayLaterType_Payjustnow

definition pay_later_type_iter :: "pay_later_type list" where
  "pay_later_type_iter =
    [PayLaterType_Affirm, PayLaterType_AfterpayClearpay, PayLaterType_Alma, PayLaterType_Klarna,
    PayLaterType_PayBright, PayLaterType_Walley, PayLaterType_Flexiti, PayLaterType_Atome,
    PayLaterType_Breadpay, PayLaterType_Payjustnow]"

lemma set_pay_later_type_iter [simp]: "set pay_later_type_iter = UNIV"
  unfolding pay_later_type_iter_def by (auto intro: pay_later_type.exhaust)

datatype (plugins only: code size) wallet_type =
    WalletType_Bluecode | WalletType_GooglePay | WalletType_AmazonPay | WalletType_Skrill |
    WalletType_Paysera | WalletType_ApplePay | WalletType_Paypal | WalletType_AliPay |
    WalletType_AliPayHk | WalletType_MbWay | WalletType_MobilePay | WalletType_WeChatPay |
    WalletType_SamsungPay | WalletType_GoPay | WalletType_KakaoPay | WalletType_Twint | WalletType_Gcash |
    WalletType_Vipps | WalletType_Momo | WalletType_Dana | WalletType_TouchNGo | WalletType_Swish |
    WalletType_Cashapp | WalletType_Venmo | WalletType_Mifinity | WalletType_Paze | WalletType_RevolutPay

definition wallet_type_iter :: "wallet_type list" where
  "wallet_type_iter =
    [WalletType_Bluecode, WalletType_GooglePay, WalletType_AmazonPay, WalletType_Skrill,
    WalletType_Paysera, WalletType_ApplePay, WalletType_Paypal, WalletType_AliPay, WalletType_AliPayHk,
    WalletType_MbWay, WalletType_MobilePay, WalletType_WeChatPay, WalletType_SamsungPay, WalletType_GoPay,
    WalletType_KakaoPay, WalletType_Twint, WalletType_Gcash, WalletType_Vipps, WalletType_Momo,
    WalletType_Dana, WalletType_TouchNGo, WalletType_Swish, WalletType_Cashapp, WalletType_Venmo,
    WalletType_Mifinity, WalletType_Paze, WalletType_RevolutPay]"

lemma set_wallet_type_iter [simp]: "set wallet_type_iter = UNIV"
  unfolding wallet_type_iter_def by (auto intro: wallet_type.exhaust)

datatype (plugins only: code size) voucher_type =
    VoucherType_Boleto | VoucherType_Efecty | VoucherType_PagoEfectivo | VoucherType_RedCompra |
    VoucherType_RedPagos | VoucherType_Alfamart | VoucherType_Indomaret | VoucherType_SevenEleven |
    VoucherType_Lawson | VoucherType_MiniStop | VoucherType_FamilyMart | VoucherType_Seicomart |
    VoucherType_PayEasy | VoucherType_Oxxo

definition voucher_type_iter :: "voucher_type list" where
  "voucher_type_iter =
    [VoucherType_Boleto, VoucherType_Efecty, VoucherType_PagoEfectivo, VoucherType_RedCompra,
    VoucherType_RedPagos, VoucherType_Alfamart, VoucherType_Indomaret, VoucherType_SevenEleven,
    VoucherType_Lawson, VoucherType_MiniStop, VoucherType_FamilyMart, VoucherType_Seicomart,
    VoucherType_PayEasy, VoucherType_Oxxo]"

lemma set_voucher_type_iter [simp]: "set voucher_type_iter = UNIV"
  unfolding voucher_type_iter_def by (auto intro: voucher_type.exhaust)

datatype (plugins only: code size) bank_redirect_type =
    BankRedirectType_Bizum | BankRedirectType_Giropay | BankRedirectType_Ideal | BankRedirectType_Sofort |
    BankRedirectType_Eft | BankRedirectType_Eps | BankRedirectType_BancontactCard | BankRedirectType_Blik |
    BankRedirectType_Interac | BankRedirectType_LocalBankRedirect |
    BankRedirectType_OnlineBankingCzechRepublic | BankRedirectType_OnlineBankingFinland |
    BankRedirectType_OnlineBankingPoland | BankRedirectType_OnlineBankingSlovakia |
    BankRedirectType_OnlineBankingFpx | BankRedirectType_OnlineBankingThailand |
    BankRedirectType_OpenBankingUk | BankRedirectType_Przelewy24 | BankRedirectType_Trustly |
    BankRedirectType_OpenBanking

definition bank_redirect_type_iter :: "bank_redirect_type list" where
  "bank_redirect_type_iter =
    [BankRedirectType_Bizum, BankRedirectType_Giropay, BankRedirectType_Ideal, BankRedirectType_Sofort,
    BankRedirectType_Eft, BankRedirectType_Eps, BankRedirectType_BancontactCard, BankRedirectType_Blik,
    BankRedirectType_Interac, BankRedirectType_LocalBankRedirect,
    BankRedirectType_OnlineBankingCzechRepublic, BankRedirectType_OnlineBankingFinland,
    BankRedirectType_OnlineBankingPoland, BankRedirectType_OnlineBankingSlovakia,
    BankRedirectType_OnlineBankingFpx, BankRedirectType_OnlineBankingThailand,
    BankRedirectType_OpenBankingUk, BankRedirectType_Przelewy24, BankRedirectType_Trustly,
    BankRedirectType_OpenBanking]"

lemma set_bank_redirect_type_iter [simp]: "set bank_redirect_type_iter = UNIV"
  unfolding bank_redirect_type_iter_def by (auto intro: bank_redirect_type.exhaust)

datatype (plugins only: code size) open_banking_type =
    OpenBankingType_OpenBankingPIS

definition open_banking_type_iter :: "open_banking_type list" where
  "open_banking_type_iter =
    [OpenBankingType_OpenBankingPIS]"

lemma set_open_banking_type_iter [simp]: "set open_banking_type_iter = UNIV"
  unfolding open_banking_type_iter_def by (auto intro: open_banking_type.exhaust)

datatype (plugins only: code size) bank_transfer_type =
    BankTransferType_Multibanco | BankTransferType_Ach | BankTransferType_SepaBankTransfer |
    BankTransferType_Bacs | BankTransferType_BcaBankTransfer | BankTransferType_BniVa |
    BankTransferType_BriVa | BankTransferType_CimbVa | BankTransferType_DanamonVa |
    BankTransferType_MandiriVa | BankTransferType_PermataBankTransfer | BankTransferType_Pix |
    BankTransferType_PixKey | BankTransferType_PixEmv | BankTransferType_PixQr |
    BankTransferType_PixAutomaticoPush | BankTransferType_PixAutomaticoQr | BankTransferType_Pse |
    BankTransferType_LocalBankTransfer | BankTransferType_InstantBankTransfer |
    BankTransferType_InstantBankTransferFinland | BankTransferType_InstantBankTransferPoland |
    BankTransferType_IndonesianBankTransfer

definition bank_transfer_type_iter :: "bank_transfer_type list" where
  "bank_transfer_type_iter =
    [BankTransferType_Multibanco, BankTransferType_Ach, BankTransferType_SepaBankTransfer,
    BankTransferType_Bacs, BankTransferType_BcaBankTransfer, BankTransferType_BniVa,
    BankTransferType_BriVa, BankTransferType_CimbVa, BankTransferType_DanamonVa,
    BankTransferType_MandiriVa, BankTransferType_PermataBankTransfer, BankTransferType_Pix,
    BankTransferType_PixKey, BankTransferType_PixEmv, BankTransferType_PixQr,
    BankTransferType_PixAutomaticoPush, BankTransferType_PixAutomaticoQr, BankTransferType_Pse,
    BankTransferType_LocalBankTransfer, BankTransferType_InstantBankTransfer,
    BankTransferType_InstantBankTransferFinland, BankTransferType_InstantBankTransferPoland,
    BankTransferType_IndonesianBankTransfer]"

lemma set_bank_transfer_type_iter [simp]: "set bank_transfer_type_iter = UNIV"
  unfolding bank_transfer_type_iter_def by (auto intro: bank_transfer_type.exhaust)

datatype (plugins only: code size) gift_card_type =
    GiftCardType_PaySafeCard | GiftCardType_Givex | GiftCardType_BhnCardNetwork

definition gift_card_type_iter :: "gift_card_type list" where
  "gift_card_type_iter =
    [GiftCardType_PaySafeCard, GiftCardType_Givex, GiftCardType_BhnCardNetwork]"

lemma set_gift_card_type_iter [simp]: "set gift_card_type_iter = UNIV"
  unfolding gift_card_type_iter_def by (auto intro: gift_card_type.exhaust)

datatype (plugins only: code size) card_redirect_type =
    CardRedirectType_Benefit | CardRedirectType_Knet | CardRedirectType_MomoAtm |
    CardRedirectType_CardRedirect

definition card_redirect_type_iter :: "card_redirect_type list" where
  "card_redirect_type_iter =
    [CardRedirectType_Benefit, CardRedirectType_Knet, CardRedirectType_MomoAtm,
    CardRedirectType_CardRedirect]"

lemma set_card_redirect_type_iter [simp]: "set card_redirect_type_iter = UNIV"
  unfolding card_redirect_type_iter_def by (auto intro: card_redirect_type.exhaust)

datatype (plugins only: code size) mobile_payment_type =
    MobilePaymentType_DirectCarrierBilling

definition mobile_payment_type_iter :: "mobile_payment_type list" where
  "mobile_payment_type_iter =
    [MobilePaymentType_DirectCarrierBilling]"

lemma set_mobile_payment_type_iter [simp]: "set mobile_payment_type_iter = UNIV"
  unfolding mobile_payment_type_iter_def by (auto intro: mobile_payment_type.exhaust)

datatype (plugins only: code size) network_token_type =
    NetworkTokenType_NetworkToken

definition network_token_type_iter :: "network_token_type list" where
  "network_token_type_iter =
    [NetworkTokenType_NetworkToken]"

lemma set_network_token_type_iter [simp]: "set network_token_type_iter = UNIV"
  unfolding network_token_type_iter_def by (auto intro: network_token_type.exhaust)

datatype (plugins only: code size) crypto_type =
    CryptoType_CryptoCurrency

definition crypto_type_iter :: "crypto_type list" where
  "crypto_type_iter =
    [CryptoType_CryptoCurrency]"

lemma set_crypto_type_iter [simp]: "set crypto_type_iter = UNIV"
  unfolding crypto_type_iter_def by (auto intro: crypto_type.exhaust)

datatype (plugins only: code size) real_time_payment_type =
    RealTimePaymentType_Fps | RealTimePaymentType_DuitNow | RealTimePaymentType_PromptPay |
    RealTimePaymentType_VietQr | RealTimePaymentType_Qris

definition real_time_payment_type_iter :: "real_time_payment_type list" where
  "real_time_payment_type_iter =
    [RealTimePaymentType_Fps, RealTimePaymentType_DuitNow, RealTimePaymentType_PromptPay,
    RealTimePaymentType_VietQr, RealTimePaymentType_Qris]"

lemma set_real_time_payment_type_iter [simp]: "set real_time_payment_type_iter = UNIV"
  unfolding real_time_payment_type_iter_def by (auto intro: real_time_payment_type.exhaust)

datatype (plugins only: code size) upi_type =
    UpiType_UpiCollect | UpiType_UpiIntent | UpiType_UpiQr

definition upi_type_iter :: "upi_type list" where
  "upi_type_iter =
    [UpiType_UpiCollect, UpiType_UpiIntent, UpiType_UpiQr]"

lemma set_upi_type_iter [simp]: "set upi_type_iter = UNIV"
  unfolding upi_type_iter_def by (auto intro: upi_type.exhaust)

datatype (plugins only: code size) bank_debit_type =
    BankDebitType_Ach | BankDebitType_EftDebitOrder | BankDebitType_Sepa |
    BankDebitType_SepaGuarenteedDebit | BankDebitType_Bacs | BankDebitType_Becs

definition bank_debit_type_iter :: "bank_debit_type list" where
  "bank_debit_type_iter =
    [BankDebitType_Ach, BankDebitType_EftDebitOrder, BankDebitType_Sepa, BankDebitType_SepaGuarenteedDebit,
    BankDebitType_Bacs, BankDebitType_Becs]"

lemma set_bank_debit_type_iter [simp]: "set bank_debit_type_iter = UNIV"
  unfolding bank_debit_type_iter_def by (auto intro: bank_debit_type.exhaust)

datatype (plugins only: code size) reward_type =
    RewardType_ClassicReward | RewardType_Evoucher

definition reward_type_iter :: "reward_type list" where
  "reward_type_iter =
    [RewardType_ClassicReward, RewardType_Evoucher]"

lemma set_reward_type_iter [simp]: "set reward_type_iter = UNIV"
  unfolding reward_type_iter_def by (auto intro: reward_type.exhaust)

datatype (plugins only: code size) transaction_initiator =
    TransactionInitiator_Customer | TransactionInitiator_Merchant

definition transaction_initiator_iter :: "transaction_initiator list" where
  "transaction_initiator_iter =
    [TransactionInitiator_Customer, TransactionInitiator_Merchant]"

lemma set_transaction_initiator_iter [simp]: "set transaction_initiator_iter = UNIV"
  unfolding transaction_initiator_iter_def by (auto intro: transaction_initiator.exhaust)

datatype (plugins only: code size) customer_device_platform =
    CustomerDevicePlatform_Web | CustomerDevicePlatform_Android | CustomerDevicePlatform_Ios

definition customer_device_platform_iter :: "customer_device_platform list" where
  "customer_device_platform_iter =
    [CustomerDevicePlatform_Web, CustomerDevicePlatform_Android, CustomerDevicePlatform_Ios]"

lemma set_customer_device_platform_iter [simp]: "set customer_device_platform_iter = UNIV"
  unfolding customer_device_platform_iter_def by (auto intro: customer_device_platform.exhaust)

datatype (plugins only: code size) customer_device_type =
    CustomerDeviceType_Mobile | CustomerDeviceType_Tablet | CustomerDeviceType_Desktop |
    CustomerDeviceType_GamingConsole

definition customer_device_type_iter :: "customer_device_type list" where
  "customer_device_type_iter =
    [CustomerDeviceType_Mobile, CustomerDeviceType_Tablet, CustomerDeviceType_Desktop,
    CustomerDeviceType_GamingConsole]"

lemma set_customer_device_type_iter [simp]: "set customer_device_type_iter = UNIV"
  unfolding customer_device_type_iter_def by (auto intro: customer_device_type.exhaust)

datatype (plugins only: code size) customer_device_display_size =
    CustomerDeviceDisplaySize_Size320x568 | CustomerDeviceDisplaySize_Size375x667 |
    CustomerDeviceDisplaySize_Size390x844 | CustomerDeviceDisplaySize_Size414x896 |
    CustomerDeviceDisplaySize_Size428x926 | CustomerDeviceDisplaySize_Size768x1024 |
    CustomerDeviceDisplaySize_Size834x1112 | CustomerDeviceDisplaySize_Size834x1194 |
    CustomerDeviceDisplaySize_Size1024x1366 | CustomerDeviceDisplaySize_Size1280x720 |
    CustomerDeviceDisplaySize_Size1366x768 | CustomerDeviceDisplaySize_Size1440x900 |
    CustomerDeviceDisplaySize_Size1920x1080 | CustomerDeviceDisplaySize_Size2560x1440 |
    CustomerDeviceDisplaySize_Size3840x2160 | CustomerDeviceDisplaySize_Size500x600 |
    CustomerDeviceDisplaySize_Size600x400 | CustomerDeviceDisplaySize_Size360x640 |
    CustomerDeviceDisplaySize_Size412x915 | CustomerDeviceDisplaySize_Size800x1280

definition customer_device_display_size_iter :: "customer_device_display_size list" where
  "customer_device_display_size_iter =
    [CustomerDeviceDisplaySize_Size320x568, CustomerDeviceDisplaySize_Size375x667,
    CustomerDeviceDisplaySize_Size390x844, CustomerDeviceDisplaySize_Size414x896,
    CustomerDeviceDisplaySize_Size428x926, CustomerDeviceDisplaySize_Size768x1024,
    CustomerDeviceDisplaySize_Size834x1112, CustomerDeviceDisplaySize_Size834x1194,
    CustomerDeviceDisplaySize_Size1024x1366, CustomerDeviceDisplaySize_Size1280x720,
    CustomerDeviceDisplaySize_Size1366x768, CustomerDeviceDisplaySize_Size1440x900,
    CustomerDeviceDisplaySize_Size1920x1080, CustomerDeviceDisplaySize_Size2560x1440,
    CustomerDeviceDisplaySize_Size3840x2160, CustomerDeviceDisplaySize_Size500x600,
    CustomerDeviceDisplaySize_Size600x400, CustomerDeviceDisplaySize_Size360x640,
    CustomerDeviceDisplaySize_Size412x915, CustomerDeviceDisplaySize_Size800x1280]"

lemma set_customer_device_display_size_iter [simp]: "set customer_device_display_size_iter = UNIV"
  unfolding customer_device_display_size_iter_def by (auto intro: customer_device_display_size.exhaust)

datatype (plugins only: code size) mandate_acceptance_type =
    MandateAcceptanceType_Online | MandateAcceptanceType_Offline

definition mandate_acceptance_type_iter :: "mandate_acceptance_type list" where
  "mandate_acceptance_type_iter =
    [MandateAcceptanceType_Online, MandateAcceptanceType_Offline]"

lemma set_mandate_acceptance_type_iter [simp]: "set mandate_acceptance_type_iter = UNIV"
  unfolding mandate_acceptance_type_iter_def by (auto intro: mandate_acceptance_type.exhaust)

datatype (plugins only: code size) payment_type =
    PaymentType_SetupMandate | PaymentType_NonMandate | PaymentType_NewMandate |
    PaymentType_UpdateMandate | PaymentType_PptMandate

definition payment_type_iter :: "payment_type list" where
  "payment_type_iter =
    [PaymentType_SetupMandate, PaymentType_NonMandate, PaymentType_NewMandate, PaymentType_UpdateMandate,
    PaymentType_PptMandate]"

lemma set_payment_type_iter [simp]: "set payment_type_iter = UNIV"
  unfolding payment_type_iter_def by (auto intro: payment_type.exhaust)

datatype (plugins only: code size) mandate_type =
    MandateType_SingleUse | MandateType_MultiUse

definition mandate_type_iter :: "mandate_type list" where
  "mandate_type_iter =
    [MandateType_SingleUse, MandateType_MultiUse]"

lemma set_mandate_type_iter [simp]: "set mandate_type_iter = UNIV"
  unfolding mandate_type_iter_def by (auto intro: mandate_type.exhaust)

datatype (plugins only: code size) authentication_type =
    AuthenticationType_ThreeDs | AuthenticationType_NoThreeDs

definition authentication_type_iter :: "authentication_type list" where
  "authentication_type_iter =
    [AuthenticationType_ThreeDs, AuthenticationType_NoThreeDs]"

lemma set_authentication_type_iter [simp]: "set authentication_type_iter = UNIV"
  unfolding authentication_type_iter_def by (auto intro: authentication_type.exhaust)

datatype (plugins only: code size) capture_method =
    CaptureMethod_Automatic | CaptureMethod_Manual | CaptureMethod_ManualMultiple |
    CaptureMethod_Scheduled | CaptureMethod_SequentialAutomatic

definition capture_method_iter :: "capture_method list" where
  "capture_method_iter =
    [CaptureMethod_Automatic, CaptureMethod_Manual, CaptureMethod_ManualMultiple, CaptureMethod_Scheduled,
    CaptureMethod_SequentialAutomatic]"

lemma set_capture_method_iter [simp]: "set capture_method_iter = UNIV"
  unfolding capture_method_iter_def by (auto intro: capture_method.exhaust)

datatype (plugins only: code size) setup_future_usage =
    SetupFutureUsage_OffSession | SetupFutureUsage_OnSession

definition setup_future_usage_iter :: "setup_future_usage list" where
  "setup_future_usage_iter =
    [SetupFutureUsage_OffSession, SetupFutureUsage_OnSession]"

lemma set_setup_future_usage_iter [simp]: "set setup_future_usage_iter = UNIV"
  unfolding setup_future_usage_iter_def by (auto intro: setup_future_usage.exhaust)

datatype (plugins only: code size) card_discovery =
    CardDiscovery_Manual | CardDiscovery_SavedCard | CardDiscovery_ClickToPay

definition card_discovery_iter :: "card_discovery list" where
  "card_discovery_iter =
    [CardDiscovery_Manual, CardDiscovery_SavedCard, CardDiscovery_ClickToPay]"

lemma set_card_discovery_iter [simp]: "set card_discovery_iter = UNIV"
  unfolding card_discovery_iter_def by (auto intro: card_discovery.exhaust)

subsection \<open>Enumerations by variant name\<close>

datatype (plugins only: code size) pmt_part1 =
    PMT_Ach | PMT_Affirm | PMT_AfterpayClearpay | PMT_Alfamart | PMT_AliPay | PMT_AliPayHk | PMT_Alma |
    PMT_AmazonPay | PMT_Paysera | PMT_ApplePay | PMT_Atome | PMT_Bacs | PMT_BancontactCard | PMT_Becs |
    PMT_Benefit | PMT_Bizum | PMT_Blik | PMT_Bluecode | PMT_Boleto | PMT_BcaBankTransfer | PMT_BniVa |
    PMT_Breadpay | PMT_BriVa | PMT_BhnCardNetwork | PMT_CardRedirect | PMT_CimbVa | PMT_ClassicReward |
    PMT_Credit | PMT_CryptoCurrency | PMT_Cashapp | PMT_Dana

datatype (plugins only: code size) pmt_part2 =
    PMT_DanamonVa | PMT_Debit | PMT_DuitNow | PMT_Efecty | PMT_Eft | PMT_EftDebitOrder | PMT_Eps |
    PMT_Flexiti | PMT_Fps | PMT_Evoucher | PMT_Giropay | PMT_Givex | PMT_GooglePay | PMT_GoPay |
    PMT_Gcash | PMT_Ideal | PMT_Interac | PMT_Indomaret | PMT_Klarna | PMT_KakaoPay |
    PMT_LocalBankRedirect | PMT_MandiriVa | PMT_Knet | PMT_MbWay | PMT_MobilePay | PMT_Momo | PMT_MomoAtm |
    PMT_Multibanco | PMT_OnlineBankingThailand | PMT_OnlineBankingCzechRepublic | PMT_OnlineBankingFinland

datatype (plugins only: code size) pmt_part3 =
    PMT_OnlineBankingFpx | PMT_OnlineBankingPoland | PMT_OnlineBankingSlovakia | PMT_Oxxo |
    PMT_PagoEfectivo | PMT_PermataBankTransfer | PMT_OpenBankingUk | PMT_PayBright | PMT_Payjustnow |
    PMT_Paypal | PMT_Paze | PMT_Pix | PMT_PixKey | PMT_PixEmv | PMT_PixQr | PMT_PixAutomaticoQr |
    PMT_PixAutomaticoPush | PMT_PaySafeCard | PMT_Przelewy24 | PMT_PromptPay | PMT_Pse | PMT_Qris |
    PMT_RedCompra | PMT_RedPagos | PMT_SamsungPay | PMT_Sepa | PMT_SepaBankTransfer |
    PMT_SepaGuarenteedDebit | PMT_Skrill | PMT_Sofort | PMT_Swish

datatype (plugins only: code size) pmt_part4 =
    PMT_TouchNGo | PMT_Trustly | PMT_Twint | PMT_UpiCollect | PMT_UpiIntent | PMT_UpiQr | PMT_Vipps |
    PMT_VietQr | PMT_Venmo | PMT_Walley | PMT_WeChatPay | PMT_SevenEleven | PMT_Lawson | PMT_MiniStop |
    PMT_FamilyMart | PMT_Seicomart | PMT_PayEasy | PMT_LocalBankTransfer | PMT_Mifinity |
    PMT_OpenBankingPIS | PMT_DirectCarrierBilling | PMT_InstantBankTransfer |
    PMT_InstantBankTransferFinland | PMT_InstantBankTransferPoland | PMT_RevolutPay |
    PMT_IndonesianBankTransfer | PMT_OpenBanking | PMT_NetworkToken

datatype (plugins only: code size) payment_method_type =
    Pmt1 pmt_part1 | Pmt2 pmt_part2 | Pmt3 pmt_part3 | Pmt4 pmt_part4

definition payment_method_type_iter :: "payment_method_type list" where
  "payment_method_type_iter =
     map Pmt1
       [PMT_Ach, PMT_Affirm, PMT_AfterpayClearpay, PMT_Alfamart, PMT_AliPay, PMT_AliPayHk, PMT_Alma,
       PMT_AmazonPay, PMT_Paysera, PMT_ApplePay, PMT_Atome, PMT_Bacs, PMT_BancontactCard, PMT_Becs,
       PMT_Benefit, PMT_Bizum, PMT_Blik, PMT_Bluecode, PMT_Boleto, PMT_BcaBankTransfer, PMT_BniVa,
       PMT_Breadpay, PMT_BriVa, PMT_BhnCardNetwork, PMT_CardRedirect, PMT_CimbVa, PMT_ClassicReward,
       PMT_Credit, PMT_CryptoCurrency, PMT_Cashapp, PMT_Dana] @
     map Pmt2
       [PMT_DanamonVa, PMT_Debit, PMT_DuitNow, PMT_Efecty, PMT_Eft, PMT_EftDebitOrder, PMT_Eps,
       PMT_Flexiti, PMT_Fps, PMT_Evoucher, PMT_Giropay, PMT_Givex, PMT_GooglePay, PMT_GoPay, PMT_Gcash,
       PMT_Ideal, PMT_Interac, PMT_Indomaret, PMT_Klarna, PMT_KakaoPay, PMT_LocalBankRedirect,
       PMT_MandiriVa, PMT_Knet, PMT_MbWay, PMT_MobilePay, PMT_Momo, PMT_MomoAtm, PMT_Multibanco,
       PMT_OnlineBankingThailand, PMT_OnlineBankingCzechRepublic, PMT_OnlineBankingFinland] @
     map Pmt3
       [PMT_OnlineBankingFpx, PMT_OnlineBankingPoland, PMT_OnlineBankingSlovakia, PMT_Oxxo,
       PMT_PagoEfectivo, PMT_PermataBankTransfer, PMT_OpenBankingUk, PMT_PayBright, PMT_Payjustnow,
       PMT_Paypal, PMT_Paze, PMT_Pix, PMT_PixKey, PMT_PixEmv, PMT_PixQr, PMT_PixAutomaticoQr,
       PMT_PixAutomaticoPush, PMT_PaySafeCard, PMT_Przelewy24, PMT_PromptPay, PMT_Pse, PMT_Qris,
       PMT_RedCompra, PMT_RedPagos, PMT_SamsungPay, PMT_Sepa, PMT_SepaBankTransfer,
       PMT_SepaGuarenteedDebit, PMT_Skrill, PMT_Sofort, PMT_Swish] @
     map Pmt4
       [PMT_TouchNGo, PMT_Trustly, PMT_Twint, PMT_UpiCollect, PMT_UpiIntent, PMT_UpiQr, PMT_Vipps,
       PMT_VietQr, PMT_Venmo, PMT_Walley, PMT_WeChatPay, PMT_SevenEleven, PMT_Lawson, PMT_MiniStop,
       PMT_FamilyMart, PMT_Seicomart, PMT_PayEasy, PMT_LocalBankTransfer, PMT_Mifinity, PMT_OpenBankingPIS,
       PMT_DirectCarrierBilling, PMT_InstantBankTransfer, PMT_InstantBankTransferFinland,
       PMT_InstantBankTransferPoland, PMT_RevolutPay, PMT_IndonesianBankTransfer, PMT_OpenBanking,
       PMT_NetworkToken]"

definition currency_variants :: "string list" where
  "currency_variants =
    [''AED'', ''AFN'', ''ALL'', ''AMD'', ''ANG'', ''AOA'', ''ARS'', ''AUD'', ''AWG'', ''AZN'', ''BAM'',
    ''BBD'', ''BDT'', ''BGN'', ''BHD'', ''BIF'', ''BMD'', ''BND'', ''BOB'', ''BRL'', ''BSD'', ''BTN'',
    ''BWP'', ''BYN'', ''BZD'', ''CAD'', ''CDF'', ''CHF'', ''CLF'', ''CLP'', ''CNY'', ''COP'', ''CRC'',
    ''CUC'', ''CUP'', ''CVE'', ''CZK'', ''DJF'', ''DKK'', ''DOP'', ''DZD'', ''EGP'', ''ERN'', ''ETB'',
    ''EUR'', ''FJD'', ''FKP'', ''GBP'', ''GEL'', ''GHS'', ''GIP'', ''GMD'', ''GNF'', ''GTQ'', ''GYD'',
    ''HKD'', ''HNL'', ''HRK'', ''HTG'', ''HUF'', ''IDR'', ''ILS'', ''INR'', ''IQD'', ''IRR'', ''ISK'',
    ''JMD'', ''JOD'', ''JPY'', ''KES'', ''KGS'', ''KHR'', ''KMF'', ''KPW'', ''KRW'', ''KWD'', ''KYD'',
    ''KZT'', ''LAK'', ''LBP'', ''LKR'', ''LRD'', ''LSL'', ''LYD'', ''MAD'', ''MDL'', ''MGA'', ''MKD'',
    ''MMK'', ''MNT'', ''MOP'', ''MRU'', ''MUR'', ''MVR'', ''MWK'', ''MXN'', ''MYR'', ''MZN'', ''NAD'',
    ''NGN'', ''NIO'', ''NOK'', ''NPR'', ''NZD'', ''OMR'', ''PAB'', ''PEN'', ''PGK'', ''PHP'', ''PKR'',
    ''PLN'', ''PYG'', ''QAR'', ''RON'', ''RSD'', ''RUB'', ''RWF'', ''SAR'', ''SBD'', ''SCR'', ''SDG'',
    ''SEK'', ''SGD'', ''SHP'', ''SLE'', ''SLL'', ''SOS'', ''SRD'', ''SSP'', ''STD'', ''STN'', ''SVC'',
    ''SYP'', ''SZL'', ''THB'', ''TJS'', ''TMT'', ''TND'', ''TOP'', ''TRY'', ''TTD'', ''TWD'', ''TZS'',
    ''UAH'', ''UGX'', ''USD'', ''UYU'', ''UZS'', ''VES'', ''VND'', ''VUV'', ''WST'', ''XAF'', ''XCD'',
    ''XOF'', ''XPF'', ''YER'', ''ZAR'', ''ZMW'', ''ZWL'']"

typedef currency = "set currency_variants"
  morphisms cur_name cur
  by (rule exI [of _ "hd currency_variants"]) (simp add: currency_variants_def)

instantiation currency :: equal
begin

definition equal_currency :: "currency \<Rightarrow> currency \<Rightarrow> bool" where
  "equal_currency a b \<longleftrightarrow> cur_name a = cur_name b"

instance
  by standard (simp add: equal_currency_def cur_name_inject)

end

definition currency_iter :: "currency list" where
  "currency_iter = map cur currency_variants"

lemma set_currency_iter [simp]: "set currency_iter = UNIV"
  unfolding currency_iter_def using type_definition.Abs_image [OF type_definition_currency] by simp

definition country_variants :: "string list" where
  "country_variants =
    [''Afghanistan'', ''AlandIslands'', ''Albania'', ''Algeria'', ''AmericanSamoa'', ''Andorra'',
    ''Angola'', ''Anguilla'', ''Antarctica'', ''AntiguaAndBarbuda'', ''Argentina'', ''Armenia'', ''Aruba'',
    ''Australia'', ''Austria'', ''Azerbaijan'', ''Bahamas'', ''Bahrain'', ''Bangladesh'', ''Barbados'',
    ''Belarus'', ''Belgium'', ''Belize'', ''Benin'', ''Bermuda'', ''Bhutan'',
    ''BoliviaPlurinationalState'', ''BonaireSintEustatiusAndSaba'', ''BosniaAndHerzegovina'', ''Botswana'',
    ''BouvetIsland'', ''Brazil'', ''BritishIndianOceanTerritory'', ''BruneiDarussalam'', ''Bulgaria'',
    ''BurkinaFaso'', ''Burundi'', ''CaboVerde'', ''Cambodia'', ''Cameroon'', ''Canada'', ''CaymanIslands'',
    ''CentralAfricanRepublic'', ''Chad'', ''Chile'', ''China'', ''ChristmasIsland'',
    ''CocosKeelingIslands'', ''Colombia'', ''Comoros'', ''Congo'', ''CongoDemocraticRepublic'',
    ''CookIslands'', ''CostaRica'', ''CotedIvoire'', ''Croatia'', ''Cuba'', ''Curacao'', ''Cyprus'',
    ''Czechia'', ''Denmark'', ''Djibouti'', ''Dominica'', ''DominicanRepublic'', ''Ecuador'', ''Egypt'',
    ''ElSalvador'', ''EquatorialGuinea'', ''Eritrea'', ''Estonia'', ''Ethiopia'',
    ''FalklandIslandsMalvinas'', ''FaroeIslands'', ''Fiji'', ''Finland'', ''France'', ''FrenchGuiana'',
    ''FrenchPolynesia'', ''FrenchSouthernTerritories'', ''Gabon'', ''Gambia'', ''Georgia'', ''Germany'',
    ''Ghana'', ''Gibraltar'', ''Greece'', ''Greenland'', ''Grenada'', ''Guadeloupe'', ''Guam'',
    ''Guatemala'', ''Guernsey'', ''Guinea'', ''GuineaBissau'', ''Guyana'', ''Haiti'',
    ''HeardIslandAndMcDonaldIslands'', ''HolySee'', ''Honduras'', ''HongKong'', ''Hungary'', ''Iceland'',
    ''India'', ''Indonesia'', ''IranIslamicRepublic'', ''Iraq'', ''Ireland'', ''IsleOfMan'', ''Israel'',
    ''Italy'', ''Jamaica'', ''Japan'', ''Jersey'', ''Jordan'', ''Kazakhstan'', ''Kenya'', ''Kiribati'',
    ''KoreaDemocraticPeoplesRepublic'', ''KoreaRepublic'', ''Kuwait'', ''Kyrgyzstan'',
    ''LaoPeoplesDemocraticRepublic'', ''Latvia'', ''Lebanon'', ''Lesotho'', ''Liberia'', ''Libya'',
    ''Liechtenstein'', ''Lithuania'', ''Luxembourg'', ''Macao'', ''MacedoniaTheFormerYugoslavRepublic'',
    ''Madagascar'', ''Malawi'', ''Malaysia'', ''Maldives'', ''Mali'', ''Malta'', ''MarshallIslands'',
    ''Martinique'', ''Mauritania'', ''Mauritius'', ''Mayotte'', ''Mexico'', ''MicronesiaFederatedStates'',
    ''MoldovaRepublic'', ''Monaco'', ''Mongolia'', ''Montenegro'', ''Montserrat'', ''Morocco'',
    ''Mozambique'', ''Myanmar'', ''Namibia'', ''Nauru'', ''Nepal'', ''Netherlands'', ''NewCaledonia'',
    ''NewZealand'', ''Nicaragua'', ''Niger'', ''Nigeria'', ''Niue'', ''NorfolkIsland'',
    ''NorthernMarianaIslands'', ''Norway'', ''Oman'', ''Pakistan'', ''Palau'', ''PalestineState'',
    ''Panama'', ''PapuaNewGuinea'', ''Paraguay'', ''Peru'', ''Philippines'', ''Pitcairn'', ''Poland'',
    ''Portugal'', ''PuertoRico'', ''Qatar'', ''Reunion'', ''Romania'', ''RussianFederation'', ''Rwanda'',
    ''SaintBarthelemy'', ''SaintHelenaAscensionAndTristandaCunha'', ''SaintKittsAndNevis'', ''SaintLucia'',
    ''SaintMartinFrenchpart'', ''SaintPierreAndMiquelon'', ''SaintVincentAndTheGrenadines'', ''Samoa'',
    ''SanMarino'', ''SaoTomeAndPrincipe'', ''SaudiArabia'', ''Senegal'', ''Serbia'', ''Seychelles'',
    ''SierraLeone'', ''Singapore'', ''SintMaartenDutchpart'', ''Slovakia'', ''Slovenia'',
    ''SolomonIslands'', ''Somalia'', ''SouthAfrica'', ''SouthGeorgiaAndTheSouthSandwichIslands'',
    ''SouthSudan'', ''Spain'', ''SriLanka'', ''Sudan'', ''Suriname'', ''SvalbardAndJanMayen'',
    ''Swaziland'', ''Sweden'', ''Switzerland'', ''SyrianArabRepublic'', ''TaiwanProvinceOfChina'',
    ''Tajikistan'', ''TanzaniaUnitedRepublic'', ''Thailand'', ''TimorLeste'', ''Togo'', ''Tokelau'',
    ''Tonga'', ''TrinidadAndTobago'', ''Tunisia'', ''Turkey'', ''Turkmenistan'', ''TurksAndCaicosIslands'',
    ''Tuvalu'', ''Uganda'', ''Ukraine'', ''UnitedArabEmirates'',
    ''UnitedKingdomOfGreatBritainAndNorthernIreland'', ''UnitedStatesOfAmerica'',
    ''UnitedStatesMinorOutlyingIslands'', ''Uruguay'', ''Uzbekistan'', ''Vanuatu'',
    ''VenezuelaBolivarianRepublic'', ''Vietnam'', ''VirginIslandsBritish'', ''VirginIslandsUS'',
    ''WallisAndFutuna'', ''WesternSahara'', ''Yemen'', ''Zambia'', ''Zimbabwe'']"

typedef country = "set country_variants"
  morphisms ctry_name ctry
  by (rule exI [of _ "hd country_variants"]) (simp add: country_variants_def)

instantiation country :: equal
begin

definition equal_country :: "country \<Rightarrow> country \<Rightarrow> bool" where
  "equal_country a b \<longleftrightarrow> ctry_name a = ctry_name b"

instance
  by standard (simp add: equal_country_def ctry_name_inject)

end

definition country_iter :: "country list" where
  "country_iter = map ctry country_variants"

lemma set_country_iter [simp]: "set country_iter = UNIV"
  unfolding country_iter_def using type_definition.Abs_image [OF type_definition_country] by simp

definition routable_connectors_variants :: "string list" where
  "routable_connectors_variants =
    [''AbsaSanlam'', ''Authipay'', ''Adyenplatform'', ''Aci'', ''Adyen'', ''Affirm'', ''Airwallex'',
    ''Amazonpay'', ''Archipel'', ''Authorizedotnet'', ''Bankofamerica'', ''Barclaycard'', ''Billwerk'',
    ''Bitpay'', ''Bambora'', ''Blackhawknetwork'', ''Bamboraapac'', ''Bluesnap'', ''Calida'', ''Boku'',
    ''Braintree'', ''Breadpay'', ''Cashtocode'', ''Celero'', ''Chargebee'', ''Custombilling'',
    ''Checkbook'', ''Checkout'', ''Citigate'', ''Coinbase'', ''Coingate'', ''Cryptopay'', ''Cybersource'',
    ''Cybersourcedecisionmanager'', ''Datatrans'', ''Deutschebank'', ''Digitalvirgo'', ''Dlocal'',
    ''Dwolla'', ''Ebanx'', ''Elavon'', ''Envoy'', ''Facilitapay'', ''Finix'', ''Fiserv'', ''Fiservemea'',
    ''Fiservcommercehub'', ''Fiuu'', ''Flexiti'', ''Forte'', ''Getnet'', ''Gigadat'', ''Givepayments'',
    ''Globalpay'', ''Globepay'', ''Gocardless'', ''Hipay'', ''Helcim'', ''Hyperpg'', ''Iatapay'',
    ''Ilixium'', ''Imerchantsolutions'', ''Inespay'', ''Interpayments'', ''Itaubank'', ''Jpmorgan'',
    ''Klarna'', ''Loonio'', ''Mifinity'', ''Mollie'', ''Moneris'', ''Multisafepay'', ''Nexinets'',
    ''Nexixpay'', ''Nmi'', ''Nomupay'', ''Noon'', ''Nordea'', ''Novalnet'', ''Nuvei'', ''Opennode'',
    ''Paybox'', ''Payme'', ''Payload'', ''Payone'', ''Paypal'', ''Paysafe'', ''Paystack'', ''Paytm'',
    ''Payconex'', ''Payu'', ''Peachpayments'', ''Payjustnow'', ''Payjustnowinstore'', ''Phonepe'',
    ''Placetopay'', ''Powertranz'', ''Prophetpay'', ''Rapyd'', ''Razorpay'', ''Recurly'', ''Redsys'',
    ''Revolv3'', ''Riskified'', ''Santander'', ''Shift4'', ''Signifyd'', ''Silverflow'', ''Square'',
    ''Stax'', ''Stripe'', ''Stripebilling'', ''Tesouro'', ''Truelayer'', ''Trustly'', ''Trustpay'',
    ''Trustpayments'', ''Tokenio'', ''Tsys'', ''TsysTransit'', ''Volt'', ''Wellsfargo'', ''Wise'',
    ''Worldline'', ''Worldpay'', ''Worldpaymodular'', ''Worldpayvantiv'', ''Worldpayxml'', ''Xendit'',
    ''Zen'', ''Zift'', ''Plaid'', ''Zsl'', ''Juspaythreedsserver'', ''CtpMastercard'', ''CtpVisa'',
    ''Netcetera'', ''Vgs'', ''Cardinal'', ''Threedsecureio'']"

typedef routable_connectors = "set routable_connectors_variants"
  morphisms conn_name conn
  by (rule exI [of _ "hd routable_connectors_variants"]) (simp add: routable_connectors_variants_def)

instantiation routable_connectors :: equal
begin

definition equal_routable_connectors :: "routable_connectors \<Rightarrow> routable_connectors \<Rightarrow> bool" where
  "equal_routable_connectors a b \<longleftrightarrow> conn_name a = conn_name b"

instance
  by standard (simp add: equal_routable_connectors_def conn_name_inject)

end

definition routable_connectors_iter :: "routable_connectors list" where
  "routable_connectors_iter = map conn routable_connectors_variants"

lemma set_routable_connectors_iter [simp]: "set routable_connectors_iter = UNIV"
  unfolding routable_connectors_iter_def using type_definition.Abs_image [OF type_definition_routable_connectors] by simp

subsection \<open>Payment method types of the intermediate enumerations\<close>

primrec card_type_pmt :: "card_type \<Rightarrow> payment_method_type" where
  "card_type_pmt CardType_Credit = Pmt1 PMT_Credit"
| "card_type_pmt CardType_Debit = Pmt2 PMT_Debit"

primrec pay_later_type_pmt :: "pay_later_type \<Rightarrow> payment_method_type" where
  "pay_later_type_pmt PayLaterType_Affirm = Pmt1 PMT_Affirm"
| "pay_later_type_pmt PayLaterType_AfterpayClearpay = Pmt1 PMT_AfterpayClearpay"
| "pay_later_type_pmt PayLaterType_Alma = Pmt1 PMT_Alma"
| "pay_later_type_pmt PayLaterType_Flexiti = Pmt2 PMT_Flexiti"
| "pay_later_type_pmt PayLaterType_Klarna = Pmt2 PMT_Klarna"
| "pay_later_type_pmt PayLaterType_PayBright = Pmt3 PMT_PayBright"
| "pay_later_type_pmt PayLaterType_Walley = Pmt4 PMT_Walley"
| "pay_later_type_pmt PayLaterType_Atome = Pmt1 PMT_Atome"
| "pay_later_type_pmt PayLaterType_Breadpay = Pmt1 PMT_Breadpay"
| "pay_later_type_pmt PayLaterType_Payjustnow = Pmt3 PMT_Payjustnow"

primrec wallet_type_pmt :: "wallet_type \<Rightarrow> payment_method_type" where
  "wallet_type_pmt WalletType_Bluecode = Pmt1 PMT_Bluecode"
| "wallet_type_pmt WalletType_GooglePay = Pmt2 PMT_GooglePay"
| "wallet_type_pmt WalletType_AmazonPay = Pmt1 PMT_AmazonPay"
| "wallet_type_pmt WalletType_Skrill = Pmt3 PMT_Skrill"
| "wallet_type_pmt WalletType_Paysera = Pmt1 PMT_Paysera"
| "wallet_type_pmt WalletType_ApplePay = Pmt1 PMT_ApplePay"
| "wallet_type_pmt WalletType_Paypal = Pmt3 PMT_Paypal"
| "wallet_type_pmt WalletType_AliPay = Pmt1 PMT_AliPay"
| "wallet_type_pmt WalletType_AliPayHk = Pmt1 PMT_AliPayHk"
| "wallet_type_pmt WalletType_MbWay = Pmt2 PMT_MbWay"
| "wallet_type_pmt WalletType_MobilePay = Pmt2 PMT_MobilePay"
| "wallet_type_pmt WalletType_WeChatPay = Pmt4 PMT_WeChatPay"
| "wallet_type_pmt WalletType_SamsungPay = Pmt3 PMT_SamsungPay"
| "wallet_type_pmt WalletType_GoPay = Pmt2 PMT_GoPay"
| "wallet_type_pmt WalletType_KakaoPay = Pmt2 PMT_KakaoPay"
| "wallet_type_pmt WalletType_Twint = Pmt4 PMT_Twint"
| "wallet_type_pmt WalletType_Gcash = Pmt2 PMT_Gcash"
| "wallet_type_pmt WalletType_Vipps = Pmt4 PMT_Vipps"
| "wallet_type_pmt WalletType_Momo = Pmt2 PMT_Momo"
| "wallet_type_pmt WalletType_Dana = Pmt1 PMT_Dana"
| "wallet_type_pmt WalletType_TouchNGo = Pmt4 PMT_TouchNGo"
| "wallet_type_pmt WalletType_Swish = Pmt3 PMT_Swish"
| "wallet_type_pmt WalletType_Cashapp = Pmt1 PMT_Cashapp"
| "wallet_type_pmt WalletType_Venmo = Pmt4 PMT_Venmo"
| "wallet_type_pmt WalletType_Mifinity = Pmt4 PMT_Mifinity"
| "wallet_type_pmt WalletType_Paze = Pmt3 PMT_Paze"
| "wallet_type_pmt WalletType_RevolutPay = Pmt4 PMT_RevolutPay"

primrec bank_debit_type_pmt :: "bank_debit_type \<Rightarrow> payment_method_type" where
  "bank_debit_type_pmt BankDebitType_Ach = Pmt1 PMT_Ach"
| "bank_debit_type_pmt BankDebitType_EftDebitOrder = Pmt2 PMT_EftDebitOrder"
| "bank_debit_type_pmt BankDebitType_Sepa = Pmt3 PMT_Sepa"
| "bank_debit_type_pmt BankDebitType_SepaGuarenteedDebit = Pmt3 PMT_SepaGuarenteedDebit"
| "bank_debit_type_pmt BankDebitType_Bacs = Pmt1 PMT_Bacs"
| "bank_debit_type_pmt BankDebitType_Becs = Pmt1 PMT_Becs"

primrec upi_type_pmt :: "upi_type \<Rightarrow> payment_method_type" where
  "upi_type_pmt UpiType_UpiCollect = Pmt4 PMT_UpiCollect"
| "upi_type_pmt UpiType_UpiIntent = Pmt4 PMT_UpiIntent"
| "upi_type_pmt UpiType_UpiQr = Pmt4 PMT_UpiQr"

primrec voucher_type_pmt :: "voucher_type \<Rightarrow> payment_method_type" where
  "voucher_type_pmt VoucherType_Boleto = Pmt1 PMT_Boleto"
| "voucher_type_pmt VoucherType_Efecty = Pmt2 PMT_Efecty"
| "voucher_type_pmt VoucherType_PagoEfectivo = Pmt3 PMT_PagoEfectivo"
| "voucher_type_pmt VoucherType_RedCompra = Pmt3 PMT_RedCompra"
| "voucher_type_pmt VoucherType_RedPagos = Pmt3 PMT_RedPagos"
| "voucher_type_pmt VoucherType_Alfamart = Pmt1 PMT_Alfamart"
| "voucher_type_pmt VoucherType_Indomaret = Pmt2 PMT_Indomaret"
| "voucher_type_pmt VoucherType_SevenEleven = Pmt4 PMT_SevenEleven"
| "voucher_type_pmt VoucherType_Lawson = Pmt4 PMT_Lawson"
| "voucher_type_pmt VoucherType_MiniStop = Pmt4 PMT_MiniStop"
| "voucher_type_pmt VoucherType_FamilyMart = Pmt4 PMT_FamilyMart"
| "voucher_type_pmt VoucherType_Seicomart = Pmt4 PMT_Seicomart"
| "voucher_type_pmt VoucherType_PayEasy = Pmt4 PMT_PayEasy"
| "voucher_type_pmt VoucherType_Oxxo = Pmt3 PMT_Oxxo"

primrec bank_transfer_type_pmt :: "bank_transfer_type \<Rightarrow> payment_method_type" where
  "bank_transfer_type_pmt BankTransferType_Multibanco = Pmt2 PMT_Multibanco"
| "bank_transfer_type_pmt BankTransferType_Pix = Pmt3 PMT_Pix"
| "bank_transfer_type_pmt BankTransferType_PixKey = Pmt3 PMT_PixKey"
| "bank_transfer_type_pmt BankTransferType_PixEmv = Pmt3 PMT_PixEmv"
| "bank_transfer_type_pmt BankTransferType_PixQr = Pmt3 PMT_PixQr"
| "bank_transfer_type_pmt BankTransferType_PixAutomaticoPush = Pmt3 PMT_PixAutomaticoPush"
| "bank_transfer_type_pmt BankTransferType_PixAutomaticoQr = Pmt3 PMT_PixAutomaticoQr"
| "bank_transfer_type_pmt BankTransferType_Pse = Pmt3 PMT_Pse"
| "bank_transfer_type_pmt BankTransferType_Ach = Pmt1 PMT_Ach"
| "bank_transfer_type_pmt BankTransferType_SepaBankTransfer = Pmt3 PMT_Sepa"
| "bank_transfer_type_pmt BankTransferType_Bacs = Pmt1 PMT_Bacs"
| "bank_transfer_type_pmt BankTransferType_BcaBankTransfer = Pmt1 PMT_BcaBankTransfer"
| "bank_transfer_type_pmt BankTransferType_BniVa = Pmt1 PMT_BniVa"
| "bank_transfer_type_pmt BankTransferType_BriVa = Pmt1 PMT_BriVa"
| "bank_transfer_type_pmt BankTransferType_CimbVa = Pmt1 PMT_CimbVa"
| "bank_transfer_type_pmt BankTransferType_DanamonVa = Pmt2 PMT_DanamonVa"
| "bank_transfer_type_pmt BankTransferType_MandiriVa = Pmt2 PMT_MandiriVa"
| "bank_transfer_type_pmt BankTransferType_PermataBankTransfer = Pmt3 PMT_PermataBankTransfer"
| "bank_transfer_type_pmt BankTransferType_LocalBankTransfer = Pmt4 PMT_LocalBankTransfer"
| "bank_transfer_type_pmt BankTransferType_InstantBankTransfer = Pmt4 PMT_InstantBankTransfer"
| "bank_transfer_type_pmt BankTransferType_InstantBankTransferFinland = Pmt4 PMT_InstantBankTransferFinland"
| "bank_transfer_type_pmt BankTransferType_InstantBankTransferPoland = Pmt4 PMT_InstantBankTransferPoland"
| "bank_transfer_type_pmt BankTransferType_IndonesianBankTransfer = Pmt4 PMT_IndonesianBankTransfer"

primrec gift_card_type_pmt :: "gift_card_type \<Rightarrow> payment_method_type" where
  "gift_card_type_pmt GiftCardType_PaySafeCard = Pmt3 PMT_PaySafeCard"
| "gift_card_type_pmt GiftCardType_Givex = Pmt2 PMT_Givex"
| "gift_card_type_pmt GiftCardType_BhnCardNetwork = Pmt1 PMT_BhnCardNetwork"

primrec card_redirect_type_pmt :: "card_redirect_type \<Rightarrow> payment_method_type" where
  "card_redirect_type_pmt CardRedirectType_Benefit = Pmt1 PMT_Benefit"
| "card_redirect_type_pmt CardRedirectType_Knet = Pmt2 PMT_Knet"
| "card_redirect_type_pmt CardRedirectType_MomoAtm = Pmt2 PMT_MomoAtm"
| "card_redirect_type_pmt CardRedirectType_CardRedirect = Pmt1 PMT_CardRedirect"

primrec mobile_payment_type_pmt :: "mobile_payment_type \<Rightarrow> payment_method_type" where
  "mobile_payment_type_pmt MobilePaymentType_DirectCarrierBilling = Pmt4 PMT_DirectCarrierBilling"

primrec network_token_type_pmt :: "network_token_type \<Rightarrow> payment_method_type" where
  "network_token_type_pmt NetworkTokenType_NetworkToken = Pmt4 PMT_NetworkToken"

primrec bank_redirect_type_pmt :: "bank_redirect_type \<Rightarrow> payment_method_type" where
  "bank_redirect_type_pmt BankRedirectType_Bizum = Pmt1 PMT_Bizum"
| "bank_redirect_type_pmt BankRedirectType_Giropay = Pmt2 PMT_Giropay"
| "bank_redirect_type_pmt BankRedirectType_Ideal = Pmt2 PMT_Ideal"
| "bank_redirect_type_pmt BankRedirectType_Sofort = Pmt3 PMT_Sofort"
| "bank_redirect_type_pmt BankRedirectType_Eft = Pmt2 PMT_Eft"
| "bank_redirect_type_pmt BankRedirectType_Eps = Pmt2 PMT_Eps"
| "bank_redirect_type_pmt BankRedirectType_BancontactCard = Pmt1 PMT_BancontactCard"
| "bank_redirect_type_pmt BankRedirectType_Blik = Pmt1 PMT_Blik"
| "bank_redirect_type_pmt BankRedirectType_Interac = Pmt2 PMT_Interac"
| "bank_redirect_type_pmt BankRedirectType_LocalBankRedirect = Pmt2 PMT_LocalBankRedirect"
| "bank_redirect_type_pmt BankRedirectType_OnlineBankingCzechRepublic = Pmt2 PMT_OnlineBankingCzechRepublic"
| "bank_redirect_type_pmt BankRedirectType_OnlineBankingFinland = Pmt2 PMT_OnlineBankingFinland"
| "bank_redirect_type_pmt BankRedirectType_OnlineBankingPoland = Pmt3 PMT_OnlineBankingPoland"
| "bank_redirect_type_pmt BankRedirectType_OnlineBankingSlovakia = Pmt3 PMT_OnlineBankingSlovakia"
| "bank_redirect_type_pmt BankRedirectType_OnlineBankingFpx = Pmt3 PMT_OnlineBankingFpx"
| "bank_redirect_type_pmt BankRedirectType_OnlineBankingThailand = Pmt2 PMT_OnlineBankingThailand"
| "bank_redirect_type_pmt BankRedirectType_OpenBankingUk = Pmt3 PMT_OpenBankingUk"
| "bank_redirect_type_pmt BankRedirectType_Przelewy24 = Pmt3 PMT_Przelewy24"
| "bank_redirect_type_pmt BankRedirectType_Trustly = Pmt4 PMT_Trustly"
| "bank_redirect_type_pmt BankRedirectType_OpenBanking = Pmt4 PMT_OpenBanking"

primrec open_banking_type_pmt :: "open_banking_type \<Rightarrow> payment_method_type" where
  "open_banking_type_pmt OpenBankingType_OpenBankingPIS = Pmt4 PMT_OpenBankingPIS"

primrec crypto_type_pmt :: "crypto_type \<Rightarrow> payment_method_type" where
  "crypto_type_pmt CryptoType_CryptoCurrency = Pmt1 PMT_CryptoCurrency"

primrec reward_type_pmt :: "reward_type \<Rightarrow> payment_method_type" where
  "reward_type_pmt RewardType_ClassicReward = Pmt1 PMT_ClassicReward"
| "reward_type_pmt RewardType_Evoucher = Pmt2 PMT_Evoucher"

primrec real_time_payment_type_pmt :: "real_time_payment_type \<Rightarrow> payment_method_type" where
  "real_time_payment_type_pmt RealTimePaymentType_Fps = Pmt2 PMT_Fps"
| "real_time_payment_type_pmt RealTimePaymentType_DuitNow = Pmt2 PMT_DuitNow"
| "real_time_payment_type_pmt RealTimePaymentType_PromptPay = Pmt3 PMT_PromptPay"
| "real_time_payment_type_pmt RealTimePaymentType_VietQr = Pmt4 PMT_VietQr"
| "real_time_payment_type_pmt RealTimePaymentType_Qris = Pmt3 PMT_Qris"

end
