(* ===== verification/Minor_Unit.thy ===== *)
theory Minor_Unit
  imports Prelude "HOL-Library.Word"
begin

text \<open>
  Amounts in the minor unit of their currency: \<open>MinorUnit\<close> of \<open>common_utils/src/types.rs\<close>, a wrapped
  \<open>i64\<close>. An \<open>i64\<close> is a 64-bit word read by \<open>sint\<close>; the derived order compares the signed values.
  The arithmetic operators of the source do not check for overflow: in the release profile they
  wrap, which is the word arithmetic used here. The lemmas give the exact range in which each
  operator agrees with the arithmetic of the integers.
\<close>

type_synonym i64 = "64 word"

datatype minor_unit = MinorUnit (get_amount_as_i64: i64)

abbreviation amount_value :: "minor_unit \<Rightarrow> int" where
  "amount_value a \<equiv> sint (get_amount_as_i64 a)"

definition minor_unit_zero :: minor_unit where
  "minor_unit_zero = MinorUnit 0"

definition is_greater_than :: "minor_unit \<Rightarrow> i64 \<Rightarrow> bool" where
  "is_greater_than a v = (sint v < sint (get_amount_as_i64 a))"

instantiation minor_unit :: linorder
begin

definition less_eq_minor_unit :: "minor_unit \<Rightarrow> minor_unit \<Rightarrow> bool" where
  "less_eq_minor_unit a b = (amount_value a \<le> amount_value b)"

definition less_minor_unit :: "minor_unit \<Rightarrow> minor_unit \<Rightarrow> bool" where
  "less_minor_unit a b = (amount_value a < amount_value b)"

instance
proof
  fix x y z :: minor_unit
  show "x < y \<longleftrightarrow> x \<le> y \<and> \<not> y \<le> x" by (auto simp: less_eq_minor_unit_def less_minor_unit_def)
  show "x \<le> x" by (simp add: less_eq_minor_unit_def)
  show "x \<le> y \<Longrightarrow> y \<le> z \<Longrightarrow> x \<le> z" by (simp add: less_eq_minor_unit_def)
  show "x = y" if "x \<le> y" "y \<le> x"
  proof -
    have "amount_value x = amount_value y" using that by (simp add: less_eq_minor_unit_def)
    then have "word_of_int (amount_value x) = (word_of_int (amount_value y) :: i64)" by simp
    then show ?thesis by (simp add: minor_unit.expand)
  qed
  show "x \<le> y \<or> y \<le> x" by (auto simp: less_eq_minor_unit_def)
qed

end

subsection \<open>Arithmetic\<close>

definition minor_unit_add :: "minor_unit \<Rightarrow> minor_unit \<Rightarrow> minor_unit" where
  "minor_unit_add a1 a2 = MinorUnit (get_amount_as_i64 a1 + get_amount_as_i64 a2)"

definition minor_unit_sub :: "minor_unit \<Rightarrow> minor_unit \<Rightarrow> minor_unit" where
  "minor_unit_sub a1 a2 = MinorUnit (get_amount_as_i64 a1 - get_amount_as_i64 a2)"

definition minor_unit_mul :: "minor_unit \<Rightarrow> 16 word \<Rightarrow> minor_unit" where
  "minor_unit_mul a1 a2 = MinorUnit (get_amount_as_i64 a1 * ucast a2)"

definition minor_unit_sum :: "minor_unit list \<Rightarrow> minor_unit" where
  "minor_unit_sum xs = foldl minor_unit_add (MinorUnit 0) xs"

definition fits_i64 :: "int \<Rightarrow> bool" where
  "fits_i64 z \<longleftrightarrow> - (2 ^ 63) \<le> z \<and> z < 2 ^ 63"

lemma sint_of_int_fits: "fits_i64 z \<Longrightarrow> sint (word_of_int z :: i64) = z"
  by (simp add: fits_i64_def sint_sbintrunc' signed_take_bit_int_eq_self)

lemma amount_value_fits: "fits_i64 (amount_value a)"
  using sint_ge [of "get_amount_as_i64 a"] sint_lt [of "get_amount_as_i64 a"] by (simp add: fits_i64_def)

lemma minor_unit_of_value: "a = MinorUnit (word_of_int (amount_value a))"
  by (cases a) simp

lemma amount_value_add:
  "fits_i64 (amount_value a + amount_value b) \<Longrightarrow> amount_value (minor_unit_add a b) = amount_value a + amount_value b"
  by (simp add: minor_unit_add_def fits_i64_def sint_word_add signed_take_bit_int_eq_self)

lemma minor_unit_sum_word:
  "get_amount_as_i64 (foldl minor_unit_add (MinorUnit w) xs) = w + word_of_int (sum_list (map amount_value xs))"
  by (induction xs arbitrary: w) (simp_all add: minor_unit_add_def)

text \<open>
  C38. The sum of amounts is the integer sum exactly when that sum is an \<open>i64\<close>, whatever the sums in
  between are; beyond the range it is off by a multiple of \<open>2 ^ 64\<close>.
\<close>

theorem minor_unit_sum_exact:
  "(amount_value (minor_unit_sum xs) = sum_list (map amount_value xs) \<longleftrightarrow> fits_i64 (sum_list (map amount_value xs)))
   \<and> amount_value (minor_unit_sum xs) mod 2 ^ 64 = sum_list (map amount_value xs) mod 2 ^ 64"
proof -
  let ?z = "sum_list (map amount_value xs)"
  have w: "get_amount_as_i64 (minor_unit_sum xs) = word_of_int ?z"
    by (simp add: minor_unit_sum_def minor_unit_sum_word)
  have "amount_value (minor_unit_sum xs) = ?z \<longleftrightarrow> fits_i64 ?z"
    using amount_value_fits [of "minor_unit_sum xs"] sint_of_int_fits [of ?z] w by auto
  moreover have "amount_value (minor_unit_sum xs) mod 2 ^ 64 = ?z mod 2 ^ 64"
    unfolding w by (simp add: sint_sbintrunc' signed_take_bit_eq_take_bit_shift take_bit_eq_mod mod_simps)
  ultimately show ?thesis by blast
qed

end
