(* ===== verification/Euclid_Types.thy ===== *)
theory Euclid_Types
  imports Euclid_Enums Minor_Unit
begin

text \<open>
  The values of the routing language, from \<open>euclid/src/types.rs\<close>: the keys a compiled rule can ask
  for with the type of their values, string, metadata and number values, number values with a
  refinement such as \<open>GreaterThan\<close>, and the test \<open>fits\<close> of one number value against another. The
  comparison operators of \<open>euclid/src/frontend/ast.rs\<close> are here because refinements come from them.
  The lemmas relate \<open>fits\<close> to the amounts a number value stands for.
\<close>

text \<open>Metadata is an opaque map of JSON values, which the code only copies.\<close>

typedecl json_value

type_synonym metadata = "string \<rightharpoonup> json_value"

datatype (plugins only: code size) data_type =
    DataType_Number | DataType_EnumVariant | DataType_MetadataValue | DataType_StrValue

datatype (plugins only: code size) comparison_type =
    Comparison_Equal | Comparison_NotEqual | Comparison_LessThan | Comparison_LessThanEqual |
    Comparison_GreaterThan | Comparison_GreaterThanEqual

subsection \<open>Number values\<close>

datatype (plugins only: code size) num_value_refinement =
    Refinement_NotEqual | Refinement_GreaterThan | Refinement_LessThan |
    Refinement_GreaterThanEqual | Refinement_LessThanEqual

primrec refinement_of_comparison :: "comparison_type \<Rightarrow> num_value_refinement option" where
  "refinement_of_comparison Comparison_Equal = None"
| "refinement_of_comparison Comparison_NotEqual = Some Refinement_NotEqual"
| "refinement_of_comparison Comparison_GreaterThan = Some Refinement_GreaterThan"
| "refinement_of_comparison Comparison_LessThan = Some Refinement_LessThan"
| "refinement_of_comparison Comparison_LessThanEqual = Some Refinement_LessThanEqual"
| "refinement_of_comparison Comparison_GreaterThanEqual = Some Refinement_GreaterThanEqual"

primrec comparison_of_refinement :: "num_value_refinement \<Rightarrow> comparison_type" where
  "comparison_of_refinement Refinement_NotEqual = Comparison_NotEqual"
| "comparison_of_refinement Refinement_LessThan = Comparison_LessThan"
| "comparison_of_refinement Refinement_GreaterThan = Comparison_GreaterThan"
| "comparison_of_refinement Refinement_GreaterThanEqual = Comparison_GreaterThanEqual"
| "comparison_of_refinement Refinement_LessThanEqual = Comparison_LessThanEqual"

record str_value =
  str_val :: string

record metadata_value =
  md_key :: string
  md_value :: string

record num_value =
  num_number :: minor_unit
  num_refinement :: "num_value_refinement option"

definition fits :: "num_value \<Rightarrow> num_value \<Rightarrow> bool" where
  "fits self other =
     (let this_num = num_number self; other_num = num_number other
      in case (num_refinement self, num_refinement other) of
           (None, None) \<Rightarrow> this_num = other_num
         | (Some Refinement_GreaterThan, None) \<Rightarrow> other_num > this_num
         | (Some Refinement_LessThan, None) \<Rightarrow> other_num < this_num
         | (Some Refinement_NotEqual, Some Refinement_NotEqual) \<Rightarrow> other_num = this_num
         | (Some Refinement_GreaterThan, Some Refinement_GreaterThan) \<Rightarrow> other_num > this_num
         | (Some Refinement_LessThan, Some Refinement_LessThan) \<Rightarrow> other_num < this_num
         | (Some Refinement_GreaterThanEqual, None) \<Rightarrow> other_num \<ge> this_num
         | (Some Refinement_LessThanEqual, None) \<Rightarrow> other_num \<le> this_num
         | (Some Refinement_GreaterThanEqual, Some Refinement_GreaterThanEqual) \<Rightarrow> other_num \<ge> this_num
         | (Some Refinement_LessThanEqual, Some Refinement_LessThanEqual) \<Rightarrow> other_num \<le> this_num
         | _ \<Rightarrow> False)"

subsection \<open>Keys and values\<close>

datatype (plugins only: code size) euclid_key =
    EK_PaymentMethod | EK_CardBin | EK_ExtendedCardBin | EK_Metadata | EK_MandateType |
    EK_MandateAcceptanceType | EK_PaymentType | EK_PaymentMethodType | EK_CardNetwork |
    EK_AuthenticationType | EK_CaptureMethod | EK_PaymentAmount | EK_SurchargeAmount | EK_PaymentCurrency |
    EK_BusinessCountry | EK_BillingCountry | EK_BusinessLabel | EK_SetupFutureUsage | EK_IssuerName |
    EK_IssuerCountry | EK_AcquirerCountry | EK_AcquirerFraudRate | EK_CustomerDeviceType |
    EK_CustomerDeviceDisplaySize | EK_CustomerDevicePlatform | EK_TransactionInitiator | EK_CardDiscovery

primrec euclid_key_to_string :: "euclid_key \<Rightarrow> string" where
  "euclid_key_to_string EK_PaymentMethod = ''payment_method''"
| "euclid_key_to_string EK_CardBin = ''card_bin''"
| "euclid_key_to_string EK_ExtendedCardBin = ''extended_card_bin''"
| "euclid_key_to_string EK_Metadata = ''metadata''"
| "euclid_key_to_string EK_MandateType = ''mandate_type''"
| "euclid_key_to_string EK_MandateAcceptanceType = ''mandate_acceptance_type''"
| "euclid_key_to_string EK_PaymentType = ''payment_type''"
| "euclid_key_to_string EK_PaymentMethodType = ''payment_method_type''"
| "euclid_key_to_string EK_CardNetwork = ''card_network''"
| "euclid_key_to_string EK_AuthenticationType = ''authentication_type''"
| "euclid_key_to_string EK_CaptureMethod = ''capture_method''"
| "euclid_key_to_string EK_PaymentAmount = ''amount''"
| "euclid_key_to_string EK_SurchargeAmount = ''surcharge_amount''"
| "euclid_key_to_string EK_PaymentCurrency = ''currency''"
| "euclid_key_to_string EK_BusinessCountry = ''business_country''"
| "euclid_key_to_string EK_BillingCountry = ''billing_country''"
| "euclid_key_to_string EK_BusinessLabel = ''business_label''"
| "euclid_key_to_string EK_SetupFutureUsage = ''setup_future_usage''"
| "euclid_key_to_string EK_IssuerName = ''issuer_name''"
| "euclid_key_to_string EK_IssuerCountry = ''issuer_country''"
| "euclid_key_to_string EK_AcquirerCountry = ''acquirer_country''"
| "euclid_key_to_string EK_AcquirerFraudRate = ''acquirer_fraud_rate''"
| "euclid_key_to_string EK_CustomerDeviceType = ''customer_device_type''"
| "euclid_key_to_string EK_CustomerDeviceDisplaySize = ''customer_device_display_size''"
| "euclid_key_to_string EK_CustomerDevicePlatform = ''customer_device_platform''"
| "euclid_key_to_string EK_TransactionInitiator = ''transaction_initiator''"
| "euclid_key_to_string EK_CardDiscovery = ''card_discovery''"

primrec key_type :: "euclid_key \<Rightarrow> data_type" where
  "key_type EK_PaymentMethod = DataType_EnumVariant"
| "key_type EK_CardBin = DataType_StrValue"
| "key_type EK_ExtendedCardBin = DataType_StrValue"
| "key_type EK_Metadata = DataType_MetadataValue"
| "key_type EK_PaymentMethodType = DataType_EnumVariant"
| "key_type EK_CardNetwork = DataType_EnumVariant"
| "key_type EK_AuthenticationType = DataType_EnumVariant"
| "key_type EK_CaptureMethod = DataType_EnumVariant"
| "key_type EK_PaymentAmount = DataType_Number"
| "key_type EK_SurchargeAmount = DataType_Number"
| "key_type EK_PaymentCurrency = DataType_EnumVariant"
| "key_type EK_BusinessCountry = DataType_EnumVariant"
| "key_type EK_BillingCountry = DataType_EnumVariant"
| "key_type EK_MandateType = DataType_EnumVariant"
| "key_type EK_MandateAcceptanceType = DataType_EnumVariant"
| "key_type EK_PaymentType = DataType_EnumVariant"
| "key_type EK_BusinessLabel = DataType_StrValue"
| "key_type EK_SetupFutureUsage = DataType_EnumVariant"
| "key_type EK_IssuerName = DataType_StrValue"
| "key_type EK_IssuerCountry = DataType_EnumVariant"
| "key_type EK_AcquirerCountry = DataType_EnumVariant"
| "key_type EK_AcquirerFraudRate = DataType_Number"
| "key_type EK_CustomerDeviceType = DataType_EnumVariant"
| "key_type EK_CustomerDeviceDisplaySize = DataType_EnumVariant"
| "key_type EK_CustomerDevicePlatform = DataType_EnumVariant"
| "key_type EK_TransactionInitiator = DataType_EnumVariant"
| "key_type EK_CardDiscovery = DataType_EnumVariant"

datatype (plugins only: code size) euclid_value =
    EV_PaymentMethod payment_method
  | EV_CardBin str_value
  | EV_ExtendedCardBin str_value
  | EV_Metadata metadata_value
  | EV_PaymentMethodType payment_method_type
  | EV_CardNetwork card_network
  | EV_AuthenticationType authentication_type
  | EV_CaptureMethod capture_method
  | EV_PaymentType payment_type
  | EV_MandateAcceptanceType mandate_acceptance_type
  | EV_MandateType mandate_type
  | EV_PaymentAmount num_value
  | EV_SurchargeAmount num_value
  | EV_PaymentCurrency currency
  | EV_BusinessCountry country
  | EV_BillingCountry country
  | EV_BusinessLabel str_value
  | EV_SetupFutureUsage setup_future_usage
  | EV_IssuerName str_value
  | EV_IssuerCountry country
  | EV_AcquirerCountry country
  | EV_AcquirerFraudRate num_value
  | EV_CustomerDeviceType customer_device_type
  | EV_CustomerDeviceDisplaySize customer_device_display_size
  | EV_CustomerDevicePlatform customer_device_platform
  | EV_TransactionInitiator transaction_initiator
  | EV_CardDiscovery card_discovery

definition euclid_get_num_value :: "euclid_value \<Rightarrow> num_value option" where
  "euclid_get_num_value v =
     (case v of
        EV_PaymentAmount val \<Rightarrow> Some val
      | EV_SurchargeAmount val \<Rightarrow> Some val
      | _ \<Rightarrow> None)"

primrec euclid_get_key :: "euclid_value \<Rightarrow> euclid_key" where
  "euclid_get_key (EV_PaymentMethod _) = EK_PaymentMethod"
| "euclid_get_key (EV_CardBin _) = EK_CardBin"
| "euclid_get_key (EV_ExtendedCardBin _) = EK_ExtendedCardBin"
| "euclid_get_key (EV_Metadata _) = EK_Metadata"
| "euclid_get_key (EV_PaymentMethodType _) = EK_PaymentMethodType"
| "euclid_get_key (EV_MandateType _) = EK_MandateType"
| "euclid_get_key (EV_PaymentType _) = EK_PaymentType"
| "euclid_get_key (EV_MandateAcceptanceType _) = EK_MandateAcceptanceType"
| "euclid_get_key (EV_CardNetwork _) = EK_CardNetwork"
| "euclid_get_key (EV_AuthenticationType _) = EK_AuthenticationType"
| "euclid_get_key (EV_CaptureMethod _) = EK_CaptureMethod"
| "euclid_get_key (EV_PaymentAmount _) = EK_PaymentAmount"
| "euclid_get_key (EV_SurchargeAmount _) = EK_SurchargeAmount"
| "euclid_get_key (EV_PaymentCurrency _) = EK_PaymentCurrency"
| "euclid_get_key (EV_BusinessCountry _) = EK_BusinessCountry"
| "euclid_get_key (EV_BillingCountry _) = EK_BillingCountry"
| "euclid_get_key (EV_BusinessLabel _) = EK_BusinessLabel"
| "euclid_get_key (EV_SetupFutureUsage _) = EK_SetupFutureUsage"
| "euclid_get_key (EV_IssuerName _) = EK_IssuerName"
| "euclid_get_key (EV_IssuerCountry _) = EK_IssuerCountry"
| "euclid_get_key (EV_AcquirerCountry _) = EK_AcquirerCountry"
| "euclid_get_key (EV_AcquirerFraudRate _) = EK_AcquirerFraudRate"
| "euclid_get_key (EV_CustomerDeviceType _) = EK_CustomerDeviceType"
| "euclid_get_key (EV_CustomerDeviceDisplaySize _) = EK_CustomerDeviceDisplaySize"
| "euclid_get_key (EV_CustomerDevicePlatform _) = EK_CustomerDevicePlatform"
| "euclid_get_key (EV_TransactionInitiator _) = EK_TransactionInitiator"
| "euclid_get_key (EV_CardDiscovery _) = EK_CardDiscovery"

subsection \<open>What number values stand for\<close>

definition comparison_holds :: "comparison_type \<Rightarrow> minor_unit \<Rightarrow> minor_unit \<Rightarrow> bool" where
  "comparison_holds c n bound =
     (case c of
        Comparison_Equal \<Rightarrow> n = bound
      | Comparison_NotEqual \<Rightarrow> n \<noteq> bound
      | Comparison_LessThan \<Rightarrow> n < bound
      | Comparison_LessThanEqual \<Rightarrow> n \<le> bound
      | Comparison_GreaterThan \<Rightarrow> n > bound
      | Comparison_GreaterThanEqual \<Rightarrow> n \<ge> bound)"

definition stands_for :: "num_value \<Rightarrow> minor_unit \<Rightarrow> bool" where
  "stands_for v n =
     comparison_holds (case num_refinement v of None \<Rightarrow> Comparison_Equal | Some r \<Rightarrow> comparison_of_refinement r)
       n (num_number v)"

lemma comparison_refinement_roundtrip [simp]:
  "refinement_of_comparison (comparison_of_refinement r) = Some r"
  by (cases r) simp_all

lemma stands_for_comparison [simp]:
  "stands_for \<lparr>num_number = m, num_refinement = refinement_of_comparison c\<rparr> n = comparison_holds c n m"
  by (cases c) (simp_all add: stands_for_def)

text \<open>
  C34. \<open>fits\<close> is sound: when \<open>v.fits(w)\<close> holds, every amount that the argument \<open>w\<close> stands for is one
  that the receiver \<open>v\<close> stands for.
\<close>

theorem fits_sound:
  assumes "fits v w" and "stands_for w n"
  shows "stands_for v n"
  using assms unfolding fits_def stands_for_def comparison_holds_def
  by (auto simp: Let_def split: option.splits num_value_refinement.splits)

definition amount_above :: "int \<Rightarrow> num_value" where
  "amount_above z = \<lparr>num_number = MinorUnit (word_of_int z), num_refinement = Some Refinement_GreaterThan\<rparr>"

theorem fits_sound_witness:
  "fits (amount_above 10) (amount_above 30) \<and> stands_for (amount_above 30) (MinorUnit 40)
   \<and> stands_for (amount_above 10) (MinorUnit 40)"
proof -
  have f: "fits (amount_above 10) (amount_above 30)"
    by (simp add: amount_above_def fits_def less_minor_unit_def)
  have s: "stands_for (amount_above 30) (MinorUnit 40)"
    by (simp add: amount_above_def stands_for_def comparison_holds_def less_minor_unit_def)
  from f s fits_sound [OF f s] show ?thesis by simp
qed

text \<open>
  A strict bound does not fit itself: for \<open>GreaterThan\<close> and \<open>LessThan\<close> the test compares the
  bounds strictly, so a value is not recognised as covered by an equal one.
\<close>

theorem fits_strict_not_reflexive:
  "fits v v \<longleftrightarrow> num_refinement v \<noteq> Some Refinement_GreaterThan \<and> num_refinement v \<noteq> Some Refinement_LessThan"
  by (auto simp: fits_def Let_def split: option.splits num_value_refinement.splits)

end
