(* ===== verification/Euclid_Ast.thy ===== *)
theory Euclid_Ast
  imports Euclid_Types
begin

text \<open>
  Programs of the routing language and their direct interpreter: \<open>euclid/src/frontend/ast.rs\<close>,
  \<open>euclid/src/backend/inputs.rs\<close>, \<open>euclid/src/backend.rs\<close> and \<open>euclid/src/backend/interpreter.rs\<close>. A
  program is a list of rules with a default output; a rule fires when one of its statements holds;
  a statement holds when all its comparisons hold and, if it has nested statements, one of them
  does. The output type \<open>'o\<close> is the source's type parameter. The strings the derived \<open>Display\<close>
  instances print for enumeration values are fields of the record \<open>enum_display\<close>.
\<close>

subsection \<open>Syntax\<close>

record number_comparison =
  nc_comparison_type :: comparison_type
  nc_number :: minor_unit

datatype (plugins only: code size) value_type =
    VT_Number minor_unit
  | VT_EnumVariant string
  | VT_MetadataVariant metadata_value
  | VT_StrValue string
  | VT_NumberArray "minor_unit list"
  | VT_EnumVariantArray "string list"
  | VT_NumberComparisonArray "number_comparison list"

primrec value_get_type :: "value_type \<Rightarrow> data_type" where
  "value_get_type (VT_Number _) = DataType_Number"
| "value_get_type (VT_StrValue _) = DataType_StrValue"
| "value_get_type (VT_MetadataVariant _) = DataType_MetadataValue"
| "value_get_type (VT_EnumVariant _) = DataType_EnumVariant"
| "value_get_type (VT_NumberComparisonArray _) = DataType_Number"
| "value_get_type (VT_NumberArray _) = DataType_Number"
| "value_get_type (VT_EnumVariantArray _) = DataType_EnumVariant"

record comparison =
  cmp_lhs :: string
  cmp_comparison :: comparison_type
  cmp_value :: value_type
  cmp_metadata :: metadata

datatype if_statement = IfStatement "comparison list" "if_statement list option"

record 'o rule =
  rule_name :: string
  rule_connector_selection :: 'o
  rule_statements :: "if_statement list"

record 'o program =
  default_selection :: 'o
  rules :: "'o rule list"
  program_metadata :: metadata

subsection \<open>Inputs and outputs\<close>

typedecl f64

record mandate_data =
  in_mandate_acceptance_type :: "mandate_acceptance_type option"
  in_mandate_type :: "mandate_type option"
  in_payment_type :: "payment_type option"

record payment_method_input =
  in_payment_method :: "payment_method option"
  in_payment_method_type :: "payment_method_type option"
  in_card_network :: "card_network option"
  in_card_discovery :: "card_discovery option"

record payment_input =
  in_amount :: minor_unit
  in_currency :: currency
  in_authentication_type :: "authentication_type option"
  in_card_bin :: "string option"
  in_extended_card_bin :: "string option"
  in_capture_method :: "capture_method option"
  in_business_country :: "country option"
  in_billing_country :: "country option"
  in_business_label :: "string option"
  in_setup_future_usage :: "setup_future_usage option"
  in_transaction_initiator :: "transaction_initiator option"
  in_surcharge_amount :: "minor_unit option"

record acquirer_data_input =
  in_acquirer_country :: "country option"
  in_fraud_rate :: "f64 option"

record customer_device_data_input =
  in_platform :: "customer_device_platform option"
  in_device_type :: "customer_device_type option"
  in_display_size :: "customer_device_display_size option"

record issuer_data_input =
  in_issuer_name :: "string option"
  in_issuer_country :: "country option"

text \<open>The metadata of an input is a hash map, here the list of its entries in iteration order.\<close>

record backend_input =
  in_metadata :: "(string \<times> string) list option"
  in_payment :: payment_input
  in_payment_method_input :: payment_method_input
  in_acquirer_data :: "acquirer_data_input option"
  in_customer_device_data :: "customer_device_data_input option"
  in_issuer_data :: "issuer_data_input option"
  in_mandate :: mandate_data

record 'o backend_output =
  out_rule_name :: "string option"
  out_connector_selection :: 'o

subsection \<open>The interpreter\<close>

datatype (plugins only: code size) interpreter_error_type = InterpreterInvalidKey string | InterpreterInvalidComparison

record interpreter_error =
  ie_error_type :: interpreter_error_type
  ie_metadata :: metadata

type_synonym interpreter_context = "string \<rightharpoonup> value_type option"

fun eval_number_comparison_array :: "minor_unit \<Rightarrow> number_comparison list \<Rightarrow> interpreter_error + bool" where
  "eval_number_comparison_array num [] = Inr False"
| "eval_number_comparison_array num (comparison # array) =
     (let other = nc_number comparison;
          res = (case nc_comparison_type comparison of
                   Comparison_GreaterThan \<Rightarrow> num > other
                 | Comparison_LessThan \<Rightarrow> num < other
                 | Comparison_LessThanEqual \<Rightarrow> num \<le> other
                 | Comparison_GreaterThanEqual \<Rightarrow> num \<ge> other
                 | Comparison_Equal \<Rightarrow> num = other
                 | Comparison_NotEqual \<Rightarrow> num \<noteq> other)
      in if res then Inr True else eval_number_comparison_array num array)"

definition eval_comparison :: "comparison \<Rightarrow> interpreter_context \<Rightarrow> interpreter_error + bool" where
  "eval_comparison comparison ctx =
     (case ctx (cmp_lhs comparison) of
        None \<Rightarrow> Inl \<lparr>ie_error_type = InterpreterInvalidKey (cmp_lhs comparison), ie_metadata = cmp_metadata comparison\<rparr>
      | Some None \<Rightarrow> Inr False
      | Some (Some val) \<Rightarrow>
          (case (val, cmp_comparison comparison, cmp_value comparison) of
             (VT_EnumVariant e1, Comparison_Equal, VT_EnumVariant e2) \<Rightarrow> Inr (e1 = e2)
           | (VT_EnumVariant e1, Comparison_NotEqual, VT_EnumVariant e2) \<Rightarrow> Inr (e1 \<noteq> e2)
           | (VT_EnumVariant e, Comparison_Equal, VT_EnumVariantArray evec) \<Rightarrow> Inr (list_ex (\<lambda>v. e = v) evec)
           | (VT_EnumVariant e, Comparison_NotEqual, VT_EnumVariantArray evec) \<Rightarrow> Inr (list_all (\<lambda>v. e \<noteq> v) evec)
           | (VT_Number n1, Comparison_Equal, VT_Number n2) \<Rightarrow> Inr (n1 = n2)
           | (VT_Number n1, Comparison_NotEqual, VT_Number n2) \<Rightarrow> Inr (n1 \<noteq> n2)
           | (VT_Number n1, Comparison_LessThanEqual, VT_Number n2) \<Rightarrow> Inr (n1 \<le> n2)
           | (VT_Number n1, Comparison_GreaterThanEqual, VT_Number n2) \<Rightarrow> Inr (n1 \<ge> n2)
           | (VT_Number n1, Comparison_LessThan, VT_Number n2) \<Rightarrow> Inr (n1 < n2)
           | (VT_Number n1, Comparison_GreaterThan, VT_Number n2) \<Rightarrow> Inr (n1 > n2)
           | (VT_Number n, Comparison_Equal, VT_NumberArray nvec) \<Rightarrow> Inr (list_ex (\<lambda>v. v = n) nvec)
           | (VT_Number n, Comparison_NotEqual, VT_NumberArray nvec) \<Rightarrow> Inr (list_all (\<lambda>v. v \<noteq> n) nvec)
           | (VT_Number n, Comparison_Equal, VT_NumberComparisonArray ncvec) \<Rightarrow> eval_number_comparison_array n ncvec
           | _ \<Rightarrow> Inl \<lparr>ie_error_type = InterpreterInvalidComparison, ie_metadata = cmp_metadata comparison\<rparr>))"

fun eval_if_condition :: "comparison list \<Rightarrow> interpreter_context \<Rightarrow> interpreter_error + bool" where
  "eval_if_condition [] ctx = Inr True"
| "eval_if_condition (comparison # condition) ctx =
     (case eval_comparison comparison ctx of
        Inl err \<Rightarrow> Inl err
      | Inr res \<Rightarrow> if \<not> res then Inr False else eval_if_condition condition ctx)"

fun eval_if_statement :: "if_statement \<Rightarrow> interpreter_context \<Rightarrow> interpreter_error + bool"
  and eval_rule_statements :: "if_statement list \<Rightarrow> interpreter_context \<Rightarrow> interpreter_error + bool" where
  "eval_if_statement (IfStatement condition nested) ctx =
     (case eval_if_condition condition ctx of
        Inl err \<Rightarrow> Inl err
      | Inr cond_res \<Rightarrow>
          if \<not> cond_res then Inr False
          else (case nested of
                  Some nested_ifs \<Rightarrow> eval_rule_statements nested_ifs ctx
                | None \<Rightarrow> Inr True))"
| "eval_rule_statements [] ctx = Inr False"
| "eval_rule_statements (stmt # statements) ctx =
     (case eval_if_statement stmt ctx of
        Inl err \<Rightarrow> Inl err
      | Inr res \<Rightarrow> if res then Inr True else eval_rule_statements statements ctx)"

definition eval_rule :: "'o rule \<Rightarrow> interpreter_context \<Rightarrow> interpreter_error + bool" where
  "eval_rule r ctx = eval_rule_statements (rule_statements r) ctx"

fun eval_rules :: "'o \<Rightarrow> 'o rule list \<Rightarrow> interpreter_context \<Rightarrow> interpreter_error + 'o backend_output" where
  "eval_rules dflt [] ctx = Inr \<lparr>out_rule_name = None, out_connector_selection = dflt\<rparr>"
| "eval_rules dflt (r # rs) ctx =
     (case eval_rule r ctx of
        Inl err \<Rightarrow> Inl err
      | Inr res \<Rightarrow>
          if res then Inr \<lparr>out_rule_name = Some (rule_name r), out_connector_selection = rule_connector_selection r\<rparr>
          else eval_rules dflt rs ctx)"

definition eval_program :: "'o program \<Rightarrow> interpreter_context \<Rightarrow> interpreter_error + 'o backend_output" where
  "eval_program p ctx = eval_rules (default_selection p) (rules p) ctx"

subsection \<open>The context of an input\<close>

record enum_display =
  show_payment_method :: "payment_method \<Rightarrow> string"
  show_payment_method_type :: "payment_method_type \<Rightarrow> string"
  show_authentication_type :: "authentication_type \<Rightarrow> string"
  show_capture_method :: "capture_method \<Rightarrow> string"
  show_currency :: "currency \<Rightarrow> string"

definition context_of_input :: "enum_display \<Rightarrow> backend_input \<Rightarrow> interpreter_context" where
  "context_of_input show inp =
     map_of
       [(euclid_key_to_string EK_PaymentMethod,
         map_option (\<lambda>pm. VT_EnumVariant (show_payment_method show pm)) (in_payment_method (in_payment_method_input inp))),
        (euclid_key_to_string EK_PaymentMethodType,
         map_option (\<lambda>pt. VT_EnumVariant (show_payment_method_type show pt)) (in_payment_method_type (in_payment_method_input inp))),
        (euclid_key_to_string EK_AuthenticationType,
         map_option (\<lambda>a. VT_EnumVariant (show_authentication_type show a)) (in_authentication_type (in_payment inp))),
        (euclid_key_to_string EK_CaptureMethod,
         map_option (\<lambda>cm. VT_EnumVariant (show_capture_method show cm)) (in_capture_method (in_payment inp))),
        (euclid_key_to_string EK_PaymentAmount, Some (VT_Number (in_amount (in_payment inp)))),
        (euclid_key_to_string EK_PaymentCurrency,
         Some (VT_EnumVariant (show_currency show (in_currency (in_payment inp)))))]"

definition interpreter_execute :: "enum_display \<Rightarrow> 'o program \<Rightarrow> backend_input \<Rightarrow> interpreter_error + 'o backend_output" where
  "interpreter_execute show p inp = eval_program p (context_of_input show inp)"

subsection \<open>Evaluation\<close>

lemma eval_number_comparison_array_iff [simp]:
  "eval_number_comparison_array n ncs = Inr (\<exists>c \<in> set ncs. comparison_holds (nc_comparison_type c) n (nc_number c))"
  by (induction ncs) (auto simp: comparison_holds_def Let_def split: comparison_type.splits)

lemma eval_if_condition_all:
  "(\<And>c. c \<in> set cs \<Longrightarrow> eval_comparison c ctx = Inr (P c)) \<Longrightarrow> eval_if_condition cs ctx = Inr (list_all P cs)"
  by (induction cs) auto

text \<open>The output of a rule that fired, and of a program in which none did.\<close>

definition rule_output :: "'o rule \<Rightarrow> 'o backend_output" where
  "rule_output r = \<lparr>out_rule_name = Some (rule_name r), out_connector_selection = rule_connector_selection r\<rparr>"

definition default_output :: "'o program \<Rightarrow> 'o backend_output" where
  "default_output p = \<lparr>out_rule_name = None, out_connector_selection = default_selection p\<rparr>"

lemma first_Cons:
  "(\<exists>pre x post. y # ys = pre @ x # post \<and> (\<forall>q \<in> set pre. P q) \<and> Q x) \<longleftrightarrow>
     Q y \<or> P y \<and> (\<exists>pre x post. ys = pre @ x # post \<and> (\<forall>q \<in> set pre. P q) \<and> Q x)" (is "?L \<longleftrightarrow> ?R")
proof
  assume ?L
  then obtain pre x post where e: "y # ys = pre @ x # post" "\<forall>q \<in> set pre. P q" "Q x" by blast
  then show ?R by (cases pre) auto
next
  assume ?R
  then show ?L
  proof
    assume "Q y"
    then show ?L by (intro exI [of _ "[]"]) simp
  next
    assume "P y \<and> (\<exists>pre x post. ys = pre @ x # post \<and> (\<forall>q \<in> set pre. P q) \<and> Q x)"
    then obtain pre x post where "P y" "ys = pre @ x # post" "\<forall>q \<in> set pre. P q" "Q x" by blast
    then show ?L by (intro exI [of _ "y # pre"]) auto
  qed
qed

lemma eval_rules_first:
  "eval_rules dflt rs ctx = Inr out \<longleftrightarrow>
     (\<exists>pre r post. rs = pre @ r # post \<and> (\<forall>q \<in> set pre. eval_rule q ctx = Inr False)
        \<and> eval_rule r ctx = Inr True \<and> out = rule_output r)
     \<or> ((\<forall>q \<in> set rs. eval_rule q ctx = Inr False) \<and> out = \<lparr>out_rule_name = None, out_connector_selection = dflt\<rparr>)"
proof (induction rs)
  case (Cons r rs)
  show ?case
    unfolding first_Cons
    using Cons.IH by (cases "eval_rule r ctx") (simp_all add: rule_output_def, blast)
qed auto

text \<open>
  C35. The first rule that holds decides: the interpreter returns an output exactly when it is that of
  a rule that holds while every earlier rule evaluates to false, or the default output while every
  rule evaluates to false; otherwise it reports the error of the first comparison that failed.
\<close>

theorem interpreter_first_match:
  "eval_program p ctx = Inr out \<longleftrightarrow>
     (\<exists>pre r post. rules p = pre @ r # post \<and> (\<forall>q \<in> set pre. eval_rule q ctx = Inr False)
        \<and> eval_rule r ctx = Inr True \<and> out = rule_output r)
     \<or> ((\<forall>q \<in> set (rules p). eval_rule q ctx = Inr False) \<and> out = default_output p)"
  by (simp add: eval_program_def eval_rules_first default_output_def)

definition example_amount_rule :: "unit rule" where
  "example_amount_rule =
     \<lparr>rule_name = ''large'', rule_connector_selection = (),
      rule_statements = [IfStatement [\<lparr>cmp_lhs = ''amount'', cmp_comparison = Comparison_GreaterThan,
        cmp_value = VT_Number (MinorUnit 100), cmp_metadata = Map.empty\<rparr>] None]\<rparr>"

theorem interpreter_first_match_witness:
  "eval_program \<lparr>default_selection = (), rules = [example_amount_rule], program_metadata = Map.empty\<rparr>
     [''amount'' \<mapsto> Some (VT_Number (MinorUnit 200))] = Inr (rule_output example_amount_rule)"
proof -
  have "eval_rule example_amount_rule [''amount'' \<mapsto> Some (VT_Number (MinorUnit 200))] = Inr True"
    by (simp add: example_amount_rule_def eval_rule_def eval_comparison_def less_minor_unit_def)
  then show ?thesis
    by (subst interpreter_first_match) (intro disjI1 exI [of _ "[]"], simp)
qed

text \<open>
  An array of number comparisons is their disjunction: the array \<open>(> lo, < hi)\<close>, which the
  syntax describes as the way to write \<open>lo < amount < hi\<close>, holds for every amount as soon as
  \<open>lo < hi\<close>.
\<close>

theorem number_range_matches_everything:
  assumes "lo < hi"
  shows "eval_comparison
      \<lparr>cmp_lhs = key, cmp_comparison = Comparison_Equal,
       cmp_value = VT_NumberComparisonArray
         [\<lparr>nc_comparison_type = Comparison_GreaterThan, nc_number = lo\<rparr>,
          \<lparr>nc_comparison_type = Comparison_LessThan, nc_number = hi\<rparr>],
       cmp_metadata = md\<rparr> (ctx(key \<mapsto> Some (VT_Number n))) = Inr True"
  using assms by (auto simp: eval_comparison_def comparison_holds_def)

theorem number_range_matches_everything_witness:
  "eval_comparison
      \<lparr>cmp_lhs = ''amount'', cmp_comparison = Comparison_Equal,
       cmp_value = VT_NumberComparisonArray
         [\<lparr>nc_comparison_type = Comparison_GreaterThan, nc_number = MinorUnit 500\<rparr>,
          \<lparr>nc_comparison_type = Comparison_LessThan, nc_number = MinorUnit 1000\<rparr>],
       cmp_metadata = Map.empty\<rparr> [''amount'' \<mapsto> Some (VT_Number (MinorUnit 7))] = Inr True"
  by (rule number_range_matches_everything) (simp add: less_minor_unit_def)

end
