(* ===== verification/Euclid_Dir.thy ===== *)
theory Euclid_Dir
  imports Euclid_Ast Cgraph_Builder
begin

text \<open>
  The domain intermediate representation of rules, from \<open>euclid/src/frontend/dir.rs\<close>,
  \<open>euclid/src/frontend/dir/transformers.rs\<close> and \<open>euclid/src/dssa/types.rs\<close>: the kinds of key with their
  names and value types, values, the full set of values of a key, programs over them, the errors of
  lowering and analysis, and the value a payment method type stands for. \<open>D_X\<close> is \<open>DirValue::X\<close> and
  \<open>K_X\<close> is \<open>DirKeyKind::X\<close>.
\<close>

subsection \<open>Keys\<close>

datatype (plugins only: code size) dir_key_kind =
    K_PaymentMethod | K_CardBin | K_ExtendedCardBin | K_CardType | K_CardNetwork | K_PayLaterType |
    K_GiftCardType | K_MandateAcceptanceType | K_MandateType | K_PaymentType | K_WalletType | K_UpiType |
    K_VoucherType | K_BankTransferType | K_BankRedirectType | K_BankDebitType | K_CryptoType | K_MetaData |
    K_RewardType | K_PaymentAmount | K_SurchargeAmount | K_PaymentCurrency | K_AuthenticationType |
    K_CaptureMethod | K_BusinessCountry | K_BillingCountry | K_Connector | K_BusinessLabel |
    K_SetupFutureUsage | K_CardRedirectType | K_RealTimePaymentType | K_OpenBankingType |
    K_MobilePaymentType | K_IssuerName | K_IssuerCountry | K_CustomerDevicePlatform |
    K_CustomerDeviceType | K_CustomerDeviceDisplaySize | K_AcquirerCountry | K_AcquirerFraudRate |
    K_TransactionInitiator | K_NetworkTokenType | K_CardDiscovery

record dir_key =
  dk_kind :: dir_key_kind
  dk_value :: "string option"

primrec dir_key_kind_to_string :: "dir_key_kind \<Rightarrow> string" where
  "dir_key_kind_to_string K_PaymentMethod = ''payment_method''"
| "dir_key_kind_to_string K_CardBin = ''card_bin''"
| "dir_key_kind_to_string K_ExtendedCardBin = ''extended_card_bin''"
| "dir_key_kind_to_string K_CardType = ''card_type''"
| "dir_key_kind_to_string K_CardNetwork = ''card_network''"
| "dir_key_kind_to_string K_PayLaterType = ''pay_later''"
| "dir_key_kind_to_string K_GiftCardType = ''gift_card''"
| "dir_key_kind_to_string K_MandateAcceptanceType = ''mandate_acceptance_type''"
| "dir_key_kind_to_string K_MandateType = ''mandate_type''"
| "dir_key_kind_to_string K_PaymentType = ''payment_type''"
| "dir_key_kind_to_string K_WalletType = ''wallet''"
| "dir_key_kind_to_string K_UpiType = ''upi''"
| "dir_key_kind_to_string K_VoucherType = ''voucher''"
| "dir_key_kind_to_string K_BankTransferType = ''bank_transfer''"
| "dir_key_kind_to_string K_BankRedirectType = ''bank_redirect''"
| "dir_key_kind_to_string K_BankDebitType = ''bank_debit''"
| "dir_key_kind_to_string K_CryptoType = ''crypto''"
| "dir_key_kind_to_string K_MetaData = ''metadata''"
| "dir_key_kind_to_string K_RewardType = ''reward''"
| "dir_key_kind_to_string K_PaymentAmount = ''amount''"
| "dir_key_kind_to_string K_SurchargeAmount = ''surcharge_amount''"
| "dir_key_kind_to_string K_PaymentCurrency = ''currency''"
| "dir_key_kind_to_string K_AuthenticationType = ''authentication_type''"
| "dir_key_kind_to_string K_CaptureMethod = ''capture_method''"
| "dir_key_kind_to_string K_BusinessCountry = ''business_country''"
| "dir_key_kind_to_string K_BillingCountry = ''billing_country''"
| "dir_key_kind_to_string K_Connector = ''Connector''"
| "dir_key_kind_to_string K_BusinessLabel = ''business_label''"
| "dir_key_kind_to_string K_SetupFutureUsage = ''setup_future_usage''"
| "dir_key_kind_to_string K_CardRedirectType = ''card_redirect''"
| "dir_key_kind_to_string K_RealTimePaymentType = ''real_time_payment''"
| "dir_key_kind_to_string K_OpenBankingType = ''open_banking''"
| "dir_key_kind_to_string K_MobilePaymentType = ''mobile_payment''"
| "dir_key_kind_to_string K_IssuerName = ''issuer_name''"
| "dir_key_kind_to_string K_IssuerCountry = ''issuer_country''"
| "dir_key_kind_to_string K_CustomerDevicePlatform = ''customer_device_platform''"
| "dir_key_kind_to_string K_CustomerDeviceType = ''customer_device_type''"
| "dir_key_kind_to_string K_CustomerDeviceDisplaySize = ''customer_device_display_size''"
| "dir_key_kind_to_string K_AcquirerCountry = ''acquirer_country''"
| "dir_key_kind_to_string K_AcquirerFraudRate = ''acquirer_fraud_rate''"
| "dir_key_kind_to_string K_TransactionInitiator = ''transaction_initiator''"
| "dir_key_kind_to_string K_NetworkTokenType = ''network_token''"
| "dir_key_kind_to_string K_CardDiscovery = ''card_discovery''"

definition dir_key_kind_names :: "(string \<times> dir_key_kind) list" where
  "dir_key_kind_names =
     [(''payment_method'', K_PaymentMethod),
      (''card_bin'', K_CardBin),
      (''extended_card_bin'', K_ExtendedCardBin),
      (''card_type'', K_CardType),
      (''card_network'', K_CardNetwork),
      (''pay_later'', K_PayLaterType),
      (''gift_card'', K_GiftCardType),
      (''mandate_acceptance_type'', K_MandateAcceptanceType),
      (''mandate_type'', K_MandateType),
      (''payment_type'', K_PaymentType),
      (''wallet'', K_WalletType),
      (''upi'', K_UpiType),
      (''voucher'', K_VoucherType),
      (''bank_transfer'', K_BankTransferType),
      (''bank_redirect'', K_BankRedirectType),
      (''bank_debit'', K_BankDebitType),
      (''crypto'', K_CryptoType),
      (''metadata'', K_MetaData),
      (''reward'', K_RewardType),
      (''amount'', K_PaymentAmount),
      (''surcharge_amount'', K_SurchargeAmount),
      (''currency'', K_PaymentCurrency),
      (''authentication_type'', K_AuthenticationType),
      (''capture_method'', K_CaptureMethod),
      (''country'', K_BusinessCountry),
      (''business_country'', K_BusinessCountry),
      (''billing_country'', K_BillingCountry),
      (''Connector'', K_Connector),
      (''business_label'', K_BusinessLabel),
      (''setup_future_usage'', K_SetupFutureUsage),
      (''card_redirect'', K_CardRedirectType),
      (''real_time_payment'', K_RealTimePaymentType),
      (''open_banking'', K_OpenBankingType),
      (''mobile_payment'', K_MobilePaymentType),
      (''issuer_name'', K_IssuerName),
      (''issuer_country'', K_IssuerCountry),
      (''customer_device_platform'', K_CustomerDevicePlatform),
      (''customer_device_type'', K_CustomerDeviceType),
      (''customer_device_display_size'', K_CustomerDeviceDisplaySize),
      (''acquirer_country'', K_AcquirerCountry),
      (''acquirer_fraud_rate'', K_AcquirerFraudRate),
      (''transaction_initiator'', K_TransactionInitiator),
      (''network_token'', K_NetworkTokenType),
      (''card_discovery'', K_CardDiscovery)]"

definition dir_key_kind_from_str :: "string \<Rightarrow> dir_key_kind option" where
  "dir_key_kind_from_str s = map_of dir_key_kind_names s"

primrec dir_key_get_type :: "dir_key_kind \<Rightarrow> data_type" where
  "dir_key_get_type K_PaymentMethod = DataType_EnumVariant"
| "dir_key_get_type K_CardBin = DataType_StrValue"
| "dir_key_get_type K_ExtendedCardBin = DataType_StrValue"
| "dir_key_get_type K_CardType = DataType_EnumVariant"
| "dir_key_get_type K_CardNetwork = DataType_EnumVariant"
| "dir_key_get_type K_MetaData = DataType_MetadataValue"
| "dir_key_get_type K_MandateType = DataType_EnumVariant"
| "dir_key_get_type K_PaymentType = DataType_EnumVariant"
| "dir_key_get_type K_MandateAcceptanceType = DataType_EnumVariant"
| "dir_key_get_type K_PayLaterType = DataType_EnumVariant"
| "dir_key_get_type K_WalletType = DataType_EnumVariant"
| "dir_key_get_type K_UpiType = DataType_EnumVariant"
| "dir_key_get_type K_VoucherType = DataType_EnumVariant"
| "dir_key_get_type K_BankTransferType = DataType_EnumVariant"
| "dir_key_get_type K_GiftCardType = DataType_EnumVariant"
| "dir_key_get_type K_BankRedirectType = DataType_EnumVariant"
| "dir_key_get_type K_CryptoType = DataType_EnumVariant"
| "dir_key_get_type K_RewardType = DataType_EnumVariant"
| "dir_key_get_type K_PaymentAmount = DataType_Number"
| "dir_key_get_type K_SurchargeAmount = DataType_Number"
| "dir_key_get_type K_PaymentCurrency = DataType_EnumVariant"
| "dir_key_get_type K_AuthenticationType = DataType_EnumVariant"
| "dir_key_get_type K_CaptureMethod = DataType_EnumVariant"
| "dir_key_get_type K_BusinessCountry = DataType_EnumVariant"
| "dir_key_get_type K_BillingCountry = DataType_EnumVariant"
| "dir_key_get_type K_Connector = DataType_EnumVariant"
| "dir_key_get_type K_BankDebitType = DataType_EnumVariant"
| "dir_key_get_type K_BusinessLabel = DataType_StrValue"
| "dir_key_get_type K_SetupFutureUsage = DataType_EnumVariant"
| "dir_key_get_type K_CardRedirectType = DataType_EnumVariant"
| "dir_key_get_type K_RealTimePaymentType = DataType_EnumVariant"
| "dir_key_get_type K_OpenBankingType = DataType_EnumVariant"
| "dir_key_get_type K_MobilePaymentType = DataType_EnumVariant"
| "dir_key_get_type K_IssuerName = DataType_StrValue"
| "dir_key_get_type K_IssuerCountry = DataType_EnumVariant"
| "dir_key_get_type K_CustomerDevicePlatform = DataType_EnumVariant"
| "dir_key_get_type K_CustomerDeviceType = DataType_EnumVariant"
| "dir_key_get_type K_CustomerDeviceDisplaySize = DataType_EnumVariant"
| "dir_key_get_type K_AcquirerCountry = DataType_EnumVariant"
| "dir_key_get_type K_AcquirerFraudRate = DataType_Number"
| "dir_key_get_type K_TransactionInitiator = DataType_EnumVariant"
| "dir_key_get_type K_NetworkTokenType = DataType_EnumVariant"
| "dir_key_get_type K_CardDiscovery = DataType_EnumVariant"

definition is_key_allowed :: "dir_key_kind list \<Rightarrow> dir_key_kind \<Rightarrow> bool" where
  "is_key_allowed allowed key = (key \<in> set allowed)"

subsection \<open>Values\<close>

record connector_choice =
  cc_connector :: routable_connectors

datatype (plugins only: code size) dir_value =
    D_PaymentMethod payment_method
  | D_CardBin str_value
  | D_ExtendedCardBin str_value
  | D_CardType card_type
  | D_CardNetwork card_network
  | D_MetaData metadata_value
  | D_PayLaterType pay_later_type
  | D_WalletType wallet_type
  | D_MandateAcceptanceType mandate_acceptance_type
  | D_MandateType mandate_type
  | D_PaymentType payment_type
  | D_UpiType upi_type
  | D_VoucherType voucher_type
  | D_BankTransferType bank_transfer_type
  | D_BankRedirectType bank_redirect_type
  | D_BankDebitType bank_debit_type
  | D_CryptoType crypto_type
  | D_RewardType reward_type
  | D_GiftCardType gift_card_type
  | D_PaymentAmount num_value
  | D_SurchargeAmount num_value
  | D_PaymentCurrency currency
  | D_AuthenticationType authentication_type
  | D_CaptureMethod capture_method
  | D_BusinessCountry country
  | D_BillingCountry country
  | D_Connector connector_choice
  | D_BusinessLabel str_value
  | D_SetupFutureUsage setup_future_usage
  | D_CardRedirectType card_redirect_type
  | D_RealTimePaymentType real_time_payment_type
  | D_OpenBankingType open_banking_type
  | D_MobilePaymentType mobile_payment_type
  | D_IssuerName str_value
  | D_IssuerCountry country
  | D_CustomerDevicePlatform customer_device_platform
  | D_CustomerDeviceType customer_device_type
  | D_CustomerDeviceDisplaySize customer_device_display_size
  | D_AcquirerCountry country
  | D_AcquirerFraudRate num_value
  | D_TransactionInitiator transaction_initiator
  | D_NetworkTokenType network_token_type
  | D_CardDiscovery card_discovery

primrec dir_key_parts :: "dir_value \<Rightarrow> dir_key_kind \<times> string option" where
  "dir_key_parts (D_PaymentMethod _) = (K_PaymentMethod, None)"
| "dir_key_parts (D_CardBin _) = (K_CardBin, None)"
| "dir_key_parts (D_ExtendedCardBin _) = (K_ExtendedCardBin, None)"
| "dir_key_parts (D_RewardType _) = (K_RewardType, None)"
| "dir_key_parts (D_BusinessCountry _) = (K_BusinessCountry, None)"
| "dir_key_parts (D_BillingCountry _) = (K_BillingCountry, None)"
| "dir_key_parts (D_BankTransferType _) = (K_BankTransferType, None)"
| "dir_key_parts (D_UpiType _) = (K_UpiType, None)"
| "dir_key_parts (D_CardType _) = (K_CardType, None)"
| "dir_key_parts (D_CardNetwork _) = (K_CardNetwork, None)"
| "dir_key_parts (D_MetaData met) = (K_MetaData, Some (md_key met))"
| "dir_key_parts (D_PayLaterType _) = (K_PayLaterType, None)"
| "dir_key_parts (D_WalletType _) = (K_WalletType, None)"
| "dir_key_parts (D_BankRedirectType _) = (K_BankRedirectType, None)"
| "dir_key_parts (D_CryptoType _) = (K_CryptoType, None)"
| "dir_key_parts (D_AuthenticationType _) = (K_AuthenticationType, None)"
| "dir_key_parts (D_CaptureMethod _) = (K_CaptureMethod, None)"
| "dir_key_parts (D_PaymentAmount _) = (K_PaymentAmount, None)"
| "dir_key_parts (D_SurchargeAmount _) = (K_SurchargeAmount, None)"
| "dir_key_parts (D_PaymentCurrency _) = (K_PaymentCurrency, None)"
| "dir_key_parts (D_Connector _) = (K_Connector, None)"
| "dir_key_parts (D_BankDebitType _) = (K_BankDebitType, None)"
| "dir_key_parts (D_MandateAcceptanceType _) = (K_MandateAcceptanceType, None)"
| "dir_key_parts (D_MandateType _) = (K_MandateType, None)"
| "dir_key_parts (D_PaymentType _) = (K_PaymentType, None)"
| "dir_key_parts (D_BusinessLabel _) = (K_BusinessLabel, None)"
| "dir_key_parts (D_SetupFutureUsage _) = (K_SetupFutureUsage, None)"
| "dir_key_parts (D_CardRedirectType _) = (K_CardRedirectType, None)"
| "dir_key_parts (D_VoucherType _) = (K_VoucherType, None)"
| "dir_key_parts (D_GiftCardType _) = (K_GiftCardType, None)"
| "dir_key_parts (D_RealTimePaymentType _) = (K_RealTimePaymentType, None)"
| "dir_key_parts (D_OpenBankingType _) = (K_OpenBankingType, None)"
| "dir_key_parts (D_MobilePaymentType _) = (K_MobilePaymentType, None)"
| "dir_key_parts (D_IssuerName _) = (K_IssuerName, None)"
| "dir_key_parts (D_IssuerCountry _) = (K_IssuerCountry, None)"
| "dir_key_parts (D_CustomerDevicePlatform _) = (K_CustomerDevicePlatform, None)"
| "dir_key_parts (D_CustomerDeviceType _) = (K_CustomerDeviceType, None)"
| "dir_key_parts (D_CustomerDeviceDisplaySize _) = (K_CustomerDeviceDisplaySize, None)"
| "dir_key_parts (D_AcquirerCountry _) = (K_AcquirerCountry, None)"
| "dir_key_parts (D_AcquirerFraudRate _) = (K_AcquirerFraudRate, None)"
| "dir_key_parts (D_TransactionInitiator _) = (K_TransactionInitiator, None)"
| "dir_key_parts (D_NetworkTokenType _) = (K_NetworkTokenType, None)"
| "dir_key_parts (D_CardDiscovery _) = (K_CardDiscovery, None)"

definition dir_get_key :: "dir_value \<Rightarrow> dir_key" where
  "dir_get_key v = (let (kind, data) = dir_key_parts v in \<lparr>dk_kind = kind, dk_value = data\<rparr>)"

definition get_metadata_val :: "dir_value \<Rightarrow> metadata_value option" where
  "get_metadata_val v = (case v of D_MetaData val \<Rightarrow> Some val | _ \<Rightarrow> None)"

definition get_str_val :: "dir_value \<Rightarrow> str_value option" where
  "get_str_val v =
     (case v of
        D_CardBin val \<Rightarrow> Some val
      | D_ExtendedCardBin val \<Rightarrow> Some val
      | D_IssuerName val \<Rightarrow> Some val
      | _ \<Rightarrow> None)"

definition dir_get_num_value :: "dir_value \<Rightarrow> num_value option" where
  "dir_get_num_value v =
     (case v of
        D_PaymentAmount val \<Rightarrow> Some val
      | D_SurchargeAmount val \<Rightarrow> Some val
      | D_AcquirerFraudRate val \<Rightarrow> Some val
      | _ \<Rightarrow> None)"

primrec get_value_set :: "dir_key_kind \<Rightarrow> dir_value list option" where
  "get_value_set K_PaymentMethod = Some (map D_PaymentMethod payment_method_iter)"
| "get_value_set K_CardBin = None"
| "get_value_set K_ExtendedCardBin = None"
| "get_value_set K_CardType = Some (map D_CardType card_type_iter)"
| "get_value_set K_MandateAcceptanceType = Some (map D_MandateAcceptanceType mandate_acceptance_type_iter)"
| "get_value_set K_PaymentType = Some (map D_PaymentType payment_type_iter)"
| "get_value_set K_MandateType = Some (map D_MandateType mandate_type_iter)"
| "get_value_set K_CardNetwork = Some (map D_CardNetwork card_network_iter)"
| "get_value_set K_PayLaterType = Some (map D_PayLaterType pay_later_type_iter)"
| "get_value_set K_MetaData = None"
| "get_value_set K_WalletType = Some (map D_WalletType wallet_type_iter)"
| "get_value_set K_UpiType = Some (map D_UpiType upi_type_iter)"
| "get_value_set K_VoucherType = Some (map D_VoucherType voucher_type_iter)"
| "get_value_set K_BankTransferType = Some (map D_BankTransferType bank_transfer_type_iter)"
| "get_value_set K_GiftCardType = Some (map D_GiftCardType gift_card_type_iter)"
| "get_value_set K_BankRedirectType = Some (map D_BankRedirectType bank_redirect_type_iter)"
| "get_value_set K_CryptoType = Some (map D_CryptoType crypto_type_iter)"
| "get_value_set K_RewardType = Some (map D_RewardType reward_type_iter)"
| "get_value_set K_PaymentAmount = None"
| "get_value_set K_SurchargeAmount = None"
| "get_value_set K_PaymentCurrency = Some (map D_PaymentCurrency currency_iter)"
| "get_value_set K_AuthenticationType = Some (map D_AuthenticationType authentication_type_iter)"
| "get_value_set K_CaptureMethod = Some (map D_CaptureMethod capture_method_iter)"
| "get_value_set K_BankDebitType = Some (map D_BankDebitType bank_debit_type_iter)"
| "get_value_set K_BusinessCountry = Some (map D_BusinessCountry country_iter)"
| "get_value_set K_BillingCountry = Some (map D_BillingCountry country_iter)"
| "get_value_set K_Connector = Some (map (\<lambda>connector. D_Connector \<lparr>cc_connector = connector\<rparr>) routable_connectors_iter)"
| "get_value_set K_BusinessLabel = None"
| "get_value_set K_SetupFutureUsage = Some (map D_SetupFutureUsage setup_future_usage_iter)"
| "get_value_set K_CardRedirectType = Some (map D_CardRedirectType card_redirect_type_iter)"
| "get_value_set K_RealTimePaymentType = Some (map D_RealTimePaymentType real_time_payment_type_iter)"
| "get_value_set K_OpenBankingType = Some (map D_OpenBankingType open_banking_type_iter)"
| "get_value_set K_MobilePaymentType = Some (map D_MobilePaymentType mobile_payment_type_iter)"
| "get_value_set K_IssuerName = None"
| "get_value_set K_IssuerCountry = Some (map D_IssuerCountry country_iter)"
| "get_value_set K_CustomerDevicePlatform = Some (map D_CustomerDevicePlatform customer_device_platform_iter)"
| "get_value_set K_CustomerDeviceType = Some (map D_CustomerDeviceType customer_device_type_iter)"
| "get_value_set K_CustomerDeviceDisplaySize = Some (map D_CustomerDeviceDisplaySize customer_device_display_size_iter)"
| "get_value_set K_AcquirerCountry = Some (map D_AcquirerCountry country_iter)"
| "get_value_set K_AcquirerFraudRate = None"
| "get_value_set K_TransactionInitiator = Some (map D_TransactionInitiator transaction_initiator_iter)"
| "get_value_set K_NetworkTokenType = Some (map D_NetworkTokenType network_token_type_iter)"
| "get_value_set K_CardDiscovery = Some (map D_CardDiscovery card_discovery_iter)"

subsection \<open>Programs\<close>

datatype (plugins only: code size) dir_comparison_logic = Dir_NegativeConjunction | Dir_PositiveDisjunction

record dir_comparison =
  dc_values :: "dir_value list"
  dc_logic :: dir_comparison_logic
  dc_metadata :: metadata

datatype dir_if_statement = DirIfStatement "dir_comparison list" "dir_if_statement list option"

record 'o dir_rule =
  dr_name :: string
  dr_connector_selection :: 'o
  dr_statements :: "dir_if_statement list"

record 'o dir_program =
  dp_default_selection :: 'o
  dp_rules :: "'o dir_rule list"
  dp_metadata :: metadata

subsection \<open>Errors of lowering and analysis\<close>

text \<open>The metadata of a graph node is any serialisable value, which the code only passes on.\<close>

typedecl dyn_metadata

type_synonym dir_graph = "(dir_value, dir_key, dyn_metadata) constraint_graph"

type_synonym dir_graph_error = "(dir_value, dir_key, dyn_metadata) graph_error"

type_synonym dir_trace = "(dir_value, dir_key, dyn_metadata) analysis_trace"

type_synonym dir_memo = "(dir_value, dir_key, dyn_metadata) memoization"

datatype (plugins only: code size) graph_analysis_error =
    GraphFailure dir_graph_error
  | AssertionTrace dir_trace metadata
  | NegationTrace dir_trace "metadata list"

datatype (plugins only: code size) state_machine_error = IndexOutOfBounds string

record value_data =
  vd_value :: dir_value
  vd_metadata :: metadata

datatype (plugins only: code size) analysis_error_type =
    InvalidKey string
  | InvalidVariant string "string list" string
  | InvalidType string data_type data_type
  | InvalidComparison comparison_type data_type
  | InvalidValue dir_key_kind string "string option"
  | ConflictingAssertions dir_key "value_data list"
  | ExhaustiveNegation dir_key "metadata list"
  | NegatedAssertion dir_value metadata metadata
  | GraphAnalysis graph_analysis_error dir_memo
  | StateMachineFailure state_machine_error
  | UnsupportedProgramKey dir_key_kind
  | NotImplemented
  | NotSupported

record analysis_error =
  ae_error_type :: analysis_error_type
  ae_metadata :: metadata

subsection \<open>Payment method types\<close>

definition bank_dir_value :: "dir_value \<Rightarrow> dir_value \<Rightarrow> payment_method \<Rightarrow> analysis_error_type + dir_value" where
  "bank_dir_value debit transfer pm =
     (case pm of
        PaymentMethod_BankDebit \<Rightarrow> Inr debit
      | PaymentMethod_BankTransfer \<Rightarrow> Inr transfer
      | _ \<Rightarrow> Inl NotSupported)"

primrec pmt_part1_dir_value :: "pmt_part1 \<Rightarrow> payment_method \<Rightarrow> analysis_error_type + dir_value" where
  "pmt_part1_dir_value PMT_Ach pm =
     bank_dir_value (D_BankDebitType BankDebitType_Ach) (D_BankTransferType BankTransferType_Ach) pm"
| "pmt_part1_dir_value PMT_Affirm pm = Inr (D_PayLaterType PayLaterType_Affirm)"
| "pmt_part1_dir_value PMT_AfterpayClearpay pm = Inr (D_PayLaterType PayLaterType_AfterpayClearpay)"
| "pmt_part1_dir_value PMT_Alfamart pm = Inr (D_VoucherType VoucherType_Alfamart)"
| "pmt_part1_dir_value PMT_AliPay pm = Inr (D_WalletType WalletType_AliPay)"
| "pmt_part1_dir_value PMT_AliPayHk pm = Inr (D_WalletType WalletType_AliPayHk)"
| "pmt_part1_dir_value PMT_Alma pm = Inr (D_PayLaterType PayLaterType_Alma)"
| "pmt_part1_dir_value PMT_AmazonPay pm = Inr (D_WalletType WalletType_AmazonPay)"
| "pmt_part1_dir_value PMT_Paysera pm = Inr (D_WalletType WalletType_Paysera)"
| "pmt_part1_dir_value PMT_ApplePay pm = Inr (D_WalletType WalletType_ApplePay)"
| "pmt_part1_dir_value PMT_Atome pm = Inr (D_PayLaterType PayLaterType_Atome)"
| "pmt_part1_dir_value PMT_Bacs pm =
     bank_dir_value (D_BankDebitType BankDebitType_Bacs) (D_BankTransferType BankTransferType_Bacs) pm"
| "pmt_part1_dir_value PMT_BancontactCard pm = Inr (D_BankRedirectType BankRedirectType_BancontactCard)"
| "pmt_part1_dir_value PMT_Becs pm = Inr (D_BankDebitType BankDebitType_Becs)"
| "pmt_part1_dir_value PMT_Benefit pm = Inr (D_CardRedirectType CardRedirectType_Benefit)"
| "pmt_part1_dir_value PMT_Bizum pm = Inr (D_BankRedirectType BankRedirectType_Bizum)"
| "pmt_part1_dir_value PMT_Blik pm = Inr (D_BankRedirectType BankRedirectType_Blik)"
| "pmt_part1_dir_value PMT_Bluecode pm = Inr (D_WalletType WalletType_Bluecode)"
| "pmt_part1_dir_value PMT_Boleto pm = Inr (D_VoucherType VoucherType_Boleto)"
| "pmt_part1_dir_value PMT_BcaBankTransfer pm = Inr (D_BankTransferType BankTransferType_BcaBankTransfer)"
| "pmt_part1_dir_value PMT_BniVa pm = Inr (D_BankTransferType BankTransferType_BniVa)"
| "pmt_part1_dir_value PMT_Breadpay pm = Inr (D_PayLaterType PayLaterType_Breadpay)"
| "pmt_part1_dir_value PMT_BriVa pm = Inr (D_BankTransferType BankTransferType_BriVa)"
| "pmt_part1_dir_value PMT_BhnCardNetwork pm = Inr (D_GiftCardType GiftCardType_BhnCardNetwork)"
| "pmt_part1_dir_value PMT_CardRedirect pm = Inr (D_CardRedirectType CardRedirectType_CardRedirect)"
| "pmt_part1_dir_value PMT_CimbVa pm = Inr (D_BankTransferType BankTransferType_CimbVa)"
| "pmt_part1_dir_value PMT_ClassicReward pm = Inr (D_RewardType RewardType_ClassicReward)"
| "pmt_part1_dir_value PMT_Credit pm = Inr (D_CardType CardType_Credit)"
| "pmt_part1_dir_value PMT_CryptoCurrency pm = Inr (D_CryptoType CryptoType_CryptoCurrency)"
| "pmt_part1_dir_value PMT_Cashapp pm = Inr (D_WalletType WalletType_Cashapp)"
| "pmt_part1_dir_value PMT_Dana pm = Inr (D_WalletType WalletType_Dana)"

primrec pmt_part2_dir_value :: "pmt_part2 \<Rightarrow> payment_method \<Rightarrow> analysis_error_type + dir_value" where
  "pmt_part2_dir_value PMT_DanamonVa pm = Inr (D_BankTransferType BankTransferType_DanamonVa)"
| "pmt_part2_dir_value PMT_Debit pm = Inr (D_CardType CardType_Debit)"
| "pmt_part2_dir_value PMT_DuitNow pm = Inr (D_RealTimePaymentType RealTimePaymentType_DuitNow)"
| "pmt_part2_dir_value PMT_Efecty pm = Inr (D_VoucherType VoucherType_Efecty)"
| "pmt_part2_dir_value PMT_Eft pm = Inr (D_BankRedirectType BankRedirectType_Eft)"
| "pmt_part2_dir_value PMT_EftDebitOrder pm = Inr (D_BankDebitType BankDebitType_EftDebitOrder)"
| "pmt_part2_dir_value PMT_Eps pm = Inr (D_BankRedirectType BankRedirectType_Eps)"
| "pmt_part2_dir_value PMT_Flexiti pm = Inr (D_PayLaterType PayLaterType_Flexiti)"
| "pmt_part2_dir_value PMT_Fps pm = Inr (D_RealTimePaymentType RealTimePaymentType_Fps)"
| "pmt_part2_dir_value PMT_Evoucher pm = Inr (D_RewardType RewardType_Evoucher)"
| "pmt_part2_dir_value PMT_Giropay pm = Inr (D_BankRedirectType BankRedirectType_Giropay)"
| "pmt_part2_dir_value PMT_Givex pm = Inr (D_GiftCardType GiftCardType_Givex)"
| "pmt_part2_dir_value PMT_GooglePay pm = Inr (D_WalletType WalletType_GooglePay)"
| "pmt_part2_dir_value PMT_GoPay pm = Inr (D_WalletType WalletType_GoPay)"
| "pmt_part2_dir_value PMT_Gcash pm = Inr (D_WalletType WalletType_Gcash)"
| "pmt_part2_dir_value PMT_Ideal pm = Inr (D_BankRedirectType BankRedirectType_Ideal)"
| "pmt_part2_dir_value PMT_Interac pm = Inr (D_BankRedirectType BankRedirectType_Interac)"
| "pmt_part2_dir_value PMT_Indomaret pm = Inr (D_VoucherType VoucherType_Indomaret)"
| "pmt_part2_dir_value PMT_Klarna pm = Inr (D_PayLaterType PayLaterType_Klarna)"
| "pmt_part2_dir_value PMT_KakaoPay pm = Inr (D_WalletType WalletType_KakaoPay)"
| "pmt_part2_dir_value PMT_LocalBankRedirect pm = Inr (D_BankRedirectType BankRedirectType_LocalBankRedirect)"
| "pmt_part2_dir_value PMT_MandiriVa pm = Inr (D_BankTransferType BankTransferType_MandiriVa)"
| "pmt_part2_dir_value PMT_Knet pm = Inr (D_CardRedirectType CardRedirectType_Knet)"
| "pmt_part2_dir_value PMT_MbWay pm = Inr (D_WalletType WalletType_MbWay)"
| "pmt_part2_dir_value PMT_MobilePay pm = Inr (D_WalletType WalletType_MobilePay)"
| "pmt_part2_dir_value PMT_Momo pm = Inr (D_WalletType WalletType_Momo)"
| "pmt_part2_dir_value PMT_MomoAtm pm = Inr (D_CardRedirectType CardRedirectType_MomoAtm)"
| "pmt_part2_dir_value PMT_Multibanco pm = Inr (D_BankTransferType BankTransferType_Multibanco)"
| "pmt_part2_dir_value PMT_OnlineBankingThailand pm = Inr (D_BankRedirectType BankRedirectType_OnlineBankingThailand)"
| "pmt_part2_dir_value PMT_OnlineBankingCzechRepublic pm = Inr (D_BankRedirectType BankRedirectType_OnlineBankingCzechRepublic)"
| "pmt_part2_dir_value PMT_OnlineBankingFinland pm = Inr (D_BankRedirectType BankRedirectType_OnlineBankingFinland)"

primrec pmt_part3_dir_value :: "pmt_part3 \<Rightarrow> payment_method \<Rightarrow> analysis_error_type + dir_value" where
  "pmt_part3_dir_value PMT_OnlineBankingFpx pm = Inr (D_BankRedirectType BankRedirectType_OnlineBankingFpx)"
| "pmt_part3_dir_value PMT_OnlineBankingPoland pm = Inr (D_BankRedirectType BankRedirectType_OnlineBankingPoland)"
| "pmt_part3_dir_value PMT_OnlineBankingSlovakia pm = Inr (D_BankRedirectType BankRedirectType_OnlineBankingSlovakia)"
| "pmt_part3_dir_value PMT_Oxxo pm = Inr (D_VoucherType VoucherType_Oxxo)"
| "pmt_part3_dir_value PMT_PagoEfectivo pm = Inr (D_VoucherType VoucherType_PagoEfectivo)"
| "pmt_part3_dir_value PMT_PermataBankTransfer pm = Inr (D_BankTransferType BankTransferType_PermataBankTransfer)"
| "pmt_part3_dir_value PMT_OpenBankingUk pm = Inr (D_BankRedirectType BankRedirectType_OpenBankingUk)"
| "pmt_part3_dir_value PMT_PayBright pm = Inr (D_PayLaterType PayLaterType_PayBright)"
| "pmt_part3_dir_value PMT_Payjustnow pm = Inr (D_PayLaterType PayLaterType_Payjustnow)"
| "pmt_part3_dir_value PMT_Paypal pm = Inr (D_WalletType WalletType_Paypal)"
| "pmt_part3_dir_value PMT_Paze pm = Inr (D_WalletType WalletType_Paze)"
| "pmt_part3_dir_value PMT_Pix pm = Inr (D_BankTransferType BankTransferType_Pix)"
| "pmt_part3_dir_value PMT_PixKey pm = Inr (D_BankTransferType BankTransferType_PixKey)"
| "pmt_part3_dir_value PMT_PixEmv pm = Inr (D_BankTransferType BankTransferType_PixEmv)"
| "pmt_part3_dir_value PMT_PixQr pm = Inr (D_BankTransferType BankTransferType_PixQr)"
| "pmt_part3_dir_value PMT_PixAutomaticoQr pm = Inr (D_BankTransferType BankTransferType_PixAutomaticoQr)"
| "pmt_part3_dir_value PMT_PixAutomaticoPush pm = Inr (D_BankTransferType BankTransferType_PixAutomaticoPush)"
| "pmt_part3_dir_value PMT_PaySafeCard pm = Inr (D_GiftCardType GiftCardType_PaySafeCard)"
| "pmt_part3_dir_value PMT_Przelewy24 pm = Inr (D_BankRedirectType BankRedirectType_Przelewy24)"
| "pmt_part3_dir_value PMT_PromptPay pm = Inr (D_RealTimePaymentType RealTimePaymentType_PromptPay)"
| "pmt_part3_dir_value PMT_Pse pm = Inr (D_BankTransferType BankTransferType_Pse)"
| "pmt_part3_dir_value PMT_Qris pm = Inr (D_RealTimePaymentType RealTimePaymentType_Qris)"
| "pmt_part3_dir_value PMT_RedCompra pm = Inr (D_VoucherType VoucherType_RedCompra)"
| "pmt_part3_dir_value PMT_RedPagos pm = Inr (D_VoucherType VoucherType_RedPagos)"
| "pmt_part3_dir_value PMT_SamsungPay pm = Inr (D_WalletType WalletType_SamsungPay)"
| "pmt_part3_dir_value PMT_Sepa pm = Inr (D_BankDebitType BankDebitType_Sepa)"
| "pmt_part3_dir_value PMT_SepaBankTransfer pm = Inr (D_BankTransferType BankTransferType_SepaBankTransfer)"
| "pmt_part3_dir_value PMT_SepaGuarenteedDebit pm = Inr (D_BankDebitType BankDebitType_SepaGuarenteedDebit)"
| "pmt_part3_dir_value PMT_Skrill pm = Inr (D_WalletType WalletType_Skrill)"
| "pmt_part3_dir_value PMT_Sofort pm = Inr (D_BankRedirectType BankRedirectType_Sofort)"
| "pmt_part3_dir_value PMT_Swish pm = Inr (D_WalletType WalletType_Swish)"

primrec pmt_part4_dir_value :: "pmt_part4 \<Rightarrow> payment_method \<Rightarrow> analysis_error_type + dir_value" where
  "pmt_part4_dir_value PMT_TouchNGo pm = Inr (D_WalletType WalletType_TouchNGo)"
| "pmt_part4_dir_value PMT_Trustly pm = Inr (D_BankRedirectType BankRedirectType_Trustly)"
| "pmt_part4_dir_value PMT_Twint pm = Inr (D_WalletType WalletType_Twint)"
| "pmt_part4_dir_value PMT_UpiCollect pm = Inr (D_UpiType UpiType_UpiCollect)"
| "pmt_part4_dir_value PMT_UpiIntent pm = Inr (D_UpiType UpiType_UpiIntent)"
| "pmt_part4_dir_value PMT_UpiQr pm = Inr (D_UpiType UpiType_UpiQr)"
| "pmt_part4_dir_value PMT_Vipps pm = Inr (D_WalletType WalletType_Vipps)"
| "pmt_part4_dir_value PMT_VietQr pm = Inr (D_RealTimePaymentType RealTimePaymentType_VietQr)"
| "pmt_part4_dir_value PMT_Venmo pm = Inr (D_WalletType WalletType_Venmo)"
| "pmt_part4_dir_value PMT_Walley pm = Inr (D_PayLaterType PayLaterType_Walley)"
| "pmt_part4_dir_value PMT_WeChatPay pm = Inr (D_WalletType WalletType_WeChatPay)"
| "pmt_part4_dir_value PMT_SevenEleven pm = Inr (D_VoucherType VoucherType_SevenEleven)"
| "pmt_part4_dir_value PMT_Lawson pm = Inr (D_VoucherType VoucherType_Lawson)"
| "pmt_part4_dir_value PMT_MiniStop pm = Inr (D_VoucherType VoucherType_MiniStop)"
| "pmt_part4_dir_value PMT_FamilyMart pm = Inr (D_VoucherType VoucherType_FamilyMart)"
| "pmt_part4_dir_value PMT_Seicomart pm = Inr (D_VoucherType VoucherType_Seicomart)"
| "pmt_part4_dir_value PMT_PayEasy pm = Inr (D_VoucherType VoucherType_PayEasy)"
| "pmt_part4_dir_value PMT_LocalBankTransfer pm = Inr (D_BankTransferType BankTransferType_LocalBankTransfer)"
| "pmt_part4_dir_value PMT_Mifinity pm = Inr (D_WalletType WalletType_Mifinity)"
| "pmt_part4_dir_value PMT_OpenBankingPIS pm = Inr (D_OpenBankingType OpenBankingType_OpenBankingPIS)"
| "pmt_part4_dir_value PMT_DirectCarrierBilling pm = Inr (D_MobilePaymentType MobilePaymentType_DirectCarrierBilling)"
| "pmt_part4_dir_value PMT_InstantBankTransfer pm = Inr (D_BankTransferType BankTransferType_InstantBankTransfer)"
| "pmt_part4_dir_value PMT_InstantBankTransferFinland pm = Inr (D_BankTransferType BankTransferType_InstantBankTransferFinland)"
| "pmt_part4_dir_value PMT_InstantBankTransferPoland pm = Inr (D_BankTransferType BankTransferType_InstantBankTransferPoland)"
| "pmt_part4_dir_value PMT_RevolutPay pm = Inr (D_WalletType WalletType_RevolutPay)"
| "pmt_part4_dir_value PMT_IndonesianBankTransfer pm = Inr (D_BankTransferType BankTransferType_IndonesianBankTransfer)"
| "pmt_part4_dir_value PMT_OpenBanking pm = Inr (D_BankRedirectType BankRedirectType_OpenBanking)"
| "pmt_part4_dir_value PMT_NetworkToken pm = Inr (D_NetworkTokenType NetworkTokenType_NetworkToken)"

primrec into_dir_value :: "payment_method_type \<Rightarrow> payment_method \<Rightarrow> analysis_error_type + dir_value" where
  "into_dir_value (Pmt1 t) pm = pmt_part1_dir_value t pm"
| "into_dir_value (Pmt2 t) pm = pmt_part2_dir_value t pm"
| "into_dir_value (Pmt3 t) pm = pmt_part3_dir_value t pm"
| "into_dir_value (Pmt4 t) pm = pmt_part4_dir_value t pm"

subsection \<open>Keys and value sets\<close>

lemma dir_get_key_simps [simp]:
  "dk_kind (dir_get_key v) = fst (dir_key_parts v)"
  "dk_value (dir_get_key v) = snd (dir_key_parts v)"
  by (simp_all add: dir_get_key_def case_prod_beta)

lemma dir_key_kind_from_to_string [simp]: "dir_key_kind_from_str (dir_key_kind_to_string k) = Some k"
  by (cases k) (simp_all add: dir_key_kind_from_str_def dir_key_kind_names_def)

lemma get_value_set_kind: "get_value_set k = Some vs \<Longrightarrow> v \<in> set vs \<Longrightarrow> fst (dir_key_parts v) = k"
  by (cases k) auto

lemma range_connector [simp]: "range (\<lambda>c. D_Connector \<lparr>cc_connector = c\<rparr>) = range D_Connector"
proof -
  have "D_Connector c \<in> range (\<lambda>c. D_Connector \<lparr>cc_connector = c\<rparr>)" for c
    by (rule range_eqI [of _ _ "cc_connector c"]) simp
  then show ?thesis by blast
qed

lemma get_value_set_complete: "get_value_set (fst (dir_key_parts v)) = Some vs \<Longrightarrow> v \<in> set vs"
  by (cases v) auto

lemma get_value_set_None: "get_value_set k = None \<longleftrightarrow> dir_key_get_type k \<noteq> DataType_EnumVariant"
  by (cases k) simp_all

lemma only_metadata_has_data: "snd (dir_key_parts v) \<noteq> None \<longleftrightarrow> fst (dir_key_parts v) = K_MetaData"
  by (cases v) simp_all

lemma enum_key_has_no_data:
  "dir_key_get_type (fst (dir_key_parts v)) = DataType_EnumVariant \<Longrightarrow> snd (dir_key_parts v) = None"
  by (cases v) simp_all

text \<open>
  C36. The value set of a key is exact: a key has one exactly when its values are enumeration variants,
  and then it lists precisely the values with that key.
\<close>

theorem get_value_set_exact:
  "(get_value_set k = None \<longleftrightarrow> dir_key_get_type k \<noteq> DataType_EnumVariant)
   \<and> (\<forall>vs v. get_value_set k = Some vs \<longrightarrow> (v \<in> set vs \<longleftrightarrow> dk_kind (dir_get_key v) = k))"
proof (intro conjI allI impI)
  show "get_value_set k = None \<longleftrightarrow> dir_key_get_type k \<noteq> DataType_EnumVariant" by (rule get_value_set_None)
  fix vs v assume vs: "get_value_set k = Some vs"
  show "v \<in> set vs \<longleftrightarrow> dk_kind (dir_get_key v) = k"
    using get_value_set_kind [OF vs, of v] get_value_set_complete [of v vs] vs by fastforce
qed

theorem get_value_set_exact_witness:
  "get_value_set K_CardType = Some (map D_CardType card_type_iter)
   \<and> (D_CardType CardType_Debit \<in> set (map D_CardType card_type_iter) \<longleftrightarrow>
        dk_kind (dir_get_key (D_CardType CardType_Debit)) = K_CardType)"
  using get_value_set_exact [of K_CardType] by simp

subsection \<open>Payment method types and back\<close>

lemma into_dir_value_of_pmt:
  "into_dir_value (card_type_pmt t1) pm = Inr (D_CardType t1)"
  "into_dir_value (pay_later_type_pmt t2) pm = Inr (D_PayLaterType t2)"
  "into_dir_value (wallet_type_pmt t3) pm = Inr (D_WalletType t3)"
  "into_dir_value (upi_type_pmt t4) pm = Inr (D_UpiType t4)"
  "into_dir_value (voucher_type_pmt t5) pm = Inr (D_VoucherType t5)"
  "into_dir_value (gift_card_type_pmt t6) pm = Inr (D_GiftCardType t6)"
  "into_dir_value (card_redirect_type_pmt t7) pm = Inr (D_CardRedirectType t7)"
  "into_dir_value (bank_redirect_type_pmt t8) pm = Inr (D_BankRedirectType t8)"
  "into_dir_value (crypto_type_pmt t9) pm = Inr (D_CryptoType t9)"
  "into_dir_value (real_time_payment_type_pmt t10) pm = Inr (D_RealTimePaymentType t10)"
  "into_dir_value (reward_type_pmt t11) pm = Inr (D_RewardType t11)"
  "into_dir_value (open_banking_type_pmt t12) pm = Inr (D_OpenBankingType t12)"
  "into_dir_value (mobile_payment_type_pmt t13) pm = Inr (D_MobilePaymentType t13)"
  "into_dir_value (network_token_type_pmt t14) pm = Inr (D_NetworkTokenType t14)"
  "into_dir_value (bank_debit_type_pmt t15) PaymentMethod_BankDebit = Inr (D_BankDebitType t15)"
  "t16 \<noteq> BankTransferType_SepaBankTransfer \<Longrightarrow>
     into_dir_value (bank_transfer_type_pmt t16) PaymentMethod_BankTransfer = Inr (D_BankTransferType t16)"
  by (cases t1, simp_all) (cases t2, simp_all, cases t3, simp_all, cases t4, simp_all, cases t5, simp_all,
    cases t6, simp_all, cases t7, simp_all, cases t8, simp_all, cases t9, simp_all, cases t10, simp_all,
    cases t11, simp_all, cases t12, simp_all, cases t13, simp_all, cases t14, simp_all,
    cases t15, simp_all add: bank_dir_value_def, cases t16, simp_all add: bank_dir_value_def)

end
