(* ===== verification/Euclid_State_Machine.thy ===== *)
theory Euclid_State_Machine
  imports Euclid_Dir
begin

text \<open>
  The enumeration of the conjunctive contexts of a program, \<open>euclid/src/dssa/state_machine.rs\<close>, over the
  context types of \<open>euclid/src/dssa/types.rs\<close>. A context is one way for a rule to fire: a leaf of
  the nested statements together with a choice of one value for each comparison on the path to
  it. The managers produce the contexts one by one, by a counter per comparison and a stack of
  statements. A vector used as a stack is a list whose head is its last element. An operation
  returns its new state together with the context it has changed; after an error both are
  discarded by every caller.
\<close>

subsection \<open>Contexts\<close>

datatype (plugins only: code size) ctx_value_kind = Assertion dir_value | Negation "dir_value list"

definition get_assertion :: "ctx_value_kind \<Rightarrow> dir_value option" where
  "get_assertion c = (case c of Assertion v \<Rightarrow> Some v | Negation _ \<Rightarrow> None)"

definition get_negation :: "ctx_value_kind \<Rightarrow> dir_value list option" where
  "get_negation c = (case c of Assertion _ \<Rightarrow> None | Negation vs \<Rightarrow> Some vs)"

definition ctx_get_key :: "ctx_value_kind \<Rightarrow> dir_key option" where
  "ctx_get_key c = (case c of Assertion v \<Rightarrow> Some (dir_get_key v) | Negation vs \<Rightarrow> map_option dir_get_key (vec_get vs 0))"

record context_value =
  cv_value :: ctx_value_kind
  cv_metadata :: metadata

definition ctx_assertion :: "dir_value \<Rightarrow> metadata \<Rightarrow> context_value" where
  "ctx_assertion v md = \<lparr>cv_value = Assertion v, cv_metadata = md\<rparr>"

definition ctx_negation :: "dir_value list \<Rightarrow> metadata \<Rightarrow> context_value" where
  "ctx_negation vs md = \<lparr>cv_value = Negation vs, cv_metadata = md\<rparr>"

type_synonym conjunctive_context = "context_value list"

subsection \<open>Comparisons\<close>

record comparison_state_machine =
  csm_values :: "dir_value list"
  csm_logic :: dir_comparison_logic
  csm_metadata :: metadata
  csm_count :: nat
  csm_ctx_idx :: nat

definition csm_is_finished :: "comparison_state_machine \<Rightarrow> bool" where
  "csm_is_finished m \<longleftrightarrow> csm_count m + 1 \<ge> length (csm_values m) \<or> csm_logic m = Dir_NegativeConjunction"

definition csm_advance :: "comparison_state_machine \<Rightarrow> comparison_state_machine" where
  "csm_advance m =
     (case csm_logic m of
        Dir_PositiveDisjunction \<Rightarrow> m\<lparr>csm_count := (csm_count m + 1) mod length (csm_values m)\<rparr>
      | Dir_NegativeConjunction \<Rightarrow> m)"

definition csm_reset :: "comparison_state_machine \<Rightarrow> comparison_state_machine" where
  "csm_reset m = m\<lparr>csm_count := 0\<rparr>"

definition csm_put :: "comparison_state_machine \<Rightarrow> conjunctive_context \<Rightarrow> state_machine_error + conjunctive_context" where
  "csm_put m ctx =
     (case csm_logic m of
        Dir_PositiveDisjunction \<Rightarrow>
          and_then (ok_or (vec_get (csm_values m) (csm_count m))
              (IndexOutOfBounds ''in ComparisonStateMachine while indexing into values'')) (\<lambda>v.
            if csm_ctx_idx m < length ctx then Inr (ctx[csm_ctx_idx m := ctx_assertion v (csm_metadata m)])
            else Inl (IndexOutOfBounds ''in ComparisonStateMachine while indexing into context''))
      | Dir_NegativeConjunction \<Rightarrow> Inr ctx)"

definition csm_push :: "comparison_state_machine \<Rightarrow> conjunctive_context \<Rightarrow> state_machine_error + conjunctive_context" where
  "csm_push m ctx =
     (case csm_logic m of
        Dir_PositiveDisjunction \<Rightarrow>
          and_then (ok_or (vec_get (csm_values m) (csm_count m))
              (IndexOutOfBounds ''in ComparisonStateMachine while pushing'')) (\<lambda>v.
            Inr (ctx @ [ctx_assertion v (csm_metadata m)]))
      | Dir_NegativeConjunction \<Rightarrow> Inr (ctx @ [ctx_negation (csm_values m) (csm_metadata m)]))"

subsection \<open>Conditions\<close>

record condition_state_machine =
  cnd_state_machines :: "comparison_state_machine list"
  cnd_start_ctx_idx :: nat

definition cnd_new :: "dir_comparison list \<Rightarrow> nat \<Rightarrow> condition_state_machine" where
  "cnd_new condition start_idx =
     \<lparr>cnd_state_machines =
        map (\<lambda>(machine_idx, cond).
          \<lparr>csm_values = dc_values cond, csm_logic = dc_logic cond, csm_metadata = dc_metadata cond,
           csm_count = 0, csm_ctx_idx = machine_idx\<rparr>) (enumerate start_idx condition),
      cnd_start_ctx_idx = start_idx\<rparr>"

fun push_all :: "comparison_state_machine list \<Rightarrow> conjunctive_context \<Rightarrow> state_machine_error + conjunctive_context" where
  "push_all [] ctx = Inr ctx"
| "push_all (m # ms) ctx = and_then (csm_push m ctx) (push_all ms)"

definition cnd_init :: "condition_state_machine \<Rightarrow> conjunctive_context \<Rightarrow> state_machine_error + conjunctive_context" where
  "cnd_init c ctx = push_all (cnd_state_machines c) ctx"

definition cnd_destroy :: "condition_state_machine \<Rightarrow> conjunctive_context \<Rightarrow> conjunctive_context" where
  "cnd_destroy c ctx = take (cnd_start_ctx_idx c) ctx"

definition cnd_is_finished :: "condition_state_machine \<Rightarrow> bool" where
  "cnd_is_finished c \<longleftrightarrow> \<not> list_ex (\<lambda>m. \<not> csm_is_finished m) (cnd_state_machines c)"

definition cnd_get_next_ctx_idx :: "condition_state_machine \<Rightarrow> nat" where
  "cnd_get_next_ctx_idx c = cnd_start_ctx_idx c + length (cnd_state_machines c)"

text \<open>The loop of \<open>advance\<close>, over the machines from the last to the first.\<close>

fun advance_rev ::
  "comparison_state_machine list \<Rightarrow> conjunctive_context \<Rightarrow>
     state_machine_error + comparison_state_machine list \<times> conjunctive_context" where
  "advance_rev [] ctx = Inr ([], ctx)"
| "advance_rev (m # ms) ctx =
     (if csm_is_finished m
      then let m' = csm_reset m
           in and_then (csm_put m' ctx) (\<lambda>ctx'.
                and_then (advance_rev ms ctx') (\<lambda>(ms', ctx''). Inr (m' # ms', ctx'')))
      else let m' = csm_advance m
           in and_then (csm_put m' ctx) (\<lambda>ctx'. Inr (m' # ms, ctx')))"

definition cnd_advance ::
  "condition_state_machine \<Rightarrow> conjunctive_context \<Rightarrow>
     state_machine_error + condition_state_machine \<times> conjunctive_context" where
  "cnd_advance c ctx =
     and_then (advance_rev (rev (cnd_state_machines c)) ctx) (\<lambda>(ms, ctx').
       Inr (c\<lparr>cnd_state_machines := rev ms\<rparr>, ctx'))"

subsection \<open>Statements\<close>

record if_stmt_state_machine =
  ism_condition_machine :: condition_state_machine
  ism_nested :: "dir_if_statement list"
  ism_nested_idx :: nat

fun ism_new :: "dir_if_statement \<Rightarrow> nat \<Rightarrow> if_stmt_state_machine" where
  "ism_new (DirIfStatement condition nested) ctx_start_idx =
     \<lparr>ism_condition_machine = cnd_new condition ctx_start_idx,
      ism_nested = (case nested of None \<Rightarrow> [] | Some nested_stmts \<Rightarrow> nested_stmts),
      ism_nested_idx = 0\<rparr>"

definition ism_init ::
  "if_stmt_state_machine \<Rightarrow> conjunctive_context \<Rightarrow>
     state_machine_error + if_stmt_state_machine option \<times> conjunctive_context" where
  "ism_init m ctx =
     and_then (cnd_init (ism_condition_machine m) ctx) (\<lambda>ctx'.
       Inr (map_option (\<lambda>nested. ism_new nested (cnd_get_next_ctx_idx (ism_condition_machine m)))
              (vec_get (ism_nested m) 0), ctx'))"

definition ism_is_finished :: "if_stmt_state_machine \<Rightarrow> bool" where
  "ism_is_finished m \<longleftrightarrow> ism_nested_idx m + 1 \<ge> length (ism_nested m)"

definition ism_is_condition_machine_finished :: "if_stmt_state_machine \<Rightarrow> bool" where
  "ism_is_condition_machine_finished m = cnd_is_finished (ism_condition_machine m)"

definition ism_destroy :: "if_stmt_state_machine \<Rightarrow> conjunctive_context \<Rightarrow> conjunctive_context" where
  "ism_destroy m ctx = cnd_destroy (ism_condition_machine m) ctx"

definition ism_advance_condition_machine ::
  "if_stmt_state_machine \<Rightarrow> conjunctive_context \<Rightarrow>
     state_machine_error + if_stmt_state_machine \<times> conjunctive_context" where
  "ism_advance_condition_machine m ctx =
     and_then (cnd_advance (ism_condition_machine m) ctx) (\<lambda>(c, ctx').
       Inr (m\<lparr>ism_condition_machine := c\<rparr>, ctx'))"

definition ism_advance ::
  "if_stmt_state_machine \<Rightarrow> state_machine_error + if_stmt_state_machine option \<times> if_stmt_state_machine" where
  "ism_advance m =
     (if ism_nested m = [] then Inr (None, m)
      else let m' = m\<lparr>ism_nested_idx := (ism_nested_idx m + 1) mod length (ism_nested m)\<rparr>
           in and_then (ok_or (vec_get (ism_nested m') (ism_nested_idx m'))
                  (IndexOutOfBounds ''in IfStmtStateMachine while advancing'')) (\<lambda>stmt.
                Inr (Some (ism_new stmt (cnd_get_next_ctx_idx (ism_condition_machine m'))), m')))"

subsection \<open>Rules\<close>

record rule_state_machine =
  rsm_connector_selection_data :: "(dir_value \<times> metadata) list"
  rsm_connectors_added :: bool
  rsm_if_stmt_machines :: "if_stmt_state_machine list"
  rsm_running_stack :: "if_stmt_state_machine list"

definition rsm_new :: "'o dir_rule \<Rightarrow> (dir_value \<times> metadata) list \<Rightarrow> rule_state_machine" where
  "rsm_new r data =
     \<lparr>rsm_connector_selection_data = data,
      rsm_connectors_added = False,
      rsm_if_stmt_machines = foldl (\<lambda>ms stmt. ism_new stmt (length data) # ms) [] (rev (dr_statements r)),
      rsm_running_stack = []\<rparr>"

definition rsm_is_finished :: "rule_state_machine \<Rightarrow> bool" where
  "rsm_is_finished m \<longleftrightarrow> rsm_if_stmt_machines m = [] \<and> rsm_running_stack m = []"

lemma ism_init_nested:
  "ism_init m ctx = Inr (Some n, ctx') \<Longrightarrow> ism_nested m \<noteq> [] \<and>
     n = ism_new (hd (ism_nested m)) (cnd_get_next_ctx_idx (ism_condition_machine m))"
  by (auto simp: ism_init_def and_then_eq_Inr vec_get_def hd_conv_nth split: if_splits)

lemma ism_new_nested_size: "size_list size (ism_nested (ism_new s i)) < size s"
  by (cases s) (auto split: option.splits)

lemma ism_init_smaller:
  assumes "ism_init m ctx = Inr (Some n, ctx')"
  shows "size_list size (ism_nested n) < size_list size (ism_nested m)"
proof -
  from ism_init_nested [OF assms] obtain s ss i where "ism_nested m = s # ss" "n = ism_new s i"
    by (cases "ism_nested m") auto
  with ism_new_nested_size [of s i] show ?thesis by simp
qed

text \<open>The loop that starts a statement and, as long as there is one, its first nested statement.\<close>

function run_nested ::
  "if_stmt_state_machine \<Rightarrow> if_stmt_state_machine list \<Rightarrow> conjunctive_context \<Rightarrow>
     state_machine_error + if_stmt_state_machine list \<times> conjunctive_context" where
  "run_nested next_running stack ctx =
     (case ism_init next_running ctx of
        Inl e \<Rightarrow> Inl e
      | Inr (None, ctx') \<Rightarrow> Inr (next_running # stack, ctx')
      | Inr (Some nested_running, ctx') \<Rightarrow> run_nested nested_running (next_running # stack) ctx')"
  by pat_completeness auto
termination
  by (relation "measure (\<lambda>(m, _). size_list size (ism_nested m))") (auto dest: ism_init_smaller)

declare run_nested.simps [simp del]

definition rsm_init_next ::
  "rule_state_machine \<Rightarrow> conjunctive_context \<Rightarrow> state_machine_error + rule_state_machine \<times> conjunctive_context" where
  "rsm_init_next m ctx =
     (if rsm_if_stmt_machines m = [] \<or> rsm_running_stack m \<noteq> [] then Inr (m, ctx)
      else
        let (m, ctx) =
              (if \<not> rsm_connectors_added m
               then (m\<lparr>rsm_connectors_added := True\<rparr>,
                     ctx @ map (\<lambda>(dir_val, md). ctx_assertion dir_val md) (rsm_connector_selection_data m))
               else (m, ctx));
            ctx = take (length (rsm_connector_selection_data m)) ctx
        in case rsm_if_stmt_machines m of
             [] \<Rightarrow> Inr (m, ctx)
           | next_running # machines \<Rightarrow>
               and_then (run_nested next_running (rsm_running_stack m) ctx) (\<lambda>(stack, ctx').
                 Inr (m\<lparr>rsm_if_stmt_machines := machines, rsm_running_stack := stack\<rparr>, ctx')))"

text \<open>The first loop of \<open>advance\<close>, over the running statements from the innermost outwards.\<close>

fun advance_conditions ::
  "if_stmt_state_machine list \<Rightarrow> conjunctive_context \<Rightarrow>
     state_machine_error + bool \<times> if_stmt_state_machine list \<times> conjunctive_context" where
  "advance_conditions [] ctx = Inr (True, [], ctx)"
| "advance_conditions (m # stack) ctx =
     (if \<not> ism_is_condition_machine_finished m
      then and_then (ism_advance_condition_machine m ctx) (\<lambda>(m', ctx'). Inr (False, m' # stack, ctx'))
      else and_then (ism_advance_condition_machine m ctx) (\<lambda>(m', ctx').
             and_then (advance_conditions stack ctx') (\<lambda>(finished, stack', ctx'').
               Inr (finished, m' # stack', ctx''))))"

text \<open>The second loop of \<open>advance\<close>: drop the statements that have no further nested statement.\<close>

fun pop_finished ::
  "if_stmt_state_machine list \<Rightarrow> conjunctive_context \<Rightarrow>
     state_machine_error + if_stmt_state_machine option \<times> if_stmt_state_machine list \<times> conjunctive_context" where
  "pop_finished [] ctx = Inr (None, [], ctx)"
| "pop_finished (machine # stack) ctx =
     (if \<not> ism_is_finished machine
      then and_then (ism_advance machine) (\<lambda>(maybe_next, machine'). Inr (maybe_next, machine' # stack, ctx))
      else pop_finished stack (ism_destroy machine ctx))"

definition rsm_advance ::
  "rule_state_machine \<Rightarrow> conjunctive_context \<Rightarrow> state_machine_error + rule_state_machine \<times> conjunctive_context" where
  "rsm_advance m ctx =
     and_then (advance_conditions (rsm_running_stack m) ctx) (\<lambda>(finished, stack, ctx).
       let m = m\<lparr>rsm_running_stack := stack\<rparr>
       in if \<not> finished then Inr (m, ctx)
          else and_then (pop_finished (rsm_running_stack m) ctx) (\<lambda>(maybe_next_running, stack, ctx).
                 let m = m\<lparr>rsm_running_stack := stack\<rparr>
                 in case maybe_next_running of
                      Some next_running \<Rightarrow>
                        and_then (run_nested next_running (rsm_running_stack m) ctx) (\<lambda>(stack, ctx).
                          Inr (m\<lparr>rsm_running_stack := stack\<rparr>, ctx))
                    | None \<Rightarrow> rsm_init_next m ctx))"

record rule_context_manager =
  rcm_context :: conjunctive_context
  rcm_machine :: rule_state_machine
  rcm_init :: bool

definition rcm_new :: "'o dir_rule \<Rightarrow> (dir_value \<times> metadata) list \<Rightarrow> rule_context_manager" where
  "rcm_new r data = \<lparr>rcm_context = [], rcm_machine = rsm_new r data, rcm_init = False\<rparr>"

definition rcm_advance ::
  "rule_context_manager \<Rightarrow> state_machine_error + conjunctive_context option \<times> rule_context_manager" where
  "rcm_advance m =
     (if \<not> rcm_init m
      then and_then (rsm_init_next (rcm_machine m) (rcm_context m)) (\<lambda>(machine, ctx).
             Inr (Some ctx, \<lparr>rcm_context = ctx, rcm_machine = machine, rcm_init = True\<rparr>))
      else if rsm_is_finished (rcm_machine m) then Inr (None, m)
      else and_then (rsm_advance (rcm_machine m) (rcm_context m)) (\<lambda>(machine, ctx).
             Inr (if rsm_is_finished machine then None else Some ctx,
                  m\<lparr>rcm_context := ctx, rcm_machine := machine\<rparr>)))"

subsection \<open>Programs\<close>

record program_state_machine =
  psm_rule_machines :: "rule_state_machine list"
  psm_current_rule_machine :: "rule_state_machine option"
  psm_is_init :: bool

definition psm_new :: "'o dir_program \<Rightarrow> (dir_value \<times> metadata) list list \<Rightarrow> program_state_machine" where
  "psm_new p data =
     (let rule_machines = rev (map (\<lambda>(r, d). rsm_new r d) (rev (zip (dp_rules p) data)))
      in case rule_machines of
           [] \<Rightarrow> \<lparr>psm_rule_machines = [], psm_current_rule_machine = None, psm_is_init = False\<rparr>
         | current # rest \<Rightarrow>
             \<lparr>psm_rule_machines = rest, psm_current_rule_machine = Some current, psm_is_init = False\<rparr>)"

definition no_current_rule :: "program_state_machine \<Rightarrow> bool" where
  "no_current_rule m =
     (case psm_current_rule_machine m of None \<Rightarrow> True | Some rsm \<Rightarrow> rsm_is_finished rsm)"

definition psm_is_finished :: "program_state_machine \<Rightarrow> bool" where
  "psm_is_finished m \<longleftrightarrow> no_current_rule m \<and> psm_rule_machines m = []"

definition start_current_rule ::
  "program_state_machine \<Rightarrow> conjunctive_context \<Rightarrow>
     state_machine_error + program_state_machine \<times> conjunctive_context" where
  "start_current_rule m ctx =
     (case psm_current_rule_machine m of
        None \<Rightarrow> Inr (m, ctx)
      | Some rsm \<Rightarrow> and_then (rsm_init_next rsm ctx) (\<lambda>(rsm', ctx').
          Inr (m\<lparr>psm_current_rule_machine := Some rsm'\<rparr>, ctx')))"

definition psm_init ::
  "program_state_machine \<Rightarrow> conjunctive_context \<Rightarrow>
     state_machine_error + program_state_machine \<times> conjunctive_context" where
  "psm_init m ctx =
     (if \<not> psm_is_init m
      then and_then (start_current_rule m ctx) (\<lambda>(m', ctx'). Inr (m'\<lparr>psm_is_init := True\<rparr>, ctx'))
      else Inr (m, ctx))"

definition psm_advance ::
  "program_state_machine \<Rightarrow> conjunctive_context \<Rightarrow>
     state_machine_error + program_state_machine \<times> conjunctive_context" where
  "psm_advance m ctx =
     (if no_current_rule m
      then (case psm_rule_machines m of
              [] \<Rightarrow> start_current_rule (m\<lparr>psm_current_rule_machine := None\<rparr>) []
            | rsm # rest \<Rightarrow>
                start_current_rule (m\<lparr>psm_current_rule_machine := Some rsm, psm_rule_machines := rest\<rparr>) [])
      else case psm_current_rule_machine m of
             Some rsm \<Rightarrow> and_then (rsm_advance rsm ctx) (\<lambda>(rsm', ctx').
               Inr (m\<lparr>psm_current_rule_machine := Some rsm'\<rparr>, ctx'))
           | None \<Rightarrow> Inr (m, ctx))"

record analysis_context_manager =
  acm_context :: conjunctive_context
  acm_machine :: program_state_machine
  acm_init :: bool

definition acm_new :: "'o dir_program \<Rightarrow> (dir_value \<times> metadata) list list \<Rightarrow> analysis_context_manager" where
  "acm_new p data = \<lparr>acm_context = [], acm_machine = psm_new p data, acm_init = False\<rparr>"

definition acm_advance ::
  "analysis_context_manager \<Rightarrow> state_machine_error + conjunctive_context option \<times> analysis_context_manager" where
  "acm_advance m =
     (if \<not> acm_init m
      then and_then (psm_init (acm_machine m) (acm_context m)) (\<lambda>(machine, ctx).
             Inr (Some ctx, \<lparr>acm_context = ctx, acm_machine = machine, acm_init = True\<rparr>))
      else if psm_is_finished (acm_machine m) then Inr (None, m)
      else and_then (psm_advance (acm_machine m) (acm_context m)) (\<lambda>(machine, ctx).
             Inr (if psm_is_finished machine then None else Some ctx,
                  m\<lparr>acm_context := ctx, acm_machine := machine\<rparr>)))"

text \<open>The analysable output is a type parameter of the source: what its instance returns is an argument.\<close>

definition make_connector_selection_data ::
  "('o \<Rightarrow> string \<Rightarrow> (dir_value \<times> metadata) list) \<Rightarrow> 'o dir_program \<Rightarrow> (dir_value \<times> metadata) list list" where
  "make_connector_selection_data get_dir_value_for_analysis p =
     map (\<lambda>r. get_dir_value_for_analysis (dr_connector_selection r) (dr_name r)) (dp_rules p)"

end
