(* ===== verification/Euclid_Contexts.thy ===== *)
theory Euclid_Contexts
  imports Euclid_State_Machine
begin

text \<open>
  What the managers of \<open>Euclid_State_Machine\<close> produce. The counters of the comparisons on a path
  count in a mixed radix, the last comparison fastest; the stack of running statements is a
  position of a depth-first search among the leaves of the statements. The locale \<open>rule_runner\<close> is
  what the two managers share: running one rule to its end.
\<close>

subsection \<open>Counting\<close>

definition radix :: "comparison_state_machine \<Rightarrow> nat" where
  "radix m = (case csm_logic m of Dir_PositiveDisjunction \<Rightarrow> length (csm_values m) | Dir_NegativeConjunction \<Rightarrow> 1)"

definition current :: "comparison_state_machine \<Rightarrow> context_value" where
  "current m =
     (case csm_logic m of
        Dir_PositiveDisjunction \<Rightarrow> ctx_assertion (csm_values m ! csm_count m) (csm_metadata m)
      | Dir_NegativeConjunction \<Rightarrow> ctx_negation (csm_values m) (csm_metadata m))"

fun at_index :: "comparison_state_machine list \<Rightarrow> nat \<Rightarrow> comparison_state_machine list" where
  "at_index [] i = []"
| "at_index (m # ms) i = m\<lparr>csm_count := i mod radix m\<rparr> # at_index ms (i div radix m)"

fun idx_ok :: "nat \<Rightarrow> comparison_state_machine list \<Rightarrow> bool" where
  "idx_ok n [] \<longleftrightarrow> True"
| "idx_ok n (m # ms) \<longleftrightarrow> csm_ctx_idx m = n + length ms \<and> idx_ok n ms"

abbreviation total :: "comparison_state_machine list \<Rightarrow> nat" where
  "total ms \<equiv> prod_list (map radix ms)"

lemma radix_count [simp]: "radix (m\<lparr>csm_count := k\<rparr>) = radix m"
  by (cases "csm_logic m") (simp_all add: radix_def)

lemma length_at_index [simp]: "length (at_index ms i) = length ms"
  by (induction ms arbitrary: i) simp_all

lemma at_index_append: "at_index (xs @ ys) i = at_index xs i @ at_index ys (i div total xs)"
  by (induction xs arbitrary: i) (simp_all add: div_mult2_eq)

lemma idx_ok_append: "idx_ok n (xs @ ys) \<longleftrightarrow> idx_ok (n + length ys) xs \<and> idx_ok n ys"
  by (induction xs) (auto simp: add.commute add.left_commute)

lemma total_pos: "list_all (\<lambda>m. 0 < radix m) ms \<Longrightarrow> 0 < total ms"
  by (induction ms) simp_all

lemma csm_finished_iff: "csm_count m < radix m \<Longrightarrow> csm_is_finished m \<longleftrightarrow> Suc (csm_count m) = radix m"
  by (auto simp: csm_is_finished_def radix_def split: dir_comparison_logic.splits)

lemma csm_put_at:
  assumes "csm_ctx_idx m = length pre" and "csm_count m < radix m" and "csm_logic m = Dir_NegativeConjunction \<Longrightarrow> x = current m"
  shows "csm_put m (pre @ x # suf) = Inr (pre @ current m # suf)"
  using assms by (cases "csm_logic m") (simp_all add: csm_put_def current_def radix_def vec_get_def)

lemma csm_advance_count:
  "Suc (csm_count m) < radix m \<Longrightarrow> csm_advance m = m\<lparr>csm_count := Suc (csm_count m)\<rparr>"
  by (cases "csm_logic m") (simp_all add: csm_advance_def radix_def)

lemma csm_reset_count: "csm_reset (m\<lparr>csm_count := k\<rparr>) = m\<lparr>csm_count := 0\<rparr>"
  by (simp add: csm_reset_def)

lemma Suc_divmod:
  assumes "0 < (r :: nat)"
  shows "Suc (i mod r) = r \<Longrightarrow> Suc i mod r = 0 \<and> Suc i div r = Suc (i div r)"
    and "Suc (i mod r) \<noteq> r \<Longrightarrow> Suc i mod r = Suc (i mod r) \<and> Suc i div r = i div r \<and> Suc (i mod r) < r"
proof -
  show "Suc (i mod r) = r \<Longrightarrow> Suc i mod r = 0 \<and> Suc i div r = Suc (i div r)"
    by (simp add: mod_Suc div_Suc)
  assume a: "Suc (i mod r) \<noteq> r"
  have "i mod r < r" using assms by simp
  with a show "Suc i mod r = Suc (i mod r) \<and> Suc i div r = i div r \<and> Suc (i mod r) < r"
    by (simp add: mod_Suc div_Suc)
qed

lemma advance_rev_at:
  assumes "idx_ok (length pre) ms" and "list_all (\<lambda>m. 0 < radix m) ms"
  shows "advance_rev (at_index ms i) (pre @ rev (map current (at_index ms i)) @ suf) =
    Inr (at_index ms (Suc i), pre @ rev (map current (at_index ms (Suc i))) @ suf)"
  using assms
proof (induction ms arbitrary: i suf)
  case (Cons m ms)
  let ?r = "radix m" and ?m = "m\<lparr>csm_count := i mod radix m\<rparr>"
  let ?pre = "pre @ rev (map current (at_index ms (i div ?r)))"
  have r: "0 < ?r" and idx: "csm_ctx_idx m = length ?pre" using Cons.prems by simp_all
  have fin: "csm_is_finished ?m \<longleftrightarrow> Suc (i mod ?r) = ?r"
    by (subst csm_finished_iff) (simp_all add: r)
  have neg: "csm_logic m = Dir_NegativeConjunction \<Longrightarrow> current (m\<lparr>csm_count := a\<rparr>) = current (m\<lparr>csm_count := b\<rparr>)" for a b
    by (simp add: current_def)
  show ?case
  proof (cases "Suc (i mod ?r) = ?r")
    case True
    have put: "csm_put (m\<lparr>csm_count := 0\<rparr>) (?pre @ current ?m # suf) = Inr (?pre @ current (m\<lparr>csm_count := 0\<rparr>) # suf)"
      by (rule csm_put_at) (use idx r neg in simp_all)
    show ?thesis
      using Cons.IH [of "i div ?r" "current (m\<lparr>csm_count := 0\<rparr>) # suf"] Cons.prems put fin True
        Suc_divmod(1) [OF r True] by (simp add: csm_reset_count Let_def)
  next
    case False
    note divmod = Suc_divmod(2) [OF r False]
    have put: "csm_put (m\<lparr>csm_count := Suc (i mod ?r)\<rparr>) (?pre @ current ?m # suf) =
        Inr (?pre @ current (m\<lparr>csm_count := Suc (i mod ?r)\<rparr>) # suf)"
      by (rule csm_put_at) (use idx divmod neg in simp_all)
    have adv: "csm_advance ?m = m\<lparr>csm_count := Suc (i mod ?r)\<rparr>"
      by (subst csm_advance_count) (use divmod in simp_all)
    show ?thesis using put adv fin False divmod by (simp add: Let_def)
  qed
qed simp

lemma finished_at:
  "list_all (\<lambda>m. 0 < radix m) ms \<Longrightarrow> list_all csm_is_finished (at_index ms i) \<longleftrightarrow> Suc i mod total ms = 0"
proof (induction ms arbitrary: i)
  case (Cons m ms)
  let ?r = "radix m"
  have r: "0 < ?r" and P: "0 < total ms" using Cons.prems total_pos [of ms] by simp_all
  have fin: "csm_is_finished (m\<lparr>csm_count := i mod ?r\<rparr>) \<longleftrightarrow> Suc (i mod ?r) = ?r"
    by (subst csm_finished_iff) (simp_all add: r)
  show ?case
  proof (cases "Suc (i mod ?r) = ?r")
    case True
    with Suc_divmod(1) [OF r True] fin Cons show ?thesis by (simp add: mod_mult2_eq)
  next
    case False
    with Suc_divmod(2) [OF r False] fin show ?thesis by (simp add: mod_mult2_eq)
  qed
qed simp

lemma at_index_wrap: "j mod total ms = 0 \<Longrightarrow> at_index ms j = at_index ms 0"
proof (induction ms arbitrary: j)
  case (Cons m ms)
  then have "j mod radix m = 0" "j div radix m mod total ms = 0"
    by (auto simp: mod_mult2_eq)
  with Cons.IH [of "j div radix m"] show ?case by simp
qed simp

subsection \<open>Paths\<close>

definition alternatives :: "dir_comparison \<Rightarrow> context_value list" where
  "alternatives c =
     (case dc_logic c of
        Dir_PositiveDisjunction \<Rightarrow> map (\<lambda>v. ctx_assertion v (dc_metadata c)) (dc_values c)
      | Dir_NegativeConjunction \<Rightarrow> [ctx_negation (dc_values c) (dc_metadata c)])"

abbreviation choices :: "dir_comparison list \<Rightarrow> conjunctive_context list" where
  "choices p \<equiv> product_lists (map alternatives p)"

definition blocked :: "dir_comparison list \<Rightarrow> bool" where
  "blocked p = list_ex (\<lambda>c. alternatives c = []) p"

fun stmt_condition :: "dir_if_statement \<Rightarrow> dir_comparison list" where
  "stmt_condition (DirIfStatement condition nested) = condition"

fun stmt_nested :: "dir_if_statement \<Rightarrow> dir_if_statement list" where
  "stmt_nested (DirIfStatement condition nested) = (case nested of None \<Rightarrow> [] | Some ns \<Rightarrow> ns)"

fun leaf_paths :: "dir_if_statement \<Rightarrow> dir_comparison list list" where
  "leaf_paths (DirIfStatement condition None) = [condition]"
| "leaf_paths (DirIfStatement condition (Some [])) = [condition]"
| "leaf_paths (DirIfStatement condition (Some (n # ns))) =
     map (\<lambda>p. condition @ p) (concat (map (\<lambda>s. leaf_paths s) (n # ns)))"

definition machines_of :: "dir_comparison list \<Rightarrow> nat \<Rightarrow> comparison_state_machine list" where
  "machines_of p n = cnd_state_machines (cnd_new p n)"

lemma cnd_new_eq: "cnd_new p n = \<lparr>cnd_state_machines = machines_of p n, cnd_start_ctx_idx = n\<rparr>"
  by (simp add: machines_of_def cnd_new_def)

lemma length_machines_of [simp]: "length (machines_of p n) = length p"
  by (simp add: machines_of_def cnd_new_def)

lemma machines_of_Nil [simp]: "machines_of [] n = []"
  by (simp add: machines_of_def cnd_new_def)

lemma machines_of_append: "machines_of (p @ q) n = machines_of p n @ machines_of q (n + length p)"
  by (simp add: machines_of_def cnd_new_def enumerate_append_eq)

lemma machines_of_single:
  "machines_of [c] n = [\<lparr>csm_values = dc_values c, csm_logic = dc_logic c, csm_metadata = dc_metadata c,
     csm_count = 0, csm_ctx_idx = n\<rparr>]"
  by (simp add: machines_of_def cnd_new_def)

lemma machines_of_Cons: "machines_of (c # p) n = machines_of [c] n @ machines_of p (Suc n)"
  using machines_of_append [of "[c]" p n] by simp

lemma machine_radix: "radix (hd (machines_of [c] n)) = length (alternatives c)"
  by (cases "dc_logic c") (simp_all add: machines_of_single radix_def alternatives_def)

lemma machine_current:
  "k < length (alternatives c) \<Longrightarrow> current ((hd (machines_of [c] n))\<lparr>csm_count := k\<rparr>) = alternatives c ! k"
  by (cases "dc_logic c") (simp_all add: machines_of_single current_def alternatives_def)

lemma idx_ok_machines: "idx_ok n (rev (machines_of p n))"
  by (induction p rule: rev_induct) (simp_all add: machines_of_append machines_of_single)

lemma radix_machines: "map radix (machines_of p n) = map (\<lambda>c. length (alternatives c)) p"
proof (induction p arbitrary: n)
  case (Cons c p)
  obtain m where m: "machines_of [c] n = [m]" by (simp add: machines_of_single)
  with machine_radix [of c n] Cons [of "Suc n"] show ?case by (subst machines_of_Cons) simp
qed simp

lemma total_machines: "total (rev (machines_of p n)) = length (choices p)"
  by (simp add: rev_map [symmetric] radix_machines prod_list.rev length_product_lists comp_def)

lemma radix_pos: "\<not> blocked p \<Longrightarrow> list_all (\<lambda>m. 0 < radix m) (rev (machines_of p n))"
proof -
  assume "\<not> blocked p"
  then have "\<forall>r \<in> set (map radix (machines_of p n)). 0 < r"
    by (auto simp: radix_machines blocked_def list_ex_iff)
  then show ?thesis by (auto simp: list_all_iff)
qed

lemma choices_pos: "\<not> blocked p \<Longrightarrow> 0 < length (choices p)"
  using total_pos [OF radix_pos, of p 0] by (simp add: total_machines)

lemma current_at:
  "i < length (choices p) \<Longrightarrow> rev (map current (at_index (rev (machines_of p n)) i)) = choices p ! i"
proof (induction p arbitrary: i rule: rev_induct)
  case (snoc c p)
  obtain m where m: "machines_of [c] (n + length p) = [m]" by (simp add: machines_of_single)
  let ?r = "length (alternatives c)"
  have r: "radix m = ?r" using machine_radix [of c "n + length p"] m by simp
  have i: "i < length (choices p) * ?r" using snoc.prems by (simp add: length_product_lists)
  then have "0 < ?r" "i div ?r < length (choices p)"
    by (auto intro: Nat.gr0I simp: less_mult_imp_div_less)
  then show ?case
    using snoc.IH [of "i div ?r"] machine_current [of "i mod ?r" c "n + length p"] i m r
    by (simp add: machines_of_append product_lists_snoc_nth)
qed simp

lemma at_index_fresh: "at_index (rev (machines_of p n)) 0 = rev (machines_of p n)"
  by (induction p rule: rev_induct) (simp_all add: machines_of_append machines_of_single)

lemma choices_first: "\<not> blocked p \<Longrightarrow> choices p ! 0 = map (\<lambda>c. alternatives c ! 0) p"
proof (induction p rule: rev_induct)
  case (snoc c p)
  then have "0 < length (alternatives c)" "\<not> blocked p" by (simp_all add: blocked_def)
  with snoc.IH choices_pos [of p] show ?case by (simp add: product_lists_snoc_nth)
qed simp

lemma push_all_machines:
  "push_all (machines_of p n) ctx =
     (if blocked p then Inl (IndexOutOfBounds ''in ComparisonStateMachine while pushing'')
      else Inr (ctx @ map (\<lambda>c. alternatives c ! 0) p))"
proof (induction p arbitrary: n ctx)
  case (Cons c p)
  have "csm_push (hd (machines_of [c] n)) ctx =
      (if alternatives c = [] then Inl (IndexOutOfBounds ''in ComparisonStateMachine while pushing'')
       else Inr (ctx @ [alternatives c ! 0]))"
    by (cases "dc_logic c") (simp_all add: machines_of_single csm_push_def alternatives_def vec_get_def)
  moreover obtain m where "machines_of [c] n = [m]" by (simp add: machines_of_single)
  ultimately show ?case using Cons.IH [of "Suc n"] by (subst machines_of_Cons) (simp add: blocked_def)
qed (simp add: blocked_def)

subsection \<open>Running statements\<close>

fun path_of :: "(dir_if_statement \<times> nat) list \<Rightarrow> dir_comparison list" where
  "path_of [] = []"
| "path_of ((s, k) # fs) = path_of fs @ stmt_condition s"

fun frames :: "nat \<Rightarrow> (dir_if_statement \<times> nat) list \<Rightarrow> if_stmt_state_machine list" where
  "frames n [] = []"
| "frames n ((s, k) # fs) = (ism_new s (n + length (path_of fs)))\<lparr>ism_nested_idx := k\<rparr> # frames n fs"

definition frame_at :: "if_stmt_state_machine \<Rightarrow> nat \<Rightarrow> if_stmt_state_machine" where
  "frame_at f i = f\<lparr>ism_condition_machine := (ism_condition_machine f)\<lparr>cnd_state_machines :=
     rev (at_index (rev (cnd_state_machines (ism_condition_machine f))) i)\<rparr>\<rparr>"

fun frames_at :: "nat \<Rightarrow> (dir_if_statement \<times> nat) list \<Rightarrow> nat \<Rightarrow> if_stmt_state_machine list" where
  "frames_at n [] i = []"
| "frames_at n ((s, k) # fs) i =
     frame_at ((ism_new s (n + length (path_of fs)))\<lparr>ism_nested_idx := k\<rparr>) i
       # frames_at n fs (i div length (choices (stmt_condition s)))"

lemma ism_new_sel [simp]:
  "ism_condition_machine (ism_new s n) = cnd_new (stmt_condition s) n"
  "ism_nested (ism_new s n) = stmt_nested s"
  "ism_nested_idx (ism_new s n) = 0"
  by (cases s; simp)+

lemma frames_at_0: "frames_at n fs 0 = frames n fs"
proof (induction fs)
  case (Cons f fs)
  then show ?case
    by (cases f) (simp add: frame_at_def cnd_new_eq at_index_fresh)
qed simp

lemma blocked_append [simp]: "blocked (p @ q) \<longleftrightarrow> blocked p \<or> blocked q"
  by (simp add: blocked_def)

lemma length_choices_append:
  "length (product_lists (xss @ yss)) = length (product_lists xss) * length (product_lists yss)"
  by (simp add: length_product_lists)

definition context_at :: "nat \<Rightarrow> dir_comparison list \<Rightarrow> nat \<Rightarrow> conjunctive_context" where
  "context_at n p i = rev (map current (at_index (rev (machines_of p n)) i))"

lemma context_at_append:
  "context_at n (p @ q) i = context_at n p (i div length (choices q)) @ context_at (n + length p) q i"
  by (simp add: context_at_def machines_of_append at_index_append total_machines)

lemma length_context_at [simp]: "length (context_at n p i) = length p"
  by (simp add: context_at_def)

lemma frame_advance:
  assumes "ism_condition_machine f = cnd_new q (length pre)" and "\<not> blocked q"
  shows "ism_advance_condition_machine (frame_at f i) (pre @ context_at (length pre) q i @ suf) =
    Inr (frame_at f (Suc i), pre @ context_at (length pre) q (Suc i) @ suf)"
  using advance_rev_at [OF idx_ok_machines radix_pos [OF assms(2)], of pre i suf]
  by (simp add: ism_advance_condition_machine_def cnd_advance_def frame_at_def assms(1) cnd_new_eq context_at_def)

lemma frame_finished:
  assumes "ism_condition_machine f = cnd_new q n" and "\<not> blocked q"
  shows "ism_is_condition_machine_finished (frame_at f i) \<longleftrightarrow> Suc i mod length (choices q) = 0"
  using finished_at [OF radix_pos [OF assms(2)], of n i]
  by (simp add: ism_is_condition_machine_finished_def cnd_is_finished_def frame_at_def assms(1) cnd_new_eq
      total_machines list_ex_iff list_all_iff)

lemma advance_conditions_at:
  assumes "\<not> blocked (path_of fs)" and "length pre = n"
  shows "advance_conditions (frames_at n fs i) (pre @ context_at n (path_of fs) i @ suf) =
    Inr (Suc i mod length (choices (path_of fs)) = 0, frames_at n fs (Suc i), pre @ context_at n (path_of fs) (Suc i) @ suf)"
  using assms
proof (induction fs arbitrary: i suf)
  case (Cons f fs)
  obtain s k where f: "f = (s, k)" by (cases f)
  let ?q = "stmt_condition s" and ?p = "path_of fs"
  let ?r = "length (choices ?q)" and ?m = "(ism_new s (n + length ?p))\<lparr>ism_nested_idx := k\<rparr>"
  have ok: "\<not> blocked ?q" "\<not> blocked ?p" using Cons.prems f by simp_all
  have r: "0 < ?r" using ok choices_pos by simp
  have cm: "ism_condition_machine ?m = cnd_new ?q (length (pre @ context_at n ?p (i div ?r)))"
    using Cons.prems by simp
  note adv = frame_advance [OF cm ok(1), of i suf]
  have fin: "ism_is_condition_machine_finished (frame_at ?m i) \<longleftrightarrow> Suc i mod ?r = 0"
    by (rule frame_finished [OF cm ok(1)])
  have len: "length (pre @ context_at n ?p (i div ?r)) = n + length ?p" using Cons.prems by simp
  show ?case
  proof (cases "Suc i mod ?r = 0")
    case True
    then have "Suc (i mod ?r) = ?r" using r by (simp add: mod_Suc split: if_splits)
    with Suc_divmod(1) [OF r this] have d: "Suc i div ?r = Suc (i div ?r)" by simp
    have tot: "Suc i mod length (choices (?p @ ?q)) = 0 \<longleftrightarrow> Suc (i div ?r) mod length (choices ?p) = 0"
      using True d r by (simp add: length_choices_append mult.commute [of _ ?r] mod_mult2_eq)
    show ?thesis
      using adv fin True d tot Cons.IH [OF ok(2) Cons.prems(2), of "i div ?r" "context_at (n + length ?p) ?q (Suc i) @ suf"] f len
      by (simp add: context_at_append)
  next
    case False
    then have "Suc (i mod ?r) \<noteq> ?r" using r by (auto simp: mod_Suc)
    with Suc_divmod(2) [OF r this] have d: "Suc i div ?r = i div ?r" "Suc i mod ?r = Suc (i mod ?r)" by simp_all
    have tot: "Suc i mod length (choices (?p @ ?q)) \<noteq> 0"
      using False r by (simp add: length_choices_append mult.commute [of _ ?r] mod_mult2_eq)
    show ?thesis using adv fin False d tot f len by (simp add: context_at_append)
  qed
qed (simp add: context_at_def)

lemma frames_at_wrap: "j mod length (choices (path_of fs)) = 0 \<Longrightarrow> frames_at n fs j = frames n fs"
proof (induction fs arbitrary: j)
  case (Cons f fs)
  obtain s k where f: "f = (s, k)" by (cases f)
  let ?q = "stmt_condition s"
  have j: "j mod length (choices ?q) = 0" "j div length (choices ?q) mod length (choices (path_of fs)) = 0"
    using Cons.prems f by (auto simp: length_choices_append mult.commute [of _ "length (choices ?q)"] mod_mult2_eq)
  from at_index_wrap [of j "rev (machines_of ?q (n + length (path_of fs)))"] j(1)
  have "frame_at ((ism_new s (n + length (path_of fs)))\<lparr>ism_nested_idx := k\<rparr>) j = (ism_new s (n + length (path_of fs)))\<lparr>ism_nested_idx := k\<rparr>"
    by (simp add: frame_at_def cnd_new_eq total_machines at_index_fresh)
  with Cons.IH [OF j(2)] f show ?case by simp
qed simp

lemma context_at_wrap:
  "\<not> blocked p \<Longrightarrow> j mod length (choices p) = 0 \<Longrightarrow> context_at n p j = map (\<lambda>c. alternatives c ! 0) p"
  using at_index_wrap [of j "rev (machines_of p n)"] choices_first [of p] choices_pos [of p] current_at [of 0 p n]
  by (simp add: context_at_def total_machines)

lemma context_at_choice: "i < length (choices p) \<Longrightarrow> context_at n p i = choices p ! i"
  by (simp add: context_at_def current_at)

subsection \<open>Depth-first search\<close>

fun descend :: "dir_if_statement \<Rightarrow> (dir_if_statement \<times> nat) list \<Rightarrow> (dir_if_statement \<times> nat) list" where
  "descend (DirIfStatement c None) fs = (DirIfStatement c None, 0) # fs"
| "descend (DirIfStatement c (Some [])) fs = (DirIfStatement c (Some []), 0) # fs"
| "descend (DirIfStatement c (Some (t # ts))) fs = descend t ((DirIfStatement c (Some (t # ts)), 0) # fs)"

fun later_paths :: "(dir_if_statement \<times> nat) list \<Rightarrow> dir_comparison list list" where
  "later_paths [] = []"
| "later_paths ((s, k) # fs) =
     map (\<lambda>p. path_of fs @ stmt_condition s @ p) (concat (map leaf_paths (drop (Suc k) (stmt_nested s)))) @ later_paths fs"

fun backtrack :: "(dir_if_statement \<times> nat) list \<Rightarrow> (dir_if_statement \<times> (dir_if_statement \<times> nat) list) option" where
  "backtrack [] = None"
| "backtrack ((s, k) # fs) =
     (if Suc k < length (stmt_nested s) then Some (stmt_nested s ! Suc k, (s, Suc k) # fs) else backtrack fs)"

lemma leaf_paths_nonempty: "leaf_paths s \<noteq> []"
  by (induction s rule: leaf_paths.induct) auto

lemma descend_paths:
  "path_of (descend s fs) # later_paths (descend s fs) = map (\<lambda>p. path_of fs @ p) (leaf_paths s) @ later_paths fs"
  by (induction s fs rule: descend.induct) (simp_all add: comp_def)

lemma backtrack_None: "backtrack fs = None \<Longrightarrow> later_paths fs = []"
  by (induction fs rule: backtrack.induct) (auto split: if_splits)

lemma backtrack_Some:
  "backtrack fs = Some (t, gs) \<Longrightarrow> later_paths fs = map (\<lambda>p. path_of gs @ p) (leaf_paths t) @ later_paths gs"
proof (induction fs rule: backtrack.induct)
  case (2 s k fs)
  show ?case
  proof (cases "Suc k < length (stmt_nested s)")
    case True
    then have "drop (Suc k) (stmt_nested s) = t # drop (Suc (Suc k)) (stmt_nested s)" "gs = (s, Suc k) # fs"
      using "2.prems" by (auto simp: Cons_nth_drop_Suc)
    then show ?thesis by (simp add: map_concat comp_def)
  qed (use 2 in auto)
qed simp

lemma backtrack_prefix: "backtrack fs = Some (t, gs) \<Longrightarrow> \<exists>q. path_of fs = path_of gs @ q"
  by (induction fs rule: backtrack.induct) (auto split: if_splits)

lemma run_nested_descend:
  "length ctx = n + length (path_of fs) \<Longrightarrow>
   run_nested (ism_new s (n + length (path_of fs))) (frames n fs) ctx =
     (if blocked (hd (leaf_paths s)) then Inl (IndexOutOfBounds ''in ComparisonStateMachine while pushing'')
      else Inr (frames n (descend s fs), ctx @ map (\<lambda>c. alternatives c ! 0) (hd (leaf_paths s))))"
proof (induction s fs arbitrary: ctx rule: descend.induct)
  case (3 c t ts fs)
  let ?s = "DirIfStatement c (Some (t # ts))"
  have fr: "(ism_new ?s (n + length (path_of fs)))\<lparr>ism_nested_idx := 0\<rparr> = ism_new ?s (n + length (path_of fs))" by simp
  have hd: "hd (leaf_paths ?s) = c @ hd (leaf_paths t)"
    using leaf_paths_nonempty [of t] by (simp add: hd_map)
  show ?case
  proof (cases "blocked c")
    case True
    then show ?thesis
      unfolding hd by (subst run_nested.simps) (simp add: ism_init_def cnd_init_def cnd_new_eq push_all_machines)
  next
    case False
    then have "ism_init (ism_new ?s (n + length (path_of fs))) ctx =
        Inr (Some (ism_new t (n + length (path_of ((?s, 0) # fs)))), ctx @ map (\<lambda>c. alternatives c ! 0) c)"
      by (simp add: ism_init_def cnd_init_def cnd_new_eq push_all_machines vec_get_def cnd_get_next_ctx_idx_def add.assoc)
    then show ?thesis
      using "3.IH" [of "ctx @ map (\<lambda>c. alternatives c ! 0) c"] "3.prems" False fr unfolding hd
      by (subst run_nested.simps) (simp add: add.assoc)
  qed
qed (subst run_nested.simps, simp add: ism_init_def cnd_init_def cnd_new_eq push_all_machines vec_get_def)+

lemma pop_finished_backtrack:
  assumes "fs \<noteq> []" and "n + length (path_of fs) = length ctx"
  shows "pop_finished (frames n fs) ctx =
    (case backtrack fs of
       None \<Rightarrow> Inr (None, [], take n ctx)
     | Some (t, gs) \<Rightarrow> Inr (Some (ism_new t (n + length (path_of gs))), frames n gs, take (n + length (path_of gs)) ctx))"
  using assms
proof (induction fs arbitrary: ctx rule: backtrack.induct)
  case (2 s k fs)
  let ?m = "(ism_new s (n + length (path_of fs)))\<lparr>ism_nested_idx := k\<rparr>"
  show ?case
  proof (cases "Suc k < length (stmt_nested s)")
    case True
    then show ?thesis using "2.prems"
      by (auto simp: ism_is_finished_def ism_advance_def vec_get_def cnd_get_next_ctx_idx_def cnd_new_eq Let_def add.assoc)
  next
    case False
    then have fin: "ism_is_finished ?m" by (simp add: ism_is_finished_def)
    have des: "ism_destroy ?m ctx = take (n + length (path_of fs)) ctx"
      by (simp add: ism_destroy_def cnd_destroy_def cnd_new_eq)
    show ?thesis
    proof (cases "fs = []")
      case True
      with False fin des show ?thesis by simp
    next
      case ne: False
      have "length (take (n + length (path_of fs)) ctx) = n + length (path_of fs)" using "2.prems" by simp
      moreover have "length (path_of gs) \<le> length (path_of fs)" if "backtrack fs = Some (t, gs)" for t gs
        using backtrack_prefix [OF that] by auto
      ultimately show ?thesis using "2.IH" [OF False ne, of "take (n + length (path_of fs)) ctx"] False fin des
        by (auto split: option.splits simp: min_def)
    qed
  qed
qed simp

subsection \<open>Rules\<close>

definition connector_context :: "(dir_value \<times> metadata) list \<Rightarrow> conjunctive_context" where
  "connector_context data = map (\<lambda>(dir_val, md). ctx_assertion dir_val md) data"

definition push_error :: state_machine_error where
  "push_error = IndexOutOfBounds ''in ComparisonStateMachine while pushing''"

text \<open>The machine of a rule at the \<open>i\<close>-th choice on the path \<open>p\<close>, with the paths \<open>ps\<close> still to come.\<close>

definition rsm_at ::
  "(dir_value \<times> metadata) list \<Rightarrow> rule_state_machine \<times> conjunctive_context \<Rightarrow>
     dir_comparison list \<Rightarrow> nat \<Rightarrow> dir_comparison list list \<Rightarrow> bool" where
  "rsm_at data mc p i ps \<longleftrightarrow>
     (\<exists>fs ss. fs \<noteq> [] \<and> p = path_of fs \<and> ps = later_paths fs @ concat (map leaf_paths ss)
        \<and> \<not> blocked p \<and> i < length (choices p)
        \<and> mc = (\<lparr>rsm_connector_selection_data = data, rsm_connectors_added = True,
                 rsm_if_stmt_machines = map (\<lambda>s. ism_new s (length data)) ss,
                 rsm_running_stack = frames_at (length data) fs i\<rparr>,
                connector_context data @ choices p ! i))"

definition starts ::
  "(dir_value \<times> metadata) list \<Rightarrow> state_machine_error + rule_state_machine \<times> conjunctive_context \<Rightarrow>
     dir_comparison list list \<Rightarrow> bool" where
  "starts data res ps \<longleftrightarrow>
     (case ps of
        [] \<Rightarrow> False
      | p # ps' \<Rightarrow> if blocked p then res = Inl push_error else (\<exists>mc. res = Inr mc \<and> rsm_at data mc p 0 ps'))"

lemma length_connector_context [simp]: "length (connector_context data) = length data"
  by (simp add: connector_context_def)

lemma descend_nonempty: "descend s fs \<noteq> []"
  by (induction s fs rule: descend.induct) simp_all

lemma run_nested_starts:
  fixes data :: "(dir_value \<times> metadata) list"
  defines "n \<equiv> length data"
  assumes ok: "\<not> blocked (path_of gs)"
    and res: "res = and_then (run_nested (ism_new t (n + length (path_of gs))) (frames n gs)
        (connector_context data @ map (\<lambda>c. alternatives c ! 0) (path_of gs)))
      (\<lambda>(stack, ctx). Inr (\<lparr>rsm_connector_selection_data = data, rsm_connectors_added = True,
          rsm_if_stmt_machines = map (\<lambda>s. ism_new s n) ss, rsm_running_stack = stack\<rparr>, ctx))"
  shows "starts data res (map (\<lambda>p. path_of gs @ p) (leaf_paths t) @ later_paths gs @ concat (map leaf_paths ss))"
proof -
  let ?p = "path_of gs @ hd (leaf_paths t)"
  have p: "path_of (descend t gs) = ?p"
    using descend_paths [of t gs] leaf_paths_nonempty [of t] by (cases "leaf_paths t") auto
  have ps: "map (\<lambda>p. path_of gs @ p) (leaf_paths t) @ later_paths gs @ concat (map leaf_paths ss) =
      ?p # later_paths (descend t gs) @ concat (map leaf_paths ss)"
    using descend_paths [of t gs] p by (metis append.assoc append_Cons)
  have run: "run_nested (ism_new t (n + length (path_of gs))) (frames n gs)
        (connector_context data @ map (\<lambda>c. alternatives c ! 0) (path_of gs)) =
      (if blocked (hd (leaf_paths t)) then Inl push_error
       else Inr (frames n (descend t gs), connector_context data @ map (\<lambda>c. alternatives c ! 0) ?p))"
    unfolding push_error_def by (subst run_nested_descend) (simp_all add: n_def)
  show ?thesis
  proof (cases "blocked (hd (leaf_paths t))")
    case True
    then show ?thesis unfolding ps starts_def using res run by simp
  next
    case False
    then have b: "\<not> blocked ?p" using ok by simp
    have "rsm_at data (\<lparr>rsm_connector_selection_data = data, rsm_connectors_added = True,
          rsm_if_stmt_machines = map (\<lambda>s. ism_new s n) ss, rsm_running_stack = frames n (descend t gs)\<rparr>,
          connector_context data @ map (\<lambda>c. alternatives c ! 0) ?p) ?p 0 (later_paths (descend t gs) @ concat (map leaf_paths ss))"
      unfolding rsm_at_def
      by (rule exI [of _ "descend t gs"], rule exI [of _ ss])
        (use b p choices_pos [OF b] in \<open>simp add: descend_nonempty frames_at_0 n_def choices_first [symmetric] del: map_append\<close>)
    then show ?thesis unfolding ps starts_def using res run False b by simp
  qed
qed

lemma rsm_init_next_starts:
  assumes "rsm_connector_selection_data m = data" and "rsm_running_stack m = []"
    and "rsm_if_stmt_machines m = map (\<lambda>s. ism_new s (length data)) ss" and "ss \<noteq> []"
    and "if rsm_connectors_added m then ctx = connector_context data else ctx = []"
  shows "starts data (rsm_init_next m ctx) (concat (map leaf_paths ss))"
proof -
  obtain t ts where ss: "ss = t # ts" using assms(4) by (cases ss) auto
  have "rsm_init_next m ctx =
      and_then (run_nested (ism_new t (length data + length (path_of []))) (frames (length data) [])
        (connector_context data @ map (\<lambda>c. alternatives c ! 0) (path_of [])))
      (\<lambda>(stack, ctx). Inr (\<lparr>rsm_connector_selection_data = data, rsm_connectors_added = True,
          rsm_if_stmt_machines = map (\<lambda>s. ism_new s (length data)) ts, rsm_running_stack = stack\<rparr>, ctx))"
    using assms ss by (cases m) (auto simp: rsm_init_next_def connector_context_def Let_def)
  from run_nested_starts [OF _ this] show ?thesis by (simp add: ss blocked_def)
qed

lemma rsm_advance_choice:
  assumes "rsm_at data mc p i ps" and "Suc i < length (choices p)"
  shows "\<exists>mc'. rsm_advance (fst mc) (snd mc) = Inr mc' \<and> rsm_at data mc' p (Suc i) ps"
proof -
  obtain fs ss where st: "fs \<noteq> []" "p = path_of fs" "ps = later_paths fs @ concat (map leaf_paths ss)" "\<not> blocked p"
    "i < length (choices p)" and mc: "mc = (\<lparr>rsm_connector_selection_data = data, rsm_connectors_added = True,
                 rsm_if_stmt_machines = map (\<lambda>s. ism_new s (length data)) ss,
                 rsm_running_stack = frames_at (length data) fs i\<rparr>, connector_context data @ choices p ! i)"
    using assms(1) unfolding rsm_at_def by blast
  have "advance_conditions (frames_at (length data) fs i) (connector_context data @ choices p ! i) =
      Inr (False, frames_at (length data) fs (Suc i), connector_context data @ choices p ! Suc i)"
    using advance_conditions_at [of fs "connector_context data" "length data" i "[]"] st assms(2)
    by (simp add: context_at_choice)
  then have "rsm_advance (fst mc) (snd mc) = Inr (\<lparr>rsm_connector_selection_data = data, rsm_connectors_added = True,
                 rsm_if_stmt_machines = map (\<lambda>s. ism_new s (length data)) ss,
                 rsm_running_stack = frames_at (length data) fs (Suc i)\<rparr>, connector_context data @ choices p ! Suc i)"
    by (simp add: mc rsm_advance_def)
  moreover have "rsm_at data (\<lparr>rsm_connector_selection_data = data, rsm_connectors_added = True,
                 rsm_if_stmt_machines = map (\<lambda>s. ism_new s (length data)) ss,
                 rsm_running_stack = frames_at (length data) fs (Suc i)\<rparr>, connector_context data @ choices p ! Suc i) p (Suc i) ps"
    unfolding rsm_at_def using st assms(2) by blast
  ultimately show ?thesis by blast
qed

lemma rsm_advance_path:
  assumes "rsm_at data mc p i ps" and "Suc i = length (choices p)"
  shows "if ps = [] then \<exists>m'. rsm_advance (fst mc) (snd mc) = Inr (m', connector_context data) \<and> rsm_is_finished m'
    else starts data (rsm_advance (fst mc) (snd mc)) ps"
proof -
  let ?n = "length data" and ?first = "\<lambda>c. alternatives c ! 0"
  let ?m = "\<lambda>ss stack. \<lparr>rsm_connector_selection_data = data, rsm_connectors_added = True,
    rsm_if_stmt_machines = map (\<lambda>s. ism_new s (length data)) ss, rsm_running_stack = stack\<rparr>"
  obtain fs ss where st: "fs \<noteq> []" "p = path_of fs" "ps = later_paths fs @ concat (map leaf_paths ss)" "\<not> blocked p"
    "i < length (choices p)" and mc: "mc = (?m ss (frames_at ?n fs i), connector_context data @ choices p ! i)"
    using assms(1) unfolding rsm_at_def by blast
  have "context_at ?n p (Suc i) = map ?first p"
    by (rule context_at_wrap) (use st assms(2) in simp_all)
  moreover have "frames_at ?n fs (Suc i) = frames ?n fs"
    by (rule frames_at_wrap) (use st assms(2) in simp)
  ultimately have cond: "advance_conditions (frames_at ?n fs i) (connector_context data @ choices p ! i) =
      Inr (True, frames ?n fs, connector_context data @ map ?first p)"
    using advance_conditions_at [of fs "connector_context data" ?n i "[]"] st assms(2)
    by (simp add: context_at_choice)
  have pop: "pop_finished (frames ?n fs) (connector_context data @ map ?first p) =
    (case backtrack fs of
       None \<Rightarrow> Inr (None, [], connector_context data)
     | Some (t, gs) \<Rightarrow> Inr (Some (ism_new t (?n + length (path_of gs))), frames ?n gs,
         take (?n + length (path_of gs)) (connector_context data @ map ?first p)))"
    by (subst pop_finished_backtrack) (use st in \<open>auto split: option.splits\<close>)
  show ?thesis
  proof (cases "backtrack fs")
    case None
    then have later: "later_paths fs = []" by (rule backtrack_None)
    have adv: "rsm_advance (fst mc) (snd mc) = rsm_init_next (?m ss []) (connector_context data)"
      by (simp add: mc rsm_advance_def cond pop None)
    show ?thesis
    proof (cases "ss = []")
      case True
      then show ?thesis using st later adv by (simp add: rsm_init_next_def rsm_is_finished_def)
    next
      case False
      then have "concat (map leaf_paths ss) \<noteq> []" using leaf_paths_nonempty by (cases ss) auto
      moreover have "starts data (rsm_init_next (?m ss []) (connector_context data)) (concat (map leaf_paths ss))"
        by (rule rsm_init_next_starts) (use False in simp_all)
      ultimately show ?thesis unfolding st(3) later adv by (simp only: append_Nil if_False)
    qed
  next
    case (Some tg)
    obtain t gs where tg: "backtrack fs = Some (t, gs)" using Some by (cases tg) auto
    from backtrack_prefix [OF tg] st obtain q where q: "p = path_of gs @ q" by blast
    have "take (?n + length (path_of gs)) (connector_context data @ map ?first p) = connector_context data @ map ?first (path_of gs)"
      by (simp add: q)
    then have adv: "rsm_advance (fst mc) (snd mc) =
        and_then (run_nested (ism_new t (?n + length (path_of gs))) (frames ?n gs)
          (connector_context data @ map ?first (path_of gs))) (\<lambda>(stack, ctx). Inr (?m ss stack, ctx))"
      by (simp add: mc rsm_advance_def cond pop tg)
    have "\<not> blocked (path_of gs)" using q st by simp
    from run_nested_starts [OF this adv] backtrack_Some [OF tg] st leaf_paths_nonempty [of t] show ?thesis by auto
  qed
qed

subsection \<open>Runs\<close>

text \<open>
  A source of values that is asked again and again: \<open>runs adv m cs r\<close> says that it produces \<open>cs\<close> and
  then ends, with the error \<open>e\<close> when \<open>r = Some e\<close>.
\<close>

inductive runs :: "('m \<Rightarrow> 'e + 'c option \<times> 'm) \<Rightarrow> 'm \<Rightarrow> 'c list \<Rightarrow> 'e option \<Rightarrow> bool"
  for adv :: "'m \<Rightarrow> 'e + 'c option \<times> 'm" where
  runs_end: "adv m = Inr (None, m') \<Longrightarrow> runs adv m [] None"
| runs_error: "adv m = Inl e \<Longrightarrow> runs adv m [] (Some e)"
| runs_next: "adv m = Inr (Some c, m') \<Longrightarrow> runs adv m' cs r \<Longrightarrow> runs adv m (c # cs) r"

text \<open>The loop \<open>while let Some(c) = source.advance()? { body(c)? }\<close>; \<open>None\<close> when it does not end.\<close>

partial_function (option) for_each ::
  "('m \<Rightarrow> 'e + 'c option \<times> 'm) \<Rightarrow> ('e \<Rightarrow> 'x) \<Rightarrow> ('c \<Rightarrow> ('x + unit) option) \<Rightarrow> 'm \<Rightarrow> ('x + unit) option" where
  "for_each adv conv body m =
     (case adv m of
        Inl e \<Rightarrow> Some (Inl (conv e))
      | Inr (None, m') \<Rightarrow> Some (Inr ())
      | Inr (Some c, m') \<Rightarrow>
          (case body c of
             None \<Rightarrow> None
           | Some (Inl x) \<Rightarrow> Some (Inl x)
           | Some (Inr u) \<Rightarrow> for_each adv conv body m'))"

lemma for_each_runs:
  "runs adv m cs r \<Longrightarrow>
   for_each adv conv (\<lambda>c. Some (f c)) m =
     Some (case collect_results (map f cs) of
             Inl x \<Rightarrow> Inl x
           | Inr us \<Rightarrow> (case r of None \<Rightarrow> Inr () | Some e \<Rightarrow> Inl (conv e)))"
proof (induction rule: runs.induct)
  case (runs_next m c m' cs r)
  then show ?case
    by (subst for_each.simps) (cases "f c", auto split: sum.splits)
qed (subst for_each.simps, simp)+

lemma runs_deterministic: "runs adv m cs r \<Longrightarrow> runs adv m cs' r' \<Longrightarrow> cs = cs' \<and> r = r'"
proof (induction arbitrary: cs' r' rule: runs.induct)
  case (runs_next m c m' cs r)
  from runs_next.prems runs_next.hyps(1) obtain ds where "cs' = c # ds" "runs adv m' ds r'"
    by (cases rule: runs.cases) auto
  with runs_next.IH show ?case by blast
qed (auto elim: runs.cases)

subsection \<open>What the managers produce\<close>

type_synonym outcome = "conjunctive_context list \<times> state_machine_error option"

definition prepend :: "conjunctive_context list \<Rightarrow> outcome \<Rightarrow> outcome" where
  "prepend cs out = (cs @ fst out, snd out)"

definition followed_by :: "outcome \<Rightarrow> outcome \<Rightarrow> outcome" where
  "followed_by out out' = (case snd out of None \<Rightarrow> prepend (fst out) out' | Some e \<Rightarrow> out)"

definition path_contexts :: "(dir_value \<times> metadata) list \<Rightarrow> dir_comparison list \<Rightarrow> conjunctive_context list" where
  "path_contexts data p = map (\<lambda>c. connector_context data @ c) (choices p)"

fun paths_outcome :: "(dir_value \<times> metadata) list \<Rightarrow> dir_comparison list list \<Rightarrow> outcome" where
  "paths_outcome data [] = ([], None)"
| "paths_outcome data (p # ps) =
     (if blocked p then ([], Some push_error) else prepend (path_contexts data p) (paths_outcome data ps))"

definition rule_paths :: "'o dir_rule \<Rightarrow> dir_comparison list list" where
  "rule_paths r = concat (map leaf_paths (dr_statements r))"

fun rules_outcome :: "('o dir_rule \<times> (dir_value \<times> metadata) list) list \<Rightarrow> outcome" where
  "rules_outcome [] = ([], None)"
| "rules_outcome [(r, data)] = paths_outcome data (rule_paths r)"
| "rules_outcome ((r, data) # x # xs) =
     (if dr_statements r = [] then prepend [[]] (rules_outcome (x # xs))
      else followed_by (paths_outcome data (rule_paths r)) (prepend [connector_context data] (rules_outcome (x # xs))))"

definition program_outcome :: "'o dir_program \<Rightarrow> (dir_value \<times> metadata) list list \<Rightarrow> outcome" where
  "program_outcome p data =
     (let rds = zip (dp_rules p) data
      in if length rds \<le> 1 \<and> list_all (\<lambda>(r, d). dr_statements r = []) rds then ([[]], None) else rules_outcome rds)"

definition rule_outcome :: "'o dir_rule \<Rightarrow> (dir_value \<times> metadata) list \<Rightarrow> outcome" where
  "rule_outcome r data = (if dr_statements r = [] then ([[]], None) else paths_outcome data (rule_paths r))"

abbreviation produces :: "('m \<Rightarrow> state_machine_error + conjunctive_context option \<times> 'm) \<Rightarrow> 'm \<Rightarrow> outcome \<Rightarrow> bool" where
  "produces adv m out \<equiv> runs adv m (fst out) (snd out)"

lemma produces_next: "adv m = Inr (Some c, m') \<Longrightarrow> produces adv m' out \<Longrightarrow> produces adv m (prepend [c] out)"
  by (simp add: prepend_def runs.runs_next)

lemma prepend_prepend: "prepend cs (prepend ds out) = prepend (cs @ ds) out"
  by (simp add: prepend_def)

lemma followed_by_simps [simp]:
  "followed_by (prepend cs out) out' = prepend cs (followed_by out out')"
  "followed_by ([], None) out = out"
  "followed_by (cs, Some e) out = (cs, Some e)"
  by (auto simp: followed_by_def prepend_def split: option.splits)

lemma prepend_Nil [simp]: "prepend [] out = out"
  by (simp add: prepend_def)

lemma rsm_new_eq:
  "rsm_new r data =
     \<lparr>rsm_connector_selection_data = data, rsm_connectors_added = False,
      rsm_if_stmt_machines = map (\<lambda>s. ism_new s (length data)) (dr_statements r), rsm_running_stack = []\<rparr>"
proof -
  have "foldl (\<lambda>ms stmt. f stmt # ms) acc (rev xs) = map f xs @ acc" for f :: "dir_if_statement \<Rightarrow> if_stmt_state_machine" and acc xs
    by (induction xs arbitrary: acc) simp_all
  then show ?thesis by (simp add: rsm_new_def)
qed

lemma rsm_new_starts:
  "dr_statements r \<noteq> [] \<Longrightarrow> starts data (rsm_init_next (rsm_new r data) []) (rule_paths r)"
  unfolding rule_paths_def by (rule rsm_init_next_starts) (simp_all add: rsm_new_eq)

lemma rsm_at_running: "rsm_at data mc p i ps \<Longrightarrow> \<not> rsm_is_finished (fst mc)"
proof -
  assume "rsm_at data mc p i ps"
  then obtain fs where "fs \<noteq> []" "rsm_running_stack (fst mc) = frames_at (length data) fs i"
    unfolding rsm_at_def by auto
  then have "rsm_running_stack (fst mc) \<noteq> []" by (cases fs) auto
  then show ?thesis by (simp add: rsm_is_finished_def)
qed

lemma rsm_at_context: "rsm_at data mc p i ps \<Longrightarrow> snd mc = path_contexts data p ! i \<and> i < length (path_contexts data p)"
  by (auto simp: rsm_at_def path_contexts_def)

lemma length_path_contexts [simp]: "length (path_contexts data p) = length (choices p)"
  by (simp add: path_contexts_def)

text \<open>
  Both managers run a rule in the same way. \<open>mk mc\<close> is the manager whose current rule is in the
  state \<open>mc\<close>, and \<open>rest\<close> what follows when the rule is over.
\<close>

locale rule_runner =
  fixes adv :: "'m \<Rightarrow> state_machine_error + conjunctive_context option \<times> 'm"
    and mk :: "rule_state_machine \<times> conjunctive_context \<Rightarrow> 'm"
    and rest :: outcome
    and data :: "(dir_value \<times> metadata) list"
  assumes adv_running:
      "\<not> rsm_is_finished (fst mc) \<Longrightarrow> rsm_advance (fst mc) (snd mc) = Inr mc' \<Longrightarrow> \<not> rsm_is_finished (fst mc') \<Longrightarrow>
        adv (mk mc) = Inr (Some (snd mc'), mk mc')"
    and adv_error: "\<not> rsm_is_finished (fst mc) \<Longrightarrow> rsm_advance (fst mc) (snd mc) = Inl e \<Longrightarrow> adv (mk mc) = Inl e"
    and adv_over:
      "\<not> rsm_is_finished (fst mc) \<Longrightarrow> rsm_advance (fst mc) (snd mc) = Inr (m', connector_context data) \<Longrightarrow>
        rsm_is_finished m' \<Longrightarrow> produces adv (mk mc) rest"
begin

lemma produces_path:
  assumes "rsm_at data mc p i ps"
    and "\<And>mc. rsm_at data mc p (length (choices p) - 1) ps \<Longrightarrow> produces adv (mk mc) out"
  shows "produces adv (mk mc) (prepend (drop (Suc i) (path_contexts data p)) out)"
  using assms(1)
proof (induction "length (choices p) - Suc i" arbitrary: i mc)
  case 0
  have "i < length (choices p)" using rsm_at_context [OF 0(2)] by simp
  with 0(1) have i: "i = length (choices p) - 1" by linarith
  have "produces adv (mk mc) out" by (rule assms(2)) (use 0(2) i in blast)
  with 0(1) show ?case by simp
next
  case (Suc k)
  then have lt: "Suc i < length (choices p)" by simp
  from rsm_advance_choice [OF Suc.prems lt] obtain mc' where
    mc': "rsm_advance (fst mc) (snd mc) = Inr mc'" "rsm_at data mc' p (Suc i) ps" by blast
  have "adv (mk mc) = Inr (Some (path_contexts data p ! Suc i), mk mc')"
    using adv_running [OF rsm_at_running [OF Suc.prems] mc'(1) rsm_at_running [OF mc'(2)]] rsm_at_context [OF mc'(2)] by simp
  moreover have "drop (Suc i) (path_contexts data p) = path_contexts data p ! Suc i # drop (Suc (Suc i)) (path_contexts data p)"
    using lt by (simp add: Cons_nth_drop_Suc)
  ultimately show ?case
    using produces_next [OF _ Suc.hyps(1) [OF _ mc'(2)]] Suc.hyps(2) by (simp add: prepend_prepend)
qed

lemma produces_paths:
  "rsm_at data mc p i ps \<Longrightarrow>
   produces adv (mk mc) (prepend (drop (Suc i) (path_contexts data p)) (followed_by (paths_outcome data ps) rest))"
proof (induction ps arbitrary: mc p i)
  case Nil
  show ?case
  proof (rule produces_path [OF Nil])
    fix mc assume at: "rsm_at data mc p (length (choices p) - 1) []"
    then have "Suc (length (choices p) - 1) = length (choices p)" using rsm_at_context by fastforce
    from rsm_advance_path [OF at this] obtain m' where
      "rsm_advance (fst mc) (snd mc) = Inr (m', connector_context data)" "rsm_is_finished m'" by auto
    from adv_over [OF rsm_at_running [OF at] this]
    show "produces adv (mk mc) (followed_by (paths_outcome data []) rest)" by simp
  qed
next
  case (Cons q qs)
  show ?case
  proof (rule produces_path [OF Cons.prems])
    fix mc assume at: "rsm_at data mc p (length (choices p) - 1) (q # qs)"
    then have "Suc (length (choices p) - 1) = length (choices p)" using rsm_at_context by fastforce
    from rsm_advance_path [OF at this] have st: "starts data (rsm_advance (fst mc) (snd mc)) (q # qs)" by simp
    show "produces adv (mk mc) (followed_by (paths_outcome data (q # qs)) rest)"
    proof (cases "blocked q")
      case True
      with st have "adv (mk mc) = Inl push_error" using adv_error [OF rsm_at_running [OF at]] by (simp add: starts_def)
      with True show ?thesis by (simp add: runs.runs_error)
    next
      case False
      with st obtain mc' where mc': "rsm_advance (fst mc) (snd mc) = Inr mc'" "rsm_at data mc' q 0 qs"
        by (auto simp: starts_def)
      have "adv (mk mc) = Inr (Some (path_contexts data q ! 0), mk mc')"
        using adv_running [OF rsm_at_running [OF at] mc'(1) rsm_at_running [OF mc'(2)]] rsm_at_context [OF mc'(2)] by simp
      from produces_next [OF this Cons.IH [OF mc'(2)]] False rsm_at_context [OF mc'(2)]
      show ?thesis by (simp add: prepend_prepend Cons_nth_drop_Suc)
    qed
  qed
qed

lemma produces_started:
  assumes "starts data res ps"
    and "\<And>e. res = Inl e \<Longrightarrow> adv m = Inl e"
    and "\<And>mc. res = Inr mc \<Longrightarrow> \<not> rsm_is_finished (fst mc) \<Longrightarrow> adv m = Inr (Some (snd mc), mk mc)"
  shows "produces adv m (followed_by (paths_outcome data ps) rest)"
proof -
  obtain q qs where ps: "ps = q # qs" using assms(1) by (cases ps) (auto simp: starts_def)
  show ?thesis
  proof (cases "blocked q")
    case True
    with assms(1,2) ps show ?thesis by (simp add: starts_def runs.runs_error)
  next
    case False
    with assms(1) ps obtain mc where mc: "res = Inr mc" "rsm_at data mc q 0 qs" by (auto simp: starts_def)
    have "adv m = Inr (Some (path_contexts data q ! 0), mk mc)"
      using assms(3) [OF mc(1) rsm_at_running [OF mc(2)]] rsm_at_context [OF mc(2)] by simp
    from produces_next [OF this produces_paths [OF mc(2)]] False rsm_at_context [OF mc(2)] ps
    show ?thesis by (simp add: prepend_prepend Cons_nth_drop_Suc)
  qed
qed

end

definition mk_rcm :: "rule_state_machine \<times> conjunctive_context \<Rightarrow> rule_context_manager" where
  "mk_rcm mc = \<lparr>rcm_context = snd mc, rcm_machine = fst mc, rcm_init = True\<rparr>"

interpretation rcm: rule_runner rcm_advance mk_rcm "([], None)" data for data
  by unfold_locales (auto simp: rcm_advance_def mk_rcm_def intro: runs.runs_end split: prod.splits)

definition mk_acm ::
  "('o dir_rule \<times> (dir_value \<times> metadata) list) list \<Rightarrow> rule_state_machine \<times> conjunctive_context \<Rightarrow>
     analysis_context_manager" where
  "mk_acm rds mc =
     \<lparr>acm_context = snd mc,
      acm_machine = \<lparr>psm_rule_machines = map (\<lambda>(r, d). rsm_new r d) rds, psm_current_rule_machine = Some (fst mc),
        psm_is_init = True\<rparr>,
      acm_init = True\<rparr>"

definition after_rule ::
  "('o dir_rule \<times> (dir_value \<times> metadata) list) list \<Rightarrow> (dir_value \<times> metadata) list \<Rightarrow> outcome" where
  "after_rule rds data = (if rds = [] then ([], None) else prepend [connector_context data] (rules_outcome rds))"

lemma followed_by_Nil [simp]: "followed_by out ([], None) = out"
  by (cases out) (simp add: followed_by_def prepend_def split: option.splits)

lemma rsm_new_finished [simp]: "rsm_is_finished (rsm_new r d) \<longleftrightarrow> dr_statements r = []"
  by (simp add: rsm_is_finished_def rsm_new_eq)

lemma rsm_new_no_statements: "dr_statements r = [] \<Longrightarrow> rsm_init_next (rsm_new r d) ctx = Inr (rsm_new r d, ctx)"
  by (simp add: rsm_init_next_def rsm_new_eq)

lemma acm_finished [simp]: "psm_is_finished (acm_machine (mk_acm rds mc)) \<longleftrightarrow> rsm_is_finished (fst mc) \<and> rds = []"
  by (simp add: psm_is_finished_def no_current_rule_def mk_acm_def)

lemma acm_advance_running:
  "\<not> rsm_is_finished (fst mc) \<Longrightarrow>
   acm_advance (mk_acm rds mc) =
     and_then (rsm_advance (fst mc) (snd mc)) (\<lambda>mc'.
       Inr (if rsm_is_finished (fst mc') \<and> rds = [] then None else Some (snd mc'), mk_acm rds mc'))"
  by (auto simp: acm_advance_def psm_advance_def psm_is_finished_def no_current_rule_def mk_acm_def and_then_def
      split: sum.splits)

lemma acm_advance_next:
  "rsm_is_finished m \<Longrightarrow>
   acm_advance (mk_acm ((r, d) # rds) (m, ctx)) =
     and_then (rsm_init_next (rsm_new r d) []) (\<lambda>mc'.
       Inr (if rsm_is_finished (fst mc') \<and> rds = [] then None else Some (snd mc'), mk_acm rds mc'))"
  by (auto simp: acm_advance_def psm_advance_def psm_is_finished_def no_current_rule_def mk_acm_def and_then_def
      start_current_rule_def split: sum.splits)

lemma acm_runner:
  assumes "\<And>m ctx. rsm_is_finished m \<Longrightarrow> produces acm_advance (mk_acm rds (m, ctx)) (rules_outcome rds)"
  shows "rule_runner acm_advance (mk_acm rds) (after_rule rds data) data"
proof
  fix mc mc' :: "rule_state_machine \<times> conjunctive_context" and e m'
  assume run: "\<not> rsm_is_finished (fst mc)"
  show "acm_advance (mk_acm rds mc) = Inr (Some (snd mc'), mk_acm rds mc')"
    if "rsm_advance (fst mc) (snd mc) = Inr mc'" "\<not> rsm_is_finished (fst mc')"
    using that run by (simp add: acm_advance_running)
  show "acm_advance (mk_acm rds mc) = Inl e" if "rsm_advance (fst mc) (snd mc) = Inl e"
    using that run by (simp add: acm_advance_running)
  assume over: "rsm_advance (fst mc) (snd mc) = Inr (m', connector_context data)" "rsm_is_finished m'"
  show "produces acm_advance (mk_acm rds mc) (after_rule rds data)"
  proof (cases "rds = []")
    case True
    with over run show ?thesis by (auto simp: acm_advance_running after_rule_def intro: runs.runs_end)
  next
    case False
    with over run have "acm_advance (mk_acm rds mc) = Inr (Some (connector_context data), mk_acm rds (m', connector_context data))"
      by (simp add: acm_advance_running)
    from produces_next [OF this assms [OF over(2)]] False show ?thesis by (simp add: after_rule_def)
  qed
qed

lemma acm_rules:
  "rsm_is_finished m \<Longrightarrow> produces acm_advance (mk_acm rds (m, ctx)) (rules_outcome rds)"
proof (induction rds arbitrary: m ctx)
  case Nil
  then have "acm_advance (mk_acm [] (m, ctx)) = Inr (None, mk_acm [] (m, ctx))"
    by (simp add: acm_advance_def psm_is_finished_def no_current_rule_def mk_acm_def)
  then show ?case by (auto intro: runs.runs_end)
next
  case (Cons rd rds)
  obtain r d where rd: "rd = (r, d)" by (cases rd)
  show ?case
  proof (cases "dr_statements r = []")
    case True
    with Cons.prems have adv: "acm_advance (mk_acm (rd # rds) (m, ctx)) =
        Inr (if rds = [] then None else Some [], mk_acm rds (rsm_new r d, []))"
      by (simp add: rd acm_advance_next rsm_new_no_statements)
    show ?thesis
    proof (cases rds)
      case Nil
      with adv True rd show ?thesis by (auto simp: rule_paths_def intro: runs.runs_end)
    next
      case (Cons x xs)
      with adv have "acm_advance (mk_acm (rd # rds) (m, ctx)) = Inr (Some [], mk_acm rds (rsm_new r d, []))" by simp
      from produces_next [OF this Cons.IH] True rd Cons show ?thesis by simp
    qed
  next
    case False
    have "produces acm_advance (mk_acm (rd # rds) (m, ctx)) (followed_by (paths_outcome d (rule_paths r)) (after_rule rds d))"
      by (rule rule_runner.produces_started [OF acm_runner [OF Cons.IH] rsm_new_starts [OF False]])
        (use Cons.prems in \<open>simp_all add: rd acm_advance_next\<close>)
    with False rd show ?thesis by (cases rds) (simp_all add: after_rule_def)
  qed
qed

interpretation acm: rule_runner acm_advance "mk_acm rds" "after_rule rds data" data for rds data
  by (rule acm_runner) (rule acm_rules)

lemma psm_new_eq:
  "zip (dp_rules p) data = (r, d) # rds \<Longrightarrow>
   psm_new p data = \<lparr>psm_rule_machines = map (\<lambda>(r, d). rsm_new r d) rds, psm_current_rule_machine = Some (rsm_new r d),
     psm_is_init = False\<rparr>"
  by (simp add: psm_new_def rev_map)

lemma acm_first:
  "zip (dp_rules p) data = (r, d) # rds \<Longrightarrow>
   acm_advance (acm_new p data) = and_then (rsm_init_next (rsm_new r d) []) (\<lambda>mc. Inr (Some (snd mc), mk_acm rds mc))"
  by (auto simp: acm_advance_def acm_new_def psm_new_eq psm_init_def start_current_rule_def mk_acm_def and_then_def
      split: sum.splits)

lemma psm_new_None:
  assumes "zip (dp_rules p) data = []"
  shows "psm_new p data = \<lparr>psm_rule_machines = [], psm_current_rule_machine = None, psm_is_init = False\<rparr>"
  unfolding psm_new_def assms by simp

lemma acm_first_None:
  "zip (dp_rules p) data = [] \<Longrightarrow>
   acm_advance (acm_new p data) = Inr (Some [], \<lparr>acm_context = [],
     acm_machine = \<lparr>psm_rule_machines = [], psm_current_rule_machine = None, psm_is_init = True\<rparr>, acm_init = True\<rparr>)"
  by (simp add: acm_advance_def acm_new_def psm_new_None psm_init_def start_current_rule_def del: zip_eq_Nil_iff)

lemma rule_manager_runs:
  "runs rcm_advance (rcm_new r data) (fst (rule_outcome r data)) (snd (rule_outcome r data))"
proof (cases "dr_statements r = []")
  case True
  then have "rcm_advance (rcm_new r data) = Inr (Some [], mk_rcm (rsm_new r data, []))"
    by (simp add: rcm_advance_def rcm_new_def rsm_new_no_statements mk_rcm_def)
  moreover have "runs rcm_advance (mk_rcm (rsm_new r data, [])) [] None"
    by (rule runs.runs_end) (simp add: rcm_advance_def mk_rcm_def True)
  ultimately show ?thesis using True by (auto simp: rule_outcome_def intro: runs.runs_next)
next
  case False
  have "runs rcm_advance (rcm_new r data) (fst (followed_by (paths_outcome data (rule_paths r)) ([], None)))
      (snd (followed_by (paths_outcome data (rule_paths r)) ([], None)))"
    by (rule rcm.produces_started [OF rsm_new_starts [OF False]])
      (auto simp: rcm_advance_def rcm_new_def mk_rcm_def)
  then show ?thesis using False by (simp add: rule_outcome_def)
qed

text \<open>
  C17. The manager of a rule produces exactly the contexts of the rule: for every path to a leaf of its
  statements, in order, every choice of one value per comparison on it, after the values of the
  rule's output. It ends, and it ends with an error exactly at a path with an empty disjunction.
\<close>

theorem rule_manager_exact:
  "runs rcm_advance (rcm_new r data) (fst (rule_outcome r data)) (snd (rule_outcome r data))"
  by (rule rule_manager_runs)

lemma program_manager_runs:
  "runs acm_advance (acm_new p data) (fst (program_outcome p data)) (snd (program_outcome p data))"
proof (cases "zip (dp_rules p) data")
  case Nil
  have "runs acm_advance (acm_new p data) [[]] None"
    by (rule runs.runs_next [where adv = acm_advance, OF acm_first_None [OF Nil]], rule runs.runs_end)
      (simp add: acm_advance_def psm_is_finished_def no_current_rule_def)
  then show ?thesis by (simp add: program_outcome_def Nil del: zip_eq_Nil_iff)
next
  case (Cons rd rds)
  obtain r d where rd: "rd = (r, d)" by (cases rd)
  note zip = Cons [unfolded rd]
  show ?thesis
  proof (cases "dr_statements r = []")
    case True
    then have "acm_advance (acm_new p data) = Inr (Some [], mk_acm rds (rsm_new r d, []))"
      by (simp add: acm_first [OF zip] rsm_new_no_statements)
    from produces_next [OF this acm_rules] True zip show ?thesis
      by (cases rds) (simp_all add: program_outcome_def prepend_def)
  next
    case False
    have "produces acm_advance (acm_new p data) (followed_by (paths_outcome d (rule_paths r)) (after_rule rds d))"
      by (rule acm.produces_started [OF rsm_new_starts [OF False]]) (simp_all add: acm_first [OF zip])
    with False zip show ?thesis by (cases rds) (simp_all add: program_outcome_def after_rule_def)
  qed
qed

text \<open>
  C10. The manager of a program produces the contexts of its rules one after the other and ends. After
  each rule but the last it also produces the context of the rule's output alone, and for a rule
  without statements that is not the last the empty context; it ends early with an error at a
  path with an empty disjunction.
\<close>

theorem program_manager_exact:
  "runs acm_advance (acm_new p data) (fst (program_outcome p data)) (snd (program_outcome p data))"
  by (rule program_manager_runs)

subsection \<open>The contexts of a rule and when it fires\<close>

definition dir_comparison_holds :: "(dir_value \<Rightarrow> bool) \<Rightarrow> dir_comparison \<Rightarrow> bool" where
  "dir_comparison_holds P c =
     (case dc_logic c of
        Dir_PositiveDisjunction \<Rightarrow> list_ex P (dc_values c)
      | Dir_NegativeConjunction \<Rightarrow> list_all (\<lambda>v. \<not> P v) (dc_values c))"

fun dir_statement_holds :: "(dir_value \<Rightarrow> bool) \<Rightarrow> dir_if_statement \<Rightarrow> bool" where
  "dir_statement_holds P (DirIfStatement condition nested) \<longleftrightarrow>
     list_all (dir_comparison_holds P) condition
     \<and> (case nested of None \<Rightarrow> True | Some ns \<Rightarrow> list_ex (\<lambda>s. dir_statement_holds P s) ns)"

fun no_empty_nested :: "dir_if_statement \<Rightarrow> bool" where
  "no_empty_nested (DirIfStatement condition nested) \<longleftrightarrow>
     (case nested of None \<Rightarrow> True | Some ns \<Rightarrow> ns \<noteq> [] \<and> list_all (\<lambda>s. no_empty_nested s) ns)"

definition context_value_holds :: "(dir_value \<Rightarrow> bool) \<Rightarrow> context_value \<Rightarrow> bool" where
  "context_value_holds P cv = (case cv_value cv of Assertion v \<Rightarrow> P v | Negation vs \<Rightarrow> list_all (\<lambda>v. \<not> P v) vs)"

definition context_holds :: "(dir_value \<Rightarrow> bool) \<Rightarrow> conjunctive_context \<Rightarrow> bool" where
  "context_holds P ctx = list_all (context_value_holds P) ctx"

lemma choices_hold: "(\<exists>c \<in> set (choices p). context_holds P c) \<longleftrightarrow> list_all (dir_comparison_holds P) p"
proof (induction p)
  case (Cons c p)
  have alt: "(\<exists>x \<in> set (alternatives c). context_value_holds P x) \<longleftrightarrow> dir_comparison_holds P c"
    by (cases "dc_logic c")
      (simp_all add: alternatives_def dir_comparison_holds_def context_value_holds_def ctx_assertion_def ctx_negation_def list_ex_iff)
  have "(\<exists>d \<in> set (choices (c # p)). context_holds P d) \<longleftrightarrow>
      (\<exists>x \<in> set (alternatives c). \<exists>xs \<in> set (choices p). context_value_holds P x \<and> context_holds P xs)"
    by (auto simp: context_holds_def)
  also have "\<dots> \<longleftrightarrow> (\<exists>x \<in> set (alternatives c). context_value_holds P x) \<and> (\<exists>xs \<in> set (choices p). context_holds P xs)"
    by blast
  also have "\<dots> \<longleftrightarrow> list_all (dir_comparison_holds P) (c # p)" unfolding alt Cons.IH by simp
  finally show ?case .
qed (simp add: context_holds_def)

lemma leaf_paths_hold:
  "no_empty_nested s \<Longrightarrow> dir_statement_holds P s \<longleftrightarrow> (\<exists>p \<in> set (leaf_paths s). list_all (dir_comparison_holds P) p)"
proof (induction s rule: leaf_paths.induct)
  case (3 condition n ns)
  have IH: "dir_statement_holds P t \<longleftrightarrow> (\<exists>p \<in> set (leaf_paths t). list_all (dir_comparison_holds P) p)"
    if t: "t \<in> set (n # ns)" for t
  proof (rule "3.IH" [OF t])
    show "no_empty_nested t" using "3.prems" t by (auto simp: list_all_iff)
  qed
  have "dir_statement_holds P (DirIfStatement condition (Some (n # ns))) \<longleftrightarrow>
      list_all (dir_comparison_holds P) condition \<and> (\<exists>t \<in> set (n # ns). dir_statement_holds P t)"
    by (simp add: list_ex_iff)
  also have "\<dots> \<longleftrightarrow> list_all (dir_comparison_holds P) condition
      \<and> (\<exists>t \<in> set (n # ns). \<exists>p \<in> set (leaf_paths t). list_all (dir_comparison_holds P) p)"
    using IH by (metis (no_types, lifting))
  also have "\<dots> \<longleftrightarrow> (\<exists>p \<in> set (leaf_paths (DirIfStatement condition (Some (n # ns)))). list_all (dir_comparison_holds P) p)"
    unfolding leaf_paths.simps(3) set_map set_concat by (simp add: bex_Un image_Un) blast
  finally show ?case .
qed simp_all

lemma paths_outcome_ok:
  "snd (paths_outcome data ps) = None \<Longrightarrow> fst (paths_outcome data ps) = concat (map (path_contexts data) ps)"
  by (induction ps) (auto simp: prepend_def split: if_splits)

lemma paths_outcome_sub:
  "set (fst (paths_outcome data ps)) \<subseteq> set (concat (map (path_contexts data) ps))"
  by (induction ps) (auto simp: prepend_def split: if_splits)

lemma rule_fires_iff_choice:
  assumes "list_all no_empty_nested (dr_statements r)"
  shows "list_ex (dir_statement_holds P) (dr_statements r) \<longleftrightarrow>
    (\<exists>c \<in> set (concat (map (path_contexts data) (rule_paths r))). context_holds P (drop (length data) c))"
proof -
  have "list_ex (dir_statement_holds P) (dr_statements r) \<longleftrightarrow>
      (\<exists>p \<in> set (rule_paths r). list_all (dir_comparison_holds P) p)"
    using assms leaf_paths_hold [where P = P] by (fastforce simp: list_ex_iff list_all_iff rule_paths_def)
  also have "\<dots> \<longleftrightarrow> (\<exists>p \<in> set (rule_paths r). \<exists>c \<in> set (choices p). context_holds P c)"
    by (simp add: choices_hold)
  also have "\<dots> \<longleftrightarrow> (\<exists>c \<in> set (concat (map (path_contexts data) (rule_paths r))). context_holds P (drop (length data) c))"
    by (auto simp: path_contexts_def)
  finally show ?thesis .
qed


definition example_dir_rule :: "unit dir_rule" where
  "example_dir_rule =
     \<lparr>dr_name = ''cards'', dr_connector_selection = (),
      dr_statements = [DirIfStatement
        [\<lparr>dc_values = [D_CardType CardType_Credit, D_CardType CardType_Debit], dc_logic = Dir_PositiveDisjunction,
          dc_metadata = Map.empty\<rparr>] None]\<rparr>"


end
