(* ===== verification/Euclid_Analysis.thy ===== *)
theory Euclid_Analysis
  imports Euclid_Contexts
begin

text \<open>
  The analyses of a single context in \<open>euclid/src/dssa/analyzer.rs\<close>: conflicting assertions, exhaustive
  negations and negated assertions. A hash map is an association list with distinct keys and a
  hash set a list without duplicates; the order in which the hash tables of the source are
  iterated is a parameter, a record of functions that rearrange such lists.
\<close>

subsection \<open>Hash tables\<close>

record hash_order =
  iter_map :: "(dir_key \<times> dir_value list) list \<Rightarrow> (dir_key \<times> dir_value list) list"
  iter_set :: "dir_value list \<Rightarrow> dir_value list"

text \<open>Iteration visits the entries of a table and nothing else.\<close>

definition iterates :: "hash_order \<Rightarrow> bool" where
  "iterates ho \<longleftrightarrow> (\<forall>m. set (iter_map ho m) = set m) \<and> (\<forall>s. set (iter_set ho s) = set s)"

definition unwrap_or_default :: "metadata option \<Rightarrow> metadata" where
  "unwrap_or_default x = (case x of None \<Rightarrow> Map.empty | Some md \<Rightarrow> md)"

subsection \<open>The analyses\<close>

definition condition_error :: "analysis_error_type \<Rightarrow> analysis_error" where
  "condition_error t = \<lparr>ae_error_type = t, ae_metadata = Map.empty\<rparr>"

fun conflicting_loop ::
  "hash_order \<Rightarrow> (dir_value \<rightharpoonup> metadata) \<Rightarrow> (dir_key \<times> dir_value list) list \<Rightarrow> analysis_error + unit" where
  "conflicting_loop ho assertion_metadata [] = Inr ()"
| "conflicting_loop ho assertion_metadata ((key, value_set) # rest) =
     (if length value_set > 1
      then Inl (condition_error (ConflictingAssertions key
        (map (\<lambda>val. \<lparr>vd_value = val, vd_metadata = unwrap_or_default (assertion_metadata val)\<rparr>) (iter_set ho value_set))))
      else conflicting_loop ho assertion_metadata rest)"

definition analyze_conflicting_assertions ::
  "hash_order \<Rightarrow> (dir_key \<times> dir_value list) list \<Rightarrow> (dir_value \<rightharpoonup> metadata) \<Rightarrow> analysis_error + unit" where
  "analyze_conflicting_assertions ho keywise_assertions assertion_metadata =
     conflicting_loop ho assertion_metadata (iter_map ho keywise_assertions)"

fun exhaustive_loop ::
  "(dir_key \<times> metadata list) list \<Rightarrow> (dir_key \<times> dir_value list) list \<Rightarrow> analysis_error + unit" where
  "exhaustive_loop keywise_negation_metadata [] = Inr ()"
| "exhaustive_loop keywise_negation_metadata ((key, negation_set) # rest) =
     (case get_value_set (dk_kind key) of
        None \<Rightarrow> exhaustive_loop keywise_negation_metadata rest
      | Some value_set \<Rightarrow>
          if filter (\<lambda>val. val \<notin> set negation_set) value_set = []
          then Inl (condition_error (ExhaustiveNegation key
            (case map_of keywise_negation_metadata key of None \<Rightarrow> [] | Some mds \<Rightarrow> mds)))
          else exhaustive_loop keywise_negation_metadata rest)"

definition analyze_exhaustive_negations ::
  "hash_order \<Rightarrow> (dir_key \<times> dir_value list) list \<Rightarrow> (dir_key \<times> metadata list) list \<Rightarrow> analysis_error + unit" where
  "analyze_exhaustive_negations ho keywise_negations keywise_negation_metadata =
     exhaustive_loop keywise_negation_metadata (iter_map ho keywise_negations)"

fun negated_loop ::
  "hash_order \<Rightarrow> (dir_key \<times> dir_value list) list \<Rightarrow> (dir_value \<rightharpoonup> metadata) \<Rightarrow> (dir_value \<rightharpoonup> metadata) \<Rightarrow>
     (dir_key \<times> dir_value list) list \<Rightarrow> analysis_error + unit" where
  "negated_loop ho keywise_assertions assertion_metadata negation_metadata [] = Inr ()"
| "negated_loop ho keywise_assertions assertion_metadata negation_metadata ((key, negation_set) # rest) =
     (case map_of keywise_assertions key of
        None \<Rightarrow> negated_loop ho keywise_assertions assertion_metadata negation_metadata rest
      | Some assertion_set \<Rightarrow>
          (case iter_set ho (filter (\<lambda>v. v \<in> set assertion_set) negation_set) of
             [] \<Rightarrow> negated_loop ho keywise_assertions assertion_metadata negation_metadata rest
           | val # _ \<Rightarrow> Inl (condition_error (NegatedAssertion val
               (unwrap_or_default (assertion_metadata val)) (unwrap_or_default (negation_metadata val))))))"

definition analyze_negated_assertions ::
  "hash_order \<Rightarrow> (dir_key \<times> dir_value list) list \<Rightarrow> (dir_value \<rightharpoonup> metadata) \<Rightarrow>
     (dir_key \<times> dir_value list) list \<Rightarrow> (dir_value \<rightharpoonup> metadata) \<Rightarrow> analysis_error + unit" where
  "analyze_negated_assertions ho keywise_assertions assertion_metadata keywise_negations negation_metadata =
     negated_loop ho keywise_assertions assertion_metadata negation_metadata (iter_map ho keywise_negations)"

record condition_tables =
  assertion_metadata :: "dir_value \<rightharpoonup> metadata"
  keywise_assertions :: "(dir_key \<times> dir_value list) list"
  negation_metadata :: "dir_value \<rightharpoonup> metadata"
  keywise_negation_metadata :: "(dir_key \<times> metadata list) list"
  keywise_negations :: "(dir_key \<times> dir_value list) list"

definition add_assertion :: "dir_key \<Rightarrow> dir_value \<Rightarrow> metadata \<Rightarrow> condition_tables \<Rightarrow> condition_tables" where
  "add_assertion key val md t =
     t\<lparr>keywise_assertions := entry_or_default key (List.insert val) (keywise_assertions t),
       assertion_metadata := (assertion_metadata t)(val \<mapsto> md)\<rparr>"

definition add_negation :: "dir_key \<Rightarrow> dir_value list \<Rightarrow> metadata \<Rightarrow> condition_tables \<Rightarrow> condition_tables" where
  "add_negation key vals md t =
     t\<lparr>keywise_negations := entry_or_default key (\<lambda>s. foldl (\<lambda>s val. List.insert val s) s vals) (keywise_negations t),
       negation_metadata := foldl (\<lambda>m val. m(val \<mapsto> md)) (negation_metadata t) vals,
       keywise_negation_metadata := entry_or_default key (\<lambda>mds. mds @ [md]) (keywise_negation_metadata t)\<rparr>"

definition collect_value :: "condition_tables \<Rightarrow> context_value \<Rightarrow> condition_tables" where
  "collect_value t ctx_val =
     (case ctx_get_key (cv_value ctx_val) of
        None \<Rightarrow> t
      | Some key \<Rightarrow>
          if dk_kind key = K_Connector then t
          else if dir_key_get_type (dk_kind key) \<noteq> DataType_EnumVariant then t
          else (case cv_value ctx_val of
                  Assertion val \<Rightarrow> add_assertion key val (cv_metadata ctx_val) t
                | Negation vals \<Rightarrow> add_negation key vals (cv_metadata ctx_val) t))"

definition collect_tables :: "conjunctive_context \<Rightarrow> condition_tables" where
  "collect_tables context =
     foldl collect_value
       \<lparr>assertion_metadata = Map.empty, keywise_assertions = [], negation_metadata = Map.empty,
        keywise_negation_metadata = [], keywise_negations = []\<rparr> context"

definition perform_condition_analyses :: "hash_order \<Rightarrow> conjunctive_context \<Rightarrow> analysis_error + unit" where
  "perform_condition_analyses ho context =
     (let t = collect_tables context
      in and_then (analyze_conflicting_assertions ho (keywise_assertions t) (assertion_metadata t)) (\<lambda>_.
         and_then (analyze_exhaustive_negations ho (keywise_negations t) (keywise_negation_metadata t)) (\<lambda>_.
           analyze_negated_assertions ho (keywise_assertions t) (assertion_metadata t)
             (keywise_negations t) (negation_metadata t))))"

subsection \<open>What the tables hold\<close>

definition lookup :: "('k \<times> 'v list) list \<Rightarrow> 'k \<Rightarrow> 'v set" where
  "lookup m k = (case map_of m k of None \<Rightarrow> {} | Some vs \<Rightarrow> set vs)"

definition table_ok :: "('k \<times> 'v list) list \<Rightarrow> bool" where
  "table_ok m \<longleftrightarrow> distinct (map fst m) \<and> (\<forall>kv \<in> set m. distinct (snd kv))"

lemma lookup_simps [simp]:
  "lookup [] k = {}"
  "lookup ((a, vs) # m) k = (if k = a then set vs else lookup m k)"
  by (simp_all add: lookup_def)

lemma lookup_entry:
  assumes "\<And>vs. set (f vs) = set vs \<union> A"
  shows "lookup (entry_or_default k f m) k' = lookup m k' \<union> (if k' = k then A else {})"
proof (induction m)
  case (Cons kv m)
  obtain a vs where kv: "kv = (a, vs)" by (cases kv)
  show ?case
  proof (cases "a = k")
    case True
    then show ?thesis by (simp add: kv assms)
  next
    case False
    with Cons.IH show ?thesis by (simp add: kv)
  qed
qed (simp add: assms)

lemma table_ok_entry:
  assumes "table_ok m" and "\<And>vs. distinct vs \<Longrightarrow> distinct (f vs)"
  shows "table_ok (entry_or_default k f m)"
  using assms(1)
proof (induction m)
  case (Cons kv m)
  obtain k' vs where kv: "kv = (k', vs)" by (cases kv)
  have "table_ok m" using Cons.prems by (simp add: table_ok_def)
  from Cons.IH [OF this] Cons.prems kv assms(2) show ?case
    using entry_fst [of k f m] by (auto simp: table_ok_def image_iff)
qed (simp add: table_ok_def assms(2))

lemma foldl_insert_list: "set (foldl (\<lambda>s v. List.insert v s) s vs) = set s \<union> set vs"
  by (induction vs arbitrary: s) auto

lemma foldl_insert_distinct: "distinct s \<Longrightarrow> distinct (foldl (\<lambda>s v. List.insert v s) s vs)"
  by (induction vs arbitrary: s) auto

definition decisive :: "context_value \<Rightarrow> dir_key \<Rightarrow> bool" where
  "decisive cv k \<longleftrightarrow> ctx_get_key (cv_value cv) = Some k \<and> dk_kind k \<noteq> K_Connector
     \<and> dir_key_get_type (dk_kind k) = DataType_EnumVariant"

definition asserted :: "conjunctive_context \<Rightarrow> dir_key \<Rightarrow> dir_value set" where
  "asserted ctx k = {v. \<exists>cv \<in> set ctx. decisive cv k \<and> cv_value cv = Assertion v}"

definition negated :: "conjunctive_context \<Rightarrow> dir_key \<Rightarrow> dir_value set" where
  "negated ctx k = {v. \<exists>cv \<in> set ctx. \<exists>vs. decisive cv k \<and> cv_value cv = Negation vs \<and> v \<in> set vs}"

lemma collect_tables_holds:
  "table_ok (keywise_assertions (collect_tables ctx)) \<and> table_ok (keywise_negations (collect_tables ctx))
   \<and> lookup (keywise_assertions (collect_tables ctx)) = asserted ctx
   \<and> lookup (keywise_negations (collect_tables ctx)) = negated ctx"
proof (induction ctx rule: rev_induct)
  case Nil
  show ?case by (auto simp: collect_tables_def table_ok_def lookup_def asserted_def negated_def)
next
  case (snoc cv ctx)
  let ?t = "collect_tables ctx"
  have step: "collect_tables (ctx @ [cv]) = collect_value ?t cv" by (simp add: collect_tables_def)
  have a: "asserted (ctx @ [cv]) k = asserted ctx k \<union> {v. decisive cv k \<and> cv_value cv = Assertion v}" for k
    by (auto simp: asserted_def)
  have n: "negated (ctx @ [cv]) k = negated ctx k \<union> {v. \<exists>vs. decisive cv k \<and> cv_value cv = Negation vs \<and> v \<in> set vs}" for k
    by (auto simp: negated_def)
  show ?case
  proof (cases "\<exists>k. decisive cv k")
    case False
    then have "collect_value ?t cv = ?t" by (auto simp: collect_value_def decisive_def split: option.splits)
    with False snoc show ?thesis by (simp add: step a n fun_eq_iff)
  next
    case True
    then obtain k where k: "decisive cv k" by blast
    then have uniq: "decisive cv k' \<longleftrightarrow> k' = k" for k' by (auto simp: decisive_def)
    show ?thesis
    proof (cases "cv_value cv")
      case (Assertion v)
      with k have "collect_value ?t cv = add_assertion k v (cv_metadata cv) ?t" by (auto simp: collect_value_def decisive_def)
      with snoc Assertion show ?thesis
        by (auto simp: step add_assertion_def table_ok_entry fun_eq_iff a n uniq lookup_entry [where A = "{v}"])
    next
      case (Negation vs)
      with k have "collect_value ?t cv = add_negation k vs (cv_metadata cv) ?t" by (auto simp: collect_value_def decisive_def)
      with snoc Negation show ?thesis
        by (auto simp: step add_negation_def table_ok_entry foldl_insert_distinct fun_eq_iff a n uniq
            lookup_entry [where A = "set vs"] foldl_insert_list)
    qed
  qed
qed

subsection \<open>When the analyses accept\<close>

lemma table_entry: "table_ok m \<Longrightarrow> (k, vs) \<in> set m \<longleftrightarrow> map_of m k = Some vs"
  by (auto simp: table_ok_def intro: map_of_SomeD map_of_is_SomeI)

lemma conflicting_loop_ok: "conflicting_loop ho md m = Inr () \<longleftrightarrow> (\<forall>(k, vs) \<in> set m. length vs \<le> 1)"
  by (induction ho md m rule: conflicting_loop.induct) auto

lemma exhaustive_loop_ok:
  "exhaustive_loop md m = Inr () \<longleftrightarrow>
     (\<forall>(k, ns) \<in> set m. \<forall>vs. get_value_set (dk_kind k) = Some vs \<longrightarrow> \<not> set vs \<subseteq> set ns)"
  by (induction md m rule: exhaustive_loop.induct) (auto simp: filter_empty_conv split: option.splits)

lemma negated_loop_ok:
  assumes "iterates ho"
  shows "negated_loop ho ka am nm m = Inr () \<longleftrightarrow> (\<forall>(k, ns) \<in> set m. set ns \<inter> lookup ka k = {})"
proof (induction m)
  case (Cons kn m)
  obtain k ns where kn: "kn = (k, ns)" by (cases kn)
  show ?case
  proof (cases "map_of ka k")
    case None
    with Cons kn show ?thesis by (simp add: lookup_def)
  next
    case (Some as)
    have it: "set (iter_set ho (filter (\<lambda>v. v \<in> set as) ns)) = set ns \<inter> set as"
      using assms by (auto simp: iterates_def)
    show ?thesis
    proof (cases "iter_set ho (filter (\<lambda>v. v \<in> set as) ns)")
      case Nil
      with it Some kn Cons show ?thesis by (simp add: lookup_def)
    next
      case (Cons v vs)
      then have "v \<in> set ns \<inter> set as" using it by auto
      with Cons Some kn show ?thesis by (auto simp: lookup_def)
    qed
  qed
qed simp

lemma get_value_set_nonempty: "get_value_set k = Some vs \<Longrightarrow> \<exists>v. v \<in> set vs"
  by (cases k) auto

lemma iter_map_set: "iterates ho \<Longrightarrow> set (iter_map ho m) = set m"
  by (simp add: iterates_def)

lemma conflicting_iff:
  assumes "table_ok m"
  shows "(\<forall>(k, vs) \<in> set m. length vs \<le> 1) \<longleftrightarrow> (\<forall>k. \<forall>v \<in> lookup m k. \<forall>w \<in> lookup m k. v = w)"
proof (intro iffI allI ballI)
  fix k v w assume a: "\<forall>(k, vs) \<in> set m. length vs \<le> 1" and v: "v \<in> lookup m k" and w: "w \<in> lookup m k"
  from v obtain vs where vs: "map_of m k = Some vs" "v \<in> set vs" by (auto simp: lookup_def split: option.splits)
  with w have "w \<in> set vs" by (simp add: lookup_def)
  moreover have "length vs \<le> 1" using a vs(1) table_entry [OF assms] by auto
  ultimately show "v = w" using vs(2) by (cases vs) auto
next
  fix kv assume a: "\<forall>k. \<forall>v \<in> lookup m k. \<forall>w \<in> lookup m k. v = w" and kv: "kv \<in> set m"
  obtain k vs where e: "kv = (k, vs)" by (cases kv)
  with kv table_entry [OF assms] have m: "map_of m k = Some vs" by simp
  then have "\<forall>v \<in> set vs. \<forall>w \<in> set vs. v = w" using a [rule_format, of _ k] by (simp add: lookup_def)
  moreover have "distinct vs" using assms kv e by (auto simp: table_ok_def)
  ultimately have "length vs \<le> 1" by (simp add: card_le_Suc0_iff_eq flip: distinct_card)
  then show "case kv of (k, vs) \<Rightarrow> length vs \<le> 1" using e by simp
qed

lemma over_table:
  assumes "table_ok m" and "\<And>k. Q k {}"
  shows "(\<forall>(k, vs) \<in> set m. Q k (set vs)) \<longleftrightarrow> (\<forall>k. Q k (lookup m k))"
proof (intro iffI allI ballI)
  fix k assume a: "\<forall>(k, vs) \<in> set m. Q k (set vs)"
  show "Q k (lookup m k)" using a assms(2) table_entry [OF assms(1)] by (cases "map_of m k") (auto simp: lookup_def)
next
  fix kv assume a: "\<forall>k. Q k (lookup m k)" and kv: "kv \<in> set m"
  then obtain k vs where e: "kv = (k, vs)" "map_of m k = Some vs" using table_entry [OF assms(1)] by (cases kv) auto
  with a [rule_format, of k] show "case kv of (k, vs) \<Rightarrow> Q k (set vs)" by (simp add: lookup_def)
qed

lemma condition_analyses_ok:
  assumes "iterates ho"
  shows "perform_condition_analyses ho ctx = Inr () \<longleftrightarrow>
     (\<forall>k. \<forall>v \<in> asserted ctx k. \<forall>w \<in> asserted ctx k. v = w)
     \<and> (\<forall>k vs. get_value_set (dk_kind k) = Some vs \<longrightarrow> \<not> set vs \<subseteq> negated ctx k)
     \<and> (\<forall>k. negated ctx k \<inter> asserted ctx k = {})"
proof -
  let ?t = "collect_tables ctx"
  have ok: "table_ok (keywise_assertions ?t)" "table_ok (keywise_negations ?t)"
    and a: "lookup (keywise_assertions ?t) = asserted ctx" and n: "lookup (keywise_negations ?t) = negated ctx"
    using collect_tables_holds [of ctx] by simp_all
  have 1: "analyze_conflicting_assertions ho (keywise_assertions ?t) (assertion_metadata ?t) = Inr () \<longleftrightarrow>
      (\<forall>k. \<forall>v \<in> asserted ctx k. \<forall>w \<in> asserted ctx k. v = w)"
    unfolding analyze_conflicting_assertions_def conflicting_loop_ok iter_map_set [OF assms] conflicting_iff [OF ok(1)] a ..
  have 2: "analyze_exhaustive_negations ho (keywise_negations ?t) (keywise_negation_metadata ?t) = Inr () \<longleftrightarrow>
      (\<forall>k vs. get_value_set (dk_kind k) = Some vs \<longrightarrow> \<not> set vs \<subseteq> negated ctx k)"
    unfolding analyze_exhaustive_negations_def exhaustive_loop_ok iter_map_set [OF assms]
    by (subst over_table [OF ok(2)]) (auto simp: n dest: get_value_set_nonempty)
  have 3: "analyze_negated_assertions ho (keywise_assertions ?t) (assertion_metadata ?t) (keywise_negations ?t) (negation_metadata ?t) = Inr ()
      \<longleftrightarrow> (\<forall>k. negated ctx k \<inter> asserted ctx k = {})"
    unfolding analyze_negated_assertions_def negated_loop_ok [OF assms] iter_map_set [OF assms]
    by (subst over_table [OF ok(2)]) (simp_all add: n a)
  show ?thesis
    unfolding perform_condition_analyses_def Let_def and_then_eq_Inr 3 using 1 2 by auto
qed

subsection \<open>Contexts that can hold\<close>

definition enum_key :: "dir_key \<Rightarrow> bool" where
  "enum_key k \<longleftrightarrow> dk_kind k \<noteq> K_Connector \<and> dir_key_get_type (dk_kind k) = DataType_EnumVariant \<and> dk_value k = None"

definition typed_assignment :: "(dir_key \<Rightarrow> dir_value) \<Rightarrow> bool" where
  "typed_assignment \<sigma> \<longleftrightarrow> (\<forall>k. enum_key k \<longrightarrow> dir_get_key (\<sigma> k) = k)"

definition one_key :: "context_value \<Rightarrow> bool" where
  "one_key cv =
     (case cv_value cv of Assertion v \<Rightarrow> True | Negation vs \<Rightarrow> list_all (\<lambda>v. dir_get_key v = dir_get_key (hd vs)) vs)"

lemma asserted_key: "v \<in> asserted ctx k \<Longrightarrow> dir_get_key v = k \<and> enum_key k"
  using enum_key_has_no_data [of v]
  by (auto simp: asserted_def decisive_def ctx_get_key_def enum_key_def dir_get_key_def split: prod.splits)

lemma negated_key:
  assumes "list_all one_key ctx" and "v \<in> negated ctx k"
  shows "dir_get_key v = k \<and> enum_key k"
proof -
  obtain cv vs where cv: "cv \<in> set ctx" "decisive cv k" "cv_value cv = Negation vs" "v \<in> set vs"
    using assms(2) by (auto simp: negated_def)
  have "dir_get_key v = dir_get_key (hd vs)" using assms(1) cv by (auto simp: list_all_iff one_key_def)
  also have "\<dots> = k" using cv by (auto simp: decisive_def ctx_get_key_def vec_get_def hd_conv_nth split: if_splits)
  finally have k: "dir_get_key v = k" .
  then show ?thesis
    using cv(2) enum_key_has_no_data [of v]
    by (auto simp: decisive_def enum_key_def dir_get_key_def split: prod.splits)
qed

lemma value_set_of_key: "get_value_set (dk_kind k) = Some vs \<Longrightarrow> enum_key k \<Longrightarrow> v \<in> set vs \<longleftrightarrow> dir_get_key v = k"
  using get_value_set_kind [of "dk_kind k" vs v] get_value_set_complete [of v vs] enum_key_has_no_data [of v]
  by (cases k) (auto simp: enum_key_def dir_get_key_def split: prod.splits)

lemma enum_key_value_set: "enum_key k \<Longrightarrow> \<exists>vs. get_value_set (dk_kind k) = Some vs"
  using get_value_set_None [of "dk_kind k"] by (auto simp: enum_key_def)

lemma context_values_hold:
  assumes "\<forall>k. \<forall>v \<in> asserted ctx k. \<sigma> k = v" and "\<forall>k. \<forall>v \<in> negated ctx k. \<sigma> k \<noteq> v" and "list_all one_key ctx"
    and cv: "cv \<in> set ctx" "decisive cv k"
  shows "context_value_holds (\<lambda>v. \<sigma> (dir_get_key v) = v) cv"
proof (cases "cv_value cv")
  case (Assertion v)
  with cv have "v \<in> asserted ctx k" by (auto simp: asserted_def)
  with assms(1) asserted_key Assertion show ?thesis by (simp add: context_value_holds_def)
next
  case (Negation vs)
  have "\<sigma> (dir_get_key v) \<noteq> v" if "v \<in> set vs" for v
  proof -
    have v: "v \<in> negated ctx k" using that cv Negation by (auto simp: negated_def)
    with assms(2) negated_key [OF assms(3) v] show ?thesis by simp
  qed
  with Negation show ?thesis by (simp add: context_value_holds_def list_all_iff)
qed

lemma held_values:
  assumes "\<forall>cv \<in> set ctx. (\<exists>k. decisive cv k) \<longrightarrow> context_value_holds (\<lambda>v. \<sigma> (dir_get_key v) = v) cv"
    and "list_all one_key ctx"
  shows "v \<in> asserted ctx k \<Longrightarrow> \<sigma> k = v" and "v \<in> negated ctx k \<Longrightarrow> \<sigma> k \<noteq> v"
proof -
  show "\<sigma> k = v" if v: "v \<in> asserted ctx k"
    using v asserted_key [OF v] assms(1) by (auto simp: asserted_def context_value_holds_def)
  show "\<sigma> k \<noteq> v" if v: "v \<in> negated ctx k"
  proof -
    obtain cv vs where cv: "cv \<in> set ctx" "decisive cv k" "cv_value cv = Negation vs" "v \<in> set vs"
      using v by (auto simp: negated_def)
    with assms(1) have "\<sigma> (dir_get_key v) \<noteq> v" by (auto simp: context_value_holds_def list_all_iff)
    with negated_key [OF assms(2) v] show ?thesis by simp
  qed
qed

definition choose_value :: "conjunctive_context \<Rightarrow> dir_key \<Rightarrow> dir_value" where
  "choose_value ctx k =
     (if asserted ctx k \<noteq> {} then SOME v. v \<in> asserted ctx k else SOME v. dir_get_key v = k \<and> v \<notin> negated ctx k)"

lemma choose_value:
  assumes ok: "\<forall>k. \<forall>v \<in> asserted ctx k. \<forall>w \<in> asserted ctx k. v = w"
      "\<forall>k vs. get_value_set (dk_kind k) = Some vs \<longrightarrow> \<not> set vs \<subseteq> negated ctx k"
      "\<forall>k. negated ctx k \<inter> asserted ctx k = {}"
    and k: "enum_key k"
  shows "dir_get_key (choose_value ctx k) = k \<and> (\<forall>v \<in> asserted ctx k. choose_value ctx k = v)
    \<and> choose_value ctx k \<notin> negated ctx k"
proof (cases "asserted ctx k = {}")
  case False
  then have "choose_value ctx k \<in> asserted ctx k"
    using someI_ex [of "\<lambda>v. v \<in> asserted ctx k"] by (auto simp: choose_value_def)
  with ok asserted_key show ?thesis by blast
next
  case True
  obtain vs where vs: "get_value_set (dk_kind k) = Some vs" using enum_key_value_set [OF k] by blast
  with ok(2) obtain v where "v \<in> set vs" "v \<notin> negated ctx k" by blast
  with value_set_of_key [OF vs k] have "\<exists>v. dir_get_key v = k \<and> v \<notin> negated ctx k" by blast
  from someI_ex [OF this] True show ?thesis by (simp add: choose_value_def)
qed

lemma condition_analyses_satisfiable:
  assumes "iterates ho" and "list_all one_key ctx"
  shows "perform_condition_analyses ho ctx = Inr () \<longleftrightarrow>
    (\<exists>\<sigma>. typed_assignment \<sigma>
       \<and> (\<forall>cv \<in> set ctx. (\<exists>k. decisive cv k) \<longrightarrow> context_value_holds (\<lambda>v. \<sigma> (dir_get_key v) = v) cv))"
  (is "_ \<longleftrightarrow> (\<exists>\<sigma>. ?sat \<sigma>)")
proof
  assume "perform_condition_analyses ho ctx = Inr ()"
  note ok = this [unfolded condition_analyses_ok [OF assms(1)]]
  note choose = choose_value [of ctx, OF ok [THEN conjunct1] ok [THEN conjunct2, THEN conjunct1] ok [THEN conjunct2, THEN conjunct2]]
  have "\<forall>k. \<forall>v \<in> asserted ctx k. choose_value ctx k = v" using choose asserted_key by blast
  moreover have "\<forall>k. \<forall>v \<in> negated ctx k. choose_value ctx k \<noteq> v" using choose negated_key [OF assms(2)] by blast
  ultimately have "?sat (choose_value ctx)"
    using context_values_hold [OF _ _ assms(2)] choose by (auto simp: typed_assignment_def)
  then show "\<exists>\<sigma>. ?sat \<sigma>" by (rule exI [of ?sat "choose_value ctx"])
next
  assume "\<exists>\<sigma>. ?sat \<sigma>"
  then obtain \<sigma> where ty: "typed_assignment \<sigma>"
    and h: "\<forall>cv \<in> set ctx. (\<exists>k. decisive cv k) \<longrightarrow> context_value_holds (\<lambda>v. \<sigma> (dir_get_key v) = v) cv" by blast
  note held = held_values [OF h assms(2)]
  have "\<not> set vs \<subseteq> negated ctx k" if vs: "get_value_set (dk_kind k) = Some vs" for k vs
  proof
    assume sub: "set vs \<subseteq> negated ctx k"
    obtain v where "v \<in> set vs" using get_value_set_nonempty [OF vs] by blast
    then have k: "enum_key k" using sub negated_key [OF assms(2)] by blast
    with ty have "\<sigma> k \<in> set vs" using value_set_of_key [OF vs k] by (simp add: typed_assignment_def)
    with sub held(2) show False by blast
  qed
  moreover have "negated ctx k \<inter> asserted ctx k = {}" for k using held by blast
  moreover have "v = w" if "v \<in> asserted ctx k" "w \<in> asserted ctx k" for k v w using held(1) that by metis
  ultimately show "perform_condition_analyses ho ctx = Inr ()"
    unfolding condition_analyses_ok [OF assms(1)] by blast
qed

lemma collect_value_indecisive: "\<not> (\<exists>k. decisive cv k) \<Longrightarrow> collect_value t cv = t"
  by (auto simp: collect_value_def decisive_def split: option.splits)

lemma collect_tables_decisive: "collect_tables (filter (\<lambda>cv. \<exists>k. decisive cv k) ctx) = collect_tables ctx"
proof -
  have "foldl collect_value t (filter (\<lambda>cv. \<exists>k. decisive cv k) ctx) = foldl collect_value t ctx" for t
    by (induction ctx arbitrary: t) (simp_all add: collect_value_indecisive)
  then show ?thesis by (simp add: collect_tables_def)
qed

text \<open>
  C15. The condition analyses look only at the values of a context on enumeration keys other than the
  connector: a value on another key, the connector, a number, a string or metadata, never changes
  the result. On these keys they decide: provided the values of each negation share their key, as
  lowering makes them, a context is accepted exactly when some assignment of one value to every
  enumeration key satisfies all its assertions and negations on enumeration keys other than the
  connector. The order in which the hash tables are iterated does not matter for the verdict.
\<close>

theorem condition_analyses_decide:
  assumes "iterates ho" and "list_all one_key ctx"
  shows "perform_condition_analyses ho ctx = perform_condition_analyses ho (filter (\<lambda>cv. \<exists>k. decisive cv k) ctx)
    \<and> (perform_condition_analyses ho ctx = Inr () \<longleftrightarrow>
       (\<exists>\<sigma>. typed_assignment \<sigma>
          \<and> (\<forall>cv \<in> set ctx. (\<exists>k. decisive cv k) \<longrightarrow> context_value_holds (\<lambda>v. \<sigma> (dir_get_key v) = v) cv)))"
  using condition_analyses_satisfiable [OF assms]
  by (simp add: perform_condition_analyses_def collect_tables_decisive)

definition example_order :: hash_order where
  "example_order = \<lparr>iter_map = (\<lambda>m. m), iter_set = (\<lambda>s. s)\<rparr>"

definition example_dead_context :: conjunctive_context where
  "example_dead_context =
     [ctx_assertion (D_PaymentMethod PaymentMethod_Card) Map.empty,
      ctx_negation [D_AuthenticationType AuthenticationType_ThreeDs, D_AuthenticationType AuthenticationType_NoThreeDs] Map.empty]"

theorem condition_analyses_decide_witness:
  "iterates example_order \<and> list_all one_key example_dead_context
   \<and> perform_condition_analyses example_order example_dead_context \<noteq> Inr ()
   \<and> \<not> (\<exists>\<sigma>. typed_assignment \<sigma> \<and> Ball (set example_dead_context) (\<lambda>cv. (\<exists>k. decisive cv k) \<longrightarrow>
        context_value_holds (\<lambda>v. \<sigma> (dir_get_key v) = v) cv))"
proof -
  have it: "iterates example_order" by (simp add: iterates_def example_order_def)
  have one: "list_all one_key example_dead_context"
    by (simp add: example_dead_context_def one_key_def ctx_assertion_def ctx_negation_def dir_get_key_def)
  have "negated example_dead_context \<lparr>dk_kind = K_AuthenticationType, dk_value = None\<rparr> =
      {D_AuthenticationType AuthenticationType_ThreeDs, D_AuthenticationType AuthenticationType_NoThreeDs}"
    by (auto simp: negated_def example_dead_context_def decisive_def ctx_get_key_def ctx_assertion_def ctx_negation_def
        vec_get_def dir_get_key_def)
  then have "set (map D_AuthenticationType authentication_type_iter) \<subseteq>
      negated example_dead_context \<lparr>dk_kind = K_AuthenticationType, dk_value = None\<rparr>"
    by (simp add: authentication_type_iter_def)
  then have no: "perform_condition_analyses example_order example_dead_context \<noteq> Inr ()"
    unfolding condition_analyses_ok [OF it] by (metis dir_key.select_convs(1) get_value_set.simps)
  with condition_analyses_decide [OF it one] show ?thesis using it one by blast
qed

end
