(* ===== verification/Euclid_Lowering.thy ===== *)
theory Euclid_Lowering
  imports Euclid_Dir
begin

text \<open>
  The two lowering passes of the routing language: from programs to the domain representation
  (\<open>euclid/src/frontend/ast/lowering.rs\<close>) and from there to the valued representation
  (\<open>euclid/src/frontend/dir/lowering.rs\<close>, \<open>euclid/src/frontend/vir.rs\<close>). The parsers \<open>from_str\<close> and the
  lists of variant names of the enumerations are derived by the \<open>strum\<close> library; they are the two
  fields of the record \<open>strum\<close>, by the key whose values the enumeration holds. The keys an output type
  allows in its rules (\<open>EuclidDirFilter::ALLOWED\<close>) are a parameter. A string is the list of its
  bytes.
\<close>

subsection \<open>From programs to the domain representation\<close>

record strum =
  strum_from_str :: "dir_key_kind \<Rightarrow> string \<Rightarrow> dir_value option"
  strum_variants :: "dir_key_kind \<Rightarrow> string list"

definition parse_variant :: "strum \<Rightarrow> dir_key_kind \<Rightarrow> string \<Rightarrow> analysis_error_type + dir_value" where
  "parse_variant S key ev =
     ok_or (strum_from_str S key ev) (InvalidVariant (dir_key_kind_to_string key) (strum_variants S key) ev)"

definition lower_enum :: "strum \<Rightarrow> dir_key_kind \<Rightarrow> value_type \<Rightarrow> analysis_error_type + dir_value list" where
  "lower_enum S key value =
     (case value of
        VT_EnumVariant ev \<Rightarrow> (case parse_variant S key ev of Inl err \<Rightarrow> Inl err | Inr v \<Rightarrow> Inr [v])
      | VT_EnumVariantArray eva \<Rightarrow> collect_results (map (parse_variant S key) eva)
      | _ \<Rightarrow> Inl (InvalidType (dir_key_kind_to_string key) DataType_EnumVariant (value_get_type value)))"

definition lower_number ::
  "(num_value \<Rightarrow> dir_value) \<Rightarrow> dir_key_kind \<Rightarrow> value_type \<Rightarrow> comparison_type \<Rightarrow> analysis_error_type + dir_value list" where
  "lower_number mk key value cmp =
     (case value of
        VT_Number num \<Rightarrow> Inr [mk \<lparr>num_number = num, num_refinement = refinement_of_comparison cmp\<rparr>]
      | VT_NumberArray na \<Rightarrow>
          Inr (map (\<lambda>num. mk \<lparr>num_number = num, num_refinement = refinement_of_comparison cmp\<rparr>) na)
      | VT_NumberComparisonArray nca \<Rightarrow>
          Inr (map (\<lambda>nc. mk \<lparr>num_number = nc_number nc, num_refinement = refinement_of_comparison (nc_comparison_type nc)\<rparr>) nca)
      | _ \<Rightarrow> Inl (InvalidType (dir_key_kind_to_string key) DataType_Number (value_get_type value)))"

definition lower_str ::
  "(str_value \<Rightarrow> dir_value) \<Rightarrow> dir_key_kind \<Rightarrow> (string \<Rightarrow> analysis_error_type + unit) \<Rightarrow> value_type
   \<Rightarrow> analysis_error_type + dir_value list" where
  "lower_str mk key validation_closure value =
     (case value of
        VT_StrValue st \<Rightarrow> and_then (validation_closure st) (\<lambda>_. Inr [mk \<lparr>str_val = st\<rparr>])
      | _ \<Rightarrow> Inl (InvalidType (dir_key_kind_to_string key) DataType_StrValue (value_get_type value)))"

definition lower_metadata :: "value_type \<Rightarrow> analysis_error_type + dir_value list" where
  "lower_metadata value =
     (case value of
        VT_MetadataVariant md \<Rightarrow> Inr [D_MetaData \<lparr>md_key = md_key md, md_value = md_value md\<rparr>]
      | _ \<Rightarrow> Inl (InvalidType (dir_key_kind_to_string K_MetaData) DataType_MetadataValue (value_get_type value)))"

definition is_ascii_digit :: "char \<Rightarrow> bool" where
  "is_ascii_digit c \<longleftrightarrow> 48 \<le> (of_char c :: nat) \<and> (of_char c :: nat) \<le> 57"

definition digits_of_length :: "nat \<Rightarrow> dir_key_kind \<Rightarrow> string \<Rightarrow> string \<Rightarrow> analysis_error_type + unit" where
  "digits_of_length n key message st =
     (if length st = n \<and> list_all is_ascii_digit st then Inr () else Inl (InvalidValue key st (Some message)))"

primrec lower_key_value ::
  "dir_key_kind \<Rightarrow> strum \<Rightarrow> value_type \<Rightarrow> comparison_type \<Rightarrow> analysis_error_type + dir_value list" where
  "lower_key_value K_PaymentMethod S value comparison = lower_enum S K_PaymentMethod value"
| "lower_key_value K_CardType S value comparison = lower_enum S K_CardType value"
| "lower_key_value K_CardNetwork S value comparison = lower_enum S K_CardNetwork value"
| "lower_key_value K_PayLaterType S value comparison = lower_enum S K_PayLaterType value"
| "lower_key_value K_WalletType S value comparison = lower_enum S K_WalletType value"
| "lower_key_value K_BankDebitType S value comparison = lower_enum S K_BankDebitType value"
| "lower_key_value K_BankRedirectType S value comparison = lower_enum S K_BankRedirectType value"
| "lower_key_value K_CryptoType S value comparison = lower_enum S K_CryptoType value"
| "lower_key_value K_PaymentType S value comparison = lower_enum S K_PaymentType value"
| "lower_key_value K_MandateType S value comparison = lower_enum S K_MandateType value"
| "lower_key_value K_MandateAcceptanceType S value comparison = lower_enum S K_MandateAcceptanceType value"
| "lower_key_value K_RewardType S value comparison = lower_enum S K_RewardType value"
| "lower_key_value K_PaymentCurrency S value comparison = lower_enum S K_PaymentCurrency value"
| "lower_key_value K_AuthenticationType S value comparison = lower_enum S K_AuthenticationType value"
| "lower_key_value K_CaptureMethod S value comparison = lower_enum S K_CaptureMethod value"
| "lower_key_value K_BusinessCountry S value comparison = lower_enum S K_BusinessCountry value"
| "lower_key_value K_BillingCountry S value comparison = lower_enum S K_BillingCountry value"
| "lower_key_value K_SetupFutureUsage S value comparison = lower_enum S K_SetupFutureUsage value"
| "lower_key_value K_UpiType S value comparison = lower_enum S K_UpiType value"
| "lower_key_value K_OpenBankingType S value comparison = lower_enum S K_OpenBankingType value"
| "lower_key_value K_VoucherType S value comparison = lower_enum S K_VoucherType value"
| "lower_key_value K_GiftCardType S value comparison = lower_enum S K_GiftCardType value"
| "lower_key_value K_BankTransferType S value comparison = lower_enum S K_BankTransferType value"
| "lower_key_value K_CardRedirectType S value comparison = lower_enum S K_CardRedirectType value"
| "lower_key_value K_MobilePaymentType S value comparison = lower_enum S K_MobilePaymentType value"
| "lower_key_value K_RealTimePaymentType S value comparison = lower_enum S K_RealTimePaymentType value"
| "lower_key_value K_CardBin S value comparison = lower_str D_CardBin K_CardBin (digits_of_length 6 K_CardBin ''Expected 6 digits'') value"
| "lower_key_value K_ExtendedCardBin S value comparison = lower_str D_ExtendedCardBin K_ExtendedCardBin (digits_of_length 8 K_ExtendedCardBin ''Expected 8 digits'') value"
| "lower_key_value K_BusinessLabel S value comparison = lower_str D_BusinessLabel K_BusinessLabel (\<lambda>st. Inr ()) value"
| "lower_key_value K_MetaData S value comparison = lower_metadata value"
| "lower_key_value K_PaymentAmount S value comparison = lower_number D_PaymentAmount K_PaymentAmount value comparison"
| "lower_key_value K_SurchargeAmount S value comparison = lower_number D_SurchargeAmount K_SurchargeAmount value comparison"
| "lower_key_value K_Connector S value comparison = Inl (InvalidKey (dir_key_kind_to_string K_Connector))"
| "lower_key_value K_IssuerName S value comparison = lower_str D_IssuerName K_IssuerName (\<lambda>st. Inr ()) value"
| "lower_key_value K_IssuerCountry S value comparison = lower_enum S K_IssuerCountry value"
| "lower_key_value K_CustomerDevicePlatform S value comparison = lower_enum S K_CustomerDevicePlatform value"
| "lower_key_value K_CustomerDeviceType S value comparison = lower_enum S K_CustomerDeviceType value"
| "lower_key_value K_CustomerDeviceDisplaySize S value comparison = lower_enum S K_CustomerDeviceDisplaySize value"
| "lower_key_value K_AcquirerCountry S value comparison = lower_enum S K_AcquirerCountry value"
| "lower_key_value K_AcquirerFraudRate S value comparison = lower_number D_AcquirerFraudRate K_AcquirerFraudRate value comparison"
| "lower_key_value K_TransactionInitiator S value comparison = lower_enum S K_TransactionInitiator value"
| "lower_key_value K_NetworkTokenType S value comparison = lower_enum S K_NetworkTokenType value"
| "lower_key_value K_CardDiscovery S value comparison = lower_enum S K_CardDiscovery value"

definition comparison_type_error :: "comparison_type \<Rightarrow> value_type \<Rightarrow> analysis_error_type option" where
  "comparison_type_error c v =
     (if c \<in> {Comparison_LessThan, Comparison_GreaterThan, Comparison_GreaterThanEqual, Comparison_LessThanEqual}
      then (case v of
              VT_EnumVariant _ \<Rightarrow> Some (InvalidComparison c DataType_EnumVariant)
            | VT_NumberArray _ \<Rightarrow> Some (InvalidComparison c DataType_Number)
            | VT_EnumVariantArray _ \<Rightarrow> Some (InvalidComparison c DataType_EnumVariant)
            | VT_NumberComparisonArray _ \<Rightarrow> Some (InvalidComparison c DataType_Number)
            | _ \<Rightarrow> None)
      else None)"

definition lower_comparison_inner ::
  "strum \<Rightarrow> dir_key_kind list \<Rightarrow> comparison \<Rightarrow> analysis_error_type + dir_value list" where
  "lower_comparison_inner S allowed cmp =
     (case dir_key_kind_from_str (cmp_lhs cmp) of
        None \<Rightarrow> Inl (InvalidKey (cmp_lhs cmp))
      | Some key_enum \<Rightarrow>
          if \<not> is_key_allowed allowed key_enum then Inl (InvalidKey (dir_key_kind_to_string key_enum))
          else (case comparison_type_error (cmp_comparison cmp) (cmp_value cmp) of
                  Some err \<Rightarrow> Inl err
                | None \<Rightarrow> lower_key_value key_enum S (cmp_value cmp) (cmp_comparison cmp)))"

definition lower_comparison :: "strum \<Rightarrow> dir_key_kind list \<Rightarrow> comparison \<Rightarrow> analysis_error + dir_comparison" where
  "lower_comparison S allowed cmp =
     (let metadata = cmp_metadata cmp;
          logic = (case cmp_comparison cmp of
                     Comparison_Equal \<Rightarrow> Dir_PositiveDisjunction
                   | Comparison_NotEqual \<Rightarrow> Dir_NegativeConjunction
                   | Comparison_LessThan \<Rightarrow> Dir_PositiveDisjunction
                   | Comparison_LessThanEqual \<Rightarrow> Dir_PositiveDisjunction
                   | Comparison_GreaterThanEqual \<Rightarrow> Dir_PositiveDisjunction
                   | Comparison_GreaterThan \<Rightarrow> Dir_PositiveDisjunction)
      in case lower_comparison_inner S allowed cmp of
           Inl etype \<Rightarrow> Inl \<lparr>ae_error_type = etype, ae_metadata = metadata\<rparr>
         | Inr values \<Rightarrow> Inr \<lparr>dc_values = values, dc_logic = logic, dc_metadata = metadata\<rparr>)"

fun lower_if_statement :: "strum \<Rightarrow> dir_key_kind list \<Rightarrow> if_statement \<Rightarrow> analysis_error + dir_if_statement" where
  "lower_if_statement S allowed (IfStatement condition nested) =
     and_then (collect_results (map (lower_comparison S allowed) condition)) (\<lambda>dir_condition.
     and_then (case nested of
                 None \<Rightarrow> Inr None
               | Some n \<Rightarrow> and_then (collect_results (map (\<lambda>s. lower_if_statement S allowed s) n)) (\<lambda>ns. Inr (Some ns)))
       (\<lambda>dir_nested. Inr (DirIfStatement dir_condition dir_nested)))"

definition lower_rule :: "strum \<Rightarrow> dir_key_kind list \<Rightarrow> 'o rule \<Rightarrow> analysis_error + 'o dir_rule" where
  "lower_rule S allowed r =
     and_then (collect_results (map (lower_if_statement S allowed) (rule_statements r))) (\<lambda>statements.
       Inr \<lparr>dr_name = rule_name r, dr_connector_selection = rule_connector_selection r, dr_statements = statements\<rparr>)"

definition lower_program :: "strum \<Rightarrow> dir_key_kind list \<Rightarrow> 'o program \<Rightarrow> analysis_error + 'o dir_program" where
  "lower_program S allowed p =
     and_then (collect_results (map (lower_rule S allowed) (rules p))) (\<lambda>dir_rules.
       Inr \<lparr>dp_default_selection = default_selection p, dp_rules = dir_rules, dp_metadata = program_metadata p\<rparr>)"

subsection \<open>The valued representation\<close>

datatype (plugins only: code size) valued_comparison_logic = Valued_NegativeConjunction | Valued_PositiveDisjunction

record valued_comparison =
  vc_values :: "euclid_value list"
  vc_logic :: valued_comparison_logic
  vc_metadata :: metadata

datatype valued_if_statement = ValuedIfStatement "valued_comparison list" "valued_if_statement list option"

record 'o valued_rule =
  vr_name :: string
  vr_connector_selection :: 'o
  vr_statements :: "valued_if_statement list"

record 'o valued_program =
  vp_default_selection :: 'o
  vp_rules :: "'o valued_rule list"
  vp_metadata :: metadata

subsection \<open>From the domain representation to the valued one\<close>

primrec lower_value :: "dir_value \<Rightarrow> analysis_error_type + euclid_value" where
  "lower_value (D_PaymentMethod x) = Inr (EV_PaymentMethod x)"
| "lower_value (D_CardBin x) = Inr (EV_CardBin x)"
| "lower_value (D_ExtendedCardBin x) = Inr (EV_ExtendedCardBin x)"
| "lower_value (D_CardType x) = Inr (EV_PaymentMethodType (card_type_pmt x))"
| "lower_value (D_CardNetwork x) = Inr (EV_CardNetwork x)"
| "lower_value (D_MetaData x) = Inr (EV_Metadata x)"
| "lower_value (D_PayLaterType x) = Inr (EV_PaymentMethodType (pay_later_type_pmt x))"
| "lower_value (D_WalletType x) = Inr (EV_PaymentMethodType (wallet_type_pmt x))"
| "lower_value (D_UpiType x) = Inr (EV_PaymentMethodType (upi_type_pmt x))"
| "lower_value (D_VoucherType x) = Inr (EV_PaymentMethodType (voucher_type_pmt x))"
| "lower_value (D_BankTransferType x) = Inr (EV_PaymentMethodType (bank_transfer_type_pmt x))"
| "lower_value (D_GiftCardType x) = Inr (EV_PaymentMethodType (gift_card_type_pmt x))"
| "lower_value (D_CardRedirectType x) = Inr (EV_PaymentMethodType (card_redirect_type_pmt x))"
| "lower_value (D_BankRedirectType x) = Inr (EV_PaymentMethodType (bank_redirect_type_pmt x))"
| "lower_value (D_CryptoType x) = Inr (EV_PaymentMethodType (crypto_type_pmt x))"
| "lower_value (D_RealTimePaymentType x) = Inr (EV_PaymentMethodType (real_time_payment_type_pmt x))"
| "lower_value (D_AuthenticationType x) = Inr (EV_AuthenticationType x)"
| "lower_value (D_CaptureMethod x) = Inr (EV_CaptureMethod x)"
| "lower_value (D_PaymentAmount x) = Inr (EV_PaymentAmount x)"
| "lower_value (D_SurchargeAmount x) = Inr (EV_SurchargeAmount x)"
| "lower_value (D_PaymentCurrency x) = Inr (EV_PaymentCurrency x)"
| "lower_value (D_BusinessCountry x) = Inr (EV_BusinessCountry x)"
| "lower_value (D_BillingCountry x) = Inr (EV_BillingCountry x)"
| "lower_value (D_MandateAcceptanceType x) = Inr (EV_MandateAcceptanceType x)"
| "lower_value (D_MandateType x) = Inr (EV_MandateType x)"
| "lower_value (D_PaymentType x) = Inr (EV_PaymentType x)"
| "lower_value (D_Connector _) = Inl (UnsupportedProgramKey K_Connector)"
| "lower_value (D_BankDebitType x) = Inr (EV_PaymentMethodType (bank_debit_type_pmt x))"
| "lower_value (D_RewardType x) = Inr (EV_PaymentMethodType (reward_type_pmt x))"
| "lower_value (D_BusinessLabel x) = Inr (EV_BusinessLabel x)"
| "lower_value (D_SetupFutureUsage x) = Inr (EV_SetupFutureUsage x)"
| "lower_value (D_OpenBankingType x) = Inr (EV_PaymentMethodType (open_banking_type_pmt x))"
| "lower_value (D_MobilePaymentType x) = Inr (EV_PaymentMethodType (mobile_payment_type_pmt x))"
| "lower_value (D_IssuerName x) = Inr (EV_IssuerName x)"
| "lower_value (D_IssuerCountry x) = Inr (EV_IssuerCountry x)"
| "lower_value (D_CustomerDevicePlatform x) = Inr (EV_CustomerDevicePlatform x)"
| "lower_value (D_CustomerDeviceType x) = Inr (EV_CustomerDeviceType x)"
| "lower_value (D_CustomerDeviceDisplaySize x) = Inr (EV_CustomerDeviceDisplaySize x)"
| "lower_value (D_AcquirerCountry x) = Inr (EV_AcquirerCountry x)"
| "lower_value (D_AcquirerFraudRate x) = Inr (EV_AcquirerFraudRate x)"
| "lower_value (D_TransactionInitiator x) = Inr (EV_TransactionInitiator x)"
| "lower_value (D_NetworkTokenType x) = Inr (EV_PaymentMethodType (network_token_type_pmt x))"
| "lower_value (D_CardDiscovery x) = Inr (EV_CardDiscovery x)"

definition lower_dir_comparison :: "dir_comparison \<Rightarrow> analysis_error_type + valued_comparison" where
  "lower_dir_comparison c =
     and_then (collect_results (map lower_value (dc_values c))) (\<lambda>values.
       Inr \<lparr>vc_values = values,
            vc_logic = (case dc_logic c of
                          Dir_NegativeConjunction \<Rightarrow> Valued_NegativeConjunction
                        | Dir_PositiveDisjunction \<Rightarrow> Valued_PositiveDisjunction),
            vc_metadata = dc_metadata c\<rparr>)"

fun lower_dir_if_statement :: "dir_if_statement \<Rightarrow> analysis_error_type + valued_if_statement" where
  "lower_dir_if_statement (DirIfStatement condition nested) =
     and_then (collect_results (map lower_dir_comparison condition)) (\<lambda>valued_condition.
     and_then (case nested of
                 None \<Rightarrow> Inr None
               | Some v \<Rightarrow> and_then (collect_results (map (\<lambda>s. lower_dir_if_statement s) v)) (\<lambda>ns. Inr (Some ns)))
       (\<lambda>valued_nested. Inr (ValuedIfStatement valued_condition valued_nested)))"

definition lower_dir_rule :: "'o dir_rule \<Rightarrow> analysis_error_type + 'o valued_rule" where
  "lower_dir_rule r =
     and_then (collect_results (map lower_dir_if_statement (dr_statements r))) (\<lambda>statements.
       Inr \<lparr>vr_name = dr_name r, vr_connector_selection = dr_connector_selection r, vr_statements = statements\<rparr>)"

definition lower_dir_program :: "'o dir_program \<Rightarrow> analysis_error + 'o valued_program" where
  "lower_dir_program p =
     and_then (map_err (\<lambda>e. \<lparr>ae_error_type = e, ae_metadata = Map.empty\<rparr>)
                 (collect_results (map lower_dir_rule (dp_rules p)))) (\<lambda>valued_rules.
       Inr \<lparr>vp_default_selection = dp_default_selection p, vp_rules = valued_rules, vp_metadata = dp_metadata p\<rparr>)"

subsection \<open>Lowered values keep their key\<close>

text \<open>The derived parser of an enumeration only produces values of that enumeration.\<close>

definition strum_typed :: "strum \<Rightarrow> bool" where
  "strum_typed S \<longleftrightarrow> (\<forall>k s v. strum_from_str S k s = Some v \<longrightarrow> fst (dir_key_parts v) = k)"

lemma parse_variant_kind: "strum_typed S \<Longrightarrow> parse_variant S k s = Inr v \<Longrightarrow> fst (dir_key_parts v) = k"
  by (simp add: strum_typed_def parse_variant_def)

lemma lower_enum_kind:
  "strum_typed S \<Longrightarrow> lower_enum S k value = Inr vs \<Longrightarrow> v \<in> set vs \<Longrightarrow> fst (dir_key_parts v) = k"
  unfolding lower_enum_def
  by (auto simp: collect_results_map_rel list_all2_conv_all_nth in_set_conv_nth
      dest: parse_variant_kind split: value_type.splits sum.splits)

lemma lower_number_kind:
  "(\<And>x. fst (dir_key_parts (mk x)) = k) \<Longrightarrow> lower_number mk k value c = Inr vs \<Longrightarrow> v \<in> set vs
   \<Longrightarrow> fst (dir_key_parts v) = k"
  unfolding lower_number_def by (auto split: value_type.splits)

lemma lower_str_kind:
  "(\<And>x. fst (dir_key_parts (mk x)) = k) \<Longrightarrow> lower_str mk k f value = Inr vs \<Longrightarrow> v \<in> set vs
   \<Longrightarrow> fst (dir_key_parts v) = k"
  unfolding lower_str_def by (auto simp: and_then_eq_Inr split: value_type.splits)

lemma lower_metadata_kind: "lower_metadata value = Inr vs \<Longrightarrow> v \<in> set vs \<Longrightarrow> fst (dir_key_parts v) = K_MetaData"
  unfolding lower_metadata_def by (auto split: value_type.splits)

lemma lower_key_value_kind:
  assumes "strum_typed S" and "lower_key_value k S value c = Inr vs" and "v \<in> set vs"
  shows "fst (dir_key_parts v) = k \<and> k \<noteq> K_Connector"
  using assms
  by (cases k) (auto dest: lower_enum_kind lower_metadata_kind
      elim!: lower_number_kind [rotated] lower_str_kind [rotated])

lemma lower_value_total: "fst (dir_key_parts v) \<noteq> K_Connector \<Longrightarrow> \<exists>e. lower_value v = Inr e"
  by (cases v) simp_all

lemma lower_comparison_key:
  assumes "strum_typed S" and "lower_comparison S allowed c = Inr d"
  obtains k where "dir_key_kind_from_str (cmp_lhs c) = Some k" "is_key_allowed allowed k"
    "\<And>v. v \<in> set (dc_values d) \<Longrightarrow> fst (dir_key_parts v) = k \<and> k \<noteq> K_Connector"
  using assms lower_key_value_kind [OF assms(1)]
  unfolding lower_comparison_def lower_comparison_inner_def
  by (fastforce simp: Let_def split: option.splits sum.splits if_splits)

subsection \<open>All comparisons of a statement\<close>

fun statement_comparisons :: "dir_if_statement \<Rightarrow> dir_comparison list" where
  "statement_comparisons (DirIfStatement condition nested) =
     condition @ (case nested of None \<Rightarrow> [] | Some ns \<Rightarrow> concat (map (\<lambda>s. statement_comparisons s) ns))"

definition program_comparisons :: "'o dir_program \<Rightarrow> dir_comparison list" where
  "program_comparisons p = concat (map statement_comparisons (concat (map dr_statements (dp_rules p))))"

lemma lowered_statement_comparisons:
  "lower_if_statement S allowed s = Inr d \<Longrightarrow> c \<in> set (statement_comparisons d) \<Longrightarrow>
   \<exists>a. lower_comparison S allowed a = Inr c"
proof (induction S allowed s arbitrary: d c rule: lower_if_statement.induct)
  case (1 S allowed condition nested)
  obtain dc dn where d: "d = DirIfStatement dc dn" "list_all2 (\<lambda>x y. lower_comparison S allowed x = Inr y) condition dc"
    and n: "(case nested of None \<Rightarrow> Inr None
               | Some n \<Rightarrow> and_then (collect_results (map (lower_if_statement S allowed) n)) (\<lambda>ns. Inr (Some ns))) = Inr dn"
    using "1.prems"(1) by (auto simp: and_then_eq_Inr collect_results_map_rel)
  show ?case
  proof (cases "c \<in> set dc")
    case True
    with list_all2_in_set2 [OF d(2)] show ?thesis by blast
  next
    case False
    with "1.prems"(2) d(1) obtain ns t where ns: "dn = Some ns" "t \<in> set ns" "c \<in> set (statement_comparisons t)"
      by (auto split: option.splits)
    with n obtain n' where n': "nested = Some n'" "list_all2 (\<lambda>x y. lower_if_statement S allowed x = Inr y) n' ns"
      by (auto simp: and_then_eq_Inr collect_results_map_rel split: option.splits)
    obtain x where x: "x \<in> set n'" "lower_if_statement S allowed x = Inr t"
      using list_all2_in_set2 [OF n'(2) ns(2)] by blast
    show ?thesis by (rule "1.IH" [OF n'(1) x ns(3)])
  qed
qed

lemma lower_dir_statement_total:
  "(\<And>c. c \<in> set (statement_comparisons d) \<Longrightarrow> \<exists>v. lower_dir_comparison c = Inr v) \<Longrightarrow>
   \<exists>v. lower_dir_if_statement d = Inr v"
proof (induction d rule: lower_dir_if_statement.induct)
  case (1 condition nested)
  obtain vc where vc: "collect_results (map lower_dir_comparison condition) = Inr vc"
    using collect_results_total [of condition lower_dir_comparison] "1.prems" by auto
  show ?case
  proof (cases nested)
    case None
    with vc show ?thesis by simp
  next
    case (Some ns)
    have "\<exists>v. lower_dir_if_statement s = Inr v" if "s \<in> set ns" for s
      using "1.IH" [OF Some that] "1.prems" Some that by auto
    then obtain vs where "collect_results (map lower_dir_if_statement ns) = Inr vs"
      using collect_results_total [of ns lower_dir_if_statement] by auto
    with vc Some show ?thesis by simp
  qed
qed

text \<open>
  C33. A program that passes the first lowering passes the second: every value the first pass produces
  has the key of its comparison, so no connector value, which the second pass rejects, can occur.
\<close>

theorem lowering_second_pass_total:
  assumes "strum_typed S" and "lower_program S allowed p = Inr d"
  shows "\<exists>v. lower_dir_program d = Inr v"
proof -
  have r: "list_all2 (\<lambda>x y. lower_rule S allowed x = Inr y) (rules p) (dp_rules d)"
    using assms(2) by (auto simp: lower_program_def and_then_eq_Inr collect_results_map_rel)
  have "\<exists>v. lower_dir_rule q = Inr v" if "q \<in> set (dp_rules d)" for q
  proof -
    from list_all2_in_set2 [OF r that] obtain x where "lower_rule S allowed x = Inr q" by blast
    then have st: "list_all2 (\<lambda>s t. lower_if_statement S allowed s = Inr t) (rule_statements x) (dr_statements q)"
      by (auto simp: lower_rule_def and_then_eq_Inr collect_results_map_rel)
    have "\<exists>v. lower_dir_if_statement t = Inr v" if "t \<in> set (dr_statements q)" for t
    proof (rule lower_dir_statement_total)
      fix c assume c: "c \<in> set (statement_comparisons t)"
      from list_all2_in_set2 [OF st that] obtain s where "lower_if_statement S allowed s = Inr t" by blast
      from lowered_statement_comparisons [OF this c] obtain a where "lower_comparison S allowed a = Inr c" by blast
      with lower_comparison_key [OF assms(1)] have "\<exists>e. lower_value v = Inr e" if "v \<in> set (dc_values c)" for v
        using that lower_value_total by (metis (no_types))
      with collect_results_total [of "dc_values c" lower_value] show "\<exists>v. lower_dir_comparison c = Inr v"
        by (auto simp: lower_dir_comparison_def)
    qed
    with collect_results_total [of "dr_statements q" lower_dir_if_statement] show ?thesis
      by (auto simp: lower_dir_rule_def)
  qed
  with collect_results_total [of "dp_rules d" lower_dir_rule] show ?thesis
    by (auto simp: lower_dir_program_def)
qed

definition example_strum :: strum where
  "example_strum =
     \<lparr>strum_from_str = (\<lambda>k s. if k = K_CardType \<and> s = ''credit'' then Some (D_CardType CardType_Credit) else None),
      strum_variants = (\<lambda>k. [])\<rparr>"

definition example_card_program :: "unit program" where
  "example_card_program =
     \<lparr>default_selection = (),
      rules = [\<lparr>rule_name = ''credit'', rule_connector_selection = (),
        rule_statements = [IfStatement [\<lparr>cmp_lhs = ''card_type'', cmp_comparison = Comparison_Equal,
          cmp_value = VT_EnumVariant ''credit'', cmp_metadata = Map.empty\<rparr>] None]\<rparr>],
      program_metadata = Map.empty\<rparr>"

lemma example_strum_typed: "strum_typed example_strum"
  by (simp add: strum_typed_def example_strum_def)

lemma example_card_lowered:
  "lower_program example_strum [K_CardType] example_card_program =
     Inr \<lparr>dp_default_selection = (),
          dp_rules = [\<lparr>dr_name = ''credit'', dr_connector_selection = (),
            dr_statements = [DirIfStatement [\<lparr>dc_values = [D_CardType CardType_Credit],
              dc_logic = Dir_PositiveDisjunction, dc_metadata = Map.empty\<rparr>] None]\<rparr>],
          dp_metadata = Map.empty\<rparr>"
  by (simp add: lower_program_def lower_rule_def example_card_program_def lower_comparison_def lower_comparison_inner_def
      dir_key_kind_from_to_string [of K_CardType, simplified] is_key_allowed_def comparison_type_error_def
      lower_enum_def parse_variant_def example_strum_def)

theorem lowering_second_pass_total_witness:
  "\<exists>d v. lower_program example_strum [K_CardType] example_card_program = Inr d \<and> lower_dir_program d = Inr v"
  using example_card_lowered lowering_second_pass_total [OF example_strum_typed example_card_lowered] by blast

subsection \<open>Payment method types\<close>

lemma payment_method_type_inverse:
  assumes "lower_value v = Inr (EV_PaymentMethodType t)" and "v \<noteq> D_BankTransferType BankTransferType_SepaBankTransfer"
  shows "\<exists>pm. into_dir_value t pm = Inr v"
  using assms by (cases v) (auto simp: into_dir_value_of_pmt intro: exI [of _ PaymentMethod_BankDebit]
      exI [of _ PaymentMethod_BankTransfer])

text \<open>
  C37. Lowering a value to a payment method type loses nothing but one case: under a suitable payment
  method the type leads back to the value, unless the value is the SEPA bank transfer.
\<close>

theorem payment_method_type_roundtrip:
  assumes "lower_value v = Inr (EV_PaymentMethodType t)" and "v \<noteq> D_BankTransferType BankTransferType_SepaBankTransfer"
  shows "\<exists>pm. into_dir_value t pm = Inr v"
  by (rule payment_method_type_inverse [OF assms])

theorem payment_method_type_roundtrip_witness:
  "lower_value (D_WalletType WalletType_Paypal) = Inr (EV_PaymentMethodType (wallet_type_pmt WalletType_Paypal))
   \<and> (\<exists>pm. into_dir_value (wallet_type_pmt WalletType_Paypal) pm = Inr (D_WalletType WalletType_Paypal))"
  using payment_method_type_roundtrip [of "D_WalletType WalletType_Paypal" "wallet_type_pmt WalletType_Paypal"]
  by (simp del: wallet_type_pmt.simps)

text \<open>
  C40. The SEPA bank transfer is lowered to the payment method type of the SEPA direct debit, although
  the enumeration has a type of its own for it, which leads back to it: a rule on the bank
  transfer matches direct debits and never the transfer.
\<close>

theorem sepa_bank_transfer_lowered_to_debit:
  "lower_value (D_BankTransferType BankTransferType_SepaBankTransfer) = lower_value (D_BankDebitType BankDebitType_Sepa)
   \<and> into_dir_value (Pmt3 PMT_SepaBankTransfer) pm = Inr (D_BankTransferType BankTransferType_SepaBankTransfer)
   \<and> lower_value v \<noteq> Inr (EV_PaymentMethodType (Pmt3 PMT_SepaBankTransfer))"
proof -
  have "lower_value v \<noteq> Inr (EV_PaymentMethodType (Pmt3 PMT_SepaBankTransfer))"
  proof
    assume a: "lower_value v = Inr (EV_PaymentMethodType (Pmt3 PMT_SepaBankTransfer))"
    have "v \<noteq> D_BankTransferType BankTransferType_SepaBankTransfer" using a by auto
    with payment_method_type_inverse [OF a this] show False by auto
  qed
  then show ?thesis by simp
qed

end
