(* ===== verification/Euclid_Vir.thy ===== *)
theory Euclid_Vir
  imports Euclid_Lowering
begin

text \<open>
  The interpreter of the valued representation, \<open>euclid/src/backend/vir_interpreter.rs\<close> and its
  \<open>types.rs\<close>: a program is lowered once and then evaluated against the set of values an input
  contains. The lemmas compare it with the direct interpreter of programs: on the keys both know
  the two agree, except for \<open>/=\<close> on amounts and for absent values.
\<close>

subsection \<open>Contexts\<close>

record vir_context =
  atomic_values :: "euclid_value set"
  numeric_values :: "euclid_key \<rightharpoonup> euclid_value"

definition number_matches :: "num_value \<Rightarrow> num_value \<Rightarrow> bool" where
  "number_matches program_value ctx_value =
     (let program_num = num_number program_value; ctx_num = num_number ctx_value
      in case num_refinement program_value of
           None \<Rightarrow> program_num = ctx_num
         | Some Refinement_NotEqual \<Rightarrow> ctx_num \<noteq> program_num
         | Some Refinement_GreaterThan \<Rightarrow> ctx_num > program_num
         | Some Refinement_GreaterThanEqual \<Rightarrow> ctx_num \<ge> program_num
         | Some Refinement_LessThanEqual \<Rightarrow> ctx_num \<le> program_num
         | Some Refinement_LessThan \<Rightarrow> ctx_num < program_num)"

definition vir_check_presence :: "vir_context \<Rightarrow> euclid_value \<Rightarrow> bool" where
  "vir_check_presence ctx val =
     (let key = euclid_get_key val
      in case key_type key of
           DataType_MetadataValue \<Rightarrow> val \<in> atomic_values ctx
         | DataType_StrValue \<Rightarrow> val \<in> atomic_values ctx
         | DataType_EnumVariant \<Rightarrow> val \<in> atomic_values ctx
         | DataType_Number \<Rightarrow>
             (let ctx_num_value = Option.bind (numeric_values ctx key) euclid_get_num_value
              in case (euclid_get_num_value val, ctx_num_value) of
                   (Some program_value, Some ctx_value) \<Rightarrow> number_matches program_value ctx_value
                 | _ \<Rightarrow> False))"

definition insert_some :: "('a \<Rightarrow> euclid_value) \<Rightarrow> 'a option \<Rightarrow> euclid_value set \<Rightarrow> euclid_value set" where
  "insert_some mk x values = (case x of None \<Rightarrow> values | Some a \<Rightarrow> insert (mk a) values)"

definition input_values :: "backend_input \<Rightarrow> euclid_value set" where
  "input_values inp =
     (let payment = in_payment inp;
          pm = in_payment_method_input inp;
          mandate = in_mandate inp;
          values = {EV_PaymentCurrency (in_currency payment)};
          values = insert_some EV_PaymentMethod (in_payment_method pm) values;
          values = insert_some EV_PaymentMethodType (in_payment_method_type pm) values;
          values = (case in_metadata inp of
                      None \<Rightarrow> values
                    | Some met \<Rightarrow> foldl (\<lambda>vs (k, v). insert (EV_Metadata \<lparr>md_key = k, md_value = v\<rparr>) vs) values met);
          values = insert_some EV_CardNetwork (in_card_network pm) values;
          values = insert_some EV_CardDiscovery (in_card_discovery pm) values;
          values = insert_some EV_AuthenticationType (in_authentication_type payment) values;
          values = insert_some EV_CaptureMethod (in_capture_method payment) values;
          values = insert_some EV_BusinessCountry (in_business_country payment) values;
          values = insert_some EV_TransactionInitiator (in_transaction_initiator payment) values;
          values = insert_some EV_BillingCountry (in_billing_country payment) values;
          values = insert_some (\<lambda>s. EV_CardBin \<lparr>str_val = s\<rparr>) (in_card_bin payment) values;
          values = insert_some (\<lambda>s. EV_ExtendedCardBin \<lparr>str_val = s\<rparr>) (in_extended_card_bin payment) values;
          values = insert_some (\<lambda>s. EV_BusinessLabel \<lparr>str_val = s\<rparr>) (in_business_label payment) values;
          values = insert_some EV_SetupFutureUsage (in_setup_future_usage payment) values;
          values = insert_some EV_PaymentType (in_payment_type mandate) values;
          values = insert_some EV_MandateType (in_mandate_type mandate) values;
          values = insert_some EV_MandateAcceptanceType (in_mandate_acceptance_type mandate) values;
          values = insert_some EV_AcquirerCountry (Option.bind (in_acquirer_data inp) in_acquirer_country) values;
          values = (case in_customer_device_data inp of
                      None \<Rightarrow> values
                    | Some device \<Rightarrow>
                        insert_some EV_CustomerDeviceDisplaySize (in_display_size device)
                          (insert_some EV_CustomerDeviceType (in_device_type device)
                            (insert_some EV_CustomerDevicePlatform (in_platform device) values)))
      in case in_issuer_data inp of
           None \<Rightarrow> values
         | Some issuer \<Rightarrow>
             insert_some EV_IssuerCountry (in_issuer_country issuer)
               (insert_some (\<lambda>s. EV_IssuerName \<lparr>str_val = s\<rparr>) (in_issuer_name issuer) values))"

definition from_input :: "backend_input \<Rightarrow> vir_context" where
  "from_input inp =
     \<lparr>atomic_values = input_values inp,
      numeric_values =
        [EK_PaymentAmount \<mapsto> EV_PaymentAmount \<lparr>num_number = in_amount (in_payment inp), num_refinement = None\<rparr>,
         EK_SurchargeAmount \<mapsto> EV_SurchargeAmount
           \<lparr>num_number = (case in_surcharge_amount (in_payment inp) of None \<Rightarrow> minor_unit_zero | Some a \<Rightarrow> a),
            num_refinement = None\<rparr>]\<rparr>"

subsection \<open>Evaluation\<close>

definition vir_eval_comparison :: "valued_comparison \<Rightarrow> vir_context \<Rightarrow> bool" where
  "vir_eval_comparison cmp ctx =
     (case vc_logic cmp of
        Valued_PositiveDisjunction \<Rightarrow> list_ex (vir_check_presence ctx) (vc_values cmp)
      | Valued_NegativeConjunction \<Rightarrow> list_all (\<lambda>v. \<not> vir_check_presence ctx v) (vc_values cmp))"

definition vir_eval_condition :: "valued_comparison list \<Rightarrow> vir_context \<Rightarrow> bool" where
  "vir_eval_condition cond ctx = list_all (\<lambda>cmp. vir_eval_comparison cmp ctx) cond"

fun vir_eval_statement :: "vir_context \<Rightarrow> valued_if_statement \<Rightarrow> bool" where
  "vir_eval_statement ctx (ValuedIfStatement condition nested) =
     (if vir_eval_condition condition ctx
      then (case nested of
              None \<Rightarrow> True
            | Some nested_stmts \<Rightarrow> list_ex (\<lambda>s. vir_eval_statement ctx s) nested_stmts)
      else False)"

definition vir_eval_rule :: "'o valued_rule \<Rightarrow> vir_context \<Rightarrow> bool" where
  "vir_eval_rule r ctx = list_ex (vir_eval_statement ctx) (vr_statements r)"

definition vir_eval_program :: "'o valued_program \<Rightarrow> vir_context \<Rightarrow> 'o backend_output" where
  "vir_eval_program p ctx =
     (case find (\<lambda>r. vir_eval_rule r ctx) (vp_rules p) of
        None \<Rightarrow> \<lparr>out_rule_name = None, out_connector_selection = vp_default_selection p\<rparr>
      | Some r \<Rightarrow> \<lparr>out_rule_name = Some (vr_name r), out_connector_selection = vr_connector_selection r\<rparr>)"

datatype (plugins only: code size) vir_interpreter_error = LoweringError analysis_error

definition vir_with_program ::
  "strum \<Rightarrow> dir_key_kind list \<Rightarrow> 'o program \<Rightarrow> vir_interpreter_error + 'o valued_program" where
  "vir_with_program S allowed p =
     and_then (map_err LoweringError (lower_program S allowed p)) (\<lambda>dir_program.
       map_err LoweringError (lower_dir_program dir_program))"

definition vir_execute :: "'o valued_program \<Rightarrow> backend_input \<Rightarrow> vir_interpreter_error + 'o backend_output" where
  "vir_execute p inp = Inr (vir_eval_program p (from_input inp))"

subsection \<open>Which values an input contains\<close>

lemma insert_some_iff: "v \<in> insert_some mk x vs \<longleftrightarrow> v \<in> vs \<or> (\<exists>a. x = Some a \<and> v = mk a)"
  by (cases x) (auto simp: insert_some_def)

lemma foldl_insert_iff: "v \<in> foldl (\<lambda>vs (k, x). insert (f k x) vs) s met \<longleftrightarrow> v \<in> s \<or> (\<exists>(k, x) \<in> set met. v = f k x)"
  by (induction met arbitrary: s) auto

lemma input_values_iff:
  "EV_PaymentMethod a \<in> input_values inp \<longleftrightarrow> in_payment_method (in_payment_method_input inp) = Some a"
  "EV_AuthenticationType b \<in> input_values inp \<longleftrightarrow> in_authentication_type (in_payment inp) = Some b"
  "EV_CaptureMethod c \<in> input_values inp \<longleftrightarrow> in_capture_method (in_payment inp) = Some c"
  "EV_PaymentCurrency d \<in> input_values inp \<longleftrightarrow> in_currency (in_payment inp) = d"
  by (auto simp: input_values_def Let_def insert_some_iff foldl_insert_iff split: option.splits)

lemma number_matches_stands_for:
  "num_refinement w = None \<Longrightarrow> number_matches v w \<longleftrightarrow> stands_for v (num_number w)"
  by (auto simp: number_matches_def stands_for_def comparison_holds_def Let_def
      split: option.splits num_value_refinement.splits)

lemma vir_presence_amount:
  "vir_check_presence (from_input inp) (EV_PaymentAmount v) \<longleftrightarrow> stands_for v (in_amount (in_payment inp))"
  by (simp add: vir_check_presence_def from_input_def euclid_get_num_value_def number_matches_stands_for)

lemma vir_presence_enum:
  "vir_check_presence (from_input inp) (EV_PaymentMethod a) \<longleftrightarrow> in_payment_method (in_payment_method_input inp) = Some a"
  "vir_check_presence (from_input inp) (EV_AuthenticationType b) \<longleftrightarrow> in_authentication_type (in_payment inp) = Some b"
  "vir_check_presence (from_input inp) (EV_CaptureMethod c) \<longleftrightarrow> in_capture_method (in_payment inp) = Some c"
  "vir_check_presence (from_input inp) (EV_PaymentCurrency d) \<longleftrightarrow> in_currency (in_payment inp) = d"
  by (simp_all add: vir_check_presence_def from_input_def input_values_iff)

subsection \<open>Agreement of the two interpreters\<close>

text \<open>
  The derived parser and printer of an enumeration are inverse to each other, for the four
  enumerations whose keys both interpreters know.
\<close>

definition parses_display :: "(string \<Rightarrow> dir_value option) \<Rightarrow> ('e \<Rightarrow> dir_value) \<Rightarrow> ('e \<Rightarrow> string) \<Rightarrow> bool" where
  "parses_display from_str mk display \<longleftrightarrow> (\<forall>s v. from_str s = Some v \<longleftrightarrow> (\<exists>a. v = mk a \<and> display a = s))"

definition strum_inverse :: "strum \<Rightarrow> enum_display \<Rightarrow> bool" where
  "strum_inverse S show \<longleftrightarrow>
     parses_display (strum_from_str S K_PaymentMethod) D_PaymentMethod (show_payment_method show)
   \<and> parses_display (strum_from_str S K_AuthenticationType) D_AuthenticationType (show_authentication_type show)
   \<and> parses_display (strum_from_str S K_CaptureMethod) D_CaptureMethod (show_capture_method show)
   \<and> parses_display (strum_from_str S K_PaymentCurrency) D_PaymentCurrency (show_currency show)"

definition shared_comparison :: "comparison \<Rightarrow> bool" where
  "shared_comparison c \<longleftrightarrow>
     (case cmp_value c of
        VT_EnumVariant _ \<Rightarrow> cmp_lhs c \<in> {''payment_method'', ''authentication_type'', ''capture_method'', ''currency''}
          \<and> cmp_comparison c \<in> {Comparison_Equal, Comparison_NotEqual}
      | VT_EnumVariantArray _ \<Rightarrow> cmp_lhs c \<in> {''payment_method'', ''authentication_type'', ''capture_method'', ''currency''}
          \<and> cmp_comparison c \<in> {Comparison_Equal, Comparison_NotEqual}
      | VT_Number _ \<Rightarrow> cmp_lhs c = ''amount'' \<and> cmp_comparison c \<noteq> Comparison_NotEqual
      | VT_NumberArray _ \<Rightarrow> cmp_lhs c = ''amount'' \<and> cmp_comparison c = Comparison_Equal
      | VT_NumberComparisonArray _ \<Rightarrow> cmp_lhs c = ''amount'' \<and> cmp_comparison c = Comparison_Equal
      | _ \<Rightarrow> False)"

definition complete_input :: "backend_input \<Rightarrow> bool" where
  "complete_input inp \<longleftrightarrow>
     in_payment_method (in_payment_method_input inp) \<noteq> None
   \<and> in_authentication_type (in_payment inp) \<noteq> None
   \<and> in_capture_method (in_payment inp) \<noteq> None"

lemma key_names:
  "dir_key_kind_from_str ''payment_method'' = Some K_PaymentMethod"
  "dir_key_kind_from_str ''authentication_type'' = Some K_AuthenticationType"
  "dir_key_kind_from_str ''capture_method'' = Some K_CaptureMethod"
  "dir_key_kind_from_str ''currency'' = Some K_PaymentCurrency"
  "dir_key_kind_from_str ''amount'' = Some K_PaymentAmount"
  using dir_key_kind_from_to_string [of K_PaymentMethod] dir_key_kind_from_to_string [of K_AuthenticationType]
    dir_key_kind_from_to_string [of K_CaptureMethod] dir_key_kind_from_to_string [of K_PaymentCurrency]
    dir_key_kind_from_to_string [of K_PaymentAmount] by simp_all

lemma context_names:
  "context_of_input show inp ''payment_method'' =
     Some (map_option (\<lambda>pm. VT_EnumVariant (show_payment_method show pm)) (in_payment_method (in_payment_method_input inp)))"
  "context_of_input show inp ''authentication_type'' =
     Some (map_option (\<lambda>a. VT_EnumVariant (show_authentication_type show a)) (in_authentication_type (in_payment inp)))"
  "context_of_input show inp ''capture_method'' =
     Some (map_option (\<lambda>cm. VT_EnumVariant (show_capture_method show cm)) (in_capture_method (in_payment inp)))"
  "context_of_input show inp ''currency'' =
     Some (Some (VT_EnumVariant (show_currency show (in_currency (in_payment inp)))))"
  "context_of_input show inp ''amount'' = Some (Some (VT_Number (in_amount (in_payment inp))))"
  by (simp_all add: context_of_input_def)

lemma parses_displayD: "parses_display from_str mk display \<Longrightarrow> from_str (display a) = Some (mk a)"
  unfolding parses_display_def by blast

lemma parse_values:
  assumes parse: "parses_display (strum_from_str S k) mkD display"
    and low: "\<And>a. lower_value (mkD a) = Inr (mkE a)"
    and ds: "collect_results (map (parse_variant S k) ss) = Inr ds"
    and vs: "collect_results (map lower_value ds) = Inr vs"
  shows "\<exists>xs. ss = map display xs \<and> vs = map mkE xs"
  using ds vs
proof (induction ss arbitrary: ds vs)
  case (Cons s ss)
  from Cons.prems(1) obtain d ds' where d: "parse_variant S k s = Inr d" "collect_results (map (parse_variant S k) ss) = Inr ds'"
    "ds = d # ds'" by (auto simp: collect_results_Cons_Inr)
  from d(1) parse obtain a where a: "d = mkD a" "display a = s"
    by (auto simp: parse_variant_def parses_display_def)
  with Cons.prems(2) d(3) low obtain vs' where v: "collect_results (map lower_value ds') = Inr vs'" "vs = mkE a # vs'"
    by (auto split: sum.splits)
  from Cons.IH [OF d(2) v(1)] obtain xs where "ss = map display xs" "vs' = map mkE xs" by blast
  with a v(2) show ?case by (intro exI [of _ "a # xs"]) simp
qed simp

lemma enum_comparison_agrees:
  assumes parse: "parses_display (strum_from_str S k) mkD display"
    and low: "\<And>a. lower_value (mkD a) = Inr (mkE a)"
    and ctx: "ctx (cmp_lhs c) = Some (Some (VT_EnumVariant (display av)))"
    and pres: "\<And>a. P (mkE a) \<longleftrightarrow> a = av"
    and eq: "cmp_comparison c = Comparison_Equal \<or> cmp_comparison c = Comparison_NotEqual"
    and ds: "lower_enum S k (cmp_value c) = Inr ds" and vs: "collect_results (map lower_value ds) = Inr vs"
  shows "eval_comparison c ctx =
    Inr (if cmp_comparison c = Comparison_Equal then list_ex P vs else list_all (\<lambda>v. \<not> P v) vs)"
proof -
  have inj: "display av = display a \<longleftrightarrow> a = av" for a
  proof
    assume "display av = display a"
    with parses_displayD [OF parse, of a] parses_displayD [OF parse, of av] have "mkD a = mkD av" by simp
    then have "Inr (mkE a) = (Inr (mkE av) :: analysis_error_type + euclid_value)" unfolding low [symmetric] by (rule arg_cong)
    then have "P (mkE a) = P (mkE av)" by (simp only: sum.inject)
    then show "a = av" unfolding pres by blast
  qed simp
  show ?thesis
  proof (cases "cmp_value c")
    case (VT_EnumVariant s)
    with ds obtain d where d: "parse_variant S k s = Inr d" "ds = [d]"
      by (auto simp: lower_enum_def split: sum.splits)
    then have "collect_results (map (parse_variant S k) [s]) = Inr ds" by simp
    from parse_values [OF parse low this vs] obtain xs where xs: "[s] = map display xs" "vs = map mkE xs"
      by (elim exE conjE)
    then obtain a where "s = display a" "vs = [mkE a]" by auto
    with VT_EnumVariant ctx eq show ?thesis by (auto simp: eval_comparison_def inj pres)
  next
    case (VT_EnumVariantArray ss)
    with ds have "collect_results (map (parse_variant S k) ss) = Inr ds" by (simp add: lower_enum_def)
    from parse_values [OF parse low this vs] obtain xs where "ss = map display xs" "vs = map mkE xs"
      by (elim exE conjE)
    with VT_EnumVariantArray ctx eq show ?thesis
      by (auto simp: eval_comparison_def list_ex_iff list_all_iff inj pres)
  qed (use ds in \<open>auto simp: lower_enum_def\<close>)
qed

lemma amount_comparison_agrees:
  assumes ctx: "ctx (cmp_lhs c) = Some (Some (VT_Number n))"
    and pres: "\<And>v. P (EV_PaymentAmount v) \<longleftrightarrow> stands_for v n"
    and ds: "lower_number D_PaymentAmount K_PaymentAmount (cmp_value c) (cmp_comparison c) = Inr ds"
    and vs: "collect_results (map lower_value ds) = Inr vs"
    and sh: "shared_comparison c"
  shows "eval_comparison c ctx = Inr (list_ex P vs) \<and> cmp_comparison c \<noteq> Comparison_NotEqual"
proof (cases "cmp_value c")
  case (VT_Number m)
  then have "vs = [EV_PaymentAmount \<lparr>num_number = m, num_refinement = refinement_of_comparison (cmp_comparison c)\<rparr>]"
    using ds vs by (auto simp: lower_number_def)
  with VT_Number ctx sh pres show ?thesis
    by (cases "cmp_comparison c") (simp_all add: eval_comparison_def shared_comparison_def comparison_holds_def stands_for_def)
next
  case (VT_NumberArray ms)
  then have e: "cmp_comparison c = Comparison_Equal" using sh by (simp add: shared_comparison_def)
  have "vs = map (\<lambda>m. EV_PaymentAmount \<lparr>num_number = m, num_refinement = refinement_of_comparison Comparison_Equal\<rparr>) ms"
    using ds vs VT_NumberArray e by (auto simp: lower_number_def comp_def)
  with VT_NumberArray ctx pres e show ?thesis
    by (auto simp: eval_comparison_def list_ex_iff comparison_holds_def stands_for_def)
next
  case (VT_NumberComparisonArray ncs)
  then have e: "cmp_comparison c = Comparison_Equal" using sh by (simp add: shared_comparison_def)
  have "vs = map (\<lambda>nc. EV_PaymentAmount \<lparr>num_number = nc_number nc,
      num_refinement = refinement_of_comparison (nc_comparison_type nc)\<rparr>) ncs"
    using ds vs VT_NumberComparisonArray by (auto simp: lower_number_def comp_def)
  with VT_NumberComparisonArray ctx pres e show ?thesis
    by (simp add: eval_comparison_def list_ex_iff)
qed (use ds in \<open>auto simp: lower_number_def\<close>)

lemma comparison_agrees:
  assumes inv: "strum_inverse S show" and full: "complete_input inp" and sh: "shared_comparison c"
    and d: "lower_comparison S allowed c = Inr d" and v: "lower_dir_comparison d = Inr v"
  shows "eval_comparison c (context_of_input show inp) = Inr (vir_eval_comparison v (from_input inp))"
proof -
  let ?P = "vir_check_presence (from_input inp)"
  obtain k where k: "dir_key_kind_from_str (cmp_lhs c) = Some k"
    "lower_key_value k S (cmp_value c) (cmp_comparison c) = Inr (dc_values d)"
    and logic: "dc_logic d = (if cmp_comparison c = Comparison_NotEqual then Dir_NegativeConjunction else Dir_PositiveDisjunction)"
    using d by (auto simp: lower_comparison_def lower_comparison_inner_def Let_def
        split: sum.splits option.splits if_splits comparison_type.splits)
  have vs: "collect_results (map lower_value (dc_values d)) = Inr (vc_values v)"
    and ev: "vir_eval_comparison v (from_input inp) =
      (if cmp_comparison c = Comparison_NotEqual then list_all (\<lambda>x. \<not> ?P x) (vc_values v) else list_ex ?P (vc_values v))"
    using v logic by (auto simp: lower_dir_comparison_def and_then_eq_Inr vir_eval_comparison_def)
  show ?thesis
  proof (cases "cmp_lhs c = ''amount''")
    case True
    then have "k = K_PaymentAmount" using k(1) by (simp add: key_names)
    then have "eval_comparison c (context_of_input show inp) = Inr (list_ex ?P (vc_values v))
        \<and> cmp_comparison c \<noteq> Comparison_NotEqual"
      using k(2) True vs sh
      by (intro amount_comparison_agrees [where n = "in_amount (in_payment inp)"])
        (simp_all add: context_names vir_presence_amount)
    with ev show ?thesis by simp
  next
    case False
    then have lhs: "cmp_lhs c \<in> {''payment_method'', ''authentication_type'', ''capture_method'', ''currency''}"
      and eq: "cmp_comparison c = Comparison_Equal \<or> cmp_comparison c = Comparison_NotEqual"
      using sh by (auto simp: shared_comparison_def split: value_type.splits)
    obtain pm at cm where full': "in_payment_method (in_payment_method_input inp) = Some pm"
      "in_authentication_type (in_payment inp) = Some at" "in_capture_method (in_payment inp) = Some cm"
      using full by (auto simp: complete_input_def)
    note enum = enum_comparison_agrees [where P = ?P and c = c and ctx = "context_of_input show inp", OF _ _ _ _ eq _ vs]
    have "eval_comparison c (context_of_input show inp) =
      Inr (if cmp_comparison c = Comparison_Equal then list_ex ?P (vc_values v) else list_all (\<lambda>x. \<not> ?P x) (vc_values v))"
    proof -
      consider "cmp_lhs c = ''payment_method''" | "cmp_lhs c = ''authentication_type''"
        | "cmp_lhs c = ''capture_method''" | "cmp_lhs c = ''currency''" using lhs by blast
      then show ?thesis
      proof cases
        case 1
        then show ?thesis using k inv full'
          by (intro enum [where mkD = D_PaymentMethod and mkE = EV_PaymentMethod and av = pm and display = "show_payment_method show"])
            (auto simp: key_names context_names vir_presence_enum strum_inverse_def)
      next
        case 2
        then show ?thesis using k inv full'
          by (intro enum [where mkD = D_AuthenticationType and mkE = EV_AuthenticationType and av = at and display = "show_authentication_type show"])
            (auto simp: key_names context_names vir_presence_enum strum_inverse_def)
      next
        case 3
        then show ?thesis using k inv full'
          by (intro enum [where mkD = D_CaptureMethod and mkE = EV_CaptureMethod and av = cm and display = "show_capture_method show"])
            (auto simp: key_names context_names vir_presence_enum strum_inverse_def)
      next
        case 4
        then show ?thesis using k inv
          by (intro enum [where mkD = D_PaymentCurrency and mkE = EV_PaymentCurrency and av = "in_currency (in_payment inp)" and display = "show_currency show"])
            (auto simp: key_names context_names vir_presence_enum strum_inverse_def)
      qed
    qed
    with ev eq show ?thesis by auto
  qed
qed

fun if_comparisons :: "if_statement \<Rightarrow> comparison list" where
  "if_comparisons (IfStatement condition nested) =
     condition @ (case nested of None \<Rightarrow> [] | Some ns \<Rightarrow> concat (map (\<lambda>s. if_comparisons s) ns))"

lemma eval_condition_agrees:
  "list_all2 (\<lambda>c v. eval_comparison c ctx = Inr (vir_eval_comparison v vctx)) cs vs \<Longrightarrow>
   eval_if_condition cs ctx = Inr (vir_eval_condition vs vctx)"
  by (induction rule: list_all2_induct) (auto simp: vir_eval_condition_def)

lemma eval_statements_agree:
  "list_all2 (\<lambda>s v. eval_if_statement s ctx = Inr (vir_eval_statement vctx v)) ss vs \<Longrightarrow>
   eval_rule_statements ss ctx = Inr (list_ex (vir_eval_statement vctx) vs)"
  by (induction rule: list_all2_induct) auto

lemma statement_agrees:
  assumes inv: "strum_inverse S show" and full: "complete_input inp"
  shows "lower_if_statement S allowed s = Inr d \<Longrightarrow> lower_dir_if_statement d = Inr v \<Longrightarrow>
    list_all shared_comparison (if_comparisons s) \<Longrightarrow>
    eval_if_statement s (context_of_input show inp) = Inr (vir_eval_statement (from_input inp) v)"
  using inv
proof (induction S allowed s arbitrary: d v rule: lower_if_statement.induct)
  case (1 S allowed condition nested)
  let ?ctx = "context_of_input show inp" and ?vctx = "from_input inp"
  obtain dc dn where d: "d = DirIfStatement dc dn" "list_all2 (\<lambda>x y. lower_comparison S allowed x = Inr y) condition dc"
    and n: "(case nested of None \<Rightarrow> Inr None
               | Some n \<Rightarrow> and_then (collect_results (map (lower_if_statement S allowed) n)) (\<lambda>ns. Inr (Some ns))) = Inr dn"
    using "1.prems"(1) by (auto simp: and_then_eq_Inr collect_results_map_rel)
  obtain vc vn where v: "v = ValuedIfStatement vc vn" "list_all2 (\<lambda>x y. lower_dir_comparison x = Inr y) dc vc"
    and n2: "(case dn of None \<Rightarrow> Inr None
               | Some n \<Rightarrow> and_then (collect_results (map lower_dir_if_statement n)) (\<lambda>ns. Inr (Some ns))) = Inr vn"
    using "1.prems"(2) d(1) by (auto simp: and_then_eq_Inr collect_results_map_rel)
  have "list_all2 (\<lambda>c v. eval_comparison c ?ctx = Inr (vir_eval_comparison v ?vctx)) condition vc"
    by (rule list_all2_compose [OF d(2) v(2)])
      (use "1.prems"(3,4) full comparison_agrees in \<open>auto simp: list_all_iff\<close>)
  then have cond: "eval_if_condition condition ?ctx = Inr (vir_eval_condition vc ?vctx)" by (rule eval_condition_agrees)
  show ?case
  proof (cases nested)
    case None
    with n n2 cond v(1) show ?thesis by auto
  next
    case (Some ns)
    obtain dns where dns: "dn = Some dns" "list_all2 (\<lambda>x y. lower_if_statement S allowed x = Inr y) ns dns"
      using n Some by (auto simp: and_then_eq_Inr collect_results_map_rel)
    obtain vns where vns: "vn = Some vns" "list_all2 (\<lambda>x y. lower_dir_if_statement x = Inr y) dns vns"
      using n2 dns by (auto simp: and_then_eq_Inr collect_results_map_rel)
    have "list_all2 (\<lambda>s v. eval_if_statement s ?ctx = Inr (vir_eval_statement ?vctx v)) ns vns"
    proof (rule list_all2_compose [OF dns(2) vns(2)])
      fix x y z assume x: "x \<in> set ns" and y: "lower_if_statement S allowed x = Inr y" and z: "lower_dir_if_statement y = Inr z"
      have "list_all shared_comparison (if_comparisons x)"
        using "1.prems"(3) Some x by (auto simp: list_all_iff)
      from "1.IH" [OF Some x y z this "1.prems"(4)]
      show "eval_if_statement x ?ctx = Inr (vir_eval_statement ?vctx z)" .
    qed
    from eval_statements_agree [OF this] cond v(1) vns(1) Some show ?thesis by simp
  qed
qed

definition shared_program :: "'o program \<Rightarrow> bool" where
  "shared_program p \<longleftrightarrow> list_all (\<lambda>r. list_all (\<lambda>s. list_all shared_comparison (if_comparisons s)) (rule_statements r)) (rules p)"

lemma rules_agree:
  "list_all2 (\<lambda>r v. eval_rule r ctx = Inr (vir_eval_rule v vctx) \<and> rule_name r = vr_name v
      \<and> rule_connector_selection r = vr_connector_selection v) rs vs \<Longrightarrow>
   eval_rules dflt rs ctx = Inr (case find (\<lambda>r. vir_eval_rule r vctx) vs of
        None \<Rightarrow> \<lparr>out_rule_name = None, out_connector_selection = dflt\<rparr>
      | Some r \<Rightarrow> \<lparr>out_rule_name = Some (vr_name r), out_connector_selection = vr_connector_selection r\<rparr>)"
  by (induction rule: list_all2_induct) auto

text \<open>
  C32. The compiled program and the direct interpreter agree: a program whose comparisons are on keys
  both know, without \<open>/=\<close> on amounts, gives the same rule and output from either, on every input
  that has a payment method, an authentication type and a capture method.
\<close>

theorem interpreters_agree:
  assumes "strum_inverse S show" and "complete_input inp" and "shared_program p"
    and "vir_with_program S allowed p = Inr v"
  shows "interpreter_execute show p inp = Inr (vir_eval_program v (from_input inp))"
proof -
  obtain d where d: "lower_program S allowed p = Inr d" "lower_dir_program d = Inr v"
    using assms(4) by (cases "lower_program S allowed p"; auto simp: vir_with_program_def map_err_def split: sum.splits)
  have r: "list_all2 (\<lambda>x y. lower_rule S allowed x = Inr y) (rules p) (dp_rules d)" "default_selection p = dp_default_selection d"
    using d(1) by (auto simp: lower_program_def and_then_eq_Inr collect_results_map_rel)
  have r2: "list_all2 (\<lambda>x y. lower_dir_rule x = Inr y) (dp_rules d) (vp_rules v)" "dp_default_selection d = vp_default_selection v"
    using d(2) by (auto simp: lower_dir_program_def and_then_eq_Inr collect_results_map_rel map_err_def split: sum.splits)
  have "list_all2 (\<lambda>r v. eval_rule r (context_of_input show inp) = Inr (vir_eval_rule v (from_input inp)) \<and> rule_name r = vr_name v
      \<and> rule_connector_selection r = vr_connector_selection v) (rules p) (vp_rules v)"
  proof (rule list_all2_compose [OF r(1) r2(1)])
    fix x y z assume x: "x \<in> set (rules p)" and y: "lower_rule S allowed x = Inr y" and z: "lower_dir_rule y = Inr z"
    have s1: "list_all2 (\<lambda>s t. lower_if_statement S allowed s = Inr t) (rule_statements x) (dr_statements y)"
      "rule_name x = dr_name y" "rule_connector_selection x = dr_connector_selection y"
      using y by (auto simp: lower_rule_def and_then_eq_Inr collect_results_map_rel)
    have s2: "list_all2 (\<lambda>s t. lower_dir_if_statement s = Inr t) (dr_statements y) (vr_statements z)"
      "dr_name y = vr_name z" "dr_connector_selection y = vr_connector_selection z"
      using z by (auto simp: lower_dir_rule_def and_then_eq_Inr collect_results_map_rel)
    have "list_all2 (\<lambda>s v. eval_if_statement s (context_of_input show inp) = Inr (vir_eval_statement (from_input inp) v))
        (rule_statements x) (vr_statements z)"
      by (rule list_all2_compose [OF s1(1) s2(1)])
        (use assms(1-3) x statement_agrees in \<open>auto simp: shared_program_def list_all_iff\<close>)
    from eval_statements_agree [OF this] s1 s2
    show "eval_rule x (context_of_input show inp) = Inr (vir_eval_rule z (from_input inp)) \<and> rule_name x = vr_name z
      \<and> rule_connector_selection x = vr_connector_selection z"
      by (simp add: eval_rule_def vir_eval_rule_def)
  qed
  from rules_agree [OF this, of "vp_default_selection v"] show ?thesis
    by (simp add: interpreter_execute_def eval_program_def vir_eval_program_def r(2) r2(2))
qed

text \<open>A parser that inverts a printer, by search among the variants.\<close>

definition parser_of :: "('e \<Rightarrow> dir_value) \<Rightarrow> ('e \<Rightarrow> string) \<Rightarrow> 'e list \<Rightarrow> string \<Rightarrow> dir_value option" where
  "parser_of mk display variants s = map_option mk (find (\<lambda>a. display a = s) variants)"

lemma parser_of_inverts:
  assumes "inj display" and "set variants = UNIV"
  shows "parses_display (parser_of mk display variants) mk display"
proof -
  have "find (\<lambda>a. display a = s) variants = Some a \<longleftrightarrow> display a = s" for s a
  proof
    assume a: "display a = s"
    have "find (\<lambda>a. display a = s) variants \<noteq> None" using a assms(2) by (auto simp: find_None_iff)
    then obtain b where b: "find (\<lambda>a. display a = s) variants = Some b" by blast
    then have "display b = s" by (auto simp: find_Some_iff)
    with a b assms(1) show "find (\<lambda>a. display a = s) variants = Some a" by (auto dest: injD)
  qed (auto simp: find_Some_iff)
  then show ?thesis by (auto simp: parses_display_def parser_of_def)
qed

definition example_display :: enum_display where
  "example_display =
     \<lparr>show_payment_method = (\<lambda>pm. case pm of
        PaymentMethod_Card \<Rightarrow> ''card'' | PaymentMethod_CardRedirect \<Rightarrow> ''card_redirect''
      | PaymentMethod_PayLater \<Rightarrow> ''pay_later'' | PaymentMethod_Wallet \<Rightarrow> ''wallet''
      | PaymentMethod_BankRedirect \<Rightarrow> ''bank_redirect'' | PaymentMethod_BankTransfer \<Rightarrow> ''bank_transfer''
      | PaymentMethod_Crypto \<Rightarrow> ''crypto'' | PaymentMethod_BankDebit \<Rightarrow> ''bank_debit''
      | PaymentMethod_Reward \<Rightarrow> ''reward'' | PaymentMethod_RealTimePayment \<Rightarrow> ''real_time_payment''
      | PaymentMethod_Upi \<Rightarrow> ''upi'' | PaymentMethod_Voucher \<Rightarrow> ''voucher'' | PaymentMethod_GiftCard \<Rightarrow> ''gift_card''
      | PaymentMethod_OpenBanking \<Rightarrow> ''open_banking'' | PaymentMethod_MobilePayment \<Rightarrow> ''mobile_payment''
      | PaymentMethod_NetworkToken \<Rightarrow> ''network_token''),
      show_payment_method_type = (\<lambda>_. []),
      show_authentication_type = (\<lambda>a. case a of
        AuthenticationType_ThreeDs \<Rightarrow> ''three_ds'' | AuthenticationType_NoThreeDs \<Rightarrow> ''no_three_ds''),
      show_capture_method = (\<lambda>cm. case cm of
        CaptureMethod_Automatic \<Rightarrow> ''automatic'' | CaptureMethod_Manual \<Rightarrow> ''manual''
      | CaptureMethod_ManualMultiple \<Rightarrow> ''manual_multiple'' | CaptureMethod_Scheduled \<Rightarrow> ''scheduled''
      | CaptureMethod_SequentialAutomatic \<Rightarrow> ''sequential_automatic''),
      show_currency = cur_name\<rparr>"

definition example_parsers :: strum where
  "example_parsers =
     \<lparr>strum_from_str = (\<lambda>k.
        if k = K_PaymentMethod then parser_of D_PaymentMethod (show_payment_method example_display) payment_method_iter
        else if k = K_AuthenticationType
        then parser_of D_AuthenticationType (show_authentication_type example_display) authentication_type_iter
        else if k = K_CaptureMethod
        then parser_of D_CaptureMethod (show_capture_method example_display) capture_method_iter
        else if k = K_PaymentCurrency then parser_of D_PaymentCurrency (show_currency example_display) currency_iter
        else (\<lambda>_. None)),
      strum_variants = (\<lambda>_. [])\<rparr>"

lemma example_parsers_inverse: "strum_inverse example_parsers example_display"
proof -
  have "inj (show_payment_method example_display)"
    by (rule injI, simp add: example_display_def split: payment_method.splits)
  moreover have "inj (show_authentication_type example_display)" "inj (show_capture_method example_display)"
    by (auto simp: inj_def example_display_def split: authentication_type.splits capture_method.splits)
  moreover have "inj (show_currency example_display)"
    by (auto simp: inj_def example_display_def cur_name_inject)
  ultimately show ?thesis
    by (simp add: strum_inverse_def example_parsers_def parser_of_inverts)
qed

definition example_input :: backend_input where
  "example_input =
     \<lparr>in_metadata = None,
      in_payment = \<lparr>in_amount = MinorUnit 250, in_currency = cur ''USD'',
        in_authentication_type = Some AuthenticationType_NoThreeDs, in_card_bin = None, in_extended_card_bin = None,
        in_capture_method = Some CaptureMethod_Automatic, in_business_country = None, in_billing_country = None,
        in_business_label = None, in_setup_future_usage = None, in_transaction_initiator = None,
        in_surcharge_amount = None\<rparr>,
      in_payment_method_input = \<lparr>in_payment_method = Some PaymentMethod_Card, in_payment_method_type = None,
        in_card_network = None, in_card_discovery = None\<rparr>,
      in_acquirer_data = None, in_customer_device_data = None, in_issuer_data = None,
      in_mandate = \<lparr>in_mandate_acceptance_type = None, in_mandate_type = None, in_payment_type = None\<rparr>\<rparr>"

definition example_routing_program :: "string program" where
  "example_routing_program =
     \<lparr>default_selection = ''stripe'',
      rules = [\<lparr>rule_name = ''large cards'', rule_connector_selection = ''adyen'',
        rule_statements = [IfStatement
          [\<lparr>cmp_lhs = ''payment_method'', cmp_comparison = Comparison_Equal, cmp_value = VT_EnumVariant ''card'',
            cmp_metadata = Map.empty\<rparr>]
          (Some [IfStatement
            [\<lparr>cmp_lhs = ''amount'', cmp_comparison = Comparison_GreaterThan, cmp_value = VT_Number (MinorUnit 100),
              cmp_metadata = Map.empty\<rparr>] None])]\<rparr>],
      program_metadata = Map.empty\<rparr>"

lemma example_routing_lowered:
  "vir_with_program example_parsers [K_PaymentMethod, K_PaymentAmount] example_routing_program =
     Inr \<lparr>vp_default_selection = ''stripe'',
       vp_rules = [\<lparr>vr_name = ''large cards'', vr_connector_selection = ''adyen'',
         vr_statements = [ValuedIfStatement
           [\<lparr>vc_values = [EV_PaymentMethod PaymentMethod_Card], vc_logic = Valued_PositiveDisjunction, vc_metadata = Map.empty\<rparr>]
           (Some [ValuedIfStatement
             [\<lparr>vc_values = [EV_PaymentAmount \<lparr>num_number = MinorUnit 100, num_refinement = Some Refinement_GreaterThan\<rparr>],
               vc_logic = Valued_PositiveDisjunction, vc_metadata = Map.empty\<rparr>] None])]\<rparr>],
       vp_metadata = Map.empty\<rparr>"
  by (simp add: vir_with_program_def map_err_def lower_program_def lower_rule_def example_routing_program_def
      lower_comparison_def lower_comparison_inner_def key_names is_key_allowed_def comparison_type_error_def
      lower_enum_def parse_variant_def example_parsers_def parser_of_def payment_method_iter_def example_display_def
      lower_number_def lower_dir_program_def lower_dir_rule_def lower_dir_comparison_def)

theorem interpreters_agree_witness:
  "interpreter_execute example_display example_routing_program example_input =
     Inr \<lparr>out_rule_name = Some ''large cards'', out_connector_selection = ''adyen''\<rparr>"
proof -
  have c: "complete_input example_input" by (simp add: complete_input_def example_input_def)
  have s: "shared_program example_routing_program"
    by (simp add: shared_program_def example_routing_program_def shared_comparison_def)
  show ?thesis
    by (subst interpreters_agree [OF example_parsers_inverse c s example_routing_lowered])
      (simp add: vir_eval_program_def vir_eval_rule_def vir_eval_condition_def vir_eval_comparison_def
        vir_presence_enum vir_presence_amount example_input_def stands_for_def comparison_holds_def less_minor_unit_def)
qed

text \<open>
  C39. The compiled program inverts \<open>/=\<close> on amounts. The comparison \<open>amount /= n\<close> is lowered to the
  negation of the value that already stands for the amounts other than \<open>n\<close>: the direct interpreter
  lets it hold for the amounts other than \<open>n\<close>, the compiled program for \<open>n\<close> alone.
\<close>

theorem amount_not_equal_inverted:
  assumes "is_key_allowed allowed K_PaymentAmount"
    and "c = \<lparr>cmp_lhs = ''amount'', cmp_comparison = Comparison_NotEqual, cmp_value = VT_Number n, cmp_metadata = m\<rparr>"
  shows "eval_comparison c (context_of_input show inp) = Inr (in_amount (in_payment inp) \<noteq> n)
    \<and> (\<exists>d v. lower_comparison S allowed c = Inr d \<and> lower_dir_comparison d = Inr v
        \<and> vir_eval_comparison v (from_input inp) = (in_amount (in_payment inp) = n))"
  using assms
  by (simp add: eval_comparison_def context_names lower_comparison_def lower_comparison_inner_def key_names
      comparison_type_error_def lower_number_def lower_dir_comparison_def vir_eval_comparison_def
      vir_presence_amount stands_for_def comparison_holds_def)

theorem amount_not_equal_inverted_witness:
  "eval_comparison \<lparr>cmp_lhs = ''amount'', cmp_comparison = Comparison_NotEqual, cmp_value = VT_Number (MinorUnit 250),
       cmp_metadata = Map.empty\<rparr> (context_of_input example_display example_input) = Inr False"
  by (subst amount_not_equal_inverted [where allowed = "[K_PaymentAmount]", OF _ refl, THEN conjunct1])
    (simp_all add: is_key_allowed_def example_input_def)

text \<open>
  No value on the fraud rate of the acquirer is ever found present by the compiled program, whatever
  the input: the value has no number to compare and the rate of the input is not part of the context.
  So a comparison \<open>=\<close>, \<open><\<close>, \<open>>\<close>, \<open><=\<close> or \<open>>=\<close> on it never holds and \<open>/=\<close> always does. A surcharge that
  is absent is read as zero.
\<close>

theorem acquirer_fraud_rate_never_matches:
  "\<not> vir_check_presence (from_input inp) (EV_AcquirerFraudRate v)
   \<and> vir_check_presence (from_input inp) (EV_SurchargeAmount w) =
       stands_for w (case in_surcharge_amount (in_payment inp) of None \<Rightarrow> minor_unit_zero | Some a \<Rightarrow> a)"
  by (simp add: vir_check_presence_def from_input_def euclid_get_num_value_def number_matches_stands_for)

end
