(* ===== verification/Euclid_Graph.thy ===== *)
theory Euclid_Graph
  imports Euclid_Analysis Euclid_Vir Cgraph_Sat
begin

text \<open>
  The analyses of a context against a knowledge graph, \<open>euclid/src/dssa/graph.rs\<close>, and the analysis of
  whole programs, \<open>analyze\<close> of \<open>euclid/src/dssa/analyzer.rs\<close>. The asserted values of a context, by key,
  are the context in which the constraint graph of \<open>Cgraph_Check\<close> is checked. A result is an
  option because the checker runs on fuel; that it is never \<open>None\<close> is proved.
\<close>

subsection \<open>The checking context\<close>

record analysis_context =
  keywise_values :: "(dir_key \<times> dir_value list) list"

definition analysis_insert :: "dir_value \<Rightarrow> analysis_context \<Rightarrow> analysis_context" where
  "analysis_insert v ctx =
     ctx\<lparr>keywise_values := entry_or_default (dir_get_key v) (List.insert v) (keywise_values ctx)\<rparr>"

definition from_dir_values :: "dir_value list \<Rightarrow> analysis_context" where
  "from_dir_values vals = foldl (\<lambda>ctx v. analysis_insert v ctx) \<lparr>keywise_values = []\<rparr> vals"

definition analysis_remove :: "dir_value \<Rightarrow> analysis_context \<Rightarrow> analysis_context" where
  "analysis_remove v ctx =
     (let m = entry_or_default (dir_get_key v) (removeAll v) (keywise_values ctx)
      in if map_of m (dir_get_key v) = Some [] then ctx\<lparr>keywise_values := filter (\<lambda>kv. fst kv \<noteq> dir_get_key v) m\<rparr>
         else ctx\<lparr>keywise_values := m\<rparr>)"

definition number_fits :: "dir_value \<Rightarrow> dir_value list \<Rightarrow> bool" where
  "number_fits val value_set =
     (case dir_get_num_value val of
        None \<Rightarrow> False
      | Some num_val \<Rightarrow>
          list_ex (\<lambda>ctx_val. case dir_get_num_value ctx_val of None \<Rightarrow> False | Some ctx_num_val \<Rightarrow> fits num_val ctx_num_val)
            value_set)"

definition analysis_check_presence ::
  "analysis_context \<Rightarrow> (dir_value, dir_key) node_value \<Rightarrow> strength \<Rightarrow> bool" where
  "analysis_check_presence ctx value strength =
     (case value of
        KeyOf k \<Rightarrow> map_of (keywise_values ctx) k \<noteq> None \<or> strength = Weak
      | ValueOf val \<Rightarrow>
          let key = dir_get_key val
          in case map_of (keywise_values ctx) key of
               None \<Rightarrow> strength = Weak
             | Some value_set \<Rightarrow>
                 (case dir_key_get_type (dk_kind key) of
                    DataType_EnumVariant \<Rightarrow> val \<in> set value_set
                  | DataType_StrValue \<Rightarrow> val \<in> set value_set
                  | DataType_MetadataValue \<Rightarrow> val \<in> set value_set
                  | DataType_Number \<Rightarrow> number_fits val value_set))"

definition analysis_get_values_by_key :: "hash_order \<Rightarrow> analysis_context \<Rightarrow> dir_key \<Rightarrow> dir_value list option" where
  "analysis_get_values_by_key ho ctx key = map_option (iter_set ho) (map_of (keywise_values ctx) key)"

definition as_checking_context :: "hash_order \<Rightarrow> analysis_context \<Rightarrow> (dir_value, dir_key) checking_context" where
  "as_checking_context ho ctx =
     \<lparr>check_presence = analysis_check_presence ctx, get_values_by_key = analysis_get_values_by_key ho ctx\<rparr>"

subsection \<open>Analyses\<close>

type_synonym dir_check_state = "(dir_value, dir_key, dyn_metadata) check_state"

type_synonym ('e, 'a) dir_result = "(('e + 'a) \<times> dir_check_state) option"

definition key_analysis ::
  "hash_order \<Rightarrow> dir_graph \<Rightarrow> dir_key \<Rightarrow> analysis_context \<Rightarrow> string list option \<Rightarrow> dir_check_state
   \<Rightarrow> (dir_graph_error, unit) dir_result" where
  "key_analysis ho g key ctx domains st =
     (case value_map g (KeyOf key) of
        None \<Rightarrow> Some (Inr (), st)
      | Some node_id \<Rightarrow> check_node dir_get_key g (as_checking_context ho ctx) node_id Positive Strong domains st)"

definition value_analysis ::
  "hash_order \<Rightarrow> dir_graph \<Rightarrow> dir_value \<Rightarrow> analysis_context \<Rightarrow> string list option \<Rightarrow> dir_check_state
   \<Rightarrow> (dir_graph_error, unit) dir_result" where
  "value_analysis ho g val ctx domains st =
     (case value_map g (ValueOf val) of
        None \<Rightarrow> Some (Inr (), st)
      | Some node_id \<Rightarrow> check_node dir_get_key g (as_checking_context ho ctx) node_id Positive Strong domains st)"

definition check_value_validity ::
  "hash_order \<Rightarrow> dir_graph \<Rightarrow> dir_value \<Rightarrow> analysis_context \<Rightarrow> string list option \<Rightarrow> dir_check_state
   \<Rightarrow> (dir_graph_error, bool) dir_result" where
  "check_value_validity ho g val ctx domains st =
     (case value_map g (ValueOf val) of
        None \<Rightarrow> Some (Inr False, st)
      | Some node_id \<Rightarrow>
          (case check_node dir_get_key g (as_checking_context ho ctx) node_id Positive Weak domains st of
             None \<Rightarrow> None
           | Some (Inr _, st') \<Rightarrow> Some (Inr True, st')
           | Some (Inl e, st') \<Rightarrow> Some (and_then (get_analysis_trace e) (\<lambda>_. Inr False), st')))"

definition key_value_analysis ::
  "hash_order \<Rightarrow> dir_graph \<Rightarrow> dir_value \<Rightarrow> analysis_context \<Rightarrow> string list option \<Rightarrow> dir_check_state
   \<Rightarrow> (dir_graph_error, unit) dir_result" where
  "key_value_analysis ho g val ctx domains st =
     (case key_analysis ho g (dir_get_key val) ctx domains st of
        None \<Rightarrow> None
      | Some (Inl e, st') \<Rightarrow> Some (Inl e, st')
      | Some (Inr _, st') \<Rightarrow> value_analysis ho g val ctx domains st')"

definition assertion_from_graph_error :: "metadata \<Rightarrow> dir_graph_error \<Rightarrow> graph_analysis_error" where
  "assertion_from_graph_error md e =
     (case e of AnalysisError trace \<Rightarrow> AssertionTrace trace md | _ \<Rightarrow> GraphFailure e)"

definition negation_from_graph_error :: "metadata list \<Rightarrow> dir_graph_error \<Rightarrow> graph_analysis_error" where
  "negation_from_graph_error mds e =
     (case e of AnalysisError trace \<Rightarrow> NegationTrace trace mds | _ \<Rightarrow> GraphFailure e)"

fun assertion_analysis ::
  "hash_order \<Rightarrow> dir_graph \<Rightarrow> (dir_value \<times> metadata) list \<Rightarrow> analysis_context \<Rightarrow> string list option \<Rightarrow> dir_check_state
   \<Rightarrow> (graph_analysis_error, unit) dir_result" where
  "assertion_analysis ho g [] ctx domains st = Some (Inr (), st)"
| "assertion_analysis ho g ((value, md) # positive_ctx) ctx domains st =
     (case key_value_analysis ho g value ctx domains st of
        None \<Rightarrow> None
      | Some (Inl e, st') \<Rightarrow> Some (Inl (assertion_from_graph_error md e), st')
      | Some (Inr _, st') \<Rightarrow> assertion_analysis ho g positive_ctx ctx domains st')"

definition collect_negation ::
  "(dir_key \<times> metadata list) list \<times> (dir_key \<times> dir_value list) list \<Rightarrow> dir_value list \<times> metadata
   \<Rightarrow> (dir_key \<times> metadata list) list \<times> (dir_key \<times> dir_value list) list" where
  "collect_negation t entry =
     (case (t, entry) of ((keywise_metadata, keywise_negation), (values, md)) \<Rightarrow>
        (case values of
           [] \<Rightarrow> keywise_metadata
         | dir_value # _ \<Rightarrow> entry_or_default (dir_get_key dir_value) (\<lambda>mds. mds @ [md]) keywise_metadata,
         foldl (\<lambda>m dir_value. entry_or_default (dir_get_key dir_value) (List.insert dir_value) m) keywise_negation values))"

fun negation_values ::
  "hash_order \<Rightarrow> dir_graph \<Rightarrow> metadata list \<Rightarrow> dir_value list \<Rightarrow> analysis_context \<Rightarrow> string list option \<Rightarrow> dir_check_state
   \<Rightarrow> ((graph_analysis_error + unit) \<times> analysis_context \<times> dir_check_state) option" where
  "negation_values ho g all_metadata [] ctx domains st = Some (Inr (), ctx, st)"
| "negation_values ho g all_metadata (value # value_set) ctx domains st =
     (let ctx' = analysis_insert value ctx
      in case value_analysis ho g value ctx' domains st of
           None \<Rightarrow> None
         | Some (Inl e, st') \<Rightarrow> Some (Inl (negation_from_graph_error all_metadata e), ctx', st')
         | Some (Inr _, st') \<Rightarrow> negation_values ho g all_metadata value_set (analysis_remove value ctx') domains st')"

fun negation_loop ::
  "hash_order \<Rightarrow> dir_graph \<Rightarrow> (dir_key \<times> metadata list) list \<Rightarrow> (dir_key \<times> dir_value list) list \<Rightarrow> analysis_context
   \<Rightarrow> string list option \<Rightarrow> dir_check_state
   \<Rightarrow> ((graph_analysis_error + unit) \<times> analysis_context \<times> dir_check_state) option" where
  "negation_loop ho g keywise_metadata [] ctx domains st = Some (Inr (), ctx, st)"
| "negation_loop ho g keywise_metadata ((key, negation_set) # rest) ctx domains st =
     (let all_metadata = (case map_of keywise_metadata key of None \<Rightarrow> [] | Some mds \<Rightarrow> mds);
          keywise_metadata' = filter (\<lambda>kv. fst kv \<noteq> key) keywise_metadata;
          first_metadata = unwrap_or_default (vec_get all_metadata 0)
      in case key_analysis ho g key ctx domains st of
           None \<Rightarrow> None
         | Some (Inl e, st') \<Rightarrow> Some (Inl (assertion_from_graph_error first_metadata e), ctx, st')
         | Some (Inr _, st') \<Rightarrow>
             (case get_value_set (dk_kind key) of
                None \<Rightarrow> negation_loop ho g keywise_metadata' rest ctx domains st'
              | Some value_set \<Rightarrow>
                  (case negation_values ho g all_metadata (filter (\<lambda>v. v \<notin> set negation_set) value_set) ctx domains st' of
                     None \<Rightarrow> None
                   | Some (Inl e, ctx', st'') \<Rightarrow> Some (Inl e, ctx', st'')
                   | Some (Inr _, ctx', st'') \<Rightarrow> negation_loop ho g keywise_metadata' rest ctx' domains st'')))"

definition negation_analysis ::
  "hash_order \<Rightarrow> dir_graph \<Rightarrow> (dir_value list \<times> metadata) list \<Rightarrow> analysis_context \<Rightarrow> string list option \<Rightarrow> dir_check_state
   \<Rightarrow> ((graph_analysis_error + unit) \<times> analysis_context \<times> dir_check_state) option" where
  "negation_analysis ho g negative_ctx ctx domains st =
     (let (keywise_metadata, keywise_negation) = foldl collect_negation ([], []) negative_ctx
      in negation_loop ho g keywise_metadata (iter_map ho keywise_negation) ctx domains st)"

definition positive_values :: "conjunctive_context \<Rightarrow> (dir_value \<times> metadata) list" where
  "positive_values ctx =
     List.map_filter (\<lambda>cv. map_option (\<lambda>v. (v, cv_metadata cv)) (get_assertion (cv_value cv))) ctx"

definition negative_values :: "conjunctive_context \<Rightarrow> (dir_value list \<times> metadata) list" where
  "negative_values ctx =
     List.map_filter (\<lambda>cv. map_option (\<lambda>vs. (vs, cv_metadata cv)) (get_negation (cv_value cv))) ctx"

definition perform_context_analysis ::
  "hash_order \<Rightarrow> dir_graph \<Rightarrow> conjunctive_context \<Rightarrow> dir_memo \<Rightarrow> string list option
   \<Rightarrow> ((graph_analysis_error + unit) \<times> dir_memo) option" where
  "perform_context_analysis ho g ctx memo_table domains =
     (let analysis_ctx = from_dir_values (List.map_filter (\<lambda>cv. get_assertion (cv_value cv)) ctx)
      in case assertion_analysis ho g (positive_values ctx) analysis_ctx domains
                \<lparr>memo = memo_table, cycle_map = cycle_new\<rparr> of
           None \<Rightarrow> None
         | Some (Inl e, st) \<Rightarrow> Some (Inl e, memo st)
         | Some (Inr _, st) \<Rightarrow>
             (case negation_analysis ho g (negative_values ctx) analysis_ctx domains
                     \<lparr>memo = memo st, cycle_map = cycle_new\<rparr> of
                None \<Rightarrow> None
              | Some (res, _, st') \<Rightarrow> Some (res, memo st')))"

subsection \<open>Programs\<close>

definition perform_context_analyses ::
  "hash_order \<Rightarrow> dir_graph \<Rightarrow> conjunctive_context \<Rightarrow> (analysis_error + unit) option" where
  "perform_context_analyses ho g context =
     (case perform_condition_analyses ho context of
        Inl e \<Rightarrow> Some (Inl e)
      | Inr _ \<Rightarrow>
          map_option (\<lambda>(res, memo). map_err (\<lambda>err. \<lparr>ae_error_type = GraphAnalysis err memo, ae_metadata = Map.empty\<rparr>) res)
            (perform_context_analysis ho g context memo_new None))"

text \<open>
  The analysis of a program. The graph used when the caller gives none, the instance of the output
  type and the derived parsers are arguments.
\<close>

definition analyze ::
  "strum \<Rightarrow> hash_order \<Rightarrow> dir_graph \<Rightarrow> ('o \<Rightarrow> string \<Rightarrow> (dir_value \<times> metadata) list) \<Rightarrow> dir_key_kind list
   \<Rightarrow> 'o program \<Rightarrow> dir_graph option \<Rightarrow> (analysis_error + 'o valued_program) option" where
  "analyze S ho default_graph get_dir_value_for_analysis allowed p knowledge_graph =
     (case lower_program S allowed p of
        Inl e \<Rightarrow> Some (Inl e)
      | Inr dir_program \<Rightarrow>
          let selection_data = make_connector_selection_data get_dir_value_for_analysis dir_program;
              graph = (case knowledge_graph of None \<Rightarrow> default_graph | Some g \<Rightarrow> g)
          in case for_each acm_advance
                    (\<lambda>err. \<lparr>ae_error_type = StateMachineFailure err, ae_metadata = Map.empty\<rparr>)
                    (perform_context_analyses ho graph)
                    (acm_new dir_program selection_data) of
               None \<Rightarrow> None
             | Some (Inl e) \<Rightarrow> Some (Inl e)
             | Some (Inr _) \<Rightarrow> Some (lower_dir_program dir_program))"

subsection \<open>The analyses return\<close>

lemma key_analysis_returns: "\<exists>res st'. key_analysis ho g k ctx ds st = Some (res, st')"
  using check_node_total by (auto simp: key_analysis_def split: option.split)

lemma value_analysis_returns: "\<exists>res st'. value_analysis ho g v ctx ds st = Some (res, st')"
  using check_node_total by (auto simp: value_analysis_def split: option.split)

lemma key_value_analysis_returns: "\<exists>res st'. key_value_analysis ho g v ctx ds st = Some (res, st')"
proof -
  obtain res st' where r: "key_analysis ho g (dir_get_key v) ctx ds st = Some (res, st')"
    using key_analysis_returns by blast
  show ?thesis using value_analysis_returns by (cases res) (simp_all add: key_value_analysis_def r)
qed

lemma assertion_analysis_returns: "\<exists>res st'. assertion_analysis ho g vs ctx ds st = Some (res, st')"
proof (induction vs arbitrary: st)
  case (Cons v vs)
  obtain res st' where "key_value_analysis ho g (fst v) ctx ds st = Some (res, st')"
    using key_value_analysis_returns by blast
  with Cons.IH [of st'] show ?case by (cases v; cases res) simp_all
qed simp

lemma negation_values_returns: "\<exists>r. negation_values ho g mds vs ctx ds st = Some r"
proof (induction vs arbitrary: ctx st)
  case (Cons v vs)
  obtain res st' where "value_analysis ho g v (analysis_insert v ctx) ds st = Some (res, st')"
    using value_analysis_returns by blast
  with Cons.IH show ?case by (cases res) (simp_all add: Let_def)
qed simp

lemma negation_loop_returns: "\<exists>r. negation_loop ho g km kn ctx ds st = Some r"
proof (induction kn arbitrary: km ctx st)
  case (Cons kv kn)
  obtain k ns where kv: "kv = (k, ns)" by (cases kv)
  obtain res st' where r: "key_analysis ho g k ctx ds st = Some (res, st')" using key_analysis_returns by blast
  show ?case
  proof (cases "get_value_set (dk_kind k)")
    case None
    with r kv Cons.IH show ?thesis by (cases res) (simp_all add: Let_def)
  next
    case (Some vs)
    obtain res' ctx' st'' where
      "negation_values ho g (case map_of km k of None \<Rightarrow> [] | Some mds \<Rightarrow> mds) (filter (\<lambda>v. v \<notin> set ns) vs) ctx ds st' = Some (res', ctx', st'')"
      using negation_values_returns by (metis prod_cases3)
    with Some r kv Cons.IH show ?thesis by (cases res; cases res') (simp_all add: Let_def)
  qed
qed simp

lemma perform_context_analysis_returns: "\<exists>res m. perform_context_analysis ho g ctx mt ds = Some (res, m)"
proof -
  let ?actx = "from_dir_values (List.map_filter (\<lambda>cv. get_assertion (cv_value cv)) ctx)"
  obtain res st where a: "assertion_analysis ho g (positive_values ctx) ?actx ds \<lparr>memo = mt, cycle_map = cycle_new\<rparr> = Some (res, st)"
    using assertion_analysis_returns by blast
  obtain res' ctx' st' where n: "negation_analysis ho g (negative_values ctx) ?actx ds \<lparr>memo = memo st, cycle_map = cycle_new\<rparr> = Some (res', ctx', st')"
    unfolding negation_analysis_def using negation_loop_returns by (metis (no_types, lifting) case_prod_beta prod_cases3)
  show ?thesis by (cases res) (simp_all add: perform_context_analysis_def a n Let_def)
qed

lemma perform_context_analyses_returns: "\<exists>res. perform_context_analyses ho g ctx = Some res"
  using perform_context_analysis_returns [of ho g ctx memo_new None]
  by (auto simp: perform_context_analyses_def split: sum.split)

lemma analyze_eq:
  "analyze S ho default_graph get_values allowed p kg =
     Some (case lower_program S allowed p of
             Inl e \<Rightarrow> Inl e
           | Inr d \<Rightarrow>
               let out = program_outcome d (make_connector_selection_data get_values d);
                   graph = (case kg of None \<Rightarrow> default_graph | Some g \<Rightarrow> g)
               in case collect_results (map (\<lambda>c. the (perform_context_analyses ho graph c)) (fst out)) of
                    Inl e \<Rightarrow> Inl e
                  | Inr us \<Rightarrow>
                      (case snd out of
                         Some err \<Rightarrow> Inl \<lparr>ae_error_type = StateMachineFailure err, ae_metadata = Map.empty\<rparr>
                       | None \<Rightarrow> lower_dir_program d))"
proof (cases "lower_program S allowed p")
  case (Inr d)
  let ?out = "program_outcome d (make_connector_selection_data get_values d)"
  let ?graph = "case kg of None \<Rightarrow> default_graph | Some g \<Rightarrow> g"
  have body: "perform_context_analyses ho ?graph = (\<lambda>c. Some (the (perform_context_analyses ho ?graph c)))"
    by (rule ext) (metis option.sel perform_context_analyses_returns)
  have "for_each acm_advance conv (perform_context_analyses ho ?graph) (acm_new d (make_connector_selection_data get_values d)) =
      Some (case collect_results (map (\<lambda>c. the (perform_context_analyses ho ?graph c)) (fst ?out)) of
             Inl x \<Rightarrow> Inl x
           | Inr us \<Rightarrow> (case snd ?out of None \<Rightarrow> Inr () | Some e \<Rightarrow> Inl (conv e)))" for conv
    by (subst body) (rule for_each_runs [OF program_manager_runs])
  with Inr show ?thesis by (auto simp: analyze_def Let_def split: sum.splits option.splits)
qed (simp add: analyze_def)

text \<open>
  C16. The analysis of a program always returns, and its result is determined by the contexts of the
  program: the first error among lowering, the analyses of the contexts in order and the end of
  the enumeration, or else the program lowered a second time.
\<close>

theorem analyze_returns:
  "analyze S ho default_graph get_values allowed p kg =
     Some (case lower_program S allowed p of
             Inl e \<Rightarrow> Inl e
           | Inr d \<Rightarrow>
               let out = program_outcome d (make_connector_selection_data get_values d);
                   graph = (case kg of None \<Rightarrow> default_graph | Some g \<Rightarrow> g)
               in case collect_results (map (\<lambda>c. the (perform_context_analyses ho graph c)) (fst out)) of
                    Inl e \<Rightarrow> Inl e
                  | Inr us \<Rightarrow>
                      (case snd out of
                         Some err \<Rightarrow> Inl \<lparr>ae_error_type = StateMachineFailure err, ae_metadata = Map.empty\<rparr>
                       | None \<Rightarrow> lower_dir_program d))"
  by (rule analyze_eq)

subsection \<open>The checking context\<close>

lemma map_of_without: "map_of (filter (\<lambda>kv. fst kv \<noteq> k) m) = (map_of m)(k := None)"
  by (induction m) (auto simp: fun_eq_iff)

text \<open>
  The entries of a context are the non-empty sets of its values by key.
\<close>

definition context_of_values :: "analysis_context \<Rightarrow> dir_value set \<Rightarrow> bool" where
  "context_of_values ctx V \<longleftrightarrow>
     (\<forall>k. case map_of (keywise_values ctx) k of
            None \<Rightarrow> {v \<in> V. dir_get_key v = k} = {}
          | Some vs \<Rightarrow> vs \<noteq> [] \<and> set vs = {v \<in> V. dir_get_key v = k})"

lemma insert_context:
  assumes "context_of_values ctx V"
  shows "context_of_values (analysis_insert v ctx) (insert v V)"
  unfolding context_of_values_def
proof
  fix k
  note at = assms [unfolded context_of_values_def, rule_format, of k]
  show "case map_of (keywise_values (analysis_insert v ctx)) k of
      None \<Rightarrow> {w \<in> insert v V. dir_get_key w = k} = {}
    | Some vs \<Rightarrow> vs \<noteq> [] \<and> set vs = {w \<in> insert v V. dir_get_key w = k}"
  proof (cases "k = dir_get_key v")
    case True
    with at show ?thesis
      by (cases "map_of (keywise_values ctx) k") (auto simp: analysis_insert_def map_of_entry List.insert_def)
  next
    case False
    with at show ?thesis
      by (cases "map_of (keywise_values ctx) k") (auto simp: analysis_insert_def map_of_entry)
  qed
qed

lemma from_dir_values_context: "context_of_values (from_dir_values vs) (set vs)"
proof -
  have "context_of_values ctx V \<Longrightarrow> context_of_values (foldl (\<lambda>ctx v. analysis_insert v ctx) ctx vs) (V \<union> set vs)" for ctx V
  proof (induction vs arbitrary: ctx V)
    case (Cons v vs)
    from Cons.IH [OF insert_context [OF Cons.prems, of v]] show ?case by simp
  qed simp
  from this [of "\<lparr>keywise_values = []\<rparr>" "{}"] show ?thesis
    by (simp add: from_dir_values_def context_of_values_def)
qed

lemma remove_inserted:
  assumes "context_of_values ctx V" and "v \<notin> V"
  shows "map_of (keywise_values (analysis_remove v (analysis_insert v ctx))) = map_of (keywise_values ctx)"
proof -
  let ?k = "dir_get_key v"
  note at = assms(1) [unfolded context_of_values_def, rule_format, of ?k]
  show ?thesis
  proof (cases "map_of (keywise_values ctx) ?k")
    case None
    then show ?thesis
      by (simp add: analysis_remove_def analysis_insert_def map_of_entry map_of_without Let_def fun_upd_idem)
  next
    case (Some vs)
    with at assms(2) have "v \<notin> set vs" "vs \<noteq> []" by auto
    with Some show ?thesis
      by (simp add: analysis_remove_def analysis_insert_def map_of_entry Let_def fun_upd_idem)
  qed
qed

text \<open>
  C21. Inserting a value that is not in the context and removing it again leaves every entry of the
  context as it was, so the values tried for a negated key do not stay behind.
\<close>

theorem analysis_insert_remove:
  assumes "v \<notin> set vs"
  shows "map_of (keywise_values (analysis_remove v (analysis_insert v (from_dir_values vs)))) =
    map_of (keywise_values (from_dir_values vs))"
  by (rule remove_inserted [OF from_dir_values_context assms])

theorem analysis_insert_remove_witness:
  "map_of (keywise_values (analysis_remove (D_CardType CardType_Debit)
      (analysis_insert (D_CardType CardType_Debit) (from_dir_values [D_CardType CardType_Credit])))) =
    map_of (keywise_values (from_dir_values [D_CardType CardType_Credit]))"
  by (rule analysis_insert_remove) simp

lemma presence_of_key:
  assumes "context_of_values ctx V"
  shows "analysis_check_presence ctx (KeyOf k) s \<longleftrightarrow> (\<exists>v \<in> V. dir_get_key v = k) \<or> s = Weak"
proof -
  note at = assms [unfolded context_of_values_def, rule_format, of k]
  have "map_of (keywise_values ctx) k \<noteq> None \<longleftrightarrow> (\<exists>v \<in> V. dir_get_key v = k)"
  proof (cases "map_of (keywise_values ctx) k")
    case (Some vs)
    with at have vs: "vs \<noteq> []" "set vs = {v \<in> V. dir_get_key v = k}" by simp_all
    have "hd vs \<in> {v \<in> V. dir_get_key v = k}" using hd_in_set [OF vs(1)] unfolding vs(2) .
    with Some show ?thesis by blast
  next
    case None
    with at have "{v \<in> V. dir_get_key v = k} = {}" by simp
    with None show ?thesis by blast
  qed
  then show ?thesis by (simp add: analysis_check_presence_def)
qed

subsection \<open>Assertions\<close>

definition node_accepts :: "hash_order \<Rightarrow> dir_graph \<Rightarrow> analysis_context \<Rightarrow> (dir_value, dir_key) node_value \<Rightarrow> bool" where
  "node_accepts ho g ctx nv \<longleftrightarrow>
     (\<forall>n. value_map g nv = Some n \<longrightarrow> satisfied dir_get_key g (as_checking_context ho ctx) None n Positive Strong)"

abbreviation dir_wf_memo :: "hash_order \<Rightarrow> dir_graph \<Rightarrow> analysis_context \<Rightarrow> dir_check_state \<Rightarrow> bool" where
  "dir_wf_memo ho g ctx st \<equiv> wf_memo dir_get_key g (as_checking_context ho ctx) None st"

lemma value_map_node:
  assumes "builder_reachable get_key b" and "value_map (build b) nv = Some n"
  shows "\<exists>nd. get_node (nodes (build b)) n = Some nd \<and> node_type nd = ValueNode nv"
  using assms build_inv [OF reachable_inv [OF assms(1)]] by (auto simp: graph_inv_def value_index_ok_def)

lemma answers_Inr: "answers P res \<Longrightarrow> res = Inr () \<longleftrightarrow> P"
  by (cases res) (auto simp: answers_def)

lemma node_analysis:
  assumes "builder_reachable dir_get_key b" and "acyclic_by rank (build b)" and "dir_wf_memo ho (build b) ctx st"
  shows "\<exists>res st'. (case value_map (build b) nv of
        None \<Rightarrow> Some (Inr (), st)
      | Some n \<Rightarrow> check_node dir_get_key (build b) (as_checking_context ho ctx) n Positive Strong None st) = Some (res, st')
    \<and> (res = Inr () \<longleftrightarrow> node_accepts ho (build b) ctx nv) \<and> dir_wf_memo ho (build b) ctx st'"
proof (cases "value_map (build b) nv")
  case None
  with assms show ?thesis by (simp add: node_accepts_def)
next
  case (Some n)
  obtain nd where nd: "get_node (nodes (build b)) n = Some nd" using value_map_node [OF assms(1) Some] by blast
  have "option_transpose (map_option (resolve_domains (build b)) None) = Inr None" by simp
  from check_node_answers [OF assms(1) refl assms(2) nd this assms(3), of Positive Strong] obtain res st' where
    "check_node dir_get_key (build b) (as_checking_context ho ctx) n Positive Strong None st = Some (res, st')"
    "answers (satisfied dir_get_key (build b) (as_checking_context ho ctx) None n Positive Strong) res"
    "dir_wf_memo ho (build b) ctx st'" by blast
  with Some answers_Inr show ?thesis by (auto simp: node_accepts_def)
qed

lemma key_value_analysis_answers:
  assumes "builder_reachable dir_get_key b" and "acyclic_by rank (build b)" and "dir_wf_memo ho (build b) ctx st"
  shows "\<exists>res st'. key_value_analysis ho (build b) v ctx None st = Some (res, st')
    \<and> (res = Inr () \<longleftrightarrow> node_accepts ho (build b) ctx (KeyOf (dir_get_key v)) \<and> node_accepts ho (build b) ctx (ValueOf v))
    \<and> dir_wf_memo ho (build b) ctx st'"
proof -
  obtain res st' where k: "key_analysis ho (build b) (dir_get_key v) ctx None st = Some (res, st')"
    "res = Inr () \<longleftrightarrow> node_accepts ho (build b) ctx (KeyOf (dir_get_key v))" "dir_wf_memo ho (build b) ctx st'"
    using node_analysis [OF assms, of "KeyOf (dir_get_key v)"] by (auto simp: key_analysis_def)
  show ?thesis
  proof (cases res)
    case (Inl e)
    with k show ?thesis by (simp add: key_value_analysis_def)
  next
    case (Inr u)
    with k node_analysis [OF assms(1,2) k(3), of "ValueOf v"] show ?thesis
      by (auto simp: key_value_analysis_def value_analysis_def)
  qed
qed

lemma assertion_analysis_answers:
  assumes "builder_reachable dir_get_key b" and "acyclic_by rank (build b)" and "dir_wf_memo ho (build b) ctx st"
  shows "\<exists>res st'. assertion_analysis ho (build b) vs ctx None st = Some (res, st')
    \<and> (res = Inr () \<longleftrightarrow> list_all (\<lambda>v. node_accepts ho (build b) ctx (KeyOf (dir_get_key (fst v)))
          \<and> node_accepts ho (build b) ctx (ValueOf (fst v))) vs)
    \<and> dir_wf_memo ho (build b) ctx st'"
  using assms(3)
proof (induction vs arbitrary: st)
  case (Cons v vs)
  obtain x md where v: "v = (x, md)" by (cases v)
  obtain res st' where k: "key_value_analysis ho (build b) x ctx None st = Some (res, st')"
    "res = Inr () \<longleftrightarrow> node_accepts ho (build b) ctx (KeyOf (dir_get_key x)) \<and> node_accepts ho (build b) ctx (ValueOf x)"
    "dir_wf_memo ho (build b) ctx st'"
    using key_value_analysis_answers [OF assms(1,2) Cons.prems, of x] by blast
  show ?case
  proof (cases res)
    case (Inl e)
    with k v show ?thesis by auto
  next
    case (Inr u)
    with k v Cons.IH [OF k(3)] show ?thesis by auto
  qed
qed simp

lemma wf_memo_new: "dir_wf_memo ho g ctx \<lparr>memo = memo_new, cycle_map = cycle_new\<rparr>"
  by (simp add: wf_memo_def memo_agrees_def memo_new_def cycle_new_def)

lemma get_assertion_iff [simp]: "get_assertion c = Some v \<longleftrightarrow> c = Assertion v"
  by (cases c) (auto simp: get_assertion_def)

lemma asserted_values_set:
  "set (List.map_filter (\<lambda>cv. get_assertion (cv_value cv)) ctx) = {v. \<exists>cv \<in> set ctx. cv_value cv = Assertion v}"
  by (simp add: set_map_filter)

lemma positive_values_set: "fst ` set (positive_values ctx) = {v. \<exists>cv \<in> set ctx. cv_value cv = Assertion v}"
proof -
  have "map fst (positive_values ctx) = List.map_filter (\<lambda>cv. get_assertion (cv_value cv)) ctx"
    unfolding positive_values_def by (induction ctx) (auto simp: List.map_filter_simps get_assertion_def split: ctx_value_kind.splits)
  then show ?thesis using asserted_values_set [of ctx] by (metis list.set_map)
qed

definition context_assertions :: "conjunctive_context \<Rightarrow> analysis_context" where
  "context_assertions ctx = from_dir_values (List.map_filter (\<lambda>cv. get_assertion (cv_value cv)) ctx)"

definition no_negations :: "conjunctive_context \<Rightarrow> bool" where
  "no_negations ctx = list_all (\<lambda>cv. get_negation (cv_value cv) = None) ctx"

lemma graph_analysis_answers:
  assumes "builder_reachable dir_get_key b" and "acyclic_by rank (build b)" and "no_negations ctx"
    and "iter_map ho [] = []"
  shows "\<exists>res m. perform_context_analysis ho (build b) ctx memo_new None = Some (res, m)
    \<and> (res = Inr () \<longleftrightarrow>
         (\<forall>cv v. cv \<in> set ctx \<and> cv_value cv = Assertion v \<longrightarrow>
            node_accepts ho (build b) (context_assertions ctx) (KeyOf (dir_get_key v))
            \<and> node_accepts ho (build b) (context_assertions ctx) (ValueOf v)))"
proof -
  let ?acc = "\<lambda>v. node_accepts ho (build b) (context_assertions ctx) (KeyOf (dir_get_key v))
      \<and> node_accepts ho (build b) (context_assertions ctx) (ValueOf v)"
  obtain res st where a: "assertion_analysis ho (build b) (positive_values ctx) (context_assertions ctx) None
        \<lparr>memo = memo_new, cycle_map = cycle_new\<rparr> = Some (res, st)"
    "res = Inr () \<longleftrightarrow> list_all (\<lambda>v. ?acc (fst v)) (positive_values ctx)"
    using assertion_analysis_answers [OF assms(1,2) wf_memo_new [of "build b" ho "context_assertions ctx"]] by blast
  have "List.map_filter (\<lambda>cv. map_option (\<lambda>vs. (vs, cv_metadata cv)) (get_negation (cv_value cv))) ctx = []"
    using assms(3) by (induction ctx) (simp_all add: no_negations_def List.map_filter_simps)
  then have n: "negation_analysis ho (build b) (negative_values ctx) (context_assertions ctx) None st' = Some (Inr (), context_assertions ctx, st')" for st'
    by (simp add: negation_analysis_def negative_values_def assms(4))
  have "list_all (\<lambda>v. ?acc (fst v)) (positive_values ctx) \<longleftrightarrow> (\<forall>v \<in> fst ` set (positive_values ctx). ?acc v)"
    by (simp add: list_all_iff)
  also have "\<dots> \<longleftrightarrow> (\<forall>cv v. cv \<in> set ctx \<and> cv_value cv = Assertion v \<longrightarrow> ?acc v)"
    unfolding positive_values_set by blast
  finally have "res = Inr () \<longleftrightarrow> (\<forall>cv v. cv \<in> set ctx \<and> cv_value cv = Assertion v \<longrightarrow> ?acc v)" using a(2) by simp
  moreover have "\<exists>m. perform_context_analysis ho (build b) ctx memo_new None = Some (res, m)"
    using a(1) n by (cases res) (simp_all add: perform_context_analysis_def context_assertions_def)
  ultimately show ?thesis by blast
qed

text \<open>
  C19. The graph analysis decides contexts without negations: on a graph made by the builder whose edges
  ascend in some ranking it accepts such a context exactly when, for every asserted value, the
  nodes of the value and of its key, where the graph has them, are satisfied by the asserted
  values.
\<close>

theorem graph_analysis_decides:
  assumes "builder_reachable dir_get_key b" and "acyclic_by rank (build b)" and "no_negations ctx"
    and "iter_map ho [] = []"
  shows "\<exists>res m. perform_context_analysis ho (build b) ctx memo_new None = Some (res, m)
    \<and> (res = Inr () \<longleftrightarrow>
         (\<forall>cv v. cv \<in> set ctx \<and> cv_value cv = Assertion v \<longrightarrow>
            node_accepts ho (build b) (context_assertions ctx) (KeyOf (dir_get_key v))
            \<and> node_accepts ho (build b) (context_assertions ctx) (ValueOf v)))"
  using assms by (rule graph_analysis_answers)

text \<open>The first clause of the default knowledge graph: a card type needs the payment method card.\<close>

definition card_graph :: "(dir_value, dir_key, dyn_metadata) constraint_graph_builder" where
  "card_graph =
     snd (make_edge
       (snd (make_value_node (snd (make_value_node builder_new (ValueOf (D_PaymentMethod PaymentMethod_Card)) None None))
         (KeyOf \<lparr>dk_kind = K_CardType, dk_value = None\<rparr>) None None))
       (NodeId 0) (NodeId 1) Strong Positive None)"

lemma card_graph_reachable: "builder_reachable dir_get_key card_graph"
  unfolding card_graph_def
  by (rule reach_step [OF reach_step [OF reach_step [OF reach_new step_value] step_value] step_edge])

lemmas card_graph_eval = card_graph_def make_edge_def make_value_node_def push_node_eq add_edge_eq builder_new_def
  link_nodes_def node_new_def resolve_domain_def build_def dm_new_def dm_get_def vec_get_def

lemma card_graph_edges:
  "dm_data (edges (build card_graph)) =
     [\<lparr>edge_strength = Strong, edge_relation = Positive, edge_pred = NodeId 0, edge_succ = NodeId 1, edge_domain = None\<rparr>]"
  by (simp add: card_graph_eval)

lemma card_graph_values:
  "value_map (build card_graph) =
     [ValueOf (D_PaymentMethod PaymentMethod_Card) \<mapsto> NodeId 0, KeyOf \<lparr>dk_kind = K_CardType, dk_value = None\<rparr> \<mapsto> NodeId 1]"
  by (simp add: card_graph_eval)

lemma card_graph_acyclic: "acyclic_by node_get_id (build card_graph)"
  by (simp add: acyclic_by_def card_graph_edges)

lemma absent_value_rejected:
  assumes "builder_reachable dir_get_key b" and "value_map (build b) nv = Some n"
    and "\<not> analysis_check_presence ctx nv Strong"
  shows "\<not> satisfied dir_get_key (build b) (as_checking_context ho ctx) None n Positive Strong"
proof
  assume sat: "satisfied dir_get_key (build b) (as_checking_context ho ctx) None n Positive Strong"
  obtain nd where nd: "get_node (nodes (build b)) n = Some nd" "node_type nd = ValueNode nv"
    using value_map_node [OF assms(1,2)] by blast
  obtain es where es: "get_predecessor_edges_by_domain (build b) n None = Inr es"
    using pred_edges [OF build_inv [OF reachable_inv [OF assms(1)]] nd(1)] by blast
  from sat [unfolded satisfied_value [OF nd es]] assms(3) show False by (simp add: as_checking_context_def)
qed

lemma unasserted_key_rejected:
  assumes "builder_reachable dir_get_key b" and "value_map (build b) (KeyOf k) = Some n"
    and "context_of_values ctx V" and "\<And>v. v \<in> V \<Longrightarrow> dir_get_key v \<noteq> k"
  shows "\<not> node_accepts ho (build b) ctx (KeyOf k)"
  using absent_value_rejected [OF assms(1,2)] presence_of_key [OF assms(3), of k Strong] assms(2,4)
  by (auto simp: node_accepts_def)

lemma card_graph_preds:
  "get_predecessor_edges_by_domain (build card_graph) (NodeId 1) None =
     Inr [\<lparr>edge_strength = Strong, edge_relation = Positive, edge_pred = NodeId 0, edge_succ = NodeId 1, edge_domain = None\<rparr>]"
  by (simp add: get_predecessor_edges_by_domain_def edge_in_domains_def card_graph_eval)

lemma card_graph_node_1:
  "get_node (nodes (build card_graph)) (NodeId 1) =
     Some \<lparr>node_type = ValueNode (KeyOf \<lparr>dk_kind = K_CardType, dk_value = None\<rparr>), preds = [EdgeId 0], succs = []\<rparr>"
  by (simp add: card_graph_eval)

lemma card_type_without_card:
  assumes "\<not> analysis_check_presence ctx (ValueOf (D_PaymentMethod PaymentMethod_Card)) Strong"
  shows "\<not> node_accepts ho (build card_graph) ctx (KeyOf \<lparr>dk_kind = K_CardType, dk_value = None\<rparr>)"
proof -
  have "\<not> satisfied dir_get_key (build card_graph) (as_checking_context ho ctx) None (NodeId 0) Positive Strong"
    by (rule absent_value_rejected [OF card_graph_reachable _ assms]) (simp add: card_graph_values)
  then have "\<not> satisfied dir_get_key (build card_graph) (as_checking_context ho ctx) None (NodeId 1) Positive Strong"
    by (subst satisfied_value [OF card_graph_node_1 _ card_graph_preds]) simp_all
  then show ?thesis by (simp add: node_accepts_def card_graph_values)
qed

theorem graph_analysis_decides_witness:
  "\<exists>res m. perform_context_analysis example_order (build card_graph)
       [ctx_assertion (D_CardType CardType_Credit) Map.empty] memo_new None = Some (res, m) \<and> res \<noteq> Inr ()"
proof -
  let ?ctx = "[ctx_assertion (D_CardType CardType_Credit) Map.empty]"
  let ?k = "\<lparr>dk_kind = K_CardType, dk_value = None\<rparr>"
  have "no_negations ?ctx" by (simp add: no_negations_def get_negation_def ctx_assertion_def)
  from graph_analysis_decides [OF card_graph_reachable card_graph_acyclic this, of example_order]
  obtain res m where r: "perform_context_analysis example_order (build card_graph) ?ctx memo_new None = Some (res, m)"
    "res = Inr () \<longleftrightarrow> (\<forall>cv v. cv \<in> set ?ctx \<and> cv_value cv = Assertion v \<longrightarrow>
        node_accepts example_order (build card_graph) (context_assertions ?ctx) (KeyOf (dir_get_key v))
        \<and> node_accepts example_order (build card_graph) (context_assertions ?ctx) (ValueOf v))"
    by (auto simp: example_order_def)
  have "\<not> node_accepts example_order (build card_graph) (context_assertions ?ctx) (KeyOf ?k)"
    by (rule card_type_without_card)
      (simp add: context_assertions_def from_dir_values_def analysis_insert_def analysis_check_presence_def
        ctx_assertion_def List.map_filter_simps get_assertion_def dir_get_key_def)
  then show ?thesis using r by (auto simp: ctx_assertion_def dir_get_key_def)
qed

lemma collected_negation_keys:
  "fst ` set (snd (foldl collect_negation t es)) =
     fst ` set (snd t) \<union> {k. \<exists>e \<in> set es. \<exists>v \<in> set (fst e). dir_get_key v = k}"
proof (induction es arbitrary: t)
  case (Cons e es)
  have "fst ` set (foldl (\<lambda>m v. entry_or_default (dir_get_key v) (List.insert v) m) m vs) = fst ` set m \<union> dir_get_key ` set vs"
    for m :: "(dir_key \<times> dir_value list) list" and vs
    by (induction vs arbitrary: m) (auto simp: entry_fst)
  then have "fst ` set (snd (collect_negation t e)) = fst ` set (snd t) \<union> dir_get_key ` set (fst e)"
    by (cases t; cases e) (simp add: collect_negation_def)
  with Cons.IH [of "collect_negation t e"] show ?case by auto
qed simp

lemma get_negation_iff [simp]: "get_negation c = Some vs \<longleftrightarrow> c = Negation vs"
  by (cases c) (auto simp: get_negation_def)

lemma negative_values_set: "e \<in> set (negative_values ctx) \<longleftrightarrow> (\<exists>cv \<in> set ctx. \<exists>vs. cv_value cv = Negation vs \<and> e = (vs, cv_metadata cv))"
  by (auto simp: negative_values_def set_map_filter)

lemma key_analysis_rejects:
  assumes "builder_reachable dir_get_key b" and "acyclic_by rank (build b)" and "dir_wf_memo ho (build b) ctx st"
    and "\<not> node_accepts ho (build b) ctx (KeyOf k)"
  shows "\<exists>e st'. key_analysis ho (build b) k ctx None st = Some (Inl e, st')"
proof -
  obtain res st' where "key_analysis ho (build b) k ctx None st = Some (res, st')" "res \<noteq> Inr ()"
    using node_analysis [OF assms(1-3), of "KeyOf k"] assms(4) by (auto simp: key_analysis_def)
  then show ?thesis by (cases res) auto
qed

text \<open>
  C20. A negated key that the graph knows must also be asserted: a context all of whose negations are on
  one key, for which the graph has a node and the context no assertion, is rejected. So no rule
  can exclude a value of such a key without also asserting one.
\<close>

theorem negated_key_needs_assertion:
  assumes "builder_reachable dir_get_key b" and "acyclic_by rank (build b)" and "iterates ho"
    and "value_map (build b) (KeyOf k) = Some n"
    and "\<And>cv v. cv \<in> set ctx \<Longrightarrow> cv_value cv = Assertion v \<Longrightarrow> dir_get_key v \<noteq> k"
    and "\<And>cv vs v. cv \<in> set ctx \<Longrightarrow> cv_value cv = Negation vs \<Longrightarrow> v \<in> set vs \<Longrightarrow> dir_get_key v = k"
    and "\<exists>cv vs. cv \<in> set ctx \<and> cv_value cv = Negation vs \<and> vs \<noteq> []"
  shows "\<exists>e m. perform_context_analysis ho (build b) ctx memo_new None = Some (Inl e, m)"
proof -
  let ?g = "build b" and ?actx = "context_assertions ctx"
  let ?V = "{v. \<exists>cv \<in> set ctx. cv_value cv = Assertion v}"
  have V: "context_of_values ?actx ?V"
    using from_dir_values_context [of "List.map_filter (\<lambda>cv. get_assertion (cv_value cv)) ctx"]
    unfolding asserted_values_set context_assertions_def .
  have rej: "\<not> node_accepts ho ?g ?actx (KeyOf k)"
    by (rule unasserted_key_rejected [OF assms(1,4) V]) (use assms(5) in blast)
  obtain res st where a: "assertion_analysis ho ?g (positive_values ctx) ?actx None
        \<lparr>memo = memo_new, cycle_map = cycle_new\<rparr> = Some (res, st)" "dir_wf_memo ho ?g ?actx st"
    using assertion_analysis_answers [OF assms(1,2) wf_memo_new [of ?g ho ?actx]] by blast
  show ?thesis
  proof (cases res)
    case (Inl e)
    with a show ?thesis by (simp add: perform_context_analysis_def context_assertions_def)
  next
    case (Inr u)
    obtain km kn where kn: "foldl collect_negation ([], []) (negative_values ctx) = (km, kn)" by fastforce
    have keys: "fst ` set kn = {k. \<exists>e \<in> set (negative_values ctx). \<exists>v \<in> set (fst e). dir_get_key v = k}"
      using collected_negation_keys [of "([], [])" "negative_values ctx"] kn by simp
    obtain cv v vs where cv: "cv \<in> set ctx" "cv_value cv = Negation (v # vs)" using assms(7) by (auto simp: neq_Nil_conv)
    then have "(v # vs, cv_metadata cv) \<in> set (negative_values ctx)" "dir_get_key v = k"
      using assms(6) [of cv "v # vs" v] by (auto simp: negative_values_set)
    then have "k \<in> fst ` set kn" unfolding keys by force
    moreover have "k' = k" if "k' \<in> fst ` set kn" for k'
      using that assms(6) unfolding keys by (auto simp: negative_values_set)
    ultimately have "fst ` set kn = {k}" by blast
    then have it: "fst ` set (iter_map ho kn) = {k}" using iter_map_set [OF assms(3)] by simp
    then obtain ns rest where rest: "iter_map ho kn = (k, ns) # rest" by (cases "iter_map ho kn") auto
    have "dir_wf_memo ho ?g ?actx \<lparr>memo = memo st, cycle_map = cycle_new\<rparr>"
      using a(2) by (simp add: wf_memo_def cycle_new_def)
    from key_analysis_rejects [OF assms(1,2) this rej] obtain e st' where
      "key_analysis ho ?g k ?actx None \<lparr>memo = memo st, cycle_map = cycle_new\<rparr> = Some (Inl e, st')" by blast
    with a Inr kn rest show ?thesis
      by (simp add: perform_context_analysis_def context_assertions_def negation_analysis_def Let_def)
  qed
qed

theorem negated_key_needs_assertion_witness:
  "\<exists>e m. perform_context_analysis example_order (build card_graph)
      [ctx_assertion (D_PaymentMethod PaymentMethod_Card) Map.empty, ctx_negation [D_CardType CardType_Credit] Map.empty]
      memo_new None = Some (Inl e, m)"
  by (rule negated_key_needs_assertion [where k = "\<lparr>dk_kind = K_CardType, dk_value = None\<rparr>" and n = "NodeId 1",
        OF card_graph_reachable card_graph_acyclic])
    (auto simp: iterates_def example_order_def card_graph_values ctx_assertion_def ctx_negation_def dir_get_key_def)

end
