(* ===== verification/Euclid_Analyze.thy ===== *)
theory Euclid_Analyze
  imports Euclid_Graph
begin

text \<open>
  What acceptance by \<open>analyze\<close> means for a program, from the parts: lowering (\<open>Euclid_Lowering\<close>), the
  enumeration of contexts (\<open>Euclid_Contexts\<close>) and the analyses of one context (\<open>Euclid_Analysis\<close>,
  \<open>Euclid_Graph\<close>).
\<close>

subsection \<open>Programs the analysis accepts\<close>

lemma prepend_sel [simp]: "fst (prepend cs out) = cs @ fst out" "snd (prepend cs out) = snd out"
  by (simp_all add: prepend_def)

lemma followed_by_ok: "snd (followed_by out out') = None \<Longrightarrow> snd out = None \<and> snd out' = None \<and> fst (followed_by out out') = fst out @ fst out'"
  by (cases "snd out") (simp_all add: followed_by_def)

lemma rules_outcome_covers:
  "snd (rules_outcome rds) = None \<Longrightarrow> (r, data) \<in> set rds \<Longrightarrow> q \<in> set (rule_paths r) \<Longrightarrow> c \<in> set (choices q) \<Longrightarrow>
   connector_context data @ c \<in> set (fst (rules_outcome rds))"
proof (induction rds rule: rules_outcome.induct)
  case (2 r' data')
  then show ?case by (auto simp: paths_outcome_ok path_contexts_def)
next
  case (3 r' data' x xs)
  show ?case
  proof (cases "dr_statements r' = []")
    case True
    then have "rule_paths r' = []" by (simp add: rule_paths_def)
    with True 3 show ?thesis by auto
  next
    case False
    with "3.prems"(1) followed_by_ok [of "paths_outcome data' (rule_paths r')" "prepend [connector_context data'] (rules_outcome (x # xs))"]
    have ok: "snd (paths_outcome data' (rule_paths r')) = None" "snd (rules_outcome (x # xs)) = None"
      "fst (rules_outcome ((r', data') # x # xs)) =
         fst (paths_outcome data' (rule_paths r')) @ connector_context data' # fst (rules_outcome (x # xs))"
      by auto
    show ?thesis
    proof (cases "(r, data) = (r', data')")
      case True
      with "3.prems"(3,4) show ?thesis
        unfolding ok(3) paths_outcome_ok [OF ok(1)] by (auto simp: path_contexts_def)
    next
      case ne: False
      with "3.prems"(2) have "(r, data) \<in> set (x # xs)" by auto
      from "3.IH"(2) [OF False ok(2) this "3.prems"(3,4)] show ?thesis unfolding ok(3) by simp
    qed
  qed
qed simp

lemma program_outcome_covers:
  assumes "snd (program_outcome d data) = None" and "(r, dt) \<in> set (zip (dp_rules d) data)"
    and "q \<in> set (rule_paths r)" and "c \<in> set (choices q)"
  shows "connector_context dt @ c \<in> set (fst (program_outcome d data))"
proof -
  have "dr_statements r \<noteq> []" using assms(3) by (auto simp: rule_paths_def)
  then have "program_outcome d data = rules_outcome (zip (dp_rules d) data)"
    using assms(2) by (auto simp: program_outcome_def Let_def list_all_iff)
  with rules_outcome_covers [of "zip (dp_rules d) data"] assms show ?thesis by simp
qed

lemma leaf_path_comparisons:
  "q \<in> set (leaf_paths s) \<Longrightarrow> x \<in> set q \<Longrightarrow> x \<in> set (statement_comparisons s)"
proof (induction s arbitrary: q rule: leaf_paths.induct)
  case (3 c n ns)
  then obtain t p where t: "t \<in> set (n # ns)" "p \<in> set (leaf_paths t)" "q = c @ p" by auto
  show ?case
  proof (cases "x \<in> set c")
    case False
    with 3(3) t(3) have "x \<in> set p" by simp
    from 3(1) [OF t(1,2) this] t(1) show ?thesis by auto
  qed simp
qed simp_all

lemma lowered_one_key:
  assumes "strum_typed S" and "lower_comparison S allowed a = Inr x" and "v \<in> set (dc_values x)" and "w \<in> set (dc_values x)"
  shows "dir_get_key v = dir_get_key w"
proof -
  obtain k where k: "fst (dir_key_parts v) = k" "fst (dir_key_parts w) = k"
    using lower_comparison_key [OF assms(1,2)] assms(3,4) by metis
  show ?thesis
  proof (cases "k = K_MetaData")
    case False
    with k only_metadata_has_data [of v] only_metadata_has_data [of w]
    have "snd (dir_key_parts v) = None" "snd (dir_key_parts w) = None" by simp_all
    with k show ?thesis by (auto simp: dir_get_key_def split: prod.splits)
  next
    case True
    obtain k' where k': "lower_key_value k' S (cmp_value a) (cmp_comparison a) = Inr (dc_values x)"
      using assms(2) by (auto simp: lower_comparison_def lower_comparison_inner_def Let_def
          split: sum.splits option.splits if_splits comparison_type.splits)
    have "k' = K_MetaData" using lower_key_value_kind [OF assms(1) k' assms(3)] k True by simp
    with k' have m: "lower_metadata (cmp_value a) = Inr (dc_values x)" by simp
    have "\<exists>y. lower_metadata val = Inr [y]" if "lower_metadata val = Inr ys" for val ys
      using that by (cases val) (auto simp: lower_metadata_def)
    from this [OF m] obtain y where "dc_values x = [y]" using m by auto
    with assms(3,4) show ?thesis by simp
  qed
qed

lemma choices_values: "c \<in> set (choices q) \<Longrightarrow> cv \<in> set c \<Longrightarrow> \<exists>x \<in> set q. cv \<in> set (alternatives x)"
proof (induction q arbitrary: c)
  case (Cons x q)
  then show ?case by fastforce
qed simp

lemma rule_context_one_key:
  assumes "strum_typed S" and "lower_program S allowed p = Inr d" and "r \<in> set (dp_rules d)"
    and "q \<in> set (rule_paths r)" and "c \<in> set (choices q)"
  shows "list_all one_key c"
  unfolding list_all_iff
proof
  fix cv assume "cv \<in> set c"
  from choices_values [OF assms(5) this] obtain x where x: "x \<in> set q" "cv \<in> set (alternatives x)" by blast
  obtain s where s: "s \<in> set (dr_statements r)" "q \<in> set (leaf_paths s)" using assms(4) by (auto simp: rule_paths_def)
  have "list_all2 (\<lambda>x y. lower_rule S allowed x = Inr y) (rules p) (dp_rules d)"
    using assms(2) by (auto simp: lower_program_def and_then_eq_Inr collect_results_map_rel)
  from list_all2_in_set2 [OF this assms(3)] obtain r' where "lower_rule S allowed r' = Inr r" by blast
  then have "list_all2 (\<lambda>s t. lower_if_statement S allowed s = Inr t) (rule_statements r') (dr_statements r)"
    by (auto simp: lower_rule_def and_then_eq_Inr collect_results_map_rel)
  from list_all2_in_set2 [OF this s(1)] obtain s' where "lower_if_statement S allowed s' = Inr s" by blast
  from lowered_statement_comparisons [OF this leaf_path_comparisons [OF s(2) x(1)]]
  obtain a where a: "lower_comparison S allowed a = Inr x" by blast
  have "dir_get_key v = dir_get_key (hd (dc_values x))" if "v \<in> set (dc_values x)" for v
    by (rule lowered_one_key [OF assms(1) a that]) (use that in \<open>cases "dc_values x"; simp\<close>)
  with x(2) show "one_key cv"
    by (cases "dc_logic x") (auto simp: alternatives_def one_key_def ctx_assertion_def ctx_negation_def list_all_iff)
qed

lemma context_analyses_accept:
  "the (perform_context_analyses ho g c) = Inr () \<Longrightarrow> perform_condition_analyses ho c = Inr ()"
  by (auto simp: perform_context_analyses_def split: sum.splits)

text \<open>
  C14. In a program the analysis accepts, no branch is dead because of its enumeration keys: for every
  rule, every leaf of its statements and every choice of values for the comparisons on the path to
  it, some assignment of one value to every enumeration key satisfies the chosen values on
  enumeration keys other than the connector. Values on the connector and comparisons of numbers,
  strings and metadata are outside the claim: the condition analyses do not look at them, so a
  branch guarded by \<open>amount > 1000 & amount < 10\<close> is not found to be dead.
\<close>

theorem accepted_program_enum_branches_live:
  assumes "strum_typed S" and "iterates ho" and "lower_program S allowed p = Inr d"
    and "analyze S ho default_graph get_values allowed p kg = Some (Inr v)"
    and "r \<in> set (dp_rules d)" and "q \<in> set (rule_paths r)" and "c \<in> set (choices q)"
  shows "\<exists>\<sigma>. typed_assignment \<sigma>
    \<and> (\<forall>cv \<in> set c. (\<exists>k. decisive cv k) \<longrightarrow> context_value_holds (\<lambda>v. \<sigma> (dir_get_key v) = v) cv)"
proof -
  let ?data = "make_connector_selection_data get_values d"
  let ?graph = "case kg of None \<Rightarrow> default_graph | Some g \<Rightarrow> g"
  obtain us where us: "collect_results (map (\<lambda>c. the (perform_context_analyses ho ?graph c)) (fst (program_outcome d ?data))) = Inr us"
    and end_ok: "snd (program_outcome d ?data) = None"
    using assms(3,4) by (auto simp: analyze_eq Let_def split: sum.splits option.splits)
  obtain i where i: "i < length (dp_rules d)" "dp_rules d ! i = r" using assms(5) by (auto simp: in_set_conv_nth)
  then have zip: "(r, ?data ! i) \<in> set (zip (dp_rules d) ?data)"
    by (force simp: in_set_zip make_connector_selection_data_def)
  let ?ctx = "connector_context (?data ! i) @ c"
  have "?ctx \<in> set (fst (program_outcome d ?data))" by (rule program_outcome_covers [OF end_ok zip assms(6,7)])
  then have "the (perform_context_analyses ho ?graph ?ctx) = Inr ()"
    using us unfolding collect_results_map_rel by (auto simp: list_all2_conv_all_nth in_set_conv_nth)
  then have ok: "perform_condition_analyses ho ?ctx = Inr ()" by (rule context_analyses_accept)
  have "list_all one_key (connector_context (?data ! i))"
    by (auto simp: list_all_iff connector_context_def one_key_def ctx_assertion_def)
  then have one: "list_all one_key ?ctx" using rule_context_one_key [OF assms(1,3,5,6,7)] by simp
  from ok condition_analyses_satisfiable [OF assms(2) one] show ?thesis by auto
qed

definition example_dir_program :: "unit dir_program" where
  "example_dir_program =
     \<lparr>dp_default_selection = (),
      dp_rules = [\<lparr>dr_name = ''credit'', dr_connector_selection = (),
        dr_statements = [DirIfStatement [\<lparr>dc_values = [D_CardType CardType_Credit],
          dc_logic = Dir_PositiveDisjunction, dc_metadata = Map.empty\<rparr>] None]\<rparr>],
      dp_metadata = Map.empty\<rparr>"

lemma example_program_outcome:
  "program_outcome example_dir_program (make_connector_selection_data (\<lambda>_ _. []) example_dir_program) =
     ([[ctx_assertion (D_CardType CardType_Credit) Map.empty]], None)"
  by (simp add: program_outcome_def example_dir_program_def make_connector_selection_data_def rule_paths_def
      blocked_def alternatives_def path_contexts_def connector_context_def prepend_def)

lemma example_context_accepted:
  "perform_context_analyses example_order (build builder_new) [ctx_assertion (D_CardType CardType_Credit) Map.empty] =
     Some (Inr ())"
  by (simp add: perform_context_analyses_def perform_condition_analyses_def collect_tables_def collect_value_def
      ctx_assertion_def ctx_get_key_def dir_get_key_def add_assertion_def analyze_conflicting_assertions_def
      analyze_exhaustive_negations_def analyze_negated_assertions_def example_order_def
      perform_context_analysis_def positive_values_def negative_values_def List.map_filter_simps get_assertion_def
      get_negation_def key_value_analysis_def key_analysis_def value_analysis_def negation_analysis_def
      build_def builder_new_def)

lemma example_analysis:
  "\<exists>v. analyze example_strum example_order (build builder_new) (\<lambda>_ _. []) [K_CardType] example_card_program None = Some (Inr v)"
proof -
  have low: "lower_program example_strum [K_CardType] example_card_program = Inr example_dir_program"
    unfolding example_dir_program_def by (rule example_card_lowered)
  show ?thesis
    unfolding analyze_eq low
    by (simp add: Let_def example_program_outcome example_context_accepted)
      (simp add: example_dir_program_def lower_dir_program_def lower_dir_rule_def lower_dir_comparison_def)
qed

theorem accepted_program_enum_branches_live_witness:
  "strum_typed example_strum \<and> iterates example_order
   \<and> lower_program example_strum [K_CardType] example_card_program = Inr example_dir_program
   \<and> (\<exists>v. analyze example_strum example_order (build builder_new) (\<lambda>_ _. []) [K_CardType] example_card_program None = Some (Inr v))
   \<and> (\<exists>\<sigma>. typed_assignment \<sigma> \<and> \<sigma> \<lparr>dk_kind = K_CardType, dk_value = None\<rparr> = D_CardType CardType_Credit)"
proof -
  let ?c = "\<lparr>dc_values = [D_CardType CardType_Credit], dc_logic = Dir_PositiveDisjunction, dc_metadata = Map.empty\<rparr>"
  let ?cv = "ctx_assertion (D_CardType CardType_Credit) Map.empty"
  have low: "lower_program example_strum [K_CardType] example_card_program = Inr example_dir_program"
    unfolding example_dir_program_def by (rule example_card_lowered)
  obtain v where v: "analyze example_strum example_order (build builder_new) (\<lambda>_ _. []) [K_CardType] example_card_program None = Some (Inr v)"
    using example_analysis by blast
  have it: "iterates example_order" by (simp add: iterates_def example_order_def)
  have "\<exists>\<sigma>. typed_assignment \<sigma> \<and> (\<forall>cv \<in> set [?cv]. (\<exists>k. decisive cv k) \<longrightarrow> context_value_holds (\<lambda>v. \<sigma> (dir_get_key v) = v) cv)"
    by (rule accepted_program_enum_branches_live [OF example_strum_typed it low v,
          where r = "hd (dp_rules example_dir_program)" and q = "[?c]"])
      (simp_all add: example_dir_program_def rule_paths_def alternatives_def)
  moreover have "decisive ?cv \<lparr>dk_kind = K_CardType, dk_value = None\<rparr>"
    by (simp add: decisive_def ctx_assertion_def ctx_get_key_def dir_get_key_def)
  ultimately have "\<exists>\<sigma>. typed_assignment \<sigma> \<and> \<sigma> \<lparr>dk_kind = K_CardType, dk_value = None\<rparr> = D_CardType CardType_Credit"
    by (auto simp: context_value_holds_def ctx_assertion_def dir_get_key_def)
  with low it v example_strum_typed show ?thesis by blast
qed

end
