(* ===== verification/Cards.thy ===== *)
theory Cards
  imports Prelude "HOL-Library.Word" "HOL-Library.Multiset"
begin

text \<open>
  Card data: \<open>cards/src/validate.rs\<close> (card numbers and network tokens, the Luhn check and the masked
  debug form) and \<open>cards/src/lib.rs\<close> (security codes and expiry dates).

  A string is a list of the characters with code points below 256, which is where the source looks:
  decimal digits and white space. A \<open>u8\<close> is an 8-bit word, so that the sum of the Luhn check wraps
  where the source does. The regular expressions of the card networks, the iteration order of the
  hash map that holds them, the debug form \<open>WithType\<close> of the masking library, the calendar of the
  \<open>time\<close> library and the clock are arguments. White space beyond U+00FF, which \<open>split_whitespace\<close> also
  drops, is not represented. The native build is modelled; the \<open>wasm32\<close> build keeps the test cards in
  every environment and so behaves in all of them as the model does outside production.
\<close>

type_synonym u8 = "8 word"
type_synonym u16 = "16 word"

section \<open>Card numbers\<close>

definition MIN_CARD_NUMBER_LENGTH :: nat where
  "MIN_CARD_NUMBER_LENGTH = 8"

definition MAX_CARD_NUMBER_LENGTH :: nat where
  "MAX_CARD_NUMBER_LENGTH = 19"

datatype env = Development | Integ | Sandbox | Production

datatype card_number_validation_err = CardNumberValidationErr string

datatype card_number = CardNumber (card_secret: string)

datatype network_token = NetworkToken (token_secret: string)

definition get_card_isin :: "card_number \<Rightarrow> string" where
  "get_card_isin c = take 6 (card_secret c)"

definition get_extended_card_bin :: "card_number \<Rightarrow> string" where
  "get_extended_card_bin c = take 8 (card_secret c)"

definition get_card_no :: "card_number \<Rightarrow> string" where
  "get_card_no c = card_secret c"

definition get_last4 :: "card_number \<Rightarrow> string" where
  "get_last4 c = rev (take 4 (rev (card_secret c)))"

definition to_network_token :: "card_number \<Rightarrow> network_token" where
  "to_network_token c = NetworkToken (card_secret c)"

definition token_isin :: "network_token \<Rightarrow> string" where
  "token_isin t = take 6 (token_secret t)"

definition token_extended_bin :: "network_token \<Rightarrow> string" where
  "token_extended_bin t = take 8 (token_secret t)"

definition token_card_no :: "network_token \<Rightarrow> string" where
  "token_card_no t = token_secret t"

definition token_last4 :: "network_token \<Rightarrow> string" where
  "token_last4 t = rev (take 4 (rev (token_secret t)))"

definition card_number_of_token :: "network_token \<Rightarrow> card_number" where
  "card_number_of_token t = CardNumber (token_secret t)"

text \<open>The characters of code point below 256 that \<open>split_whitespace\<close> removes.\<close>

definition is_whitespace :: "char \<Rightarrow> bool" where
  "is_whitespace c \<longleftrightarrow> (of_char c :: nat) \<in> {9, 10, 11, 12, 13, 32, 133, 160}"

definition to_digit :: "char \<Rightarrow> nat option" where
  "to_digit c = (let n = (of_char c :: nat) in if 48 \<le> n \<and> n \<le> 57 then Some (n - 48) else None)"

fun push_digits :: "u8 list \<Rightarrow> string \<Rightarrow> card_number_validation_err + u8 list" where
  "push_digits data [] = Inr data"
| "push_digits data (character # rest) =
     and_then (ok_or (to_digit character) (CardNumberValidationErr ''invalid character found in card number''))
       (\<lambda>d. push_digits (data @ [of_nat d]) rest)"

definition validate_card_number_chars :: "string \<Rightarrow> card_number_validation_err + u8 list" where
  "validate_card_number_chars number = push_digits [] number"

definition validate_card_number_length :: "u8 list \<Rightarrow> card_number_validation_err + u8 list" where
  "validate_card_number_length number =
     (if MIN_CARD_NUMBER_LENGTH \<le> length number \<and> length number \<le> MAX_CARD_NUMBER_LENGTH then Inr number
      else Inl (CardNumberValidationErr ''invalid card number length''))"

definition luhn_term :: "nat \<Rightarrow> u8 \<Rightarrow> u8" where
  "luhn_term idx element =
     ((element * 2) div 10 + (element * 2) mod 10) * (of_nat idx mod 2) + element * (of_nat (idx + 1) mod 2)"

definition luhn :: "u8 list \<Rightarrow> bool" where
  "luhn number \<longleftrightarrow>
     foldl (+) 0 (map (\<lambda>(idx, element). luhn_term idx element) (enumerate 0 (rev number))) mod 10 = 0"

definition sanitize_card_number :: "string \<Rightarrow> card_number_validation_err + bool" where
  "sanitize_card_number card_number =
     and_then (and_then (validate_card_number_chars card_number) validate_card_number_length)
       (\<lambda>number. Inr (luhn number))"

definition valid_test_cards :: "env \<Rightarrow> string list" where
  "valid_test_cards e =
     (case e of
        Production \<Rightarrow> []
      | _ \<Rightarrow> [''4000100511112003'', ''6000100611111203'', ''3000100811111072'', ''9000100111111111''])"

definition card_number_from_str :: "env \<Rightarrow> string \<Rightarrow> card_number_validation_err + card_number" where
  "card_number_from_str e s =
     (let number = filter (\<lambda>c. \<not> is_whitespace c) s
      in and_then (sanitize_card_number number) (\<lambda>is_card_valid.
           if number \<in> set (valid_test_cards e) \<or> is_card_valid then Inr (CardNumber number)
           else Inl (CardNumberValidationErr ''card number invalid'')))"

definition network_token_from_str :: "env \<Rightarrow> string \<Rightarrow> card_number_validation_err + network_token" where
  "network_token_from_str e s =
     (let token = filter (\<lambda>c. \<not> is_whitespace c) s
      in and_then (sanitize_card_number token) (\<lambda>is_network_token_valid.
           if token \<in> set (valid_test_cards e) \<or> is_network_token_valid then Inr (NetworkToken token)
           else Inl (CardNumberValidationErr ''network token invalid'')))"

text \<open>
  The debug form of a card number. The length of a string and its prefix are counted in bytes of
  its UTF-8 form, in which a character of code point 128 to 255 takes two.
\<close>

definition utf8_len :: "char \<Rightarrow> nat" where
  "utf8_len c = (if (of_char c :: nat) < 128 then 1 else 2)"

definition str_len :: "string \<Rightarrow> nat" where
  "str_len s = sum_list (map utf8_len s)"

fun str_prefix :: "nat \<Rightarrow> string \<Rightarrow> string option" where
  "str_prefix 0 s = Some []"
| "str_prefix (Suc n) [] = None"
| "str_prefix (Suc n) (c # cs) =
     (if utf8_len c \<le> Suc n then map_option ((#) c) (str_prefix (Suc n - utf8_len c) cs) else None)"

definition card_number_fmt :: "(string \<Rightarrow> string) \<Rightarrow> string \<Rightarrow> string" where
  "card_number_fmt with_type val =
     (if str_len val < 15 \<or> 19 < str_len val then with_type val
      else case str_prefix 6 val of
             Some v \<Rightarrow> v @ replicate (str_len val - 6) CHR ''*''
           | None \<Rightarrow> with_type val)"

section \<open>Card networks\<close>

definition card_network_regex :: "(string \<times> string) list" where
  "card_network_regex =
     [(''Mastercard'',
       ''^(222[1-9]|22[3-9][0-9]|2[3-6][0-9]{2}|27[0-1][0-9]|2720|5[1-5])''),
      (''American Express'',
       ''^3[47]''),
      (''Visa'',
       ''^4''),
      (''Discover'',
       ''^(6011|64[4-9]|65|622126|622[1-9][0-9][0-9]|6229[0-1][0-9]|622925)''),
      (''Maestro'',
       ''^(5018|5081|5044|504681|504993|5020|502260|5038|5893|603845|603123|6304|6759|676[1-3]|6220|504834|504817|504645|504775|600206|627741)''),
      (''RuPay'',
       ''^(508227|508[5-9]|603741|60698[5-9]|60699|607[0-8]|6079[0-7]|60798[0-4]|60800[1-9]|6080[1-9]|608[1-4]|608500|6521[5-9]|652[2-9]|6530|6531[0-4]|817290|817368|817378|353800|82)''),
      (''Diners Club'',
       ''^(36|38|39|30[0-5])''),
      (''JCB'',
       ''^35(2[89]|[3-8][0-9])''),
      (''CarteBlanche'',
       ''^389[0-9]{11}$''),
      (''Sodex'',
       ''^(637513)''),
      (''BAJAJ'',
       ''^(203040)''),
      (''CartesBancaires'',
       ''^(401(005|006|581)|4021(01|02)|403550|405936|406572|41(3849|4819|50(56|59|62|71|74)|6286|65(37|79)|71[7])|420110|423460|43(47(21|22)|50(48|49|50|51|52)|7875|95(09|11|15|39|98)|96(03|18|19|20|22|72))|4424(48|49|50|51|52|57)|448412|4505(19|60)|45(33|56[6-8]|61|62[^3]|6955|7452|7717|93[02379])|46(099|54(76|77)|6258|6575|98[023])|47(4107|71(73|74|86)|72(65|93)|9619)|48(1091|3622|6519)|49(7|83[5-9]|90(0[1-6]|1[0-6]|2[0-3]|3[0-3]|4[0-3]|5[0-2]|68|9[256789]))|5075(89|90|93|94|97)|51(0726|3([0-7]|8[56]|9(00|38))|5214|62(07|36)|72(22|43)|73(65|66)|7502|7647|8101|9920)|52(0993|1662|3718|7429|9227|93(13|14|31)|94(14|21|30|40|47|55|56|[6-9])|9542)|53(0901|10(28|30)|1195|23(4[4-7])|2459|25(09|34|54|56)|3801|41(02|05|11)|50(29|66)|5324|61(07|15)|71(06|12)|8011)|54(2848|5157|9538|98(5[89]))|55(39(79|93)|42(05|60)|4965|7008|88(67|82)|89(29|4[23])|9618|98(09|10))|56(0408|12(0[2-6]|4[134]|5[04678]))|58(17(0[0-7]|15|2[14]|3[16789]|4[0-9]|5[016]|6[269]|7[3789]|8[0-7]|9[017])|55(0[2-5]|7[7-9]|8[0-2])))'')]"

datatype validation_error = InvalidValue string

fun count_networks :: "(string \<Rightarrow> bool) option list \<Rightarrow> string \<Rightarrow> nat \<Rightarrow> validation_error + nat" where
  "count_networks [] card_number_str n = Inr n"
| "count_networks (None # rest) card_number_str n = Inl (InvalidValue ''Invalid regex expression'')"
| "count_networks (Some is_match # rest) card_number_str n =
     (if is_match card_number_str
      then if n + 1 > 1 then Inr (n + 1) else count_networks rest card_number_str (n + 1)
      else count_networks rest card_number_str n)"

definition is_cobadged_card ::
  "(string \<Rightarrow> (string \<Rightarrow> bool) option) \<Rightarrow> ((string \<Rightarrow> bool) option list \<Rightarrow> (string \<Rightarrow> bool) option list)
   \<Rightarrow> card_number \<Rightarrow> validation_error + bool" where
  "is_cobadged_card regex_new hash_values c =
     and_then (count_networks (hash_values (map (\<lambda>(_, r). regex_new r) card_network_regex)) (get_card_no c) 0)
       (\<lambda>n. Inr (n > 1))"

section \<open>Security codes and expiry\<close>

datatype card_security_code = CardSecurityCode u16

datatype card_expiration_month = CardExpirationMonth (month_secret: u8)

datatype card_expiration_year = CardExpirationYear (year_secret: u16)

record card_expiration =
  exp_month :: card_expiration_month
  exp_year :: card_expiration_year

definition security_code_try_from :: "u16 \<Rightarrow> validation_error + card_security_code" where
  "security_code_try_from csc =
     (if 0 \<le> csc \<and> csc \<le> 9999 then Inr (CardSecurityCode csc) else Inl (InvalidValue ''invalid card security code''))"

definition expiration_month_try_from :: "u8 \<Rightarrow> validation_error + card_expiration_month" where
  "expiration_month_try_from month =
     (if 1 \<le> month \<and> month \<le> 12 then Inr (CardExpirationMonth month)
      else Inl (InvalidValue ''invalid card expiration month''))"

definition u16_try_from :: "int \<Rightarrow> u16 option" where
  "u16_try_from n = (if 0 \<le> n \<and> n < 2 ^ 16 then Some (word_of_int n) else None)"

definition expiration_year_try_from :: "int \<Rightarrow> u16 \<Rightarrow> validation_error + card_expiration_year" where
  "expiration_year_try_from now_year year =
     and_then (ok_or (u16_try_from now_year) (InvalidValue ''invalid year'')) (\<lambda>curr_year.
       if year \<ge> curr_year then Inr (CardExpirationYear year)
       else Inl (InvalidValue ''invalid card expiration year''))"

definition card_expiration_try_from :: "int \<Rightarrow> u8 \<times> u16 \<Rightarrow> validation_error + card_expiration" where
  "card_expiration_try_from now_year items =
     and_then (expiration_month_try_from (fst items)) (\<lambda>month.
     and_then (expiration_year_try_from now_year (snd items)) (\<lambda>year.
       Inr \<lparr>exp_month = month, exp_year = year\<rparr>))"

text \<open>
  The calendar of the \<open>time\<close> library: the length of a month, the instant of midnight of a date, and
  the largest instant. Instants count nanoseconds.
\<close>

record calendar =
  month_length :: "int \<Rightarrow> nat \<Rightarrow> nat"
  midnight :: "int \<Rightarrow> nat \<Rightarrow> nat \<Rightarrow> int option"
  max_instant :: int

definition nanos_per_day :: int where
  "nanos_per_day = 86400 * 10 ^ 9"

definition is_expired :: "calendar \<Rightarrow> int \<Rightarrow> card_expiration \<Rightarrow> validation_error + bool" where
  "is_expired cal current_datetime_utc e =
     (let month = unat (month_secret (exp_month e)); year = uint (year_secret (exp_year e)) in
      and_then (if 1 \<le> month \<and> month \<le> 12 then Inr month else Inl (InvalidValue ''invalid month'')) (\<lambda>expiration_month.
        let expiration_day = month_length cal year expiration_month in
      and_then (ok_or (midnight cal year expiration_month expiration_day)
                  (InvalidValue ''error while constructing calendar date'')) (\<lambda>expiration_datetime.
        Inr (current_datetime_utc > min (max_instant cal) (expiration_datetime + nanos_per_day)))))"

section \<open>The Luhn check\<close>

text \<open>The same sum over the naturals, from position \<open>k\<close> counted from the right.\<close>

definition luhn_digit :: "nat \<Rightarrow> nat \<Rightarrow> nat" where
  "luhn_digit idx d = (if odd idx then (2 * d) div 10 + (2 * d) mod 10 else d)"

fun luhn_sum :: "nat \<Rightarrow> nat list \<Rightarrow> nat" where
  "luhn_sum k [] = 0"
| "luhn_sum k (d # ds) = luhn_digit k d + luhn_sum (Suc k) ds"

abbreviation is_digits :: "u8 list \<Rightarrow> bool" where
  "is_digits number \<equiv> list_all (\<lambda>d. d \<le> 9) number"

lemma luhn_sum_append: "luhn_sum k (xs @ ys) = luhn_sum k xs + luhn_sum (k + length xs) ys"
  by (induction xs arbitrary: k) simp_all

lemma luhn_digit_eq: "d \<le> 9 \<Longrightarrow> luhn_digit k d = (if odd k then if d \<le> 4 then 2 * d else 2 * d - 9 else d)"
proof -
  assume "d \<le> 9"
  then have "d = 0 \<or> d = 1 \<or> d = 2 \<or> d = 3 \<or> d = 4 \<or> d = 5 \<or> d = 6 \<or> d = 7 \<or> d = 8 \<or> d = 9" by arith
  then show ?thesis unfolding luhn_digit_def by (elim disjE) simp_all
qed

lemma luhn_digit_le: "d \<le> 9 \<Longrightarrow> luhn_digit k d \<le> 9"
  by (simp add: luhn_digit_eq) arith

lemma luhn_digit_inj: "\<lbrakk>d \<le> 9; e \<le> 9; luhn_digit k d = luhn_digit k e\<rbrakk> \<Longrightarrow> d = e"
  by (cases "odd k"; cases "d \<le> 4"; cases "e \<le> 4") (simp_all add: luhn_digit_eq, arith+)

lemma luhn_sum_bound: "list_all (\<lambda>d. d \<le> 9) ds \<Longrightarrow> luhn_sum k ds \<le> 9 * length ds"
proof (induction ds arbitrary: k)
  case (Cons d ds)
  then have "luhn_digit k d \<le> 9" "luhn_sum (Suc k) ds \<le> 9 * length ds" by (simp_all add: luhn_digit_le)
  then show ?case by simp
qed simp

text \<open>Changing one digit, and exchanging two neighbours other than 0 and 9, changes the sum modulo 10.\<close>

lemma luhn_sum_update:
  assumes "i < length ds"
  shows "luhn_sum k (ds[i := d]) + luhn_digit (k + i) (ds ! i) = luhn_sum k ds + luhn_digit (k + i) d"
proof -
  have ds: "ds = take i ds @ ds ! i # drop (Suc i) ds" by (rule id_take_nth_drop [OF assms])
  have "luhn_sum k ds = luhn_sum k (take i ds @ ds ! i # drop (Suc i) ds)"
    by (rule arg_cong [OF ds])
  with assms show ?thesis by (simp add: upd_conv_take_nth_drop luhn_sum_append min_def)
qed

lemma mod_add_left_cancel: "(s + a) mod n = (s + b) mod n \<longleftrightarrow> a mod n = (b :: nat) mod n"
proof
  assume "(s + a) mod n = (s + b) mod n"
  then have "int ((s + a) mod n) = int ((s + b) mod n)" by simp
  then have "(int s + int a) mod int n = (int s + int b) mod int n" by (simp add: zmod_int)
  then have "int a mod int n = int b mod int n" by (simp add: mod_eq_dvd_iff)
  then show "a mod n = b mod n" by (metis of_nat_eq_iff zmod_int)
next
  assume "a mod n = b mod n"
  then show "(s + a) mod n = (s + b) mod n" by (rule mod_add_cong [OF refl])
qed

lemma luhn_sum_detects_substitution:
  assumes "i < length ds" "ds ! i \<le> 9" "d \<le> 9" "d \<noteq> ds ! i"
  shows "luhn_sum k (ds[i := d]) mod 10 \<noteq> luhn_sum k ds mod 10"
proof
  assume eq: "luhn_sum k (ds[i := d]) mod 10 = luhn_sum k ds mod 10"
  have "(luhn_sum k ds + luhn_digit (k + i) (ds ! i)) mod 10 = (luhn_sum k (ds[i := d]) + luhn_digit (k + i) (ds ! i)) mod 10"
    using eq by (metis mod_add_left_eq)
  also have "\<dots> = (luhn_sum k ds + luhn_digit (k + i) d) mod 10"
    using luhn_sum_update [OF assms(1), of k d] by simp
  finally have "luhn_digit (k + i) (ds ! i) = luhn_digit (k + i) d"
    using luhn_digit_le [of "ds ! i" "k + i"] luhn_digit_le [of d "k + i"] assms by (simp add: mod_add_left_cancel)
  then show False using luhn_digit_inj [of "ds ! i" d "k + i"] assms by simp
qed

lemma mod_ten_close: "\<lbrakk>x mod 10 = y mod 10; x \<le> y + 9; y \<le> x + 9\<rbrakk> \<Longrightarrow> x = (y :: nat)"
proof -
  assume h: "x mod 10 = y mod 10" "x \<le> y + 9" "y \<le> x + 9"
  have "int x mod 10 = int y mod 10" using arg_cong [OF h(1), of int] by (simp add: zmod_int)
  then have "10 dvd int x - int y" by (simp add: mod_eq_dvd_iff)
  then obtain k where "int x - int y = 10 * k" by (rule dvdE)
  with h(2,3) have "k = 0" by arith
  with \<open>int x - int y = 10 * k\<close> show ?thesis by simp
qed

lemma luhn_pair_exchanged:
  assumes "a \<le> 9" "b \<le> 9" "a \<noteq> b" "{a, b} \<noteq> {0, 9}"
  shows "(luhn_digit k a + luhn_digit (Suc k) b) mod 10 \<noteq> (luhn_digit k b + luhn_digit (Suc k) a) mod 10"
proof
  assume "(luhn_digit k a + luhn_digit (Suc k) b) mod 10 = (luhn_digit k b + luhn_digit (Suc k) a) mod 10"
  moreover have "luhn_digit k a + luhn_digit (Suc k) b \<le> luhn_digit k b + luhn_digit (Suc k) a + 9"
    "luhn_digit k b + luhn_digit (Suc k) a \<le> luhn_digit k a + luhn_digit (Suc k) b + 9"
    using assms(1,2) by (cases "odd k"; cases "a \<le> 4"; cases "b \<le> 4"; simp add: luhn_digit_eq)+
  ultimately have "luhn_digit k a + luhn_digit (Suc k) b = luhn_digit k b + luhn_digit (Suc k) a"
    by (rule mod_ten_close)
  moreover have "\<not> (a = 0 \<and> b = 9)" "\<not> (a = 9 \<and> b = 0)" using assms(4) by auto
  ultimately show False
    using assms(1-3) by (cases "odd k"; cases "a \<le> 4"; cases "b \<le> 4") (simp_all add: luhn_digit_eq, arith+)
qed

lemma luhn_sum_detects_transposition:
  assumes "Suc i < length ds" "ds ! i \<le> 9" "ds ! Suc i \<le> 9" "ds ! i \<noteq> ds ! Suc i" "{ds ! i, ds ! Suc i} \<noteq> {0, 9}"
  shows "luhn_sum k (ds[i := ds ! Suc i, Suc i := ds ! i]) mod 10 \<noteq> luhn_sum k ds mod 10"
proof
  let ?a = "ds ! i" and ?b = "ds ! Suc i"
  let ?es = "ds[i := ?b, Suc i := ?a]"
  assume eq: "luhn_sum k ?es mod 10 = luhn_sum k ds mod 10"
  let ?p = "luhn_digit (k + i) ?a + luhn_digit (Suc (k + i)) ?b"
  let ?q = "luhn_digit (k + i) ?b + luhn_digit (Suc (k + i)) ?a"
  have "luhn_sum k ?es + ?p = luhn_sum k ds + ?q"
    using luhn_sum_update [of i ds k ?b] luhn_sum_update [of "Suc i" "ds[i := ?b]" k ?a] assms(1) by simp
  moreover have "(luhn_sum k ?es + ?p) mod 10 = (luhn_sum k ds + ?p) mod 10" by (rule mod_add_cong [OF eq refl])
  ultimately have "(luhn_sum k ds + ?p) mod 10 = (luhn_sum k ds + ?q) mod 10" by (simp only:)
  then have "?p mod 10 = ?q mod 10" by (simp only: mod_add_left_cancel)
  then show False using luhn_pair_exchanged [OF assms(2-5), of "k + i"] by simp
qed

text \<open>The sum in eight bits is the sum over the naturals for up to 28 digits.\<close>

lemma u8_mod_2: "(of_nat n :: u8) mod 2 = (if odd n then 1 else 0)"
proof -
  have "unat ((of_nat n :: u8) mod 2) = n mod 2 ^ 8 mod 2"
    by (simp only: unat_mod unat_of_nat) simp
  also have "\<dots> = n mod 2" by (simp add: mod_mod_cancel)
  finally have "unat ((of_nat n :: u8) mod 2) = unat (if odd n then 1 else 0 :: u8)"
    by (cases "odd n") (simp_all add: odd_iff_mod_2_eq_one even_iff_mod_2_eq_zero)
  then show ?thesis by (simp only: word_unat_eq_iff)
qed

lemma u8_le_9: "d \<le> (9 :: u8) \<longleftrightarrow> unat d \<le> 9"
  by (simp add: word_le_nat_alt)

lemma unat_luhn_term:
  assumes "d \<le> 9"
  shows "unat (luhn_term idx d) = luhn_digit idx (unat d)"
proof -
  have d: "unat d \<le> 9" using assms by (simp add: u8_le_9)
  have "unat (d * 2) = unat d * 2" using d by (simp add: unat_word_ariths)
  then have "unat ((d * 2) div 10 + (d * 2) mod 10) = unat d * 2 div 10 + unat d * 2 mod 10"
    using d by (simp add: unat_word_ariths unat_div unat_mod)
  then show ?thesis by (simp add: luhn_term_def luhn_digit_def u8_mod_2 mult.commute del: of_nat_Suc flip: of_nat_Suc)
qed

lemma unat_luhn_sum:
  assumes "is_digits ds" "9 * length ds + unat acc < 256"
  shows "unat (foldl (+) acc (map (\<lambda>(idx, d). luhn_term idx d) (enumerate k ds))) = unat acc + luhn_sum k (map unat ds)"
  using assms
proof (induction ds arbitrary: k acc)
  case (Cons d ds)
  have "luhn_digit k (unat d) \<le> 9" using Cons.prems by (intro luhn_digit_le) (simp add: u8_le_9)
  then have "unat (acc + luhn_term k d) = unat acc + luhn_digit k (unat d)"
    using Cons.prems unat_luhn_term [of d k] by (simp add: unat_word_ariths)
  with Cons show ?case using \<open>luhn_digit k (unat d) \<le> 9\<close> by (simp add: enumerate_simps)
qed simp

lemma luhn_eq_luhn_sum:
  assumes "is_digits number" "length number \<le> 28"
  shows "luhn number \<longleftrightarrow> luhn_sum 0 (map unat (rev number)) mod 10 = 0"
proof -
  have "unat (foldl (+) 0 (map (\<lambda>(idx, d). luhn_term idx d) (enumerate 0 (rev number)))) = luhn_sum 0 (map unat (rev number))"
    using unat_luhn_sum [of "rev number" 0 0] assms by simp
  moreover have "(w mod 10 = 0) = (unat w mod 10 = 0)" for w :: u8
  proof -
    have "unat (w mod 10) = unat w mod 10" by (simp add: unat_mod)
    then show ?thesis by (metis unat_eq_zero)
  qed
  ultimately show ?thesis by (simp add: luhn_def)
qed

lemma luhn_substitution:
  assumes "is_digits number" "length number \<le> 28" "luhn number" "i < length number" "d \<le> 9" "d \<noteq> number ! i"
  shows "\<not> luhn (number[i := d])"
proof -
  let ?ds = "map unat (rev number)" and ?j = "length number - Suc i"
  have upd: "is_digits (number[i := d])" using assms by (auto simp: list_all_iff dest: set_update_subset_insert [THEN subsetD])
  have nth: "?ds ! ?j = unat (number ! i)" using assms by (simp add: rev_nth)
  have "number ! i \<le> 9" using assms by (simp add: list_all_length)
  with nth assms have "luhn_sum 0 (?ds[?j := unat d]) mod 10 \<noteq> luhn_sum 0 ?ds mod 10"
    by (intro luhn_sum_detects_substitution) (simp_all add: u8_le_9 word_unat_eq_iff)
  moreover have "map unat (rev (number[i := d])) = ?ds[?j := unat d]"
    using assms by (simp add: rev_update map_update)
  ultimately show ?thesis using assms upd by (simp add: luhn_eq_luhn_sum)
qed

lemma luhn_transposition:
  assumes "is_digits number" "length number \<le> 28" "luhn number" "Suc i < length number"
    "number ! i \<noteq> number ! Suc i" "{number ! i, number ! Suc i} \<noteq> {0, 9}"
  shows "\<not> luhn (number[i := number ! Suc i, Suc i := number ! i])"
proof -
  let ?ds = "map unat (rev number)" and ?j = "length number - Suc (Suc i)"
  let ?es = "number[i := number ! Suc i, Suc i := number ! i]"
  have nine: "number ! i \<le> 9" "number ! Suc i \<le> 9" using assms by (simp_all add: list_all_length)
  have nth: "?ds ! ?j = unat (number ! Suc i)" "?ds ! Suc ?j = unat (number ! i)"
    using assms by (simp_all add: rev_nth Suc_diff_Suc)
  have len: "Suc ?j = length number - Suc i" using assms by simp
  have upd: "is_digits ?es" using assms nine by (auto simp: list_all_iff dest!: set_update_subset_insert [THEN subsetD])
  have ne: "{unat (number ! Suc i), unat (number ! i)} \<noteq> {0, 9}"
  proof
    assume "{unat (number ! Suc i), unat (number ! i)} = {0, 9}"
    then have "unat (number ! i) = unat (0 :: u8) \<and> unat (number ! Suc i) = unat (9 :: u8)
        \<or> unat (number ! i) = unat (9 :: u8) \<and> unat (number ! Suc i) = unat (0 :: u8)"
      by (auto simp: doubleton_eq_iff)
    then have "{number ! i, number ! Suc i} = {0, 9}" by (auto simp only: word_unat_eq_iff [symmetric])
    with assms(6) show False by simp
  qed
  have "luhn_sum 0 (?ds[?j := ?ds ! Suc ?j, Suc ?j := ?ds ! ?j]) mod 10 \<noteq> luhn_sum 0 ?ds mod 10"
    using assms(4,5) nine ne nth
    by (intro luhn_sum_detects_transposition) (simp_all add: u8_le_9 word_unat_eq_iff)
  moreover have "map unat (rev ?es) = ?ds[?j := ?ds ! Suc ?j, Suc ?j := ?ds ! ?j]"
    unfolding nth len using assms(4) by (simp add: rev_update map_update list_update_swap rev_nth)
  ultimately show ?thesis using assms(1-3) upd by (simp add: luhn_eq_luhn_sum)
qed

section \<open>Parsing\<close>

abbreviation digit_values :: "string \<Rightarrow> u8 list" where
  "digit_values s \<equiv> map (\<lambda>c. of_nat (the (to_digit c))) s"

lemma push_digits_eq:
  "push_digits data s =
     (if list_all (\<lambda>c. to_digit c \<noteq> None) s then Inr (data @ digit_values s)
      else Inl (CardNumberValidationErr ''invalid character found in card number''))"
  by (induction s arbitrary: data) (auto split: option.split simp: ok_or_def)

lemma to_digit_le: "to_digit c = Some d \<Longrightarrow> d \<le> 9"
  by (auto simp: to_digit_def Let_def split: if_splits)

lemma is_digits_digit_values: "list_all (\<lambda>c. to_digit c \<noteq> None) s \<Longrightarrow> is_digits (digit_values s)"
proof (induction s)
  case (Cons c s)
  then obtain d where d: "to_digit c = Some d" by auto
  then have "d \<le> 9" by (rule to_digit_le)
  then have "unat (of_nat d :: u8) \<le> 9" by (simp add: unat_of_nat)
  with d Cons show ?case by (simp add: u8_le_9)
qed simp

lemma digit_not_whitespace: "to_digit c \<noteq> None \<Longrightarrow> \<not> is_whitespace c"
  by (auto simp: to_digit_def is_whitespace_def Let_def split: if_splits)

lemma digit_utf8_len: "to_digit c \<noteq> None \<Longrightarrow> utf8_len c = 1"
  by (auto simp: to_digit_def utf8_len_def Let_def split: if_splits)

text \<open>What is a card number: digits, of the right number, that pass the Luhn check.\<close>

definition well_formed_number :: "string \<Rightarrow> bool" where
  "well_formed_number s \<longleftrightarrow> list_all (\<lambda>c. to_digit c \<noteq> None) s \<and> 8 \<le> length s \<and> length s \<le> 19"

definition checksum_ok :: "string \<Rightarrow> bool" where
  "checksum_ok s \<longleftrightarrow> luhn_sum 0 (rev (map (\<lambda>c. the (to_digit c)) s)) mod 10 = 0"

lemma luhn_digit_values:
  assumes "well_formed_number s"
  shows "luhn (digit_values s) \<longleftrightarrow> checksum_ok s"
proof -
  have "unat (of_nat (the (to_digit c)) :: u8) = the (to_digit c)" if "c \<in> set s" for c
  proof -
    from that assms obtain d where d: "to_digit c = Some d" by (auto simp: well_formed_number_def list_all_iff)
    then have "d \<le> 9" by (rule to_digit_le)
    with d show ?thesis by (simp add: unat_of_nat)
  qed
  then have "map unat (rev (digit_values s)) = rev (map (\<lambda>c. the (to_digit c)) s)" by (simp add: rev_map)
  moreover have "is_digits (digit_values s)" using assms by (intro is_digits_digit_values) (simp add: well_formed_number_def)
  ultimately show ?thesis
    using assms luhn_eq_luhn_sum [of "digit_values s"] by (simp add: checksum_ok_def well_formed_number_def)
qed

lemma sanitize_card_number_eq:
  "sanitize_card_number s =
     (if well_formed_number s then Inr (checksum_ok s)
      else if list_all (\<lambda>c. to_digit c \<noteq> None) s then Inl (CardNumberValidationErr ''invalid card number length'')
      else Inl (CardNumberValidationErr ''invalid character found in card number''))"
  using luhn_digit_values [of s]
  by (auto simp: sanitize_card_number_def validate_card_number_chars_def validate_card_number_length_def
      push_digits_eq well_formed_number_def MIN_CARD_NUMBER_LENGTH_def MAX_CARD_NUMBER_LENGTH_def)

lemma well_formed_filter: "well_formed_number s \<Longrightarrow> filter (\<lambda>c. \<not> is_whitespace c) s = s"
  unfolding well_formed_number_def list_all_iff by (rule filter_True) (metis digit_not_whitespace)

lemma card_number_from_str_Inr:
  "card_number_from_str e s = Inr c \<longleftrightarrow>
     (let number = filter (\<lambda>c. \<not> is_whitespace c) s
      in c = CardNumber number \<and> well_formed_number number
         \<and> (checksum_ok number \<or> number \<in> set (valid_test_cards e)))"
  by (auto simp: card_number_from_str_def sanitize_card_number_eq Let_def)

lemma str_len_digits: "list_all (\<lambda>c. to_digit c \<noteq> None) s \<Longrightarrow> str_len s = length s"
  unfolding str_len_def
proof (induction s)
  case (Cons c s)
  then show ?case by (simp add: digit_utf8_len del: not_None_eq)
qed simp

lemma str_prefix_digits:
  "\<lbrakk>list_all (\<lambda>c. to_digit c \<noteq> None) s; n \<le> length s\<rbrakk> \<Longrightarrow> str_prefix n s = Some (take n s)"
proof (induction n s rule: str_prefix.induct)
  case (3 n c cs)
  then show ?case by (simp add: digit_utf8_len del: not_None_eq)
qed simp_all

lemma card_number_fmt_digits:
  assumes "well_formed_number s"
  shows "card_number_fmt with_type s =
    (if length s < 15 then with_type s else take 6 s @ replicate (length s - 6) CHR ''*'')"
  using assms by (simp add: well_formed_number_def card_number_fmt_def str_len_digits str_prefix_digits)

lemma count_networks_mono:
  "None \<notin> set rs \<Longrightarrow> \<exists>m. count_networks rs s n = Inr m \<and> (1 < m \<longleftrightarrow> 1 < n + length (filter (\<lambda>r. the r s) rs) \<or> 1 < n)"
proof (induction rs arbitrary: n)
  case (Cons r rs)
  then obtain is_match where "r = Some is_match" by (cases r) auto
  with Cons.prems Cons.IH [of n] Cons.IH [of "Suc n"] show ?case by auto
qed simp

text \<open>A card is co-badged when two of the networks match, in whatever order the map gives them.\<close>

lemma is_cobadged_card_counts:
  assumes compiled: "\<forall>r \<in> snd ` set card_network_regex. regex_new r \<noteq> None"
    and order: "mset (hash_values (map (\<lambda>(_, r). regex_new r) card_network_regex)) = mset (map (\<lambda>(_, r). regex_new r) card_network_regex)"
  shows "is_cobadged_card regex_new hash_values c =
    Inr (2 \<le> length (filter (\<lambda>nr. the (regex_new (snd nr)) (get_card_no c)) card_network_regex))"
proof -
  let ?rs = "map (\<lambda>(_, r). regex_new r) card_network_regex"
  let ?hs = "hash_values ?rs" and ?P = "\<lambda>r. the r (get_card_no c)"
  have "None \<notin> set ?rs" using compiled by force
  then have "None \<notin> set ?hs" by (metis order set_mset_mset)
  then obtain m where m: "count_networks ?hs (get_card_no c) 0 = Inr m" "1 < m \<longleftrightarrow> 1 < length (filter ?P ?hs)"
    using count_networks_mono [of ?hs "get_card_no c" 0] by auto
  have "length (filter ?P ?hs) = length (filter ?P ?rs)" by (metis mset_filter order size_mset)
  also have "\<dots> = length (filter (\<lambda>nr. the (regex_new (snd nr)) (get_card_no c)) card_network_regex)"
    by (simp add: filter_map comp_def case_prod_beta)
  finally show ?thesis using m by (simp add: is_cobadged_card_def Suc_le_eq numeral_2_eq_2)
qed

section \<open>Correctness\<close>

text \<open>
  C25. The Luhn check as the code computes it, in eight-bit arithmetic, rejects every card number of
  at most nineteen digits that differs from an accepted one in a single digit, and every one in which
  two different neighbouring digits other than 0 and 9 are exchanged.
\<close>

theorem luhn_detects_typing_errors:
  assumes "is_digits number" and "length number \<le> MAX_CARD_NUMBER_LENGTH" and "luhn number"
  shows "(\<forall>i d. i < length number \<longrightarrow> d \<le> 9 \<longrightarrow> d \<noteq> number ! i \<longrightarrow> \<not> luhn (number[i := d]))
    \<and> (\<forall>j. Suc j < length number \<longrightarrow> number ! j \<noteq> number ! Suc j \<longrightarrow> {number ! j, number ! Suc j} \<noteq> {0, 9} \<longrightarrow>
         \<not> luhn (number[j := number ! Suc j, Suc j := number ! j]))"
proof -
  have "length number \<le> 28" using assms(2) by (simp add: MAX_CARD_NUMBER_LENGTH_def)
  with assms show ?thesis by (simp add: luhn_substitution luhn_transposition)
qed

theorem luhn_detects_typing_errors_witness:
  "luhn [4, 2, 4, 2, 4, 2, 4, 2, 4, 2, 4, 2, 4, 2, 4, 2]
   \<and> \<not> luhn [2, 2, 4, 2, 4, 2, 4, 2, 4, 2, 4, 2, 4, 2, 4, 2] \<and> \<not> luhn [2, 4, 4, 2, 4, 2, 4, 2, 4, 2, 4, 2, 4, 2, 4, 2]
   \<and> \<not> luhn [0, 0, 0, 0, 0, 0, 0, 5]"
proof -
  let ?n = "[4, 2, 4, 2, 4, 2, 4, 2, 4, 2, 4, 2, 4, 2, 4, 2] :: u8 list" and ?z = "replicate 8 0 :: u8 list"
  have n: "is_digits ?n" "length ?n \<le> MAX_CARD_NUMBER_LENGTH" "luhn ?n"
    by (simp_all add: luhn_def luhn_term_def MAX_CARD_NUMBER_LENGTH_def enumerate_eq_zip)
  have z: "is_digits ?z" "length ?z \<le> MAX_CARD_NUMBER_LENGTH" "luhn ?z"
    by (simp_all add: luhn_def luhn_term_def MAX_CARD_NUMBER_LENGTH_def enumerate_eq_zip eval_nat_numeral)
  have "\<not> luhn (?n[0 := 2])"
    by (rule luhn_detects_typing_errors [OF n, THEN conjunct1, rule_format]) simp_all
  moreover have "\<not> luhn (?n[0 := ?n ! Suc 0, Suc 0 := ?n ! 0])"
    by (rule luhn_detects_typing_errors [OF n, THEN conjunct2, rule_format]) (simp_all add: doubleton_eq_iff)
  moreover have "\<not> luhn (?z[7 := 5])"
    by (rule luhn_detects_typing_errors [OF z, THEN conjunct1, rule_format]) simp_all
  ultimately show ?thesis using n(3) by (simp add: eval_nat_numeral)
qed

text \<open>
  C26. A string is accepted as a card number exactly when, without its white space, it is 8 to 19
  decimal digits that pass the Luhn check or are a test card outside production; the text kept of an
  accepted number is accepted again with the same result, and the network token parser agrees.
\<close>

theorem card_number_from_str_exact:
  "(card_number_from_str e s = Inr c \<longleftrightarrow>
     (let number = filter (\<lambda>c. \<not> is_whitespace c) s
      in c = CardNumber number \<and> well_formed_number number
         \<and> (checksum_ok number \<or> e \<noteq> Production \<and> number \<in> set (valid_test_cards Sandbox))))
   \<and> (\<forall>c'. card_number_from_str e s = Inr c' \<longrightarrow>
        card_number_from_str e (card_secret c') = Inr c' \<and> network_token_from_str e s = Inr (to_network_token c'))"
proof -
  have "set (valid_test_cards e) = (if e \<noteq> Production then set (valid_test_cards Sandbox) else {})"
    by (simp add: valid_test_cards_def split: env.split)
  moreover have "network_token_from_str e s = Inr (NetworkToken t)"
    if "card_number_from_str e s = Inr (CardNumber t)" for t
    using that by (auto simp: card_number_from_str_def network_token_from_str_def Let_def and_then_def
        split: sum.splits if_splits)
  ultimately show ?thesis
    by (auto simp: card_number_from_str_Inr Let_def to_network_token_def well_formed_filter)
qed

theorem card_number_from_str_exact_witness:
  "card_number_from_str Production ''4242 4242 4242 4242'' = Inr (CardNumber ''4242424242424242'')
   \<and> card_number_from_str Production ''4242424242424242'' = Inr (CardNumber ''4242424242424242'')
   \<and> network_token_from_str Production ''4242 4242 4242 4242'' = Inr (to_network_token (CardNumber ''4242424242424242''))"
proof -
  have "card_number_from_str Production ''4242 4242 4242 4242'' = Inr (CardNumber ''4242424242424242'')" by code_simp
  then show ?thesis
    using card_number_from_str_exact [of Production "''4242 4242 4242 4242''" "CardNumber ''4242424242424242''"]
    by (metis card_number.sel)
qed

text \<open>
  \<open>get_card_no\<close> returns the digits of an accepted number in clear. The test
  \<open>test_valid_card_number_deserialization\<close> in the same file expects the masked form from it.
\<close>

theorem get_card_no_in_clear:
  assumes "card_number_from_str e s = Inr c"
  shows "get_card_no c = filter (\<lambda>c. \<not> is_whitespace c) s"
  using assms by (auto simp: card_number_from_str_Inr Let_def get_card_no_def)

text \<open>
  C27. The debug form of an accepted card number shows its first six digits and its length and
  nothing else: two accepted numbers that agree in these have the same debug form. The masking
  library shows only the type of a value.
\<close>

theorem card_number_fmt_hides:
  assumes "\<And>a b. with_type a = with_type b"
    and "card_number_from_str e s = Inr c" "card_number_from_str e' s' = Inr c'"
    and "get_card_isin c = get_card_isin c'" "length (get_card_no c) = length (get_card_no c')"
  shows "card_number_fmt with_type (card_secret c) = card_number_fmt with_type (card_secret c')"
proof -
  have "well_formed_number (card_secret c)" "well_formed_number (card_secret c')"
    using assms(2,3) by (auto simp: card_number_from_str_Inr Let_def)
  with assms(1,4,5) show ?thesis by (simp add: card_number_fmt_digits get_card_isin_def get_card_no_def)
qed

theorem card_number_fmt_hides_witness:
  "card_number_fmt (\<lambda>_. ''*** String ***'') ''4242424242424242'' = ''424242**********''
   \<and> card_number_fmt (\<lambda>_. ''*** String ***'') ''4242420000000000'' = ''424242**********''"
proof -
  have "card_number_from_str Production ''4242 4242 4242 4242'' = Inr (CardNumber ''4242424242424242'')"
    "card_number_from_str Production ''4242420000000000'' = Inr (CardNumber ''4242420000000000'')" by code_simp+
  from card_number_fmt_hides [OF _ this, of "\<lambda>_. ''*** String ***''"]
  have "card_number_fmt (\<lambda>_. ''*** String ***'') ''4242424242424242''
      = card_number_fmt (\<lambda>_. ''*** String ***'') ''4242420000000000''"
    by (simp add: get_card_isin_def get_card_no_def)
  moreover have "card_number_fmt (\<lambda>_. ''*** String ***'') ''4242424242424242'' = ''424242**********''" by code_simp
  ultimately show ?thesis by simp
qed

text \<open>
  C28. A card that was accepted with its expiry date is expired exactly when the clock is strictly
  later than the first instant of the month after the expiry month, in coordinated universal time;
  at that very instant it is not yet expired. The calendar is assumed to put the midnight of the
  last day of the expiry month one day before that instant, and the instant not to exceed the
  greatest one the \<open>time\<close> library can represent.
\<close>

theorem is_expired_at_month_end:
  assumes "card_expiration_try_from now_year (m, y) = Inr e"
    and "midnight cal (uint y) (unat m) (month_length cal (uint y) (unat m)) = Some (t - nanos_per_day)"
    and "midnight cal (if m = 12 then uint y + 1 else uint y) (if m = 12 then 1 else unat m + 1) 1 = Some t"
    and "t \<le> max_instant cal"
  shows "is_expired cal now e = Inr (the (midnight cal (if m = 12 then uint y + 1 else uint y) (if m = 12 then 1 else unat m + 1) 1) < now)"
  using assms
  by (auto simp: card_expiration_try_from_def expiration_month_try_from_def expiration_year_try_from_def is_expired_def
      Let_def word_le_nat_alt and_then_def split: if_splits sum.splits)

definition sample_calendar :: calendar where
  "sample_calendar =
     \<lparr>month_length = (\<lambda>_ m. if m = 2 then 28 else if m \<in> {4, 6, 9, 11} then 30 else 31),
      midnight = (\<lambda>y m d. if y = 2025 then Some ((365 + int d - 1 + (if m = 12 then 334 else 0)) * nanos_per_day)
                          else if y = 2026 \<and> m = 1 then Some ((730 + int d - 1) * nanos_per_day) else None),
      max_instant = 10 ^ 30\<rparr>"

theorem is_expired_at_month_end_witness:
  "is_expired sample_calendar (730 * nanos_per_day) \<lparr>exp_month = CardExpirationMonth 12, exp_year = CardExpirationYear 2025\<rparr> = Inr False
   \<and> is_expired sample_calendar (730 * nanos_per_day + 1) \<lparr>exp_month = CardExpirationMonth 12, exp_year = CardExpirationYear 2025\<rparr> = Inr True"
proof -
  let ?e = "\<lparr>exp_month = CardExpirationMonth 12, exp_year = CardExpirationYear 2025\<rparr>"
  have e: "card_expiration_try_from 2025 (12, 2025) = Inr ?e" by code_simp
  have "is_expired sample_calendar now ?e = Inr (730 * nanos_per_day < now)" for now
    using is_expired_at_month_end [OF e, of sample_calendar "730 * nanos_per_day" now]
    by (simp add: sample_calendar_def nanos_per_day_def)
  then show ?thesis by simp
qed

end
