(* ===== verification/Knowledge_Macro.thy ===== *)
theory Knowledge_Macro
  imports Cgraph_Builder Euclid_Types
begin

text \<open>
  The macro \<open>knowledge!\<close> of \<open>euclid_macros/src/inner/knowledge.rs\<close>: it registers the rules of a
  program of knowledge clauses, rejects duplicate edges and cycles, and compiles the program to
  statements that build a constraint graph. The tree that \<open>syn\<close> parses is the input; the generated
  tokens are a list of statements, in which an identifier \<open>_node_i\<close> is the number \<open>i\<close>, and
  \<open>exec_stmts\<close> is what these statements do when they run. The compiling functions of the source
  return \<open>Ok\<close> on every path, so their results are left bare here.

  The iteration order of the two hash tables that the search for cycles reads is a parameter.
\<close>

subsection \<open>Knowledge programs\<close>

datatype k_comparison = KLessThan | KEqual | KGreaterThan | KGreaterThanEqual | KLessThanEqual

datatype k_value_type = KAny | KEnumVariant string | KNumber int k_comparison

record atom =
  atom_key :: string
  atom_value :: k_value_type

datatype k_strength = KNormal | KStrong

datatype k_relation = KPositive | KNegative

datatype atom_type = AtomValue k_relation atom | AtomIn string "string list" k_relation

record k_rule =
  k_lhs :: "atom_type list"
  k_strength :: k_strength
  k_rhs :: atom

type_synonym k_program = "k_rule list"

fun k_comparison_fmt :: "k_comparison \<Rightarrow> string" where
  "k_comparison_fmt KLessThan = ''< ''"
| "k_comparison_fmt KEqual = ''''"
| "k_comparison_fmt KGreaterThanEqual = ''>= ''"
| "k_comparison_fmt KLessThanEqual = ''<= ''"
| "k_comparison_fmt KGreaterThan = ''> ''"

fun k_value_to_string :: "k_value_type \<Rightarrow> string \<Rightarrow> string" where
  "k_value_to_string KAny key = key @ ''(any)''"
| "k_value_to_string (KEnumVariant s) key = key @ ''('' @ s @ '')''"
| "k_value_to_string (KNumber number comparison) key = key @ ''('' @ k_comparison_fmt comparison @ show_int number @ '')''"

definition atom_fmt :: "atom \<Rightarrow> string" where
  "atom_fmt a = k_value_to_string (atom_value a) (atom_key a)"

subsection \<open>Registration\<close>

record gen_context =
  next_idx :: nat
  next_node_idx :: nat
  idx2atom :: "nat \<rightharpoonup> atom"
  atom2idx :: "atom \<rightharpoonup> nat"
  gc_edges :: "(nat \<times> nat list) list"
  compiled_atoms :: "atom \<rightharpoonup> nat"

definition gen_context_new :: gen_context where
  "gen_context_new =
     \<lparr>next_idx = 1, next_node_idx = 1, idx2atom = Map.empty, atom2idx = Map.empty, gc_edges = [],
      compiled_atoms = Map.empty\<rparr>"

definition register_node :: "gen_context \<Rightarrow> atom \<Rightarrow> nat \<times> gen_context" where
  "register_node gc a =
     (case atom2idx gc a of
        Some idx \<Rightarrow> (idx, gc)
      | None \<Rightarrow>
          (next_idx gc,
           gc\<lparr>next_idx := next_idx gc + 1, idx2atom := (idx2atom gc)(next_idx gc \<mapsto> a),
             atom2idx := (atom2idx gc)(a \<mapsto> next_idx gc)\<rparr>))"

definition register_edge :: "gen_context \<Rightarrow> nat \<Rightarrow> nat \<Rightarrow> (string, unit, gen_context) st_result" where
  "register_edge gc from to =
     (let es = entry_or_default from id (gc_edges gc)
      in if to \<in> set (the (map_of es from)) then (Inl ''Duplicate edge detected'', gc\<lparr>gc_edges := es\<rparr>)
         else (Inr (), gc\<lparr>gc_edges := entry_or_default to id (entry_or_default from (\<lambda>ds. ds @ [to]) es)\<rparr>))"

fun register_lhs :: "gen_context \<Rightarrow> nat \<Rightarrow> atom_type list \<Rightarrow> (string, unit, gen_context) st_result" where
  "register_lhs gc to_idx [] = (Inr (), gc)"
| "register_lhs gc to_idx (AtomValue _ a # lhs) =
     (let (from_idx, gc1) = register_node gc a
      in case register_edge gc1 from_idx to_idx of
           (Inl e, gc2) \<Rightarrow> (Inl e, gc2)
         | (Inr _, gc2) \<Rightarrow> register_lhs gc2 to_idx lhs)"
| "register_lhs gc to_idx (AtomIn _ _ _ # lhs) = register_lhs gc to_idx lhs"

definition register_rule :: "gen_context \<Rightarrow> k_rule \<Rightarrow> (string, unit, gen_context) st_result" where
  "register_rule gc r =
     (let (to_idx, gc1) = register_node gc (k_rhs r) in register_lhs gc1 to_idx (k_lhs r))"

subsection \<open>The search for cycles\<close>

record fx_order =
  iter_keys :: "nat list \<Rightarrow> nat list"
  iter_dests :: "nat list \<Rightarrow> nat list"

record dfs_state =
  explored :: "nat list"
  visited :: "nat list"
  order :: "nat list"

type_synonym dfs_result = "(string + nat list option) \<times> dfs_state"

definition position :: "nat \<Rightarrow> nat list \<Rightarrow> nat option" where
  "position x xs = List.find (\<lambda>i. xs ! i = x) [0..<length xs]"

fun cycle_dests :: "(nat \<Rightarrow> dfs_state \<Rightarrow> dfs_result option) \<Rightarrow> nat list \<Rightarrow> dfs_state \<Rightarrow> dfs_result option" where
  "cycle_dests dfs [] s = Some (Inr None, s)"
| "cycle_dests dfs (dest # dests) s =
     (case dfs dest s of
        None \<Rightarrow> None
      | Some (Inl e, s') \<Rightarrow> Some (Inl e, s')
      | Some (Inr (Some cycle), s') \<Rightarrow> Some (Inr (Some cycle), s')
      | Some (Inr None, s') \<Rightarrow> cycle_dests dfs dests s')"

text \<open>The recursion is bounded by the first number; \<open>None\<close> is a search that did not end in that depth.\<close>

primrec cycle_dfs ::
  "nat \<Rightarrow> fx_order \<Rightarrow> (nat \<times> nat list) list \<Rightarrow> nat \<Rightarrow> dfs_state \<Rightarrow> dfs_result option" where
  "cycle_dfs 0 fx es node_id s = None"
| "cycle_dfs (Suc n) fx es node_id s =
     (if node_id \<in> set (explored s)
      then case position node_id (order s) of
             None \<Rightarrow> Some (Inl ''Error deciding cycle order'', s)
           | Some p \<Rightarrow> Some (Inr (Some (drop p (order s))), s)
      else if node_id \<in> set (visited s) then Some (Inr None, s)
      else
        let s1 = \<lparr>explored = node_id # explored s, visited = node_id # visited s, order = order s @ [node_id]\<rparr>
        in case map_of es node_id of
             None \<Rightarrow> Some (Inl ''Error getting edges of node'', s1)
           | Some dests \<Rightarrow>
               (case cycle_dests (cycle_dfs n fx es) (iter_dests fx dests) s1 of
                  None \<Rightarrow> None
                | Some (Inl e, s2) \<Rightarrow> Some (Inl e, s2)
                | Some (Inr (Some cycle), s2) \<Rightarrow> Some (Inr (Some cycle), s2)
                | Some (Inr None, s2) \<Rightarrow> Some (Inr None, s2\<lparr>order := butlast (order s2)\<rparr>)))"

fun join :: "string \<Rightarrow> string list \<Rightarrow> string" where
  "join sep [] = ''''"
| "join sep [s] = s"
| "join sep (s # ss) = s @ sep @ join sep ss"

definition cycle_error :: "(nat \<rightharpoonup> atom) \<Rightarrow> nat list \<Rightarrow> string + unit" where
  "cycle_error atoms ord =
     and_then (collect_results (map (\<lambda>i. ok_or (map_option atom_fmt (atoms i))
         ''Failed to find node during cycle display creation'') ord))
       (\<lambda>display_strings. case display_strings of
          [] \<Rightarrow> Inl ''Unable to fill cycle display array''
        | first # _ \<Rightarrow> Inl (''Found cycle: '' @ join '' -> '' (display_strings @ [first])))"

fun detect_loop ::
  "nat \<Rightarrow> fx_order \<Rightarrow> gen_context \<Rightarrow> nat list \<Rightarrow> nat list \<Rightarrow> (string + unit) option" where
  "detect_loop n fx gc [] total_visited = Some (Inr ())"
| "detect_loop n fx gc (node_id # rest) total_visited =
     (case cycle_dfs n fx (gc_edges gc) node_id \<lparr>explored = [], visited = total_visited, order = []\<rparr> of
        None \<Rightarrow> None
      | Some (Inl e, _) \<Rightarrow> Some (Inl e)
      | Some (Inr None, s) \<Rightarrow> detect_loop n fx gc rest (visited s)
      | Some (Inr (Some ord), _) \<Rightarrow> Some (cycle_error (idx2atom gc) ord))"

text \<open>The depth is bounded by the number of nodes, one more than which is enough.\<close>

definition detect_graph_cycles :: "fx_order \<Rightarrow> gen_context \<Rightarrow> (string + unit) option" where
  "detect_graph_cycles fx gc =
     detect_loop (Suc (length (gc_edges gc))) fx gc (iter_keys fx (map fst (gc_edges gc))) []"

subsection \<open>Compilation\<close>

datatype value_expr =
    KeyExpr string
  | VariantExpr string string
  | NumberExpr string int "num_value_refinement option"

datatype k_stmt =
    LetValueNode nat value_expr
  | LetInAggregator nat string "string list"
  | LetAllAggregator nat "(nat \<times> k_relation) list"
  | MakeEdge nat nat k_strength k_relation

definition next_node_ident :: "gen_context \<Rightarrow> nat \<times> gen_context" where
  "next_node_ident gc = (next_node_idx gc, gc\<lparr>next_node_idx := next_node_idx gc + 1\<rparr>)"

fun comp_type :: "k_comparison \<Rightarrow> num_value_refinement option" where
  "comp_type KEqual = None"
| "comp_type KLessThan = Some Refinement_LessThan"
| "comp_type KGreaterThan = Some Refinement_GreaterThan"
| "comp_type KGreaterThanEqual = Some Refinement_GreaterThanEqual"
| "comp_type KLessThanEqual = Some Refinement_LessThanEqual"

definition the_value :: "atom \<Rightarrow> value_expr" where
  "the_value a =
     (case atom_value a of
        KAny \<Rightarrow> KeyExpr (atom_key a)
      | KEnumVariant variant \<Rightarrow> VariantExpr (atom_key a) variant
      | KNumber number comparison \<Rightarrow> NumberExpr (atom_key a) number (comp_type comparison))"

definition compile_atom :: "gen_context \<Rightarrow> k_stmt list \<Rightarrow> atom \<Rightarrow> nat \<times> gen_context \<times> k_stmt list" where
  "compile_atom gc tokens a =
     (case compiled_atoms gc a of
        Some ident \<Rightarrow> (ident, gc, tokens)
      | None \<Rightarrow>
          let (identifier, gc1) = next_node_ident gc
          in (identifier, gc1\<lparr>compiled_atoms := (compiled_atoms gc1)(a \<mapsto> identifier)\<rparr>,
              tokens @ [LetValueNode identifier (the_value a)]))"

fun compile_atom_type ::
  "gen_context \<Rightarrow> k_stmt list \<Rightarrow> atom_type \<Rightarrow> (nat \<times> k_relation) \<times> gen_context \<times> k_stmt list" where
  "compile_atom_type gc tokens (AtomValue relation a) =
     (let (node_ident, gc1, tokens1) = compile_atom gc tokens a in ((node_ident, relation), gc1, tokens1))"
| "compile_atom_type gc tokens (AtomIn key values relation) =
     (let (node_ident, gc1) = next_node_ident gc
      in ((node_ident, relation), gc1, tokens @ [LetInAggregator node_ident key values]))"

fun compile_lhs ::
  "gen_context \<Rightarrow> k_stmt list \<Rightarrow> atom_type list \<Rightarrow> (nat \<times> k_relation) list \<times> gen_context \<times> k_stmt list" where
  "compile_lhs gc tokens [] = ([], gc, tokens)"
| "compile_lhs gc tokens (lhs_atom_type # rest) =
     (let (details, gc1, tokens1) = compile_atom_type gc tokens lhs_atom_type;
          (node_details, gc2, tokens2) = compile_lhs gc1 tokens1 rest
      in (details # node_details, gc2, tokens2))"

definition compile_rule :: "gen_context \<Rightarrow> k_stmt list \<Rightarrow> k_rule \<Rightarrow> gen_context \<times> k_stmt list" where
  "compile_rule gc tokens r =
     (let (rhs_ident, gc1, tokens1) = compile_atom gc tokens (k_rhs r);
          (node_details, gc2, tokens2) = compile_lhs gc1 tokens1 (k_lhs r)
      in if length node_details \<le> 1
         then (gc2, tokens2 @ map (\<lambda>(from_node, relation). MakeEdge from_node rhs_ident (k_strength r) relation) node_details)
         else let (agg_node_ident, gc3) = next_node_ident gc2
              in (gc3, tokens2 @ [LetAllAggregator agg_node_ident node_details,
                                  MakeEdge agg_node_ident rhs_ident (k_strength r) KPositive]))"

definition compile :: "gen_context \<Rightarrow> k_program \<Rightarrow> gen_context \<times> k_stmt list" where
  "compile gc program = foldl (\<lambda>(gc, tokens) r. compile_rule gc tokens r) (gc, []) program"

fun register_rules :: "gen_context \<Rightarrow> k_program \<Rightarrow> (string, unit, gen_context) st_result" where
  "register_rules gc [] = (Inr (), gc)"
| "register_rules gc (r # rs) =
     (case register_rule gc r of
        (Inl e, gc1) \<Rightarrow> (Inl e, gc1)
      | (Inr _, gc1) \<Rightarrow> register_rules gc1 rs)"

definition knowledge_inner :: "fx_order \<Rightarrow> k_program \<Rightarrow> (string + k_stmt list) option" where
  "knowledge_inner fx program =
     (case register_rules gen_context_new program of
        (Inl msg, _) \<Rightarrow> Some (Inl msg)
      | (Inr _, gc) \<Rightarrow>
          (case detect_graph_cycles fx gc of
             None \<Rightarrow> None
           | Some (Inl msg) \<Rightarrow> Some (Inl msg)
           | Some (Inr _) \<Rightarrow> Some (Inr (snd (compile gc program)))))"

subsection \<open>Acyclicity of what the search accepts\<close>

abbreviation dests_of :: "(nat \<times> nat list) list \<Rightarrow> nat \<Rightarrow> nat set" where
  "dests_of es x \<equiv> (case map_of es x of None \<Rightarrow> {} | Some ds \<Rightarrow> set ds)"

text \<open>A set of nodes that no edge leaves and whose nodes have a rank that falls along every edge.\<close>

definition settled :: "(nat \<times> nat list) list \<Rightarrow> nat set \<Rightarrow> bool" where
  "settled es F \<longleftrightarrow> (\<exists>rk :: nat \<Rightarrow> nat. \<forall>x \<in> F. \<forall>y \<in> dests_of es x. y \<in> F \<and> rk y < rk x)"

lemma settled_empty: "settled es {}"
  by (simp add: settled_def)

lemma settled_insert:
  assumes F: "settled es F" and x: "x \<notin> F" "dests_of es x \<subseteq> F"
  shows "settled es (insert x F)"
proof -
  from F obtain rk :: "nat \<Rightarrow> nat" where rk: "\<And>a y. a \<in> F \<Longrightarrow> y \<in> dests_of es a \<Longrightarrow> y \<in> F \<and> rk y < rk a"
    unfolding settled_def by blast
  have fin: "finite (dests_of es x)" by (cases "map_of es x") auto
  let ?rk = "rk(x := Suc (sum rk (dests_of es x)))"
  have "y \<in> insert x F \<and> ?rk y < ?rk a" if "a \<in> insert x F" "y \<in> dests_of es a" for a y
  proof (cases "a = x")
    case True
    with that x have y: "y \<in> F" "y \<noteq> x" "y \<in> dests_of es x" by auto
    have "rk y \<le> sum rk (dests_of es x)" by (rule member_le_sum [OF y(3) _ fin]) simp
    with y True show ?thesis by simp
  next
    case False
    with that have "a \<in> F" by simp
    from rk [OF this that(2)] x(1) False show ?thesis by auto
  qed
  then show ?thesis unfolding settled_def by blast
qed

definition dfs_inv :: "(nat \<times> nat list) list \<Rightarrow> dfs_state \<Rightarrow> bool" where
  "dfs_inv es s \<longleftrightarrow> distinct (order s) \<and> set (order s) \<subseteq> set (explored s) \<and> set (order s) \<subseteq> set (visited s)
     \<and> settled es (set (visited s) - set (order s))"

text \<open>What a call that finds no cycle leaves behind.\<close>

definition dfs_post :: "(nat \<times> nat list) list \<Rightarrow> dfs_state \<Rightarrow> dfs_state \<Rightarrow> bool" where
  "dfs_post es s s' \<longleftrightarrow> dfs_inv es s' \<and> order s' = order s \<and> set (visited s) \<subseteq> set (visited s')"

lemma cycle_dests_post:
  assumes "\<And>d s s'. \<lbrakk>dfs d s = Some (Inr None, s'); dfs_inv es s\<rbrakk>
      \<Longrightarrow> dfs_post es s s' \<and> d \<in> set (visited s') - set (order s)"
    and "cycle_dests dfs ds s = Some (Inr None, s')" "dfs_inv es s"
  shows "dfs_post es s s' \<and> set ds \<subseteq> set (visited s') - set (order s)"
  using assms(2,3)
proof (induction ds arbitrary: s)
  case (Cons d ds)
  from Cons.prems(1) obtain s1 where s1: "dfs d s = Some (Inr None, s1)" "cycle_dests dfs ds s1 = Some (Inr None, s')"
    by (auto split: option.splits prod.splits sum.splits)
  from assms(1) [OF s1(1) Cons.prems(2)] have "dfs_post es s s1" "d \<in> set (visited s1) - set (order s)" by auto
  moreover from this have "dfs_post es s1 s' \<and> set ds \<subseteq> set (visited s') - set (order s1)"
    by (intro Cons.IH [OF s1(2)]) (simp add: dfs_post_def)
  ultimately show ?case by (auto simp: dfs_post_def)
qed (simp add: dfs_post_def)

lemma cycle_dfs_post:
  assumes it: "\<And>ds. set (iter_dests fx ds) = set ds"
  shows "\<lbrakk>cycle_dfs n fx es x s = Some (Inr None, s'); dfs_inv es s\<rbrakk>
    \<Longrightarrow> dfs_post es s s' \<and> x \<in> set (visited s') - set (order s)"
proof (induction n arbitrary: x s s')
  case (Suc n)
  have ne: "x \<notin> set (explored s)" using Suc.prems(1) by (auto split: option.splits)
  show ?case
  proof (cases "x \<in> set (visited s)")
    case True
    with ne Suc.prems show ?thesis by (auto simp: dfs_post_def dfs_inv_def)
  next
    case False
    let ?s1 = "\<lparr>explored = x # explored s, visited = x # visited s, order = order s @ [x]\<rparr>"
    from Suc.prems(1) ne False obtain ds s2 where ds: "map_of es x = Some ds"
      and s2: "cycle_dests (cycle_dfs n fx es) (iter_dests fx ds) ?s1 = Some (Inr None, s2)"
      and s': "s' = s2\<lparr>order := butlast (order s2)\<rparr>"
      by (auto simp: Let_def split: option.splits prod.splits sum.splits)
    have nx: "x \<notin> set (order s)" using False Suc.prems(2) by (auto simp: dfs_inv_def)
    have "set (x # visited s) - set (order s @ [x]) = set (visited s) - set (order s)" using False by auto
    then have "dfs_inv es ?s1" using Suc.prems(2) nx by (auto simp: dfs_inv_def)
    from cycle_dests_post [OF Suc.IH s2 this]
    have post: "dfs_post es ?s1 s2" "set ds \<subseteq> set (visited s2) - set (order s @ [x])" by (simp_all add: it)
    have eq: "set (visited s2) - set (order s) = insert x (set (visited s2) - set (order s @ [x]))"
      using post(1) nx by (auto simp: dfs_post_def)
    have "settled es (insert x (set (visited s2) - set (order s @ [x])))"
      using post ds by (intro settled_insert) (auto simp: dfs_post_def dfs_inv_def)
    then have "dfs_inv es s'" using post(1) Suc.prems(2) unfolding s' by (auto simp: dfs_post_def dfs_inv_def eq)
    then show ?thesis using post(1) nx by (auto simp: dfs_post_def s')
  qed
qed simp

lemma detect_loop_settled:
  assumes it: "\<And>ds. set (iter_dests fx ds) = set ds"
  shows "\<lbrakk>detect_loop n fx gc ks vs = Some (Inr ()); settled (gc_edges gc) (set vs)\<rbrakk>
    \<Longrightarrow> \<exists>F. settled (gc_edges gc) F \<and> set ks \<union> set vs \<subseteq> F"
proof (induction ks arbitrary: vs)
  case (Cons k ks)
  let ?s = "\<lparr>explored = [], visited = vs, order = []\<rparr>"
  from Cons.prems(1) obtain s where s: "cycle_dfs n fx (gc_edges gc) k ?s = Some (Inr None, s)"
    and rest: "detect_loop n fx gc ks (visited s) = Some (Inr ())"
    by (auto simp: cycle_error_def and_then_def split: option.splits prod.splits sum.splits list.splits)
  have "dfs_inv (gc_edges gc) ?s" using Cons.prems(2) by (simp add: dfs_inv_def)
  from cycle_dfs_post [OF it s this] have "dfs_post (gc_edges gc) ?s s" "k \<in> set (visited s)" by auto
  moreover obtain F where "settled (gc_edges gc) F" "set ks \<union> set (visited s) \<subseteq> F"
    using Cons.IH [OF rest] calculation by (auto simp: dfs_post_def dfs_inv_def)
  ultimately have "settled (gc_edges gc) F" "set (k # ks) \<union> set vs \<subseteq> F" by (auto simp: dfs_post_def)
  then show ?case by blast
qed auto

subsection \<open>The search ends\<close>

lemma cycle_dests_visited:
  assumes "\<And>d s r s'. dfs d s = Some (r, s') \<Longrightarrow> set (visited s) \<subseteq> set (visited s')"
    and "cycle_dests dfs ds s = Some (r, s')"
  shows "set (visited s) \<subseteq> set (visited s')"
  using assms(2)
proof (induction ds arbitrary: s)
  case (Cons d ds)
  from Cons.prems obtain r1 s1 where s1: "dfs d s = Some (r1, s1)" by (auto split: option.splits prod.splits)
  then have "set (visited s1) \<subseteq> set (visited s')"
    using Cons.prems Cons.IH [of s1] by (auto split: sum.splits option.splits)
  with assms(1) [OF s1] show ?case by simp
qed simp

lemma cycle_dfs_visited: "cycle_dfs n fx es x s = Some (r, s') \<Longrightarrow> set (visited s) \<subseteq> set (visited s')"
proof (induction n arbitrary: x s r s')
  case (Suc n)
  show ?case
  proof (cases "x \<in> set (explored s) \<or> x \<in> set (visited s) \<or> map_of es x = None")
    case True
    with Suc.prems show ?thesis by (auto simp: Let_def split: if_splits option.splits)
  next
    case False
    let ?s1 = "\<lparr>explored = x # explored s, visited = x # visited s, order = order s @ [x]\<rparr>"
    obtain ds where ds: "map_of es x = Some ds" using False by auto
    with False Suc.prems obtain r2 s2 where
      s2: "cycle_dests (cycle_dfs n fx es) (iter_dests fx ds) ?s1 = Some (r2, s2)" and s': "visited s' = visited s2"
      by (auto simp: Let_def split: option.splits prod.splits sum.splits)
    from cycle_dests_visited [OF Suc.IH s2] s' show ?thesis by simp
  qed
qed simp

lemma cycle_dests_returns:
  fixes m :: "dfs_state \<Rightarrow> nat"
  assumes "\<And>d s. m s < n \<Longrightarrow> \<exists>rs. dfs d s = Some rs"
    and "\<And>d s r s'. dfs d s = Some (r, s') \<Longrightarrow> m s' \<le> m s" and "m s < n"
  shows "\<exists>rs. cycle_dests dfs ds s = Some rs"
  using assms(3)
proof (induction ds arbitrary: s)
  case (Cons d ds)
  obtain r s1 where s1: "dfs d s = Some (r, s1)" using assms(1) [OF Cons.prems, of d] by auto
  have "m s1 < n" using assms(2) [OF s1] Cons.prems by simp
  from Cons.IH [OF this] s1 show ?case by (auto split: sum.split option.split)
qed simp

abbreviation unvisited :: "(nat \<times> nat list) list \<Rightarrow> dfs_state \<Rightarrow> nat" where
  "unvisited es s \<equiv> card (fst ` set es - set (visited s))"

lemma cycle_dfs_returns: "unvisited es s < n \<Longrightarrow> \<exists>rs. cycle_dfs n fx es x s = Some rs"
proof (induction n arbitrary: x s)
  case (Suc n)
  show ?case
  proof (cases "x \<in> set (explored s) \<or> x \<in> set (visited s) \<or> map_of es x = None")
    case True
    then show ?thesis by (auto simp: Let_def split: option.splits)
  next
    case False
    let ?s1 = "\<lparr>explored = x # explored s, visited = x # visited s, order = order s @ [x]\<rparr>"
    obtain ds where ds: "map_of es x = Some ds" using False by auto
    then have x: "x \<in> fst ` set es" by (auto dest: map_of_SomeD intro: rev_image_eqI)
    have "fst ` set es - set (visited ?s1) \<subset> fst ` set es - set (visited s)" using x False by auto
    then have "unvisited es ?s1 < unvisited es s" by (intro psubset_card_mono) simp_all
    with Suc.prems have lt: "unvisited es ?s1 < n" by linarith
    have dec: "unvisited es t' \<le> unvisited es t" if "cycle_dfs n fx es d t = Some (r, t')" for d t r t'
      using cycle_dfs_visited [OF that] by (intro card_mono) auto
    have "\<exists>rs. cycle_dests (cycle_dfs n fx es) (iter_dests fx ds) ?s1 = Some rs"
      by (rule cycle_dests_returns [where m = "unvisited es" and n = n and dfs = "cycle_dfs n fx es", OF Suc.IH dec lt])
    then obtain rs where "cycle_dests (cycle_dfs n fx es) (iter_dests fx ds) ?s1 = Some rs" by blast
    with ds False show ?thesis by (cases rs) (auto simp: Let_def split: sum.split option.split)
  qed
qed simp

lemma detect_loop_returns: "length (gc_edges gc) < n \<Longrightarrow> \<exists>r. detect_loop n fx gc ks vs = Some r"
proof (induction ks arbitrary: vs)
  case (Cons k ks)
  let ?s = "\<lparr>explored = [], visited = vs, order = []\<rparr>"
  have "unvisited (gc_edges gc) ?s \<le> card (fst ` set (gc_edges gc))" by (intro card_mono) auto
  also have "\<dots> \<le> length (gc_edges gc)" by (metis card_length length_map list.set_map)
  finally have "unvisited (gc_edges gc) ?s < n" using Cons.prems by simp
  from cycle_dfs_returns [OF this] obtain r s where "cycle_dfs n fx (gc_edges gc) k ?s = Some (r, s)" by fastforce
  with Cons show ?case by (auto split: sum.split option.split)
qed simp

lemma detect_graph_cycles_returns: "\<exists>r. detect_graph_cycles fx gc = Some r"
  unfolding detect_graph_cycles_def by (rule detect_loop_returns) simp

subsection \<open>What registration records\<close>

fun rule_pairs :: "atom_type list \<Rightarrow> atom \<Rightarrow> (atom \<times> atom) list" where
  "rule_pairs [] c = []"
| "rule_pairs (AtomValue _ a # lhs) c = (a, c) # rule_pairs lhs c"
| "rule_pairs (AtomIn _ _ _ # lhs) c = rule_pairs lhs c"

definition program_pairs :: "k_program \<Rightarrow> (atom \<times> atom) list" where
  "program_pairs program = concat (map (\<lambda>r. rule_pairs (k_lhs r) (k_rhs r)) program)"

definition reg_inv :: "gen_context \<Rightarrow> (atom \<times> atom) list \<Rightarrow> bool" where
  "reg_inv gc P \<longleftrightarrow>
     (\<forall>a i. atom2idx gc a = Some i \<longrightarrow> i < next_idx gc)
     \<and> (\<forall>a b i. atom2idx gc a = Some i \<longrightarrow> atom2idx gc b = Some i \<longrightarrow> a = b)
     \<and> (\<forall>(a, c) \<in> set P. \<exists>i j. atom2idx gc a = Some i \<and> atom2idx gc c = Some j \<and> j \<in> dests_of (gc_edges gc) i)
     \<and> distinct P"

lemma register_node_inv:
  assumes "register_node gc a = (i, gc')" "reg_inv gc P"
  shows "reg_inv gc' P \<and> atom2idx gc' a = Some i \<and> (\<forall>b j. atom2idx gc b = Some j \<longrightarrow> atom2idx gc' b = Some j)"
proof (cases "atom2idx gc a")
  case (Some j)
  with assms show ?thesis by (simp add: register_node_def)
next
  case None
  with assms(1) have i: "i = next_idx gc" and gc': "gc' = gc\<lparr>next_idx := next_idx gc + 1,
      idx2atom := (idx2atom gc)(next_idx gc \<mapsto> a), atom2idx := (atom2idx gc)(a \<mapsto> next_idx gc)\<rparr>"
    by (auto simp: register_node_def)
  have keep: "atom2idx gc' b = Some j" if "atom2idx gc b = Some j" for b j using that None by (auto simp: gc')
  have lt: "\<And>b j. atom2idx gc b = Some j \<Longrightarrow> j < next_idx gc"
    and inj: "\<And>b c j. atom2idx gc b = Some j \<Longrightarrow> atom2idx gc c = Some j \<Longrightarrow> b = c"
    and P: "\<And>b c. (b, c) \<in> set P \<Longrightarrow> \<exists>i j. atom2idx gc b = Some i \<and> atom2idx gc c = Some j \<and> j \<in> dests_of (gc_edges gc) i"
    and d: "distinct P"
    using assms(2) unfolding reg_inv_def by blast+
  have "reg_inv gc' P"
    unfolding reg_inv_def
  proof (intro conjI)
    show "\<forall>b j. atom2idx gc' b = Some j \<longrightarrow> j < next_idx gc'" using lt by (auto simp: gc' less_Suc_eq)
    show "\<forall>b c j. atom2idx gc' b = Some j \<longrightarrow> atom2idx gc' c = Some j \<longrightarrow> b = c"
      using inj lt by (auto simp: gc' dest: lt)
    show "\<forall>(b, c) \<in> set P. \<exists>i j. atom2idx gc' b = Some i \<and> atom2idx gc' c = Some j \<and> j \<in> dests_of (gc_edges gc') i"
    proof safe
      fix b c assume "(b, c) \<in> set P"
      from P [OF this] obtain i j where "atom2idx gc b = Some i" "atom2idx gc c = Some j" "j \<in> dests_of (gc_edges gc) i" by blast
      moreover have "gc_edges gc' = gc_edges gc" by (simp add: gc')
      ultimately show "\<exists>i j. atom2idx gc' b = Some i \<and> atom2idx gc' c = Some j \<and> j \<in> dests_of (gc_edges gc') i"
        using keep by (intro exI [of _ i] exI [of _ j]) simp
    qed
  qed (rule d)
  with i keep show ?thesis by (simp add: gc')
qed

lemma register_edge_inv:
  assumes "register_edge gc i j = (Inr u, gc')" "reg_inv gc P" "atom2idx gc a = Some i" "atom2idx gc c = Some j"
  shows "reg_inv gc' (P @ [(a, c)]) \<and> atom2idx gc' = atom2idx gc"
proof -
  have gc': "gc' = gc\<lparr>gc_edges := entry_or_default j id (entry_or_default i (\<lambda>ds. ds @ [j]) (entry_or_default i id (gc_edges gc)))\<rparr>"
    and new: "j \<notin> dests_of (gc_edges gc) i"
    using assms(1) by (auto simp: register_edge_def Let_def map_of_entry split: if_splits option.splits)
  have dests: "dests_of (gc_edges gc') x = dests_of (gc_edges gc) x \<union> (if x = i then {j} else {})" for x
    by (auto simp: gc' map_of_entry split: option.splits)
  have "(a, c) \<notin> set P" using assms(2-4) new unfolding reg_inv_def by fastforce
  with assms(2-4) show ?thesis unfolding reg_inv_def dests by (fastforce simp: gc')
qed

lemma register_lhs_inv:
  "\<lbrakk>register_lhs gc j lhs = (Inr u, gc'); reg_inv gc P; atom2idx gc c = Some j\<rbrakk>
    \<Longrightarrow> reg_inv gc' (P @ rule_pairs lhs c)"
proof (induction gc j lhs arbitrary: P rule: register_lhs.induct)
  case (2 gc j rel a lhs)
  obtain i gc1 where n: "register_node gc a = (i, gc1)" by fastforce
  from register_node_inv [OF n "2.prems"(2)] "2.prems"(3)
  have gc1: "reg_inv gc1 P" "atom2idx gc1 a = Some i" "atom2idx gc1 c = Some j" by simp_all
  obtain r gc2 where e: "register_edge gc1 i j = (r, gc2)" by fastforce
  with "2.prems"(1) n have r: "r = Inr ()" and rest: "register_lhs gc2 j lhs = (Inr u, gc')"
    by (auto split: sum.splits)
  from register_edge_inv [OF e [unfolded r] gc1] have gc2: "reg_inv gc2 (P @ [(a, c)])" "atom2idx gc2 c = Some j"
    using gc1(3) by simp_all
  from "2.IH" [OF n [symmetric] refl e [symmetric] r rest gc2] show ?case by simp
qed simp_all

lemma register_rules_inv:
  "\<lbrakk>register_rules gc rs = (Inr u, gc'); reg_inv gc P\<rbrakk> \<Longrightarrow> reg_inv gc' (P @ program_pairs rs)"
proof (induction gc rs arbitrary: P rule: register_rules.induct)
  case (2 gc r rs)
  obtain res gc1 where r: "register_rule gc r = (res, gc1)" by fastforce
  with "2.prems"(1) have res: "res = Inr ()" and rest: "register_rules gc1 rs = (Inr u, gc')"
    by (auto split: sum.splits)
  obtain j gc0 where n: "register_node gc (k_rhs r) = (j, gc0)" by fastforce
  have lhs: "register_lhs gc0 j (k_lhs r) = (Inr (), gc1)" using r n res by (simp add: register_rule_def)
  from register_node_inv [OF n "2.prems"(2)] register_lhs_inv [OF lhs]
  have "reg_inv gc1 (P @ rule_pairs (k_lhs r) (k_rhs r))" by simp
  from "2.IH" [OF r [symmetric] res rest this] show ?case by (simp add: program_pairs_def)
qed (simp add: program_pairs_def)

lemma reg_inv_pair:
  assumes "reg_inv gc P" "(a, c) \<in> set P"
  shows "\<exists>i j. atom2idx gc a = Some i \<and> atom2idx gc c = Some j \<and> j \<in> dests_of (gc_edges gc) i"
proof -
  have "\<forall>(a, c) \<in> set P. \<exists>i j. atom2idx gc a = Some i \<and> atom2idx gc c = Some j \<and> j \<in> dests_of (gc_edges gc) i"
    using assms(1) unfolding reg_inv_def by blast
  from bspec [OF this assms(2)] show ?thesis by simp
qed

lemma reg_inv_new: "reg_inv gen_context_new []"
  by (simp add: reg_inv_def gen_context_new_def)

text \<open>An accepted program relates no two atoms twice and its atoms can be ranked along the clauses.\<close>

lemma accepted_ranked:
  assumes it: "\<And>ks. set (iter_keys fx ks) = set ks" "\<And>ds. set (iter_dests fx ds) = set ds"
    and ok: "knowledge_inner fx program = Some (Inr stmts)"
  obtains rank :: "atom \<Rightarrow> nat" where "distinct (program_pairs program)"
    "\<And>a c. (a, c) \<in> set (program_pairs program) \<Longrightarrow> rank a < rank c"
proof -
  obtain u gc where reg: "register_rules gen_context_new program = (Inr u, gc)"
    and det: "detect_graph_cycles fx gc = Some (Inr ())"
    using ok by (auto simp: knowledge_inner_def split: prod.splits sum.splits option.splits)
  have inv: "reg_inv gc (program_pairs program)" using register_rules_inv [OF reg reg_inv_new] by simp
  obtain F where F: "fst ` set (gc_edges gc) \<subseteq> F" and st: "settled (gc_edges gc) F"
    using detect_loop_settled [OF it(2) det [unfolded detect_graph_cycles_def]] by (auto simp: settled_empty it(1))
  from st obtain rk :: "nat \<Rightarrow> nat" where rk: "\<And>x y. x \<in> F \<Longrightarrow> y \<in> dests_of (gc_edges gc) x \<Longrightarrow> rk y < rk x"
    unfolding settled_def by blast
  let ?M = "sum rk {..<next_idx gc}"
  let ?rank = "\<lambda>a. case atom2idx gc a of None \<Rightarrow> 0 | Some i \<Rightarrow> ?M - rk i"
  have "?rank a < ?rank c" if pair: "(a, c) \<in> set (program_pairs program)" for a c
  proof -
    obtain i j where ij: "atom2idx gc a = Some i" "atom2idx gc c = Some j" "j \<in> dests_of (gc_edges gc) i"
      using reg_inv_pair [OF inv pair] by blast
    then obtain ds where "map_of (gc_edges gc) i = Some ds" by (cases "map_of (gc_edges gc) i") simp_all
    then have "i \<in> F" using F by (metis fst_conv image_eqI map_of_SomeD subsetD)
    from rk [OF this ij(3)] have "rk j < rk i" .
    moreover have "rk i \<le> ?M" using inv ij(1) by (intro member_le_sum) (auto simp: reg_inv_def)
    ultimately show ?thesis using ij by simp
  qed
  then show ?thesis using inv that [of ?rank] by (simp add: reg_inv_def)
qed

lemma knowledge_inner_returns: "\<exists>r. knowledge_inner fx program = Some r"
proof (cases "register_rules gen_context_new program")
  case (Pair res gc)
  obtain r where "detect_graph_cycles fx gc = Some r" using detect_graph_cycles_returns by blast
  with Pair show ?thesis by (cases res; cases r) (simp_all add: knowledge_inner_def)
qed

end
