(* ===== verification/Knowledge_Graph.thy ===== *)
theory Knowledge_Graph
  imports Knowledge_Macro Cgraph_Sat
begin

text \<open>
  What the statements generated by \<open>knowledge!\<close> do when they run, on the graph builder of
  \<open>Cgraph_Builder\<close>. The names in the generated code are resolved by the Rust compiler in the scope of
  \<open>euclid_graph_prelude\<close>; the record \<open>names\<close> holds what they resolve to. Each \<open>expect\<close> of the generated
  code is a branch \<open>Panicked\<close>.

  The main result is that no \<open>expect\<close> in the code generated from an accepted program can fail, and
  that the graph it builds has no cycle, which is what the checking of nodes relies on.
\<close>

subsection \<open>Running generated code\<close>

record ('v, 'k) names =
  key_named :: "string \<Rightarrow> 'k"
  variant_named :: "string \<Rightarrow> string \<Rightarrow> 'v"
  number_named :: "string \<Rightarrow> int \<Rightarrow> num_value_refinement option \<Rightarrow> 'v"

fun eval_expr :: "('v, 'k) names \<Rightarrow> value_expr \<Rightarrow> ('v, 'k) node_value" where
  "eval_expr N (KeyExpr key) = KeyOf (key_named N key)"
| "eval_expr N (VariantExpr key variant) = ValueOf (variant_named N key variant)"
| "eval_expr N (NumberExpr key number refinement) = ValueOf (number_named N key number refinement)"

fun cg_strength :: "k_strength \<Rightarrow> strength" where
  "cg_strength KNormal = Normal"
| "cg_strength KStrong = Strong"

fun cg_relation :: "k_relation \<Rightarrow> relation" where
  "cg_relation KPositive = Positive"
| "cg_relation KNegative = Negative"

datatype exec_failure = Panicked string | Unbound nat

type_synonym ('v, 'k, 'm) exec_state = "(nat \<rightharpoonup> node_id) \<times> ('v, 'k, 'm) constraint_graph_builder"

text \<open>
  One statement of the generated code. A failing \<open>expect\<close> is \<open>Panicked\<close>; the edge out of an
  all-aggregator has a message of its own in the source, which is not distinguished here.
\<close>

fun exec_stmt ::
  "('v \<Rightarrow> 'k) \<Rightarrow> ('v, 'k) names \<Rightarrow> ('v, 'k, 'm) exec_state \<Rightarrow> k_stmt \<Rightarrow> exec_failure + ('v, 'k, 'm) exec_state" where
  "exec_stmt get_key N (env, b) (LetValueNode i e) =
     (let (n, b') = make_value_node b (eval_expr N e) None None in Inr (env(i \<mapsto> n), b'))"
| "exec_stmt get_key N (env, b) (LetInAggregator i key values) =
     (case make_in_aggregator get_key b (map (variant_named N key) values) None None of
        (Inl _, _) \<Rightarrow> Inl (Panicked ''Failed to make In aggregator'')
      | (Inr n, b') \<Rightarrow> Inr (env(i \<mapsto> n), b'))"
| "exec_stmt get_key N (env, b) (LetAllAggregator i ns) =
     and_then (collect_results (map (\<lambda>(j, rel). and_then (ok_or (env j) (Unbound j))
         (\<lambda>n. Inr (n, cg_relation rel, Strong))) ns))
       (\<lambda>nodes. case make_all_aggregator b nodes None None None of
          (Inl _, _) \<Rightarrow> Inl (Panicked ''Failed to make all aggregator node'')
        | (Inr n, b') \<Rightarrow> Inr (env(i \<mapsto> n), b'))"
| "exec_stmt get_key N (env, b) (MakeEdge i j st rel) =
     and_then (ok_or (env i) (Unbound i)) (\<lambda>n.
     and_then (ok_or (env j) (Unbound j)) (\<lambda>m.
       case make_edge b n m (cg_strength st) (cg_relation rel) None of
         (Inl _, _) \<Rightarrow> Inl (Panicked ''Failed to make edge'')
       | (Inr _, b') \<Rightarrow> Inr (env, b')))"

fun exec_stmts ::
  "('v \<Rightarrow> 'k) \<Rightarrow> ('v, 'k) names \<Rightarrow> ('v, 'k, 'm) exec_state \<Rightarrow> k_stmt list \<Rightarrow> exec_failure + ('v, 'k, 'm) exec_state" where
  "exec_stmts get_key N \<sigma> [] = Inr \<sigma>"
| "exec_stmts get_key N \<sigma> (s # ss) = and_then (exec_stmt get_key N \<sigma> s) (\<lambda>\<sigma>'. exec_stmts get_key N \<sigma>' ss)"

definition run_knowledge ::
  "('v \<Rightarrow> 'k) \<Rightarrow> ('v, 'k) names \<Rightarrow> k_stmt list \<Rightarrow> exec_failure + ('v, 'k, 'm) constraint_graph" where
  "run_knowledge get_key N stmts =
     and_then (exec_stmts get_key N (Map.empty, builder_new) stmts) (\<lambda>(_, b). Inr (build b))"

subsection \<open>Well-formed statement lists\<close>

fun binds :: "k_stmt \<Rightarrow> nat set" where
  "binds (LetValueNode i _) = {i}"
| "binds (LetInAggregator i _ _) = {i}"
| "binds (LetAllAggregator i _) = {i}"
| "binds (MakeEdge _ _ _ _) = {}"

fun links :: "k_stmt \<Rightarrow> (nat \<times> nat) set" where
  "links (LetAllAggregator i ns) = (\<lambda>(j, _). (j, i)) ` set ns"
| "links (MakeEdge i j _ _) = {(i, j)}"
| "links _ = {}"

abbreviation bound :: "k_stmt list \<Rightarrow> nat set" where
  "bound ss \<equiv> \<Union> (binds ` set ss)"

abbreviation linked :: "k_stmt list \<Rightarrow> (nat \<times> nat) set" where
  "linked ss \<equiv> \<Union> (links ` set ss)"

abbreviation value_exprs :: "k_stmt list \<Rightarrow> value_expr set" where
  "value_exprs ss \<equiv> {e. \<exists>i. LetValueNode i e \<in> set ss}"

text \<open>Whether a statement can follow the statements \<open>ss\<close>.\<close>

fun fits_after :: "('v \<Rightarrow> 'k) \<Rightarrow> ('v, 'k) names \<Rightarrow> k_stmt list \<Rightarrow> k_stmt \<Rightarrow> bool" where
  "fits_after get_key N ss (LetValueNode i e) \<longleftrightarrow> i \<notin> bound ss \<and> eval_expr N e \<notin> eval_expr N ` value_exprs ss"
| "fits_after get_key N ss (LetInAggregator i key values) \<longleftrightarrow>
     i \<notin> bound ss \<and> values \<noteq> []
     \<and> (\<forall>v \<in> set values. get_key (variant_named N key v) = get_key (variant_named N key (hd values)))"
| "fits_after get_key N ss (LetAllAggregator i ns) \<longleftrightarrow> i \<notin> bound ss \<and> fst ` set ns \<subseteq> bound ss \<and> distinct (map fst ns)"
| "fits_after get_key N ss (MakeEdge i j _ _) \<longleftrightarrow> i \<in> bound ss \<and> j \<in> bound ss \<and> (i, j) \<notin> linked ss"

inductive well_formed :: "('v \<Rightarrow> 'k) \<Rightarrow> ('v, 'k) names \<Rightarrow> k_stmt list \<Rightarrow> bool"
  for get_key :: "'v \<Rightarrow> 'k" and N :: "('v, 'k) names" where
  wf_Nil: "well_formed get_key N []"
| wf_snoc: "\<lbrakk>well_formed get_key N ss; fits_after get_key N ss s\<rbrakk> \<Longrightarrow> well_formed get_key N (ss @ [s])"

text \<open>The state after running the statements \<open>ss\<close>.\<close>

definition exec_inv ::
  "('v \<Rightarrow> 'k) \<Rightarrow> ('v, 'k) names \<Rightarrow> k_stmt list \<Rightarrow> (nat \<rightharpoonup> node_id) \<Rightarrow> ('v, 'k, 'm) constraint_graph_builder \<Rightarrow> bool" where
  "exec_inv get_key N ss env b \<longleftrightarrow>
     builder_inv get_key b \<and> dom env = bound ss
     \<and> (\<forall>i n. env i = Some n \<longrightarrow> node_get_id n < length (dm_data (b_nodes b)))
     \<and> (\<forall>i j n. env i = Some n \<longrightarrow> env j = Some n \<longrightarrow> i = j)
     \<and> dom (b_value_map b) \<subseteq> eval_expr N ` value_exprs ss
     \<and> (\<forall>e \<in> set (dm_data (b_edges b)). edge_domain e = None
          \<and> (\<exists>(i, j) \<in> linked ss. env i = Some (edge_pred e) \<and> env j = Some (edge_succ e)))"

lemma exec_stmts_append:
  "exec_stmts get_key N \<sigma> (xs @ ys) = and_then (exec_stmts get_key N \<sigma> xs) (\<lambda>\<sigma>'. exec_stmts get_key N \<sigma>' ys)"
proof (induction xs arbitrary: \<sigma>)
  case (Cons x xs)
  then show ?case by (cases "exec_stmt get_key N \<sigma> x") simp_all
qed simp

lemma exec_inv_new: "exec_inv get_key N [] Map.empty builder_new"
  by (simp add: exec_inv_def builder_new_inv) (simp add: builder_new_def)

text \<open>A new node, bound to a new identifier.\<close>

lemma exec_inv_push:
  assumes inv: "exec_inv get_key N ss env b" and i: "binds s = {i}" "i \<notin> bound ss"
    and n: "n = NodeId (length (dm_data (b_nodes b)))"
    and b': "builder_inv get_key b'" "length (dm_data (b_nodes b')) = Suc (length (dm_data (b_nodes b)))"
    and vm: "dom (b_value_map b') \<subseteq> eval_expr N ` value_exprs (ss @ [s])"
    and es: "\<forall>e \<in> set (dm_data (b_edges b')) - set (dm_data (b_edges b)). edge_domain e = None \<and> edge_succ e = n
        \<and> (\<exists>j. (j, i) \<in> links s \<and> env j = Some (edge_pred e))"
  shows "exec_inv get_key N (ss @ [s]) (env(i \<mapsto> n)) b'"
proof -
  have d: "i \<notin> dom env" using inv i(2) by (simp add: exec_inv_def)
  have lt: "\<And>j m. env j = Some m \<Longrightarrow> node_get_id m < length (dm_data (b_nodes b))"
    and inj: "\<And>j k m. env j = Some m \<Longrightarrow> env k = Some m \<Longrightarrow> j = k"
    using inv unfolding exec_inv_def by blast+
  show ?thesis
    unfolding exec_inv_def
  proof (intro conjI)
    show "dom (env(i \<mapsto> n)) = bound (ss @ [s])" using inv i(1) by (auto simp: exec_inv_def)
    show "\<forall>j m. (env(i \<mapsto> n)) j = Some m \<longrightarrow> node_get_id m < length (dm_data (b_nodes b'))"
      using lt b'(2) n by (auto simp: less_Suc_eq)
    show "\<forall>j k m. (env(i \<mapsto> n)) j = Some m \<longrightarrow> (env(i \<mapsto> n)) k = Some m \<longrightarrow> j = k"
      using inj lt n by (auto dest: lt)
    show "\<forall>e \<in> set (dm_data (b_edges b')). edge_domain e = None
        \<and> (\<exists>(j, k) \<in> linked (ss @ [s]). (env(i \<mapsto> n)) j = Some (edge_pred e) \<and> (env(i \<mapsto> n)) k = Some (edge_succ e))"
    proof
      fix e assume e: "e \<in> set (dm_data (b_edges b'))"
      show "edge_domain e = None
        \<and> (\<exists>(j, k) \<in> linked (ss @ [s]). (env(i \<mapsto> n)) j = Some (edge_pred e) \<and> (env(i \<mapsto> n)) k = Some (edge_succ e))"
      proof (cases "e \<in> set (dm_data (b_edges b))")
        case True
        then obtain j k where "edge_domain e = None" "(j, k) \<in> linked ss" "env j = Some (edge_pred e)" "env k = Some (edge_succ e)"
          using inv unfolding exec_inv_def by blast
        moreover from this d have "j \<noteq> i" "k \<noteq> i" by auto
        ultimately show ?thesis by (auto intro!: bexI [of _ "(j, k)"])
      next
        case False
        with es e obtain j where "edge_domain e = None" "edge_succ e = n" "(j, i) \<in> links s" "env j = Some (edge_pred e)" by blast
        moreover from this d have "j \<noteq> i" by auto
        ultimately show ?thesis by (auto intro!: bexI [of _ "(j, i)"])
      qed
    qed
  qed (use b' vm in auto)
qed

text \<open>An edge between nodes that have none yet.\<close>

lemma make_edge_new:
  assumes inv: "builder_inv get_key b"
    and ends: "node_get_id p < length (dm_data (b_nodes b))" "node_get_id s < length (dm_data (b_nodes b))"
    and fresh: "\<forall>e \<in> set (dm_data (b_edges b)). \<not> (edge_pred e = p \<and> edge_succ e = s)"
  obtains eid b' where "make_edge b p s st rel None = (Inr eid, b')" "builder_inv get_key b'"
    "dm_data (b_edges b') = dm_data (b_edges b) @
       [\<lparr>edge_strength = st, edge_relation = rel, edge_pred = p, edge_succ = s, edge_domain = None\<rparr>]"
    "length (dm_data (b_nodes b')) = length (dm_data (b_nodes b))" "b_value_map b' = b_value_map b"
proof -
  let ?e = "\<lparr>edge_strength = st, edge_relation = rel, edge_pred = p, edge_succ = s, edge_domain = None\<rparr>"
  have none: "b_edges_map b (p, s, None) = None"
  proof (rule ccontr)
    assume "b_edges_map b (p, s, None) \<noteq> None"
    then obtain i ed where "get_edge (b_edges b) i = Some ed" "edge_pred ed = p" "edge_succ ed = s"
      using inv unfolding builder_inv_def by (metis edge_indexD not_None_eq)
    with fresh show False by (auto simp: dm_get_def intro: vec_get_set)
  qed
  then have eq: "make_edge b p s st rel None = add_edge b ?e" using ends by (simp add: make_edge_def)
  moreover have "builder_inv get_key (snd (make_edge b p s st rel None))" using make_edge_inv [OF inv] by blast
  ultimately show ?thesis using that ends by (simp add: add_edge_eq)
qed

lemma make_aggregator_edges_new:
  assumes "builder_inv get_key b" "node_get_id a < length (dm_data (b_nodes b))"
    and "\<forall>n \<in> fst ` set ns. node_get_id n < length (dm_data (b_nodes b))
      \<and> (\<forall>e \<in> set (dm_data (b_edges b)). \<not> (edge_pred e = n \<and> edge_succ e = a))"
    and "distinct (map fst ns)"
  shows "\<exists>b'. make_aggregator_edges b a None ns = (Inr (), b') \<and> builder_inv get_key b'
    \<and> (\<forall>e \<in> set (dm_data (b_edges b')) - set (dm_data (b_edges b)). edge_domain e = None \<and> edge_succ e = a \<and> edge_pred e \<in> fst ` set ns)
    \<and> length (dm_data (b_nodes b')) = length (dm_data (b_nodes b)) \<and> b_value_map b' = b_value_map b"
  using assms
proof (induction ns arbitrary: b)
  case (Cons x ns)
  obtain n rel st where x: "x = (n, rel, st)" by (cases x)
  have n1: "node_get_id n < length (dm_data (b_nodes b))"
    and n2: "\<forall>e \<in> set (dm_data (b_edges b)). \<not> (edge_pred e = n \<and> edge_succ e = a)"
    using Cons.prems(3) unfolding x by simp_all
  obtain eid b1 where b1: "make_edge b n a st rel None = (Inr eid, b1)" "builder_inv get_key b1"
    "dm_data (b_edges b1) = dm_data (b_edges b) @
       [\<lparr>edge_strength = st, edge_relation = rel, edge_pred = n, edge_succ = a, edge_domain = None\<rparr>]"
    "length (dm_data (b_nodes b1)) = length (dm_data (b_nodes b))" "b_value_map b1 = b_value_map b"
    using make_edge_new [OF Cons.prems(1) n1 Cons.prems(2) n2] by metis
  have "\<exists>b'. make_aggregator_edges b1 a None ns = (Inr (), b') \<and> builder_inv get_key b'
    \<and> (\<forall>e \<in> set (dm_data (b_edges b')) - set (dm_data (b_edges b1)). edge_domain e = None \<and> edge_succ e = a \<and> edge_pred e \<in> fst ` set ns)
    \<and> length (dm_data (b_nodes b')) = length (dm_data (b_nodes b1)) \<and> b_value_map b' = b_value_map b1"
    using Cons.prems b1 unfolding x by (intro Cons.IH) auto
  then obtain b' where b': "make_aggregator_edges b1 a None ns = (Inr (), b')" "builder_inv get_key b'"
    "\<forall>e \<in> set (dm_data (b_edges b')) - set (dm_data (b_edges b1)). edge_domain e = None \<and> edge_succ e = a \<and> edge_pred e \<in> fst ` set ns"
    "length (dm_data (b_nodes b')) = length (dm_data (b_nodes b1))" "b_value_map b' = b_value_map b1"
    by blast
  show ?case
  proof (intro exI conjI)
    show "make_aggregator_edges b a None (x # ns) = (Inr (), b')" using b1(1) b'(1) by (simp add: x)
    show "\<forall>e \<in> set (dm_data (b_edges b')) - set (dm_data (b_edges b)). edge_domain e = None \<and> edge_succ e = a \<and> edge_pred e \<in> fst ` set (x # ns)"
    proof
      fix e assume e: "e \<in> set (dm_data (b_edges b')) - set (dm_data (b_edges b))"
      show "edge_domain e = None \<and> edge_succ e = a \<and> edge_pred e \<in> fst ` set (x # ns)"
        using e b'(3) b1(3) by (cases "e \<in> set (dm_data (b_edges b1))") (auto simp: x)
    qed
  qed (use b1 b' in simp_all)
qed (auto)

lemma ensure_nodes_exist_ok:
  "\<forall>n \<in> fst ` set ns. node_get_id n < length (dm_data (b_nodes b)) \<Longrightarrow> ensure_nodes_exist b ns = Inr ()"
  by (induction b ns rule: ensure_nodes_exist.induct) auto

lemma make_all_aggregator_new:
  assumes inv: "builder_inv get_key b" and ns: "\<forall>n \<in> fst ` set ns. node_get_id n < length (dm_data (b_nodes b))"
    and "distinct (map fst ns)"
  shows "\<exists>b'. make_all_aggregator b ns None None None = (Inr (NodeId (length (dm_data (b_nodes b)))), b') \<and> builder_inv get_key b'
    \<and> (\<forall>e \<in> set (dm_data (b_edges b')) - set (dm_data (b_edges b)).
         edge_domain e = None \<and> edge_succ e = NodeId (length (dm_data (b_nodes b))) \<and> edge_pred e \<in> fst ` set ns)
    \<and> length (dm_data (b_nodes b')) = Suc (length (dm_data (b_nodes b))) \<and> b_value_map b' = b_value_map b"
proof -
  let ?a = "NodeId (length (dm_data (b_nodes b)))" and ?b1 = "snd (push_node b AllAggregator None None)"
  have b1: "builder_inv get_key ?b1" using push_node_inv [OF inv, of AllAggregator] by simp
  have ends: "\<forall>e \<in> set (dm_data (b_edges b)). edge_succ e \<noteq> ?a"
    using inv by (force simp: builder_inv_def edge_ends_ok_def)
  have "\<exists>b'. make_aggregator_edges ?b1 ?a None ns = (Inr (), b') \<and> builder_inv get_key b'
    \<and> (\<forall>e \<in> set (dm_data (b_edges b')) - set (dm_data (b_edges ?b1)). edge_domain e = None \<and> edge_succ e = ?a \<and> edge_pred e \<in> fst ` set ns)
    \<and> length (dm_data (b_nodes b')) = length (dm_data (b_nodes ?b1)) \<and> b_value_map b' = b_value_map ?b1"
    using b1 ns ends assms(3) by (intro make_aggregator_edges_new) (simp_all add: push_node_eq, force)
  moreover have "ensure_nodes_exist b ns = Inr ()" by (rule ensure_nodes_exist_ok [OF ns])
  ultimately show ?thesis by (auto simp: make_all_aggregator_def push_node_eq)
qed

subsection \<open>Well-formed code runs\<close>

lemma exec_value_node:
  assumes inv: "exec_inv get_key N ss env b" and fit: "fits_after get_key N ss (LetValueNode i e)"
  shows "\<exists>env' b'. exec_stmt get_key N (env, b) (LetValueNode i e) = Inr (env', b') \<and> exec_inv get_key N (ss @ [LetValueNode i e]) env' b'"
proof -
  let ?v = "eval_expr N e"
  have bi: "builder_inv get_key b" and vm: "dom (b_value_map b) \<subseteq> eval_expr N ` value_exprs ss"
    using inv by (simp_all add: exec_inv_def)
  have none: "b_value_map b ?v = None" using fit vm by auto
  obtain n b' where nb: "make_value_node b ?v None None = (n, b')" by fastforce
  with none have n: "n = NodeId (length (dm_data (b_nodes b)))" and len: "length (dm_data (b_nodes b')) = Suc (length (dm_data (b_nodes b)))"
    and vm': "b_value_map b' = (b_value_map b)(?v \<mapsto> n)" and es: "b_edges b' = b_edges b"
    by (auto simp: make_value_node_def push_node_eq)
  have "builder_inv get_key b'" using make_value_node_inv [OF bi, of ?v None None] nb by simp
  moreover have "dom (b_value_map b') \<subseteq> eval_expr N ` value_exprs (ss @ [LetValueNode i e])"
    using vm by (auto simp: vm')
  ultimately have "exec_inv get_key N (ss @ [LetValueNode i e]) (env(i \<mapsto> n)) b'"
    using fit by (intro exec_inv_push [OF inv _ _ n _ len]) (auto simp: es)
  then show ?thesis by (auto simp: nb)
qed

lemma make_in_aggregator_new:
  assumes "vs \<noteq> []" "\<forall>v \<in> set vs. get_key v = get_key (hd vs)"
  shows "make_in_aggregator get_key b vs info meta =
    (Inr (NodeId (length (dm_data (b_nodes b)))), snd (push_node b (InAggregator (remdups vs)) info meta))"
  using assms by (cases vs) (simp_all add: make_in_aggregator_def push_node_eq Let_def)

lemma exec_in_aggregator:
  assumes inv: "exec_inv get_key N ss env b" and fit: "fits_after get_key N ss (LetInAggregator i key values)"
  shows "\<exists>env' b'. exec_stmt get_key N (env, b) (LetInAggregator i key values) = Inr (env', b')
    \<and> exec_inv get_key N (ss @ [LetInAggregator i key values]) env' b'"
proof -
  let ?vs = "map (variant_named N key) values" and ?n = "NodeId (length (dm_data (b_nodes b)))"
  let ?b' = "snd (push_node b (InAggregator (remdups ?vs)) None None)"
  have bi: "builder_inv get_key b" using inv by (simp add: exec_inv_def)
  have ne: "values \<noteq> []" and nb: "i \<notin> bound ss"
    and same: "\<forall>v \<in> set values. get_key (variant_named N key v) = get_key (variant_named N key (hd values))"
    using fit unfolding fits_after.simps by blast+
  have eq: "make_in_aggregator get_key b ?vs None None = (Inr ?n, ?b')"
  proof (rule make_in_aggregator_new)
    show "?vs \<noteq> []" using ne by simp
    have "get_key (variant_named N key w) = get_key (hd ?vs)" if "w \<in> set values" for w
      using bspec [OF same that] ne by (simp add: hd_map)
    then show "\<forall>v \<in> set ?vs. get_key v = get_key (hd ?vs)" by auto
  qed
  have "builder_inv get_key ?b'" using make_in_aggregator_inv [OF bi, of ?vs None None] unfolding eq by simp
  moreover have "dom (b_value_map ?b') \<subseteq> eval_expr N ` value_exprs (ss @ [LetInAggregator i key values])"
    using inv by (simp add: exec_inv_def push_node_eq)
  ultimately have "exec_inv get_key N (ss @ [LetInAggregator i key values]) (env(i \<mapsto> ?n)) ?b'"
    using nb by (intro exec_inv_push [OF inv _ _ refl]) (auto simp: push_node_eq)
  then show ?thesis by (auto simp: eq)
qed

lemma exec_all_aggregator:
  assumes inv: "exec_inv get_key N ss env b" and fit: "fits_after get_key N ss (LetAllAggregator i ns)"
  shows "\<exists>env' b'. exec_stmt get_key N (env, b) (LetAllAggregator i ns) = Inr (env', b')
    \<and> exec_inv get_key N (ss @ [LetAllAggregator i ns]) env' b'"
proof -
  let ?ms = "map (\<lambda>(j, rel). (the (env j), cg_relation rel, Strong)) ns" and ?n = "NodeId (length (dm_data (b_nodes b)))"
  have bi: "builder_inv get_key b" and de: "dom env = bound ss"
    and lt: "\<And>j m. env j = Some m \<Longrightarrow> node_get_id m < length (dm_data (b_nodes b))"
    and inj: "\<And>j k m. env j = Some m \<Longrightarrow> env k = Some m \<Longrightarrow> j = k"
    using inv unfolding exec_inv_def by blast+
  have dj: "j \<in> dom env" if "(j, rel) \<in> set ns" for j rel using that fit de by (force simp: subset_iff)
  have coll: "collect_results (map (\<lambda>(j, rel). and_then (ok_or (env j) (Unbound j)) (\<lambda>n. Inr (n, cg_relation rel, Strong))) ns) = Inr ?ms"
    unfolding collect_results_Inr using dj by (auto simp: domD) (metis domD and_then_simps(2) ok_or_simps(2) option.sel)
  have fst: "map fst ?ms = map (the \<circ> env) (map fst ns)" by (simp add: case_prod_beta comp_def)
  have "inj_on (the \<circ> env) (fst ` set ns)"
  proof (rule inj_onI)
    fix j k assume "j \<in> fst ` set ns" "k \<in> fst ` set ns" "(the \<circ> env) j = (the \<circ> env) k"
    moreover from this obtain m m' where "env j = Some m" "env k = Some m'" using dj by fastforce
    ultimately show "j = k" using inj by auto
  qed
  moreover have "distinct (map fst ns)" using fit by simp
  ultimately have d: "distinct (map fst ?ms)" unfolding fst by (subst distinct_map) simp
  have ex: "\<forall>m \<in> fst ` set ?ms. node_get_id m < length (dm_data (b_nodes b))"
    using dj lt by fastforce
  obtain b' where b': "make_all_aggregator b ?ms None None None = (Inr ?n, b')" "builder_inv get_key b'"
    "\<forall>e \<in> set (dm_data (b_edges b')) - set (dm_data (b_edges b)). edge_domain e = None \<and> edge_succ e = ?n \<and> edge_pred e \<in> fst ` set ?ms"
    "length (dm_data (b_nodes b')) = Suc (length (dm_data (b_nodes b)))" "b_value_map b' = b_value_map b"
    using make_all_aggregator_new [OF bi ex d] by blast
  have "\<exists>j. (j, i) \<in> links (LetAllAggregator i ns) \<and> env j = Some m" if m: "m \<in> fst ` set ?ms" for m
  proof -
    from m obtain j rel where j: "(j, rel) \<in> set ns" "m = the (env j)" by auto
    with dj [OF j(1)] have "env j = Some m" by auto
    moreover have "(j, i) \<in> links (LetAllAggregator i ns)" using j(1) by force
    ultimately show ?thesis by blast
  qed
  then have "exec_inv get_key N (ss @ [LetAllAggregator i ns]) (env(i \<mapsto> ?n)) b'"
    using fit inv b' by (intro exec_inv_push [OF inv _ _ refl b'(2,4)]) (auto simp: exec_inv_def)
  then show ?thesis using b'(1) by (auto simp: coll)
qed

lemma exec_make_edge:
  assumes inv: "exec_inv get_key N ss env b" and fit: "fits_after get_key N ss (MakeEdge i j st rel)"
  shows "\<exists>env' b'. exec_stmt get_key N (env, b) (MakeEdge i j st rel) = Inr (env', b')
    \<and> exec_inv get_key N (ss @ [MakeEdge i j st rel]) env' b'"
proof -
  have bi: "builder_inv get_key b" and de: "dom env = bound ss"
    and lt: "\<And>j m. env j = Some m \<Longrightarrow> node_get_id m < length (dm_data (b_nodes b))"
    and inj: "\<And>j k m. env j = Some m \<Longrightarrow> env k = Some m \<Longrightarrow> j = k"
    and es: "\<And>e. e \<in> set (dm_data (b_edges b)) \<Longrightarrow> edge_domain e = None
        \<and> (\<exists>(i, j) \<in> linked ss. env i = Some (edge_pred e) \<and> env j = Some (edge_succ e))"
    using inv unfolding exec_inv_def by blast+
  obtain p s where ps: "env i = Some p" "env j = Some s" using fit de by (metis domD fits_after.simps(4))
  have "\<forall>e \<in> set (dm_data (b_edges b)). \<not> (edge_pred e = p \<and> edge_succ e = s)"
  proof
    fix e assume "e \<in> set (dm_data (b_edges b))"
    from es [OF this] obtain i' j' where "(i', j') \<in> linked ss" "env i' = Some (edge_pred e)" "env j' = Some (edge_succ e)" by blast
    with ps inj fit show "\<not> (edge_pred e = p \<and> edge_succ e = s)" by (metis fits_after.simps(4))
  qed
  from make_edge_new [OF bi lt [OF ps(1)] lt [OF ps(2)] this]
  obtain eid b' where b': "make_edge b p s (cg_strength st) (cg_relation rel) None = (Inr eid, b')" "builder_inv get_key b'"
    "dm_data (b_edges b') = dm_data (b_edges b) @
       [\<lparr>edge_strength = cg_strength st, edge_relation = cg_relation rel, edge_pred = p, edge_succ = s, edge_domain = None\<rparr>]"
    "length (dm_data (b_nodes b')) = length (dm_data (b_nodes b))" "b_value_map b' = b_value_map b" by metis
  have "exec_inv get_key N (ss @ [MakeEdge i j st rel]) env b'"
    using inv b' ps unfolding exec_inv_def by (auto; blast)
  with b'(1) ps show ?thesis by simp
qed

lemma exec_well_formed:
  fixes get_key :: "'v \<Rightarrow> 'k"
  shows "well_formed get_key N ss \<Longrightarrow>
     \<exists>env (b :: ('v, 'k, 'm) constraint_graph_builder). exec_stmts get_key N (Map.empty, builder_new) ss = Inr (env, b) \<and> exec_inv get_key N ss env b"
proof (induction rule: well_formed.induct)
  case wf_Nil
  then show ?case using exec_inv_new by simp
next
  case (wf_snoc ss s)
  then obtain env and b :: "('v, 'k, 'm) constraint_graph_builder"
    where eb: "exec_stmts get_key N (Map.empty, builder_new) ss = Inr (env, b)" "exec_inv get_key N ss env b"
    by blast
  have "\<exists>env' b'. exec_stmt get_key N (env, b) s = Inr (env', b') \<and> exec_inv get_key N (ss @ [s]) env' b'"
    using wf_snoc.hyps(2) eb(2)
    by (cases s) (auto simp only: exec_value_node exec_in_aggregator exec_all_aggregator exec_make_edge)
  with eb(1) show ?case by (auto simp: exec_stmts_append)
qed

lemma run_well_formed:
  fixes get_key :: "'v \<Rightarrow> 'k"
  assumes wf: "well_formed get_key N ss" and rank: "\<And>i j. (i, j) \<in> linked ss \<Longrightarrow> rank i < (rank j :: nat)"
  shows "\<exists>(g :: ('v, 'k, 'm) constraint_graph) rk. run_knowledge get_key N ss = Inr g \<and> graph_inv get_key g \<and> acyclic_by rk g"
proof -
  obtain env and b :: "('v, 'k, 'm) constraint_graph_builder"
    where eb: "exec_stmts get_key N (Map.empty, builder_new) ss = Inr (env, b)" and inv: "exec_inv get_key N ss env b"
    using exec_well_formed [OF wf] by blast
  let ?rk = "\<lambda>n. rank (THE i. env i = Some n)"
  have the: "(THE i. env i = Some n) = i" if "env i = Some n" for i n
    using inv that unfolding exec_inv_def by (intro the_equality) blast+
  have "?rk (edge_pred e) < ?rk (edge_succ e)" if e: "e \<in> set (dm_data (b_edges b))" for e
  proof -
    obtain i j where "(i, j) \<in> linked ss" "env i = Some (edge_pred e)" "env j = Some (edge_succ e)"
      using inv e unfolding exec_inv_def by blast
    with rank the show ?thesis by simp
  qed
  then have "acyclic_by ?rk (build b)" by (simp add: acyclic_by_def build_def)
  moreover have "run_knowledge get_key N ss = Inr (build b)" "graph_inv get_key (build b)"
    using eb inv build_inv by (auto simp: run_knowledge_def exec_inv_def)
  ultimately show ?thesis by blast
qed

subsection \<open>Generated code is well-formed\<close>

fun lhs_ok :: "('v \<Rightarrow> 'k) \<Rightarrow> ('v, 'k) names \<Rightarrow> atom set \<Rightarrow> atom_type \<Rightarrow> bool" where
  "lhs_ok get_key N A (AtomValue _ a) \<longleftrightarrow> a \<in> A"
| "lhs_ok get_key N A (AtomIn key values _) \<longleftrightarrow>
     values \<noteq> [] \<and> (\<forall>v \<in> set values. get_key (variant_named N key v) = get_key (variant_named N key (hd values)))"

definition comp_inv ::
  "('v \<Rightarrow> 'k) \<Rightarrow> ('v, 'k) names \<Rightarrow> atom set \<Rightarrow> (atom \<Rightarrow> nat) \<Rightarrow> gen_context \<Rightarrow> k_stmt list \<Rightarrow> (atom \<times> atom) set \<Rightarrow> (nat \<Rightarrow> nat) \<Rightarrow> bool" where
  "comp_inv get_key N A rank gc tokens D rk \<longleftrightarrow>
     (\<forall>i \<in> bound tokens. i < next_node_idx gc)
     \<and> (\<forall>a i. compiled_atoms gc a = Some i \<longrightarrow> LetValueNode i (the_value a) \<in> set tokens \<and> rk i = 2 * rank a + 2 \<and> a \<in> A)
     \<and> (\<forall>i e. LetValueNode i e \<in> set tokens \<longrightarrow> (\<exists>a. compiled_atoms gc a = Some i \<and> e = the_value a))
     \<and> (\<forall>a b i. compiled_atoms gc a = Some i \<longrightarrow> compiled_atoms gc b = Some i \<longrightarrow> a = b)
     \<and> (\<forall>i j. (i, j) \<in> linked tokens \<longrightarrow> i \<in> bound tokens \<and> j \<in> bound tokens \<and> rk i < rk j
          \<and> (\<forall>a c. compiled_atoms gc a = Some i \<longrightarrow> compiled_atoms gc c = Some j \<longrightarrow> (a, c) \<in> D))
     \<and> well_formed get_key N tokens"

lemma comp_invD:
  assumes "comp_inv get_key N A rank gc tokens D rk"
  shows "\<And>i. i \<in> bound tokens \<Longrightarrow> i < next_node_idx gc"
    and "\<And>a i. compiled_atoms gc a = Some i \<Longrightarrow> LetValueNode i (the_value a) \<in> set tokens"
    and "\<And>a i. compiled_atoms gc a = Some i \<Longrightarrow> rk i = 2 * rank a + 2"
    and "\<And>a i. compiled_atoms gc a = Some i \<Longrightarrow> a \<in> A"
    and "\<And>i e. LetValueNode i e \<in> set tokens \<Longrightarrow> \<exists>a. compiled_atoms gc a = Some i \<and> e = the_value a"
    and "\<And>a b i. compiled_atoms gc a = Some i \<Longrightarrow> compiled_atoms gc b = Some i \<Longrightarrow> a = b"
    and "\<And>i j. (i, j) \<in> linked tokens \<Longrightarrow> i \<in> bound tokens \<and> j \<in> bound tokens"
    and "\<And>i j. (i, j) \<in> linked tokens \<Longrightarrow> rk i < rk j"
    and "\<And>i j a c. (i, j) \<in> linked tokens \<Longrightarrow> compiled_atoms gc a = Some i \<Longrightarrow> compiled_atoms gc c = Some j \<Longrightarrow> (a, c) \<in> D"
    and "well_formed get_key N tokens"
    and "\<And>a i. compiled_atoms gc a = Some i \<Longrightarrow> i \<in> bound tokens \<and> i < next_node_idx gc"
proof -
  note d = assms [unfolded comp_inv_def]
  note d2 = d [THEN conjunct2] note d3 = d2 [THEN conjunct2] note d4 = d3 [THEN conjunct2] note d5 = d4 [THEN conjunct2]
  show a: "i < next_node_idx gc" if "i \<in> bound tokens" for i using d [THEN conjunct1] that by (rule bspec)
  show b: "LetValueNode i (the_value a) \<in> set tokens" if "compiled_atoms gc a = Some i" for a i
    by (rule d2 [THEN conjunct1, rule_format, OF that, THEN conjunct1])
  show "rk i = 2 * rank a + 2" if "compiled_atoms gc a = Some i" for a i
    by (rule d2 [THEN conjunct1, rule_format, OF that, THEN conjunct2, THEN conjunct1])
  show "a \<in> A" if "compiled_atoms gc a = Some i" for a i
    by (rule d2 [THEN conjunct1, rule_format, OF that, THEN conjunct2, THEN conjunct2])
  show "\<exists>a. compiled_atoms gc a = Some i \<and> e = the_value a" if "LetValueNode i e \<in> set tokens" for i e
    by (rule d3 [THEN conjunct1, rule_format, OF that])
  show "a = b" if "compiled_atoms gc a = Some i" "compiled_atoms gc b = Some i" for a b i
    by (rule d4 [THEN conjunct1, rule_format, OF that])
  note l = d5 [THEN conjunct1, THEN spec, THEN spec, THEN mp]
  show "i \<in> bound tokens \<and> j \<in> bound tokens" if "(i, j) \<in> linked tokens" for i j using l [OF that] by blast
  show "rk i < rk j" if "(i, j) \<in> linked tokens" for i j using l [OF that] by blast
  show "(a, c) \<in> D" if "(i, j) \<in> linked tokens" "compiled_atoms gc a = Some i" "compiled_atoms gc c = Some j" for i j a c
    using l [OF that(1)] that(2,3) by blast
  show "well_formed get_key N tokens" by (rule d5 [THEN conjunct2])
  show "i \<in> bound tokens \<and> i < next_node_idx gc" if "compiled_atoms gc a = Some i" for a i
  proof -
    have "i \<in> bound tokens" by (rule UN_I [OF b [OF that]]) simp
    with a show ?thesis by simp
  qed
qed

text \<open>A step of compilation that adds no edge.\<close>

definition grows :: "gen_context \<Rightarrow> k_stmt list \<Rightarrow> (nat \<Rightarrow> nat) \<Rightarrow> gen_context \<Rightarrow> k_stmt list \<Rightarrow> (nat \<Rightarrow> nat) \<Rightarrow> bool" where
  "grows gc tokens rk gc' tokens' rk' \<longleftrightarrow>
     next_node_idx gc \<le> next_node_idx gc' \<and> linked tokens' = linked tokens \<and> bound tokens \<subseteq> bound tokens'
     \<and> (\<forall>a i. compiled_atoms gc a = Some i \<longrightarrow> compiled_atoms gc' a = Some i)
     \<and> (\<forall>a i. compiled_atoms gc' a = Some i \<longrightarrow> compiled_atoms gc a = Some i \<or> next_node_idx gc \<le> i)
     \<and> (\<forall>i < next_node_idx gc. rk' i = rk i)"

lemma grows_refl: "grows gc tokens rk gc tokens rk"
  by (simp add: grows_def)

lemma grows_trans:
  assumes "grows gc ts rk gc1 ts1 rk1" "grows gc1 ts1 rk1 gc2 ts2 rk2"
  shows "grows gc ts rk gc2 ts2 rk2"
proof -
  note a = assms(1) [unfolded grows_def] and b = assms(2) [unfolded grows_def]
  have le: "next_node_idx gc \<le> next_node_idx gc1" using a by blast
  have f5: "compiled_atoms gc x = Some i \<or> next_node_idx gc \<le> i" if "compiled_atoms gc2 x = Some i" for x i
    using that a b le by (meson order_trans)
  have f6: "rk2 i = rk i" if "i < next_node_idx gc" for i
    using that a b le by (metis order_less_le_trans)
  have f4: "compiled_atoms gc2 x = Some i" if "compiled_atoms gc x = Some i" for x i using that a b by metis
  have f3: "bound ts \<subseteq> bound ts2" using a b by (meson subset_trans)
  have f1: "next_node_idx gc \<le> next_node_idx gc2" using a b by linarith
  have f2: "linked ts2 = linked ts" using a b by (simp only:)
  show ?thesis unfolding grows_def
    by (intro conjI allI impI) (rule f1 f2 f3, rule f1 f2 f3, rule f1 f2 f3, erule f4, erule f5, erule f6)
qed

lemma compile_atom_inv:
  assumes inv: "comp_inv get_key N A rank gc tokens D rk" and a: "a \<in> A" and inj: "inj_on (\<lambda>a. eval_expr N (the_value a)) A"
    and c: "compile_atom gc tokens a = (i, gc', tokens')"
  shows "\<exists>rk'. comp_inv get_key N A rank gc' tokens' D rk' \<and> grows gc tokens rk gc' tokens' rk' \<and> compiled_atoms gc' a = Some i"
proof (cases "compiled_atoms gc a")
  case (Some j)
  with c inv show ?thesis using grows_refl by (auto simp: compile_atom_def)
next
  case None
  note I = comp_invD [OF inv]
  let ?s = "LetValueNode i (the_value a)"
  from None c have i: "i = next_node_idx gc" and t: "tokens' = tokens @ [?s]"
    and n: "next_node_idx gc' = Suc (next_node_idx gc)" and cmp: "compiled_atoms gc' = (compiled_atoms gc)(a \<mapsto> i)"
    by (auto simp: compile_atom_def next_node_ident_def Let_def)
  have nb: "i \<notin> bound tokens" using I(1) i by blast
  have fresh: "compiled_atoms gc b \<noteq> Some i" for b using I(11) [of b i] nb by blast
  have "eval_expr N (the_value a) \<notin> eval_expr N ` value_exprs tokens"
  proof
    assume "eval_expr N (the_value a) \<in> eval_expr N ` value_exprs tokens"
    then obtain j e where "LetValueNode j e \<in> set tokens" "eval_expr N (the_value a) = eval_expr N e" by auto
    with I(5) obtain b where "compiled_atoms gc b = Some j" "eval_expr N (the_value a) = eval_expr N (the_value b)" by metis
    with I(4) a inj None show False by (metis inj_onD option.distinct(1))
  qed
  then have wf: "well_formed get_key N tokens'" using I(10) nb by (auto simp: t intro: wf_snoc)
  have "comp_inv get_key N A rank gc' tokens' D (rk(i := 2 * rank a + 2))"
    unfolding comp_inv_def
  proof (intro conjI)
    show "\<forall>j \<in> bound tokens'. j < next_node_idx gc'" using I(1) i n by (auto simp: t less_Suc_eq)
    show "\<forall>b j. compiled_atoms gc' b = Some j \<longrightarrow>
        LetValueNode j (the_value b) \<in> set tokens' \<and> (rk(i := 2 * rank a + 2)) j = 2 * rank b + 2 \<and> b \<in> A"
      using I(2,3,4) a fresh by (auto simp: t cmp)
    show "\<forall>j e. LetValueNode j e \<in> set tokens' \<longrightarrow> (\<exists>b. compiled_atoms gc' b = Some j \<and> e = the_value b)"
    proof (intro allI impI)
      fix j e assume "LetValueNode j e \<in> set tokens'"
      then consider "j = i" "e = the_value a" | "LetValueNode j e \<in> set tokens" by (auto simp: t)
      then show "\<exists>b. compiled_atoms gc' b = Some j \<and> e = the_value b"
      proof cases
        case 2
        with I(5) obtain b where "compiled_atoms gc b = Some j" "e = the_value b" by blast
        with None show ?thesis by (intro exI [of _ b]) (auto simp: cmp)
      qed (auto simp: cmp)
    qed
    show "\<forall>b d j. compiled_atoms gc' b = Some j \<longrightarrow> compiled_atoms gc' d = Some j \<longrightarrow> b = d"
      using I(6) fresh by (auto simp: cmp)
    show "\<forall>j k. (j, k) \<in> linked tokens' \<longrightarrow> j \<in> bound tokens' \<and> k \<in> bound tokens'
        \<and> (rk(i := 2 * rank a + 2)) j < (rk(i := 2 * rank a + 2)) k
        \<and> (\<forall>b d. compiled_atoms gc' b = Some j \<longrightarrow> compiled_atoms gc' d = Some k \<longrightarrow> (b, d) \<in> D)"
    proof (intro allI impI)
      fix j k assume "(j, k) \<in> linked tokens'"
      then have l: "(j, k) \<in> linked tokens" by (simp add: t)
      with I(7) have jk: "j \<in> bound tokens" "k \<in> bound tokens" by blast+
      with nb have "j \<noteq> i" "k \<noteq> i" by blast+
      with l jk I(8,9) show "j \<in> bound tokens' \<and> k \<in> bound tokens'
        \<and> (rk(i := 2 * rank a + 2)) j < (rk(i := 2 * rank a + 2)) k
        \<and> (\<forall>b d. compiled_atoms gc' b = Some j \<longrightarrow> compiled_atoms gc' d = Some k \<longrightarrow> (b, d) \<in> D)"
        by (auto simp: t cmp)
    qed
  qed (rule wf)
  moreover have "grows gc tokens rk gc' tokens' (rk(i := 2 * rank a + 2))"
    using None by (auto simp: grows_def n t cmp i)
  ultimately show ?thesis by (auto simp: cmp)
qed

lemma comp_inv_bind:
  assumes inv: "comp_inv get_key N A rank gc tokens D rk"
    and s: "binds s = {k}" "k = next_node_idx gc" "\<And>i e. s \<noteq> LetValueNode i e" "fits_after get_key N tokens s"
    and l: "\<And>i j. (i, j) \<in> links s \<Longrightarrow> j = k \<and> i \<in> bound tokens \<and> rk i < r"
  shows "comp_inv get_key N A rank (gc\<lparr>next_node_idx := Suc (next_node_idx gc)\<rparr>) (tokens @ [s]) D (rk(k := r))"
proof -
  note I = comp_invD [OF inv]
  have nb: "k \<notin> bound tokens" using I(1) s(2) by blast
  have fresh: "compiled_atoms gc b \<noteq> Some k" for b using I(11) [of b k] nb by blast
  have ne: "LetValueNode i e \<noteq> s" for i e using s(3) by metis
  show ?thesis
    unfolding comp_inv_def
  proof (intro conjI)
    show "\<forall>j \<in> bound (tokens @ [s]). j < next_node_idx (gc\<lparr>next_node_idx := Suc (next_node_idx gc)\<rparr>)"
      using I(1) s(1,2) by (auto simp: less_Suc_eq)
    show "\<forall>b j. compiled_atoms (gc\<lparr>next_node_idx := Suc (next_node_idx gc)\<rparr>) b = Some j \<longrightarrow>
        LetValueNode j (the_value b) \<in> set (tokens @ [s]) \<and> (rk(k := r)) j = 2 * rank b + 2 \<and> b \<in> A"
      using I(2,3,4) fresh by auto
    show "\<forall>j e. LetValueNode j e \<in> set (tokens @ [s]) \<longrightarrow>
        (\<exists>b. compiled_atoms (gc\<lparr>next_node_idx := Suc (next_node_idx gc)\<rparr>) b = Some j \<and> e = the_value b)"
      using I(5) ne by auto
    show "\<forall>b d j. compiled_atoms (gc\<lparr>next_node_idx := Suc (next_node_idx gc)\<rparr>) b = Some j \<longrightarrow>
        compiled_atoms (gc\<lparr>next_node_idx := Suc (next_node_idx gc)\<rparr>) d = Some j \<longrightarrow> b = d"
      using I(6) by auto
    show "\<forall>i j. (i, j) \<in> linked (tokens @ [s]) \<longrightarrow> i \<in> bound (tokens @ [s]) \<and> j \<in> bound (tokens @ [s]) \<and> (rk(k := r)) i < (rk(k := r)) j
        \<and> (\<forall>a c. compiled_atoms (gc\<lparr>next_node_idx := Suc (next_node_idx gc)\<rparr>) a = Some i \<longrightarrow>
             compiled_atoms (gc\<lparr>next_node_idx := Suc (next_node_idx gc)\<rparr>) c = Some j \<longrightarrow> (a, c) \<in> D)"
    proof (intro allI impI)
      fix i j assume "(i, j) \<in> linked (tokens @ [s])"
      then consider (old) "(i, j) \<in> linked tokens" | (new) "(i, j) \<in> links s" by auto
      then show "i \<in> bound (tokens @ [s]) \<and> j \<in> bound (tokens @ [s]) \<and> (rk(k := r)) i < (rk(k := r)) j
        \<and> (\<forall>a c. compiled_atoms (gc\<lparr>next_node_idx := Suc (next_node_idx gc)\<rparr>) a = Some i \<longrightarrow>
             compiled_atoms (gc\<lparr>next_node_idx := Suc (next_node_idx gc)\<rparr>) c = Some j \<longrightarrow> (a, c) \<in> D)"
      proof cases
        case old
        with I(7) have ij: "i \<in> bound tokens" "j \<in> bound tokens" by blast+
        with nb have "i \<noteq> k" "j \<noteq> k" by blast+
        with ij I(8) [OF old] I(9) [OF old] show ?thesis by auto
      next
        case new
        from l [OF this] have ij: "j = k" "i \<in> bound tokens" "rk i < r" by blast+
        with nb have "i \<noteq> k" by blast
        with ij fresh s(1) show ?thesis by auto
      qed
    qed
    show "well_formed get_key N (tokens @ [s])" using I(10) s(4) by (rule wf_snoc)
  qed
qed

lemma comp_inv_edge:
  assumes inv: "comp_inv get_key N A rank gc tokens D rk" and fit: "fits_after get_key N tokens (MakeEdge i j st rel)"
    and lt: "rk i < rk j" and D: "D \<subseteq> D'"
    and new: "\<And>a c. compiled_atoms gc a = Some i \<Longrightarrow> compiled_atoms gc c = Some j \<Longrightarrow> (a, c) \<in> D'"
  shows "comp_inv get_key N A rank gc (tokens @ [MakeEdge i j st rel]) D' rk"
proof -
  note I = comp_invD [OF inv]
  have ij: "i \<in> bound tokens" "j \<in> bound tokens" using fit by simp_all
  show ?thesis
    unfolding comp_inv_def
  proof (intro conjI)
    show "\<forall>i' j'. (i', j') \<in> linked (tokens @ [MakeEdge i j st rel]) \<longrightarrow> i' \<in> bound (tokens @ [MakeEdge i j st rel])
        \<and> j' \<in> bound (tokens @ [MakeEdge i j st rel]) \<and> rk i' < rk j'
        \<and> (\<forall>a c. compiled_atoms gc a = Some i' \<longrightarrow> compiled_atoms gc c = Some j' \<longrightarrow> (a, c) \<in> D')"
    proof (intro allI impI)
      fix i' j' assume "(i', j') \<in> linked (tokens @ [MakeEdge i j st rel])"
      then consider (old) "(i', j') \<in> linked tokens" | (new) "i' = i" "j' = j" by auto
      then show "i' \<in> bound (tokens @ [MakeEdge i j st rel]) \<and> j' \<in> bound (tokens @ [MakeEdge i j st rel]) \<and> rk i' < rk j'
        \<and> (\<forall>a c. compiled_atoms gc a = Some i' \<longrightarrow> compiled_atoms gc c = Some j' \<longrightarrow> (a, c) \<in> D')"
      proof cases
        case old
        with I(7) [OF old] I(8) [OF old] I(9) [OF old] D show ?thesis by auto
      qed (use ij lt new in auto)
    qed
    show "well_formed get_key N (tokens @ [MakeEdge i j st rel])" using I(10) fit by (rule wf_snoc)
    show "\<forall>i' \<in> bound (tokens @ [MakeEdge i j st rel]). i' < next_node_idx gc" using I(1) by auto
    show "\<forall>a i'. compiled_atoms gc a = Some i' \<longrightarrow> LetValueNode i' (the_value a) \<in> set (tokens @ [MakeEdge i j st rel])
        \<and> rk i' = 2 * rank a + 2 \<and> a \<in> A"
      using I(2,3,4) by simp
    show "\<forall>i' e. LetValueNode i' e \<in> set (tokens @ [MakeEdge i j st rel]) \<longrightarrow> (\<exists>a. compiled_atoms gc a = Some i' \<and> e = the_value a)"
      using I(5) by simp
    show "\<forall>a b i'. compiled_atoms gc a = Some i' \<longrightarrow> compiled_atoms gc b = Some i' \<longrightarrow> a = b" using I(6) by blast
  qed
qed

text \<open>The identifier of a premise: that of a compiled atom, or one bound while compiling this rule.\<close>

fun detail_ok :: "nat \<Rightarrow> gen_context \<Rightarrow> k_stmt list \<Rightarrow> (nat \<Rightarrow> nat) \<Rightarrow> atom_type \<Rightarrow> nat \<times> k_relation \<Rightarrow> bool" where
  "detail_ok n gc tokens rk (AtomValue _ a) (i, _) \<longleftrightarrow> compiled_atoms gc a = Some i"
| "detail_ok n gc tokens rk (AtomIn _ _ _) (i, _) \<longleftrightarrow> n \<le> i \<and> i \<in> bound tokens \<and> i \<notin> ran (compiled_atoms gc) \<and> rk i = 0"

lemma detail_ok_grows:
  assumes "detail_ok n gc tokens rk at d" "grows gc tokens rk gc' tokens' rk'" "comp_inv get_key N A rank gc tokens D rk" "m \<le> n"
  shows "detail_ok m gc' tokens' rk' at d"
proof (cases "(n, gc, tokens, rk, at, d)" rule: detail_ok.cases)
  case (2 _ _ _ _ _ _ _ i _)
  then have i: "n \<le> i" "i \<in> bound tokens" "i \<notin> ran (compiled_atoms gc)" "rk i = 0" using assms(1) by simp_all
  have lt: "i < next_node_idx gc" using comp_invD(1) [OF assms(3) i(2)] .
  have "i \<notin> ran (compiled_atoms gc')"
  proof
    assume "i \<in> ran (compiled_atoms gc')"
    then obtain a where "compiled_atoms gc' a = Some i" by (auto simp: ran_def)
    with assms(2) have "compiled_atoms gc a = Some i \<or> next_node_idx gc \<le> i" unfolding grows_def by blast
    with i(3) lt show False by (auto simp: ran_def)
  qed
  moreover have "i \<in> bound tokens'" "rk' i = 0" using assms(2) i lt unfolding grows_def by (blast, simp)
  ultimately show ?thesis using i(1) assms(4) 2 by simp
qed (use assms(1,2) in \<open>auto simp: grows_def\<close>)

lemma compile_in_inv:
  assumes inv: "comp_inv get_key N A rank gc tokens D rk" and ok: "lhs_ok get_key N A (AtomIn key values rel)"
    and c: "compile_atom_type gc tokens (AtomIn key values rel) = (d, gc', tokens')"
  shows "\<exists>rk'. comp_inv get_key N A rank gc' tokens' D rk' \<and> grows gc tokens rk gc' tokens' rk'
    \<and> detail_ok (next_node_idx gc) gc' tokens' rk' (AtomIn key values rel) d"
proof -
  note I = comp_invD [OF inv]
  let ?i = "next_node_idx gc" and ?s = "LetInAggregator (next_node_idx gc) key values"
  have nb: "?i \<notin> bound tokens" using I(1) by blast
  have fresh: "compiled_atoms gc b \<noteq> Some ?i" for b using I(11) [of b ?i] nb by blast
  from c have d: "d = (?i, rel)" and gc': "gc' = gc\<lparr>next_node_idx := Suc ?i\<rparr>" and t: "tokens' = tokens @ [?s]"
    by (auto simp: next_node_ident_def)
  have fit: "fits_after get_key N tokens ?s" using ok nb unfolding lhs_ok.simps fits_after.simps by blast
  have "comp_inv get_key N A rank gc' tokens' D (rk(?i := 0))"
    unfolding gc' t by (rule comp_inv_bind [OF inv _ refl _ fit]) simp_all
  moreover have "grows gc tokens rk gc' tokens' (rk(?i := 0))" by (auto simp: grows_def gc' t)
  moreover have "detail_ok ?i gc' tokens' (rk(?i := 0)) (AtomIn key values rel) d"
    using fresh by (simp add: d gc' t ran_def)
  ultimately show ?thesis by blast
qed

lemma compile_atom_type_inv:
  assumes inv: "comp_inv get_key N A rank gc tokens D rk" and inj: "inj_on (\<lambda>a. eval_expr N (the_value a)) A"
    and ok: "lhs_ok get_key N A at" and c: "compile_atom_type gc tokens at = (d, gc', tokens')"
  shows "\<exists>rk'. comp_inv get_key N A rank gc' tokens' D rk' \<and> grows gc tokens rk gc' tokens' rk'
    \<and> detail_ok (next_node_idx gc) gc' tokens' rk' at d"
proof (cases at)
  case (AtomValue rel a)
  then obtain i where i: "compile_atom gc tokens a = (i, gc', tokens')" "d = (i, rel)" using c by (auto split: prod.splits)
  from ok AtomValue have "a \<in> A" by simp
  from compile_atom_inv [OF inv this inj i(1)] show ?thesis by (simp add: AtomValue i(2))
next
  case (AtomIn key vs rel)
  show ?thesis using compile_in_inv [OF inv ok [unfolded AtomIn] c [unfolded AtomIn]] unfolding AtomIn .
qed

fun premise_atoms :: "atom_type list \<Rightarrow> atom list" where
  "premise_atoms [] = []"
| "premise_atoms (AtomValue _ a # lhs) = a # premise_atoms lhs"
| "premise_atoms (AtomIn _ _ _ # lhs) = premise_atoms lhs"

lemma premise_atoms_set: "AtomValue rel a \<in> set lhs \<Longrightarrow> a \<in> set (premise_atoms lhs)"
  by (induction lhs rule: premise_atoms.induct) auto

lemma rule_pairs_eq: "rule_pairs lhs c = map (\<lambda>a. (a, c)) (premise_atoms lhs)"
  by (induction lhs rule: premise_atoms.induct) auto

lemma compile_lhs_inv:
  assumes inj: "inj_on (\<lambda>a. eval_expr N (the_value a)) A"
  shows "\<lbrakk>compile_lhs gc tokens lhs = (ds, gc', tokens'); comp_inv get_key N A rank gc tokens D rk;
      list_all (lhs_ok get_key N A) lhs; distinct (premise_atoms lhs)\<rbrakk>
    \<Longrightarrow> \<exists>rk'. comp_inv get_key N A rank gc' tokens' D rk' \<and> grows gc tokens rk gc' tokens' rk'
      \<and> list_all2 (detail_ok (next_node_idx gc) gc' tokens' rk') lhs ds \<and> distinct (map fst ds)"
proof (induction lhs arbitrary: gc tokens ds rk)
  case Nil
  then show ?case using grows_refl by auto
next
  case (Cons at lhs)
  obtain d gc1 t1 where d: "compile_atom_type gc tokens at = (d, gc1, t1)" by (metis prod_cases3)
  obtain ds' where ds: "compile_lhs gc1 t1 lhs = (ds', gc', tokens')" "ds = d # ds'"
    using Cons.prems(1) d by (auto split: prod.splits)
  obtain rk1 where 1: "comp_inv get_key N A rank gc1 t1 D rk1" "grows gc tokens rk gc1 t1 rk1"
    "detail_ok (next_node_idx gc) gc1 t1 rk1 at d"
    using compile_atom_type_inv [OF Cons.prems(2) inj _ d] Cons.prems(3) by auto
  have "distinct (premise_atoms lhs)" using Cons.prems(4) by (cases at) auto
  then obtain rk2 where 2: "comp_inv get_key N A rank gc' tokens' D rk2" "grows gc1 t1 rk1 gc' tokens' rk2"
    "list_all2 (detail_ok (next_node_idx gc1) gc' tokens' rk2) lhs ds'" "distinct (map fst ds')"
    using Cons.IH [OF ds(1) 1(1)] Cons.prems(3) by auto
  have le: "next_node_idx gc \<le> next_node_idx gc1" using 1(2) by (simp add: grows_def)
  have head: "detail_ok (next_node_idx gc) gc' tokens' rk2 at d" by (rule detail_ok_grows [OF 1(3) 2(2) 1(1) order_refl])
  have tail: "list_all2 (detail_ok (next_node_idx gc) gc' tokens' rk2) lhs ds'"
    using 2(3)
  proof (rule list_all2_mono)
    fix x y assume "detail_ok (next_node_idx gc1) gc' tokens' rk2 x y"
    then show "detail_ok (next_node_idx gc) gc' tokens' rk2 x y" using grows_refl 2(1) le by (rule detail_ok_grows)
  qed
  have "fst d \<notin> set (map fst ds')"
  proof
    assume "fst d \<in> set (map fst ds')"
    then obtain d' where "d' \<in> set ds'" "fst d' = fst d" by auto
    moreover from this obtain at' where at': "at' \<in> set lhs" "detail_ok (next_node_idx gc1) gc' tokens' rk2 at' d'"
      using list_all2_in_set2 [OF 2(3)] by blast
    ultimately obtain i r r' where i: "d = (i, r)" "d' = (i, r')" by (metis prod.collapse)
    show False
    proof (cases at; cases at')
      fix q a q' a' assume "at = AtomValue q a" "at' = AtomValue q' a'"
      moreover from this head at'(2) i have "a = a'" using comp_invD(6) [OF 2(1)] by auto
      ultimately show False using Cons.prems(4) at'(1) by (auto dest: premise_atoms_set)
    next
      fix key vs q key' vs' q' assume "at = AtomIn key vs q" "at' = AtomIn key' vs' q'"
      with 1(3) at'(2) i have "i \<in> bound t1" "next_node_idx gc1 \<le> i" by simp_all
      with comp_invD(1) [OF 1(1)] show False by fastforce
    qed (use head at'(2) i in \<open>auto simp: ran_def\<close>)
  qed
  then show ?case
    using 2(1,4) grows_trans [OF 1(2) 2(2)] head tail by (intro exI [of _ rk2]) (auto simp: ds(2))
qed

text \<open>A premise can be linked to the conclusion of its rule.\<close>

lemma detail_links:
  assumes inv: "comp_inv get_key N A rank gc tokens D rk" and ds: "list_all2 (detail_ok n gc tokens rk) lhs ds" and d: "(i, r) \<in> set ds"
    and old: "\<And>i j. (i, j) \<in> linked tokens \<Longrightarrow> i < n" and c: "compiled_atoms gc c = Some j"
    and pairs: "\<And>a. a \<in> set (premise_atoms lhs) \<Longrightarrow> rank a < rank c \<and> (a, c) \<notin> D"
  shows "i \<in> bound tokens \<and> rk i \<le> 2 * rank c \<and> (i, j) \<notin> linked tokens
    \<and> (\<forall>a. compiled_atoms gc a = Some i \<longrightarrow> a \<in> set (premise_atoms lhs))"
proof -
  note I = comp_invD [OF inv]
  obtain at where at: "at \<in> set lhs" "detail_ok n gc tokens rk at (i, r)" using list_all2_in_set2 [OF ds d] by blast
  show ?thesis
  proof (cases at)
    case (AtomValue q a)
    with at have a: "compiled_atoms gc a = Some i" "a \<in> set (premise_atoms lhs)" by (auto dest: premise_atoms_set)
    have "(i, j) \<notin> linked tokens" using I(9) [of i j, OF _ a(1) c] pairs [OF a(2)] by blast
    moreover have "\<forall>b. compiled_atoms gc b = Some i \<longrightarrow> b \<in> set (premise_atoms lhs)" using I(6) [OF a(1)] a(2) by blast
    ultimately show ?thesis using I(11) [OF a(1)] I(3) [OF a(1)] pairs [OF a(2)] by simp
  next
    case (AtomIn key vs q)
    with at have i: "n \<le> i" "i \<in> bound tokens" "i \<notin> ran (compiled_atoms gc)" "rk i = 0" by simp_all
    moreover have "(i, j) \<notin> linked tokens" using old [of i j] i(1) by linarith
    ultimately show ?thesis by (simp add: ran_def)
  qed
qed

lemma comp_inv_aggregator:
  assumes inv: "comp_inv get_key N A rank gc tokens D rk" and c: "compiled_atoms gc c = Some j"
    and d: "distinct (map fst ds)" and b: "\<And>i r. (i, r) \<in> set ds \<Longrightarrow> i \<in> bound tokens \<and> rk i \<le> 2 * rank c"
    and D: "D \<subseteq> D'"
  shows "\<exists>rk'. comp_inv get_key N A rank (gc\<lparr>next_node_idx := Suc (next_node_idx gc)\<rparr>)
    (tokens @ [LetAllAggregator (next_node_idx gc) ds, MakeEdge (next_node_idx gc) j st KPositive]) D' rk'"
proof -
  note I = comp_invD [OF inv]
  let ?k = "next_node_idx gc" and ?s = "LetAllAggregator (next_node_idx gc) ds" and ?rk = "rk(next_node_idx gc := 2 * rank c + 1)"
  let ?gc = "gc\<lparr>next_node_idx := Suc (next_node_idx gc)\<rparr>"
  have nb: "?k \<notin> bound tokens" using I(1) by blast
  have fresh: "compiled_atoms gc b \<noteq> Some ?k" for b using I(11) [of b ?k] nb by blast
  have j: "j \<in> bound tokens" "rk j = 2 * rank c + 2" "j \<noteq> ?k" using I(11) [OF c] I(3) [OF c] by auto
  have fit: "fits_after get_key N tokens ?s" using nb d b by (auto simp: image_subset_iff)
  have inv1: "comp_inv get_key N A rank ?gc (tokens @ [?s]) D ?rk"
  proof (rule comp_inv_bind [OF inv _ refl _ fit])
    fix i j' assume "(i, j') \<in> links ?s"
    then obtain r where "j' = ?k" "(i, r) \<in> set ds" by auto
    with b [OF this(2)] show "j' = ?k \<and> i \<in> bound tokens \<and> rk i < 2 * rank c + 1" by simp
  qed simp_all
  have "(?k, j) \<notin> linked (tokens @ [?s])"
  proof
    assume "(?k, j) \<in> linked (tokens @ [?s])"
    then have "?k \<in> bound tokens" using I(7) [of ?k j] b j(3) by auto
    with nb show False by simp
  qed
  then have "fits_after get_key N (tokens @ [?s]) (MakeEdge ?k j st KPositive)" using j by auto
  then have "comp_inv get_key N A rank ?gc ((tokens @ [?s]) @ [MakeEdge ?k j st KPositive]) D' ?rk"
    using j fresh D by (intro comp_inv_edge [OF inv1]) auto
  then show ?thesis by auto
qed

lemma compile_rule_inv:
  assumes inv: "comp_inv get_key N A rank gc tokens D rk" and inj: "inj_on (\<lambda>a. eval_expr N (the_value a)) A"
    and rhs: "k_rhs r \<in> A" and lhs: "list_all (lhs_ok get_key N A) (k_lhs r)" and dist: "distinct (premise_atoms (k_lhs r))"
    and pairs: "\<And>a. a \<in> set (premise_atoms (k_lhs r)) \<Longrightarrow> rank a < rank (k_rhs r) \<and> (a, k_rhs r) \<notin> D"
    and c: "compile_rule gc tokens r = (gc', tokens')"
  shows "\<exists>rk'. comp_inv get_key N A rank gc' tokens' (D \<union> set (rule_pairs (k_lhs r) (k_rhs r))) rk'"
proof -
  let ?D = "D \<union> set (rule_pairs (k_lhs r) (k_rhs r))"
  obtain j gc1 t1 where j: "compile_atom gc tokens (k_rhs r) = (j, gc1, t1)" by (metis prod_cases3)
  obtain ds gc2 t2 where ds: "compile_lhs gc1 t1 (k_lhs r) = (ds, gc2, t2)" by (metis prod_cases3)
  obtain rk1 where 1: "comp_inv get_key N A rank gc1 t1 D rk1" "grows gc tokens rk gc1 t1 rk1" "compiled_atoms gc1 (k_rhs r) = Some j"
    using compile_atom_inv [OF inv rhs inj j] by blast
  obtain rk2 where 2: "comp_inv get_key N A rank gc2 t2 D rk2" "grows gc1 t1 rk1 gc2 t2 rk2"
    "list_all2 (detail_ok (next_node_idx gc1) gc2 t2 rk2) (k_lhs r) ds" "distinct (map fst ds)"
    using compile_lhs_inv [OF inj ds 1(1) lhs dist] by blast
  have cj: "compiled_atoms gc2 (k_rhs r) = Some j" using 2(2) 1(3) by (simp add: grows_def)
  have old: "i < next_node_idx gc1" if "(i, k) \<in> linked t2" for i k
  proof -
    have "linked t2 = linked t1" using 2(2) unfolding grows_def by blast
    with that have "(i, k) \<in> linked t1" by (simp only:)
    then show ?thesis using comp_invD(7) [OF 1(1)] comp_invD(1) [OF 1(1)] by blast
  qed
  have det: "i \<in> bound t2 \<and> rk2 i \<le> 2 * rank (k_rhs r) \<and> (i, j) \<notin> linked t2
      \<and> (\<forall>a. compiled_atoms gc2 a = Some i \<longrightarrow> a \<in> set (premise_atoms (k_lhs r)))" if "(i, q) \<in> set ds" for i q
    by (rule detail_links [OF 2(1) 2(3) that old cj pairs])
  have rj: "rk2 j = 2 * rank (k_rhs r) + 2" "j \<in> bound t2" using comp_invD(3,11) [OF 2(1)] cj by blast+
  show ?thesis
  proof (cases "length ds \<le> 1")
    case False
    then have "gc' = gc2\<lparr>next_node_idx := Suc (next_node_idx gc2)\<rparr>"
      "tokens' = t2 @ [LetAllAggregator (next_node_idx gc2) ds, MakeEdge (next_node_idx gc2) j (k_strength r) KPositive]"
      using c by (auto simp: compile_rule_def j ds next_node_ident_def Let_def)
    then show ?thesis using comp_inv_aggregator [OF 2(1) cj 2(4)] det by blast
  next
    case True
    then consider "ds = []" | i q where "ds = [(i, q)]" by (cases ds; cases "hd ds") auto
    then show ?thesis
    proof cases
      case 1
      then have "k_lhs r = []" using 2(3) by simp
      moreover have "gc' = gc2" "tokens' = t2" using 1 c by (simp_all add: compile_rule_def j ds)
      ultimately show ?thesis using 2(1) by auto
    next
      case (2 i q)
      with c have eq: "gc' = gc2" "tokens' = t2 @ [MakeEdge i j (k_strength r) q]" by (auto simp: compile_rule_def j ds)
      from det [of i q] 2 have i: "i \<in> bound t2" "rk2 i \<le> 2 * rank (k_rhs r)" "(i, j) \<notin> linked t2"
        "\<And>a. compiled_atoms gc2 a = Some i \<Longrightarrow> a \<in> set (premise_atoms (k_lhs r))" by auto
      have "comp_inv get_key N A rank gc2 (t2 @ [MakeEdge i j (k_strength r) q]) ?D rk2"
      proof (rule comp_inv_edge [OF \<open>comp_inv get_key N A rank gc2 t2 D rk2\<close>])
        show "fits_after get_key N t2 (MakeEdge i j (k_strength r) q)" using i rj by simp
        show "rk2 i < rk2 j" using i rj by simp
        fix a b assume "compiled_atoms gc2 a = Some i" "compiled_atoms gc2 b = Some j"
        then have "b = k_rhs r" "a \<in> set (premise_atoms (k_lhs r))"
          using comp_invD(6) [OF \<open>comp_inv get_key N A rank gc2 t2 D rk2\<close> _ cj] i(4) by blast+
        then show "(a, b) \<in> ?D" by (auto simp: rule_pairs_eq)
      qed simp
      then show ?thesis unfolding eq by blast
    qed
  qed
qed

lemma compile_rules_inv:
  assumes inj: "inj_on (\<lambda>a. eval_expr N (the_value a)) A"
  shows "\<lbrakk>comp_inv get_key N A rank gc tokens D rk;
      \<forall>r \<in> set rs. k_rhs r \<in> A \<and> list_all (lhs_ok get_key N A) (k_lhs r);
      \<And>a c. (a, c) \<in> set (program_pairs rs) \<Longrightarrow> rank a < rank c \<and> (a, c) \<notin> D; distinct (program_pairs rs)\<rbrakk>
    \<Longrightarrow> \<exists>gc' D' rk'. comp_inv get_key N A rank gc' (snd (foldl (\<lambda>(gc, tokens) r. compile_rule gc tokens r) (gc, tokens) rs)) D' rk'"
proof (induction rs arbitrary: gc tokens D rk)
  case (Cons r rs)
  obtain gc1 t1 where 1: "compile_rule gc tokens r = (gc1, t1)" by fastforce
  have pp: "program_pairs (r # rs) = rule_pairs (k_lhs r) (k_rhs r) @ program_pairs rs" by (simp add: program_pairs_def)
  have "\<exists>rk'. comp_inv get_key N A rank gc1 t1 (D \<union> set (rule_pairs (k_lhs r) (k_rhs r))) rk'"
  proof (rule compile_rule_inv [OF Cons.prems(1) inj _ _ _ _ 1])
    show "distinct (premise_atoms (k_lhs r))" using Cons.prems(4) by (simp add: pp rule_pairs_eq distinct_map)
    show "rank a < rank (k_rhs r) \<and> (a, k_rhs r) \<notin> D" if "a \<in> set (premise_atoms (k_lhs r))" for a
      using Cons.prems(3) [of a "k_rhs r"] that by (auto simp: pp rule_pairs_eq)
  qed (use Cons.prems(2) in simp_all)
  then obtain rk1 where rk1: "comp_inv get_key N A rank gc1 t1 (D \<union> set (rule_pairs (k_lhs r) (k_rhs r))) rk1" by blast
  have "\<exists>gc' D' rk'. comp_inv get_key N A rank gc' (snd (foldl (\<lambda>(gc, tokens) r. compile_rule gc tokens r) (gc1, t1) rs)) D' rk'"
  proof (rule Cons.IH [OF rk1])
    show "rank a < rank c \<and> (a, c) \<notin> D \<union> set (rule_pairs (k_lhs r) (k_rhs r))" if "(a, c) \<in> set (program_pairs rs)" for a c
      using Cons.prems(3) [of a c] Cons.prems(4) that by (auto simp: pp)
  qed (use Cons.prems(2,4) pp in simp_all)
  then show ?case by (simp add: 1)
qed auto

lemma register_lhs_keeps:
  "register_lhs gc j lhs = (res, gc') \<Longrightarrow> next_node_idx gc' = next_node_idx gc \<and> compiled_atoms gc' = compiled_atoms gc"
proof (induction gc j lhs rule: register_lhs.induct)
  case (2 gc j rel a lhs)
  obtain i gc1 where n: "register_node gc a = (i, gc1)" by fastforce
  obtain r gc2 where e: "register_edge gc1 i j = (r, gc2)" by fastforce
  have "next_node_idx gc2 = next_node_idx gc \<and> compiled_atoms gc2 = compiled_atoms gc"
    using n e by (auto simp: register_node_def register_edge_def Let_def split: option.splits if_splits)
  with "2.IH" [OF n [symmetric] refl e [symmetric]] "2.prems" n e show ?case by (cases r) auto
qed auto

lemma register_rules_keeps:
  "register_rules gc rs = (res, gc') \<Longrightarrow> next_node_idx gc' = next_node_idx gc \<and> compiled_atoms gc' = compiled_atoms gc"
proof (induction gc rs rule: register_rules.induct)
  case (2 gc r rs)
  obtain j gc0 where n: "register_node gc (k_rhs r) = (j, gc0)" by fastforce
  obtain res1 gc1 where l: "register_lhs gc0 j (k_lhs r) = (res1, gc1)" by fastforce
  have r: "register_rule gc r = (res1, gc1)" using n l by (simp add: register_rule_def)
  have "next_node_idx gc0 = next_node_idx gc \<and> compiled_atoms gc0 = compiled_atoms gc"
    using n by (auto simp: register_node_def split: option.splits)
  with register_lhs_keeps [OF l] "2.IH" [OF r [symmetric]] "2.prems" r show ?case by (cases res1) auto
qed auto

text \<open>The atoms of a program, and what the compiler of Rust guarantees for their names.\<close>

definition program_atoms :: "k_program \<Rightarrow> atom set" where
  "program_atoms program = (\<Union>r \<in> set program. insert (k_rhs r) (set (premise_atoms (k_lhs r))))"

definition names_ok :: "('v \<Rightarrow> 'k) \<Rightarrow> ('v, 'k) names \<Rightarrow> k_program \<Rightarrow> bool" where
  "names_ok get_key N program \<longleftrightarrow>
     inj_on (\<lambda>a. eval_expr N (the_value a)) (program_atoms program)
     \<and> (\<forall>r \<in> set program. \<forall>key vs rel. AtomIn key vs rel \<in> set (k_lhs r) \<longrightarrow>
          vs \<noteq> [] \<and> (\<forall>v \<in> set vs. get_key (variant_named N key v) = get_key (variant_named N key (hd vs))))"

lemma program_lhs_ok:
  assumes "names_ok get_key N program" "r \<in> set program"
  shows "list_all (lhs_ok get_key N (program_atoms program)) (k_lhs r)"
  unfolding list_all_iff
proof
  fix at assume at: "at \<in> set (k_lhs r)"
  show "lhs_ok get_key N (program_atoms program) at"
  proof (cases at)
    case (AtomValue rel a)
    with at assms(2) show ?thesis by (auto simp: program_atoms_def dest: premise_atoms_set)
  next
    case (AtomIn key vs rel)
    have "AtomIn key vs rel \<in> set (k_lhs r)" using at AtomIn by simp
    then show ?thesis using assms unfolding AtomIn lhs_ok.simps names_ok_def by blast
  qed
qed

lemma knowledge_builds:
  fixes get_key :: "'v \<Rightarrow> 'k"
  assumes it: "\<And>ks. set (iter_keys fx ks) = set ks" "\<And>ds. set (iter_dests fx ds) = set ds"
    and ok: "knowledge_inner fx program = Some (Inr stmts)" and names: "names_ok get_key N program"
  shows "\<exists>(g :: ('v, 'k, 'm) constraint_graph) rk. run_knowledge get_key N stmts = Inr g \<and> graph_inv get_key g \<and> acyclic_by rk g"
proof -
  obtain rank where rank: "distinct (program_pairs program)"
    "\<And>a c. (a, c) \<in> set (program_pairs program) \<Longrightarrow> rank a < (rank c :: nat)"
    by (rule accepted_ranked [OF it ok]) (rule that)
  obtain u gc where reg: "register_rules gen_context_new program = (Inr u, gc)" and st: "stmts = snd (compile gc program)"
    using ok by (auto simp: knowledge_inner_def split: prod.splits sum.splits option.splits)
  have "next_node_idx gc = 1" "compiled_atoms gc = Map.empty"
    using register_rules_keeps [OF reg] by (simp_all add: gen_context_new_def)
  then have "comp_inv get_key N (program_atoms program) rank gc [] {} (\<lambda>_. 0)"
    by (simp add: comp_inv_def wf_Nil)
  moreover have "inj_on (\<lambda>a. eval_expr N (the_value a)) (program_atoms program)" using names by (simp add: names_ok_def)
  moreover have "\<forall>r \<in> set program. k_rhs r \<in> program_atoms program \<and> list_all (lhs_ok get_key N (program_atoms program)) (k_lhs r)"
    using program_lhs_ok [OF names] by (auto simp: program_atoms_def)
  ultimately obtain gc' D' rk' where inv: "comp_inv get_key N (program_atoms program) rank gc' stmts D' rk'"
    unfolding st compile_def using compile_rules_inv [of N "program_atoms program" get_key rank gc "[]" "{}" "\<lambda>_. 0" program] rank
    by auto
  show ?thesis by (rule run_well_formed [OF comp_invD(10) [OF inv] comp_invD(8) [OF inv]])
qed

subsection \<open>The builder operations of generated code\<close>

lemma exec_stmt_reachable:
  assumes "exec_stmt get_key N (env, b) s = Inr (env', b')" "builder_reachable get_key b"
  shows "builder_reachable get_key b'"
proof (cases s)
  case (LetValueNode i e)
  with assms(1) have "b' = snd (make_value_node b (eval_expr N e) None None)" by (auto split: prod.splits)
  with assms(2) show ?thesis by (simp add: reach_step [OF _ step_value])
next
  case (LetInAggregator i key vs)
  with assms(1) have "b' = snd (make_in_aggregator get_key b (map (variant_named N key) vs) None None)"
    by (auto split: prod.splits sum.splits)
  with assms(2) show ?thesis by (simp add: reach_step [OF _ step_in])
next
  case (LetAllAggregator i ns)
  with assms(1) obtain ms n where "make_all_aggregator b ms None None None = (Inr n, b')"
    by (auto simp: and_then_def split: prod.splits sum.splits)
  then have "b' = snd (make_all_aggregator b ms None None None)" by simp
  with assms(2) show ?thesis by (simp add: reach_step [OF _ step_all])
next
  case (MakeEdge i j st rel)
  with assms(1) obtain n m e where "make_edge b n m (cg_strength st) (cg_relation rel) None = (Inr e, b')"
    by (auto simp: and_then_def ok_or_def split: prod.splits sum.splits option.splits)
  then have "b' = snd (make_edge b n m (cg_strength st) (cg_relation rel) None)" by simp
  with assms(2) show ?thesis by (simp add: reach_step [OF _ step_edge])
qed

lemma exec_stmts_reachable:
  "\<lbrakk>exec_stmts get_key N (env, b) ss = Inr (env', b'); builder_reachable get_key b\<rbrakk> \<Longrightarrow> builder_reachable get_key b'"
proof (induction ss arbitrary: env b)
  case (Cons s ss)
  then obtain env1 b1 where "exec_stmt get_key N (env, b) s = Inr (env1, b1)" "exec_stmts get_key N (env1, b1) ss = Inr (env', b')"
    by (cases "exec_stmt get_key N (env, b) s") auto
  with Cons.IH exec_stmt_reachable Cons.prems(2) show ?case by metis
qed simp

lemma run_knowledge_reachable:
  assumes "run_knowledge get_key N ss = Inr g"
  shows "\<exists>b. builder_reachable get_key b \<and> g = build b"
  using assms exec_stmts_reachable [OF _ reach_new, of get_key N]
  by (fastforce simp: run_knowledge_def and_then_def split: sum.splits)

subsection \<open>Correctness of the macro\<close>

text \<open>
  C22. No \<open>expect\<close> in the code generated from an accepted knowledge program fails: running it gives a
  graph that the builder operations can make, and whose edges ascend in some ranking. The compiler
  resolves different atoms to different node values and the variants of one key to values of one key.
\<close>

theorem knowledge_never_panics:
  fixes get_key :: "'v \<Rightarrow> 'k"
  assumes "\<And>ks. set (iter_keys fx ks) = set ks" "\<And>ds. set (iter_dests fx ds) = set ds"
    and "knowledge_inner fx program = Some (Inr stmts)" and "names_ok get_key N program"
  shows "\<exists>(b :: ('v, 'k, 'm) constraint_graph_builder) rk. run_knowledge get_key N stmts = Inr (build b) \<and> builder_reachable get_key b \<and> acyclic_by rk (build b)"
proof -
  obtain g :: "('v, 'k, 'm) constraint_graph" and rk where "run_knowledge get_key N stmts = Inr g" "acyclic_by rk g"
    using knowledge_builds [OF assms] by blast
  with run_knowledge_reachable show ?thesis by metis
qed

definition vec_order :: fx_order where
  "vec_order = \<lparr>iter_keys = (\<lambda>ks. ks), iter_dests = (\<lambda>ds. ds)\<rparr>"

definition card_clauses :: k_program where
  "card_clauses =
     [\<lparr>k_lhs = [AtomValue KPositive \<lparr>atom_key = ''PaymentMethod'', atom_value = KEnumVariant ''Card''\<rparr>,
               AtomIn ''Currency'' [''USD'', ''EUR''] KNegative],
       k_strength = KStrong, k_rhs = \<lparr>atom_key = ''CardType'', atom_value = KAny\<rparr>\<rparr>,
      \<lparr>k_lhs = [AtomValue KPositive \<lparr>atom_key = ''CardType'', atom_value = KAny\<rparr>],
       k_strength = KNormal, k_rhs = \<lparr>atom_key = ''CardNetwork'', atom_value = KAny\<rparr>\<rparr>]"

definition literal_names :: "(string \<times> string, string) names" where
  "literal_names = \<lparr>key_named = id, variant_named = Pair, number_named = (\<lambda>key number _. (key, show_int number))\<rparr>"

theorem knowledge_never_panics_witness:
  "\<exists>(b :: (string \<times> string, string, unit) constraint_graph_builder) rk. run_knowledge fst literal_names (snd (compile gen_context_new card_clauses)) = Inr (build b)
     \<and> builder_reachable fst b \<and> acyclic_by rk (build b)"
proof -
  have "knowledge_inner vec_order card_clauses = Some (Inr (snd (compile gen_context_new card_clauses)))" by code_simp
  moreover have "names_ok fst literal_names card_clauses"
    by (auto simp: names_ok_def program_atoms_def card_clauses_def literal_names_def the_value_def inj_on_def)
  ultimately show ?thesis by (intro knowledge_never_panics [of vec_order card_clauses]) (simp_all add: vec_order_def)
qed

text \<open>
  C24. The macro ends on every program and in every iteration order of its hash tables, with the
  generated code or an error.
\<close>

theorem knowledge_returns: "\<exists>r. knowledge_inner fx program = Some r"
  by (rule knowledge_inner_returns)

definition any_atom :: "string \<Rightarrow> atom" where
  "any_atom key = \<lparr>atom_key = key, atom_value = KAny\<rparr>"

definition clause :: "string \<Rightarrow> string \<Rightarrow> k_rule" where
  "clause from to = \<lparr>k_lhs = [AtomValue KPositive (any_atom from)], k_strength = KStrong, k_rhs = any_atom to\<rparr>"

definition meeting_clauses :: k_program where
  "meeting_clauses =
     [clause ''A'' ''B'', clause ''A'' ''C'', clause ''B'' ''D'', clause ''C'' ''D'']"

definition acyclic_program :: "k_program \<Rightarrow> bool" where
  "acyclic_program program \<longleftrightarrow> (\<exists>rank :: atom \<Rightarrow> nat. \<forall>(a, c) \<in> set (program_pairs program). rank a < rank c)"

text \<open>
  The search for cycles does not forget the nodes it has left, so whether a program without
  cycles is accepted can depend on the iteration order of the hash tables. An example with four
  clauses whose two chains meet: in one order it is compiled, in another it fails with an internal
  error.
\<close>

theorem cycle_search_depends_on_order:
  "acyclic_program meeting_clauses
   \<and> knowledge_inner (vec_order\<lparr>iter_keys := rev\<rparr>) meeting_clauses = Some (Inr (snd (compile gen_context_new meeting_clauses)))
   \<and> knowledge_inner vec_order meeting_clauses = Some (Inl ''Error deciding cycle order'')"
proof (intro conjI)
  show "acyclic_program meeting_clauses"
    unfolding acyclic_program_def
    by (rule exI [of _ "\<lambda>a. if atom_key a = ''A'' then 0 else if atom_key a = ''D'' then 2 else 1"])
      (simp add: meeting_clauses_def clause_def any_atom_def program_pairs_def)
  show "knowledge_inner (vec_order\<lparr>iter_keys := rev\<rparr>) meeting_clauses = Some (Inr (snd (compile gen_context_new meeting_clauses)))"
    by code_simp
  show "knowledge_inner vec_order meeting_clauses = Some (Inl ''Error deciding cycle order'')" by code_simp
qed

end
