(* ===== verification/Knowledge_Truth.thy ===== *)
theory Knowledge_Truth
  imports Knowledge_Graph Euclid_Graph "HOL-Library.Multiset"
begin

text \<open>
  The default knowledge graph of \<open>euclid/src/dssa/truth.rs\<close>: the graph that \<open>knowledge!\<close> builds from
  seven clauses, and what the graph analysis of \<open>Euclid_Graph\<close> makes of it.
\<close>

definition needs_payment_method :: "string \<Rightarrow> string \<Rightarrow> k_rule" where
  "needs_payment_method method key =
     \<lparr>k_lhs = [AtomValue KPositive \<lparr>atom_key = ''PaymentMethod'', atom_value = KEnumVariant method\<rparr>],
      k_strength = KStrong, k_rhs = \<lparr>atom_key = key, atom_value = KAny\<rparr>\<rparr>"

definition truth_program :: k_program where
  "truth_program =
     [needs_payment_method ''Card'' ''CardType'',
      needs_payment_method ''PayLater'' ''PayLaterType'',
      needs_payment_method ''Wallet'' ''WalletType'',
      needs_payment_method ''BankRedirect'' ''BankRedirectType'',
      needs_payment_method ''BankTransfer'' ''BankTransferType'',
      needs_payment_method ''GiftCard'' ''GiftCardType'',
      needs_payment_method ''RealTimePayment'' ''RealTimePaymentType'']"

text \<open>
  The names of the prelude that the clauses use: every variant in them is one of \<open>PaymentMethod\<close>. The
  keys whose values are numbers are given as well, though no clause compares a number.
\<close>

definition prelude_keys :: "(string \<times> dir_key_kind) list" where
  "prelude_keys =
     [(''CardType'', K_CardType), (''PayLaterType'', K_PayLaterType), (''WalletType'', K_WalletType),
      (''BankRedirectType'', K_BankRedirectType), (''BankTransferType'', K_BankTransferType),
      (''GiftCardType'', K_GiftCardType), (''RealTimePaymentType'', K_RealTimePaymentType)]"

definition prelude_methods :: "(string \<times> payment_method) list" where
  "prelude_methods =
     [(''Card'', PaymentMethod_Card), (''PayLater'', PaymentMethod_PayLater), (''Wallet'', PaymentMethod_Wallet),
      (''BankRedirect'', PaymentMethod_BankRedirect), (''BankTransfer'', PaymentMethod_BankTransfer),
      (''GiftCard'', PaymentMethod_GiftCard), (''RealTimePayment'', PaymentMethod_RealTimePayment)]"

definition prelude_numbers :: "(string \<times> (num_value \<Rightarrow> dir_value)) list" where
  "prelude_numbers =
     [(''PaymentAmount'', D_PaymentAmount), (''SurchargeAmount'', D_SurchargeAmount),
      (''AcquirerFraudRate'', D_AcquirerFraudRate)]"

definition prelude_names :: "(dir_value, dir_key) names" where
  "prelude_names =
     \<lparr>key_named = (\<lambda>key. \<lparr>dk_kind = the (map_of prelude_keys key), dk_value = None\<rparr>),
      variant_named = (\<lambda>key variant. the (if key = ''PaymentMethod''
        then map_option D_PaymentMethod (map_of prelude_methods variant) else None)),
      number_named = (\<lambda>key number refinement. the (map_of prelude_numbers key)
        \<lparr>num_number = MinorUnit (word_of_int number), num_refinement = refinement\<rparr>)\<rparr>"

definition ANALYSIS_GRAPH :: "fx_order \<Rightarrow> dir_graph option" where
  "ANALYSIS_GRAPH fx =
     (case knowledge_inner fx truth_program of
        Some (Inr stmts) \<Rightarrow>
          (case run_knowledge dir_get_key prelude_names stmts of Inr g \<Rightarrow> Some g | Inl _ \<Rightarrow> None)
      | _ \<Rightarrow> None)"

lemma truth_registered:
  "gc_edges (snd (register_rules gen_context_new truth_program)) =
     [(2, [1]), (1, []), (4, [3]), (3, []), (6, [5]), (5, []), (8, [7]), (7, []), (10, [9]), (9, []),
      (12, [11]), (11, []), (14, [13]), (13, [])]"
  by code_simp

abbreviation truth_context :: gen_context where
  "truth_context \<equiv> snd (register_rules gen_context_new truth_program)"

definition truth_graph :: "exec_failure + dir_graph" where
  "truth_graph = run_knowledge dir_get_key prelude_names (snd (compile truth_context truth_program))"

definition truth_clauses :: "(payment_method \<times> dir_key_kind) list" where
  "truth_clauses =
     [(PaymentMethod_Card, K_CardType), (PaymentMethod_PayLater, K_PayLaterType), (PaymentMethod_Wallet, K_WalletType),
      (PaymentMethod_BankRedirect, K_BankRedirectType), (PaymentMethod_BankTransfer, K_BankTransferType),
      (PaymentMethod_GiftCard, K_GiftCardType), (PaymentMethod_RealTimePayment, K_RealTimePaymentType)]"

lemma truth_nodes:
  "map_sum id (\<lambda>g. dm_data (nodes g)) truth_graph =
     Inr (concat (map (\<lambda>(i, m, k).
       [\<lparr>node_type = ValueNode (KeyOf \<lparr>dk_kind = k, dk_value = None\<rparr>), preds = [EdgeId i], succs = []\<rparr>,
        \<lparr>node_type = ValueNode (ValueOf (D_PaymentMethod m)), preds = [], succs = [EdgeId i]\<rparr>])
       (enumerate 0 truth_clauses)))"
  by code_simp

lemma truth_edges:
  "map_sum id (\<lambda>g. dm_data (edges g)) truth_graph =
     Inr (map (\<lambda>i. \<lparr>edge_strength = Strong, edge_relation = Positive, edge_pred = NodeId (2 * i + 1),
       edge_succ = NodeId (2 * i), edge_domain = None\<rparr>) [0..<7])"
  by code_simp

subsection \<open>The clauses are accepted in every order\<close>

definition fx_iterates :: "fx_order \<Rightarrow> bool" where
  "fx_iterates fx \<longleftrightarrow> (\<forall>ks. mset (iter_keys fx ks) = mset ks) \<and> (\<forall>ds. mset (iter_dests fx ds) = mset ds)"

text \<open>A node has at most one successor, which has none.\<close>

definition flat :: "(nat \<times> nat list) list \<Rightarrow> bool" where
  "flat es \<longleftrightarrow> (\<forall>(n, ds) \<in> set es. ds = [] \<or> (length ds = 1 \<and> hd ds \<noteq> n \<and> map_of es (hd ds) = Some []))"

lemma flat_cycle_dfs:
  assumes fx: "fx_iterates fx" and flat: "flat es" and n: "map_of es n = Some ds"
  shows "\<exists>s. cycle_dfs (Suc (Suc k)) fx es n \<lparr>explored = [], visited = vs, order = []\<rparr> = Some (Inr None, s)"
proof -
  have it: "mset (iter_dests fx ds) = mset ds" for ds using fx by (simp add: fx_iterates_def)
  have nil: "iter_dests fx [] = []" using it [of "[]"] by simp
  have one: "iter_dests fx [d] = [d]" for d using it [of "[d]"] by (simp add: mset_single_iff)
  have "ds = [] \<or> length ds = 1 \<and> hd ds \<noteq> n \<and> map_of es (hd ds) = Some []"
    using flat map_of_SomeD [OF n] by (auto simp: flat_def)
  then consider "ds = []" | d where "ds = [d]" "d \<noteq> n" "map_of es d = Some []" by (cases ds) auto
  then show ?thesis by cases (auto simp: n nil one Let_def)
qed

lemma flat_detect_loop:
  assumes "fx_iterates fx" "flat (gc_edges gc)" "set ks \<subseteq> fst ` set (gc_edges gc)"
  shows "detect_loop (Suc (Suc k)) fx gc ks vs = Some (Inr ())"
  using assms(3)
proof (induction ks arbitrary: vs)
  case (Cons x ks)
  then have "x \<in> fst ` set (gc_edges gc)" by simp
  then obtain ds where "map_of (gc_edges gc) x = Some ds" by (metis map_of_eq_None_iff not_None_eq)
  from flat_cycle_dfs [OF assms(1,2) this] obtain s where
    "cycle_dfs (Suc (Suc k)) fx (gc_edges gc) x \<lparr>explored = [], visited = vs, order = []\<rparr> = Some (Inr None, s)" by blast
  with Cons show ?case by simp
qed simp

lemma truth_accepted:
  assumes "fx_iterates fx"
  shows "knowledge_inner fx truth_program = Some (Inr (snd (compile truth_context truth_program)))"
proof -
  have "fst (register_rules gen_context_new truth_program) = Inr ()" by code_simp
  then obtain gc where gc: "register_rules gen_context_new truth_program = (Inr (), gc)" by (metis prod.collapse)
  then have es: "gc_edges gc = [(2, [1]), (1, []), (4, [3]), (3, []), (6, [5]), (5, []), (8, [7]), (7, []), (10, [9]), (9, []),
      (12, [11]), (11, []), (14, [13]), (13, [])]"
    using truth_registered by simp
  have "set (iter_keys fx (map fst (gc_edges gc))) = fst ` set (gc_edges gc)"
    using assms by (metis fx_iterates_def list.set_map mset_eq_setD)
  then have sub: "set (iter_keys fx (map fst (gc_edges gc))) \<subseteq> fst ` set (gc_edges gc)" by simp
  have flat: "flat (gc_edges gc)" by (simp add: es flat_def)
  have "Suc (length (gc_edges gc)) = Suc (Suc 13)" by (simp add: es)
  then have "detect_graph_cycles fx gc = Some (Inr ())"
    unfolding detect_graph_cycles_def using flat_detect_loop [OF assms flat sub, of 13] by simp
  with gc show ?thesis by (simp add: knowledge_inner_def)
qed

subsection \<open>What the graph requires\<close>

lemma truth_graph_built:
  obtains b rk g where "truth_graph = Inr g" "g = build b" "builder_reachable dir_get_key b" "acyclic_by rk g"
proof -
  obtain g where g: "truth_graph = Inr g"
  proof (cases truth_graph)
    case (Inl e)
    then have False using truth_nodes unfolding Inl by simp
    then show thesis ..
  qed (rule that)
  then obtain b where b: "builder_reachable dir_get_key b" "g = build b"
    using run_knowledge_reachable unfolding truth_graph_def by blast
  have "dm_data (edges g) = map (\<lambda>i. \<lparr>edge_strength = Strong, edge_relation = Positive, edge_pred = NodeId (2 * i + 1),
       edge_succ = NodeId (2 * i), edge_domain = None\<rparr>) [0..<7]"
    using truth_edges unfolding g by simp
  then have "acyclic_by (\<lambda>n. if odd (node_get_id n) then 0 else 1) g" by (auto simp: acyclic_by_def)
  with that g b show thesis by blast
qed

definition method_node :: "payment_method \<Rightarrow> (dir_value, dir_key) node_value" where
  "method_node m = ValueOf (D_PaymentMethod m)"

definition kind_node :: "dir_key_kind \<Rightarrow> (dir_value, dir_key) node_value" where
  "kind_node k = KeyOf \<lparr>dk_kind = k, dk_value = None\<rparr>"

lemma truth_graph_nodes:
  assumes "truth_graph = Inr g"
  shows "dm_data (nodes g) = concat (map (\<lambda>(i, m, k).
       [\<lparr>node_type = ValueNode (kind_node k), preds = [EdgeId i], succs = []\<rparr>,
        \<lparr>node_type = ValueNode (method_node m), preds = [], succs = [EdgeId i]\<rparr>]) (enumerate 0 truth_clauses))"
    and "dm_data (edges g) = map (\<lambda>i. \<lparr>edge_strength = Strong, edge_relation = Positive, edge_pred = NodeId (2 * i + 1),
       edge_succ = NodeId (2 * i), edge_domain = None\<rparr>) [0..<7]"
  using truth_nodes truth_edges unfolding assms kind_node_def method_node_def by simp_all

text \<open>The two nodes of the clause \<open>i\<close> and the edge between them.\<close>

lemma truth_clause_nodes:
  assumes g: "truth_graph = Inr g" and i: "i < 7" "truth_clauses ! i = (m, k)"
  shows "get_node (nodes g) (NodeId (2 * i)) = Some \<lparr>node_type = ValueNode (kind_node k), preds = [EdgeId i], succs = []\<rparr>"
    and "get_node (nodes g) (NodeId (2 * i + 1)) = Some \<lparr>node_type = ValueNode (method_node m), preds = [], succs = [EdgeId i]\<rparr>"
    and "get_predecessor_edges_by_domain g (NodeId (2 * i)) None =
      Inr [\<lparr>edge_strength = Strong, edge_relation = Positive, edge_pred = NodeId (2 * i + 1), edge_succ = NodeId (2 * i), edge_domain = None\<rparr>]"
    and "get_predecessor_edges_by_domain g (NodeId (2 * i + 1)) None = Inr []"
proof -
  let ?f = "\<lambda>(i, m, k).
       [\<lparr>node_type = ValueNode (kind_node k), preds = [EdgeId i], succs = []\<rparr>,
        \<lparr>node_type = ValueNode (method_node m), preds = [], succs = [EdgeId i]\<rparr>]"
  have len: "length truth_clauses = 7" by (simp add: truth_clauses_def)
  have c: "concat (map ?f (enumerate 0 truth_clauses)) ! j = ?f (enumerate 0 truth_clauses ! (j div 2)) ! (j mod 2)" if "j < 14" for j
    by (rule concat_map_nth) (use that len in \<open>auto simp: split_def\<close>)
  have e: "enumerate 0 truth_clauses ! i = (i, m, k)" using i len by (simp add: nth_enumerate_eq)
  have l: "length (concat (map ?f (enumerate 0 truth_clauses))) = 14"
    using length_concat_uniform [of "enumerate 0 truth_clauses" ?f 2] len by (auto simp: split_def)
  show 1: "get_node (nodes g) (NodeId (2 * i)) = Some \<lparr>node_type = ValueNode (kind_node k), preds = [EdgeId i], succs = []\<rparr>"
    using c [of "2 * i"] i e l by (simp add: dm_get_def vec_get_def truth_graph_nodes [OF g])
  show 2: "get_node (nodes g) (NodeId (2 * i + 1)) = Some \<lparr>node_type = ValueNode (method_node m), preds = [], succs = [EdgeId i]\<rparr>"
    using c [of "2 * i + 1"] i e l by (simp add: dm_get_def vec_get_def truth_graph_nodes [OF g])
  show "get_predecessor_edges_by_domain g (NodeId (2 * i)) None =
      Inr [\<lparr>edge_strength = Strong, edge_relation = Positive, edge_pred = NodeId (2 * i + 1), edge_succ = NodeId (2 * i), edge_domain = None\<rparr>]"
    unfolding get_predecessor_edges_by_domain_def 1
    using i(1) by (simp add: edge_in_domains_def dm_get_def vec_get_def truth_graph_nodes(2) [OF g])
  show "get_predecessor_edges_by_domain g (NodeId (2 * i + 1)) None = Inr []"
    unfolding get_predecessor_edges_by_domain_def 2 by simp
qed

lemma truth_satisfied:
  assumes g: "truth_graph = Inr g" and i: "i < 7" "truth_clauses ! i = (m, k)"
  shows "satisfied dir_get_key g ctx None (NodeId (2 * i + 1)) Positive Strong \<longleftrightarrow> check_presence ctx (method_node m) Strong"
    and "satisfied dir_get_key g ctx None (NodeId (2 * i)) Positive Strong \<longleftrightarrow>
      check_presence ctx (kind_node k) Strong \<and> check_presence ctx (method_node m) Strong"
proof -
  note n = truth_clause_nodes [OF g i]
  show m: "satisfied dir_get_key g ctx None (NodeId (2 * i + 1)) Positive Strong \<longleftrightarrow> check_presence ctx (method_node m) Strong"
    by (subst satisfied_value [OF n(2) _ n(4)]) simp_all
  show "satisfied dir_get_key g ctx None (NodeId (2 * i)) Positive Strong \<longleftrightarrow>
      check_presence ctx (kind_node k) Strong \<and> check_presence ctx (method_node m) Strong"
    using m by (subst satisfied_value [OF n(1) _ n(3)]) simp_all
qed

lemma truth_values:
  assumes g: "truth_graph = Inr g" and vi: "value_index_ok (value_map g) (nodes g)" and v: "value_map g v = Some n"
  obtains i m k where "i < 7" "truth_clauses ! i = (m, k)" "n = NodeId (2 * i) \<and> v = kind_node k \<or> n = NodeId (2 * i + 1) \<and> v = method_node m"
proof -
  obtain nd where nd: "get_node (nodes g) n = Some nd" "node_type nd = ValueNode v"
    using vi v unfolding value_index_ok_def by blast
  have "length (dm_data (nodes g)) = 14"
    unfolding truth_graph_nodes(1) [OF g] by (subst length_concat_uniform [where n = 2]) (auto simp: truth_clauses_def)
  then have "node_get_id n < 14" using nd(1) by (simp add: dm_get_def vec_get_Some)
  then have i: "node_get_id n div 2 < 7" by simp
  obtain m k where mk: "truth_clauses ! (node_get_id n div 2) = (m, k)" by fastforce
  have n: "n = NodeId (2 * (node_get_id n div 2)) \<or> n = NodeId (2 * (node_get_id n div 2) + 1)"
  proof (cases "even (node_get_id n)")
    case True
    then show ?thesis by (metis dvd_mult_div_cancel node_id.collapse)
  next
    case False
    then show ?thesis by (metis node_id.collapse odd_two_times_div_two_succ)
  qed
  note ns = truth_clause_nodes(1,2) [OF g i mk]
  have "n = NodeId (2 * (node_get_id n div 2)) \<and> v = kind_node k \<or> n = NodeId (2 * (node_get_id n div 2) + 1) \<and> v = method_node m"
    using n
  proof
    assume n: "n = NodeId (2 * (node_get_id n div 2))"
    then show ?thesis using ns(1) nd unfolding n [symmetric] by simp
  next
    assume n: "n = NodeId (2 * (node_get_id n div 2) + 1)"
    then show ?thesis using ns(2) nd unfolding n [symmetric] by simp
  qed
  with that i mk show thesis by blast
qed

lemma presence_of_method:
  assumes "context_of_values ctx V"
  shows "analysis_check_presence ctx (method_node m) Strong \<longleftrightarrow> D_PaymentMethod m \<in> V"
proof -
  note at = assms [unfolded context_of_values_def, rule_format, of "dir_get_key (D_PaymentMethod m)"]
  have k: "dk_kind (dir_get_key (D_PaymentMethod m)) = K_PaymentMethod" by (simp add: dir_get_key_def)
  show ?thesis
  proof (cases "map_of (keywise_values ctx) (dir_get_key (D_PaymentMethod m))")
    case None
    with at show ?thesis by (simp add: method_node_def analysis_check_presence_def Let_def) blast
  next
    case (Some vs)
    with at have "set vs = {v \<in> V. dir_get_key v = dir_get_key (D_PaymentMethod m)}" by simp
    with Some show ?thesis by (simp add: method_node_def analysis_check_presence_def Let_def k)
  qed
qed

lemma truth_accepts_iff:
  assumes g: "truth_graph = Inr g" and vi: "value_index_ok (value_map g) (nodes g)" and V: "context_of_values actx V"
  shows "(\<forall>v \<in> V. node_accepts ho g actx (KeyOf (dir_get_key v)) \<and> node_accepts ho g actx (ValueOf v)) \<longleftrightarrow>
    (\<forall>(m, k) \<in> set truth_clauses. (\<exists>v \<in> V. dir_get_key v = \<lparr>dk_kind = k, dk_value = None\<rparr>) \<longrightarrow> D_PaymentMethod m \<in> V)"
    (is "?L \<longleftrightarrow> ?R")
proof
  have len: "length truth_clauses = 7" by (simp add: truth_clauses_def)
  let ?c = "as_checking_context ho actx"
  have kp: "check_presence ?c (kind_node k) Strong \<longleftrightarrow> (\<exists>v \<in> V. dir_get_key v = \<lparr>dk_kind = k, dk_value = None\<rparr>)" for k
    using presence_of_key [OF V] by (simp add: kind_node_def as_checking_context_def)
  have mp: "check_presence ?c (method_node m) Strong \<longleftrightarrow> D_PaymentMethod m \<in> V" for m
    using presence_of_method [OF V] by (simp add: as_checking_context_def)
  {
    assume L: ?L
    have "D_PaymentMethod m \<in> V" if mk: "(m, k) \<in> set truth_clauses" and v: "v \<in> V" "dir_get_key v = \<lparr>dk_kind = k, dk_value = None\<rparr>" for m k v
    proof -
      obtain i where i: "i < 7" "truth_clauses ! i = (m, k)" using mk len by (auto simp: in_set_conv_nth)
      have "value_map g (kind_node k) = Some (NodeId (2 * i))"
        using vi truth_clause_nodes(1) [OF g i] unfolding value_index_ok_def by auto
      moreover have "node_accepts ho g actx (kind_node k)" using L v by (auto simp: kind_node_def)
      ultimately have "satisfied dir_get_key g ?c None (NodeId (2 * i)) Positive Strong" by (simp add: node_accepts_def)
      then show ?thesis using truth_satisfied(2) [OF g i] mp by blast
    qed
    then show ?R by blast
  }
  {
    assume R: ?R
    have "node_accepts ho g actx nv" if v: "v \<in> V" and nv: "nv = KeyOf (dir_get_key v) \<or> nv = ValueOf v" for v nv
      unfolding node_accepts_def
    proof (intro allI impI)
      fix n assume "value_map g nv = Some n"
      from truth_values [OF g vi this] obtain i m k where i: "i < 7" "truth_clauses ! i = (m, k)"
        and n: "n = NodeId (2 * i) \<and> nv = kind_node k \<or> n = NodeId (2 * i + 1) \<and> nv = method_node m" by metis
      from n show "satisfied dir_get_key g ?c None n Positive Strong"
      proof (elim disjE conjE)
        assume n: "n = NodeId (2 * i)" "nv = kind_node k"
        with nv have key: "dir_get_key v = \<lparr>dk_kind = k, dk_value = None\<rparr>" by (auto simp: kind_node_def)
        have "(m, k) \<in> set truth_clauses" using i len by (metis nth_mem)
        with R v key have "D_PaymentMethod m \<in> V" by blast
        with v key show ?thesis unfolding n(1) truth_satisfied(2) [OF g i] kp mp by blast
      next
        assume n: "n = NodeId (2 * i + 1)" "nv = method_node m"
        with nv v have "D_PaymentMethod m \<in> V" by (auto simp: method_node_def)
        then show ?thesis unfolding n(1) truth_satisfied(1) [OF g i] mp .
      qed
    qed
    then show ?L by blast
  }
qed

text \<open>
  C23. The default knowledge graph says what its clauses say: the analysis of a context without
  negations accepts it exactly when for each clause a context that asserts a value of the key on
  its right also asserts the payment method on its left. The graph is the one that the macro
  builds, in whatever order its hash tables are iterated.
\<close>

theorem default_graph_requires_payment_method:
  assumes "fx_iterates fx" and "no_negations ctx" and "iter_map ho [] = []"
  shows "\<exists>g res memo. ANALYSIS_GRAPH fx = Some g \<and> perform_context_analysis ho g ctx memo_new None = Some (res, memo)
    \<and> (res = Inr () \<longleftrightarrow>
         (\<forall>(m, k) \<in> set truth_clauses.
            (\<exists>v cv. cv \<in> set ctx \<and> cv_value cv = Assertion v \<and> dir_get_key v = \<lparr>dk_kind = k, dk_value = None\<rparr>) \<longrightarrow>
            (\<exists>cv \<in> set ctx. cv_value cv = Assertion (D_PaymentMethod m))))"
proof -
  obtain b rk g where g: "truth_graph = Inr g" "g = build b" and b: "builder_reachable dir_get_key b" "acyclic_by rk g"
    by (rule truth_graph_built)
  let ?V = "{v. \<exists>cv \<in> set ctx. cv_value cv = Assertion v}" and ?actx = "context_assertions ctx"
  have V: "context_of_values ?actx ?V"
    using from_dir_values_context [of "List.map_filter (\<lambda>cv. get_assertion (cv_value cv)) ctx"]
    unfolding asserted_values_set context_assertions_def .
  have graph: "ANALYSIS_GRAPH fx = Some g"
    using truth_accepted [OF assms(1)] g(1) by (simp add: ANALYSIS_GRAPH_def truth_graph_def)
  obtain res memo where res: "perform_context_analysis ho g ctx memo_new None = Some (res, memo)"
    "res = Inr () \<longleftrightarrow> (\<forall>cv v. cv \<in> set ctx \<and> cv_value cv = Assertion v \<longrightarrow>
       node_accepts ho g ?actx (KeyOf (dir_get_key v)) \<and> node_accepts ho g ?actx (ValueOf v))"
    using graph_analysis_answers [OF b(1) b(2) [unfolded g(2)] assms(2,3)] unfolding g(2) by blast
  have asserted: "(\<exists>v \<in> ?V. dir_get_key v = \<lparr>dk_kind = k, dk_value = None\<rparr>) \<longleftrightarrow>
      (\<exists>v cv. cv \<in> set ctx \<and> cv_value cv = Assertion v \<and> dir_get_key v = \<lparr>dk_kind = k, dk_value = None\<rparr>)" for k by blast
  have "(\<forall>cv v. cv \<in> set ctx \<and> cv_value cv = Assertion v \<longrightarrow>
       node_accepts ho g ?actx (KeyOf (dir_get_key v)) \<and> node_accepts ho g ?actx (ValueOf v)) \<longleftrightarrow>
     (\<forall>v \<in> ?V. node_accepts ho g ?actx (KeyOf (dir_get_key v)) \<and> node_accepts ho g ?actx (ValueOf v))" by blast
  also have "\<dots> \<longleftrightarrow> (\<forall>(m, k) \<in> set truth_clauses.
      (\<exists>v \<in> ?V. dir_get_key v = \<lparr>dk_kind = k, dk_value = None\<rparr>) \<longrightarrow> D_PaymentMethod m \<in> ?V)"
    by (rule truth_accepts_iff [OF g(1) _ V]) (use build_inv [OF reachable_inv [OF b(1)]] g(2) in \<open>simp add: graph_inv_def\<close>)
  finally have "res = Inr () \<longleftrightarrow> (\<forall>(m, k) \<in> set truth_clauses.
      (\<exists>v \<in> ?V. dir_get_key v = \<lparr>dk_kind = k, dk_value = None\<rparr>) \<longrightarrow> D_PaymentMethod m \<in> ?V)" using res(2) by simp
  then have "res = Inr () \<longleftrightarrow> (\<forall>(m, k) \<in> set truth_clauses.
      (\<exists>v cv. cv \<in> set ctx \<and> cv_value cv = Assertion v \<and> dir_get_key v = \<lparr>dk_kind = k, dk_value = None\<rparr>) \<longrightarrow>
      (\<exists>cv \<in> set ctx. cv_value cv = Assertion (D_PaymentMethod m)))"
    by (simp only: asserted mem_Collect_eq)
  with graph res(1) show ?thesis by blast
qed

theorem default_graph_requires_payment_method_witness:
  "\<exists>g res memo. ANALYSIS_GRAPH vec_order = Some g
     \<and> perform_context_analysis example_order g [ctx_assertion (D_PaymentMethod PaymentMethod_Wallet) Map.empty,
          ctx_assertion (D_CardType CardType_Credit) Map.empty] memo_new None = Some (res, memo) \<and> res \<noteq> Inr ()"
proof -
  let ?ctx = "[ctx_assertion (D_PaymentMethod PaymentMethod_Wallet) Map.empty, ctx_assertion (D_CardType CardType_Credit) Map.empty]"
  have h: "fx_iterates vec_order" "no_negations ?ctx" "iter_map example_order [] = []"
    by (simp_all add: fx_iterates_def vec_order_def no_negations_def get_negation_def ctx_assertion_def example_order_def)
  obtain g res memo where r: "ANALYSIS_GRAPH vec_order = Some g"
    "perform_context_analysis example_order g ?ctx memo_new None = Some (res, memo)"
    "res = Inr () \<longleftrightarrow> (\<forall>(m, k) \<in> set truth_clauses.
       (\<exists>v cv. cv \<in> set ?ctx \<and> cv_value cv = Assertion v \<and> dir_get_key v = \<lparr>dk_kind = k, dk_value = None\<rparr>) \<longrightarrow>
       (\<exists>cv \<in> set ?ctx. cv_value cv = Assertion (D_PaymentMethod m)))"
    using default_graph_requires_payment_method [OF h] by blast
  have "(PaymentMethod_Card, K_CardType) \<in> set truth_clauses" by (simp add: truth_clauses_def)
  moreover have "\<exists>v cv. cv \<in> set ?ctx \<and> cv_value cv = Assertion v \<and> dir_get_key v = \<lparr>dk_kind = K_CardType, dk_value = None\<rparr>"
    by (rule exI [of _ "D_CardType CardType_Credit"], rule exI [of _ "ctx_assertion (D_CardType CardType_Credit) Map.empty"])
      (simp add: ctx_assertion_def dir_get_key_def)
  moreover have "\<not> (\<exists>cv \<in> set ?ctx. cv_value cv = Assertion (D_PaymentMethod PaymentMethod_Card))"
    by (simp add: ctx_assertion_def)
  ultimately have "res \<noteq> Inr ()" using r(3) by blast
  with r(1,2) show ?thesis by blast
qed

end
