(* ===== verification/Retry_Schedule.thy ===== *)
theory Retry_Schedule
  imports Euclid_Enums "HOL-Library.Word"
begin

text \<open>
  When a scheduled task is tried again: the retry mappings of
  \<open>scheduler/src/consumer/types/process_data.rs\<close> and the functions of \<open>scheduler/src/utils.rs\<close> that
  read them. An \<open>i32\<close> is a 32-bit word read by \<open>sint\<close>, so the running sum of \<open>get_delay\<close> wraps as in
  the release build. Moments and durations are integers counting nanoseconds; the range of
  \<open>PrimitiveDateTime\<close>, which belongs to the \<open>time\<close> library, is an argument, and so is the clock.

  The delays of a mapping are the list its entries stand for, each frequency repeated by its count:
  \<open>get_delay\<close> reads the entry of that list at the number of the retry.
\<close>

type_synonym i32 = "32 word"
type_synonym datetime = int

definition seconds :: "int \<Rightarrow> int" where
  "seconds s = s * 1000000000"

section \<open>Mappings\<close>

record retry_mapping =
  start_after :: i32
  frequencies :: "(i32 \<times> i32) list"

definition retry_mapping_default :: retry_mapping where
  "retry_mapping_default = \<lparr>start_after = 60, frequencies = [(300, 5)]\<rparr>"

record connector_pt_mapping =
  cpt_default_mapping :: retry_mapping
  cpt_max_retries_count :: i32

definition connector_pt_mapping_default :: connector_pt_mapping where
  "connector_pt_mapping_default =
     \<lparr>cpt_default_mapping = retry_mapping_default, cpt_max_retries_count = 5\<rparr>"

definition refund_default :: connector_pt_mapping where
  "refund_default =
     \<lparr>cpt_default_mapping =
        \<lparr>start_after = 60,
         frequencies = [(1800, 4), (7200, 2), (21600, 3), (43200, 4), (86400, 4)]\<rparr>,
      cpt_max_retries_count = 17\<rparr>"

record subscription_invoice_sync_pt_mapping =
  sis_default_mapping :: retry_mapping
  sis_custom_merchant_mapping :: "(string \<times> retry_mapping) list"
  sis_max_retries_count :: i32

definition subscription_invoice_sync_pt_mapping_default :: subscription_invoice_sync_pt_mapping where
  "subscription_invoice_sync_pt_mapping_default =
     \<lparr>sis_default_mapping = \<lparr>start_after = 60, frequencies = [(300, 5)]\<rparr>,
      sis_custom_merchant_mapping = [],
      sis_max_retries_count = 5\<rparr>"

record payment_methods_pt_mapping =
  pmt_default_mapping :: retry_mapping
  pmt_custom_pm_mapping :: "(payment_method \<times> retry_mapping) list"
  pmt_max_retries_count :: i32

definition payment_methods_pt_mapping_default :: payment_methods_pt_mapping where
  "payment_methods_pt_mapping_default =
     \<lparr>pmt_default_mapping = \<lparr>start_after = 900, frequencies = [(300, 5)]\<rparr>,
      pmt_custom_pm_mapping = [],
      pmt_max_retries_count = 5\<rparr>"

record outgoing_webhook_retry_mapping =
  owr_default_mapping :: retry_mapping

definition outgoing_webhook_retry_mapping_default :: outgoing_webhook_retry_mapping where
  "outgoing_webhook_retry_mapping_default =
     \<lparr>owr_default_mapping =
        \<lparr>start_after = 60,
         frequencies = [(60 * 5, 2), (60 * 10, 5), (60 * 60, 5), (60 * 60 * 6, 3)]\<rparr>\<rparr>"

record revenue_recovery_payment_mapping =
  rrp_default_mapping :: retry_mapping

definition revenue_recovery_payment_mapping_default :: revenue_recovery_payment_mapping where
  "revenue_recovery_payment_mapping_default =
     \<lparr>rrp_default_mapping =
        \<lparr>start_after = 60,
         frequencies =
           [(60 * 60 * 3, 2), (60 * 60 * 6, 3), (60 * 60 * 9, 3), (60 * 60 * 12, 3), (60 * 60 * 18, 3)]\<rparr>\<rparr>"

section \<open>Delays\<close>

fun get_delay_from :: "i32 \<Rightarrow> i32 \<Rightarrow> (i32 \<times> i32) list \<Rightarrow> i32 option" where
  "get_delay_from cumulative_count retry_count [] = None"
| "get_delay_from cumulative_count retry_count ((frequency, count) # fs) =
     (let cumulative_count = cumulative_count + count in
      if sint retry_count \<le> sint cumulative_count then Some frequency
      else get_delay_from cumulative_count retry_count fs)"

definition get_delay :: "i32 \<Rightarrow> (i32 \<times> i32) list \<Rightarrow> i32 option" where
  "get_delay retry_count fs = (if sint retry_count \<le> 0 then None else get_delay_from 0 retry_count fs)"

text \<open>The body the five schedule functions share.\<close>

definition schedule_delay :: "retry_mapping \<Rightarrow> i32 \<Rightarrow> i32 option" where
  "schedule_delay m retry_count =
     (if retry_count = 0 then Some (start_after m) else get_delay retry_count (frequencies m))"

definition get_schedule_time :: "connector_pt_mapping \<Rightarrow> i32 \<Rightarrow> i32 option" where
  "get_schedule_time m retry_count = schedule_delay (cpt_default_mapping m) retry_count"

definition get_pm_schedule_time :: "payment_methods_pt_mapping \<Rightarrow> payment_method \<Rightarrow> i32 \<Rightarrow> i32 option" where
  "get_pm_schedule_time m pm retry_count =
     schedule_delay
       (case map_of (pmt_custom_pm_mapping m) pm of Some r \<Rightarrow> r | None \<Rightarrow> pmt_default_mapping m) retry_count"

definition get_outgoing_webhook_retry_schedule_time :: "outgoing_webhook_retry_mapping \<Rightarrow> i32 \<Rightarrow> i32 option" where
  "get_outgoing_webhook_retry_schedule_time m retry_count = schedule_delay (owr_default_mapping m) retry_count"

definition get_pcr_payments_retry_schedule_time :: "revenue_recovery_payment_mapping \<Rightarrow> i32 \<Rightarrow> i32 option" where
  "get_pcr_payments_retry_schedule_time m retry_count = schedule_delay (rrp_default_mapping m) retry_count"

definition get_subscription_invoice_sync_retry_schedule_time ::
    "subscription_invoice_sync_pt_mapping \<Rightarrow> string \<Rightarrow> i32 \<Rightarrow> i32 option" where
  "get_subscription_invoice_sync_retry_schedule_time m merchant_id retry_count =
     schedule_delay
       (case map_of (sis_custom_merchant_mapping m) merchant_id of
          Some r \<Rightarrow> r | None \<Rightarrow> sis_default_mapping m) retry_count"

text \<open>\<open>dt_range\<close> is the least and the greatest \<open>PrimitiveDateTime\<close>.\<close>

definition saturating_add :: "datetime \<times> datetime \<Rightarrow> datetime \<Rightarrow> int \<Rightarrow> datetime" where
  "saturating_add dt_range t d = max (fst dt_range) (min (snd dt_range) (t + d))"

definition get_time_from_delta :: "datetime \<times> datetime \<Rightarrow> datetime \<Rightarrow> i32 option \<Rightarrow> datetime option" where
  "get_time_from_delta dt_range now delta =
     map_option (\<lambda>t. saturating_add dt_range now (seconds (sint t))) delta"

section \<open>The delays as a list\<close>

definition delays :: "(i32 \<times> i32) list \<Rightarrow> i32 list" where
  "delays fs = concat (map (\<lambda>(frequency, count). replicate (nat (sint count)) frequency) fs)"

definition counts_ok :: "(i32 \<times> i32) list \<Rightarrow> bool" where
  "counts_ok fs \<longleftrightarrow> (\<forall>(f, c) \<in> set fs. 0 \<le> sint c) \<and> length (delays fs) < 2 ^ 31"

definition planned_delay :: "retry_mapping \<Rightarrow> i32 \<Rightarrow> i32 option" where
  "planned_delay r n =
     (if 0 \<le> sint n then vec_get (start_after r # delays (frequencies r)) (nat (sint n)) else None)"

lemma delays_simps [simp]:
  "delays [] = []"
  "delays ((f, c) # fs) = replicate (nat (sint c)) f @ delays fs"
  by (simp_all add: delays_def)

lemma sint_i32_add:
  fixes a b :: i32
  assumes "0 \<le> sint a" "0 \<le> sint b" "sint a + sint b < 2 ^ 31"
  shows "sint (a + b) = sint a + sint b"
  using assms by (simp add: sint_word_add signed_take_bit_int_eq_self)

lemma vec_get_replicate_append [simp]:
  "i < n \<Longrightarrow> vec_get (replicate n x @ ys) i = Some x"
  "vec_get (replicate n x @ ys) (n + k) = vec_get ys k"
  by (simp_all add: vec_get_def nth_append)

lemma get_delay_from_exact:
  assumes "0 \<le> sint a" and "sint a < sint n"
    and "\<forall>(f, c) \<in> set fs. 0 \<le> sint c" and "sint a + int (length (delays fs)) < 2 ^ 31"
  shows "get_delay_from a n fs = vec_get (delays fs) (nat (sint n - sint a) - 1)"
  using assms
proof (induction fs arbitrary: a)
  case Nil
  then show ?case by (simp add: vec_get_def)
next
  case (Cons fc fs)
  obtain f c where fc: "fc = (f, c)" by fastforce
  have c: "0 \<le> sint c" and rest: "\<forall>(f, c) \<in> set fs. 0 \<le> sint c" using Cons.prems(3) fc by auto
  have sum: "sint (a + c) = sint a + sint c"
    using Cons.prems(1,4) c fc by (intro sint_i32_add) auto
  show ?case
  proof (cases "sint n \<le> sint a + sint c")
    case True
    then have "nat (sint n - sint a) - 1 < nat (sint c)" using Cons.prems(2) by auto
    then show ?thesis using True fc sum by simp
  next
    case False
    have IH: "get_delay_from (a + c) n fs = vec_get (delays fs) (nat (sint n - sint (a + c)) - 1)"
      using False Cons.prems c fc sum by (intro Cons.IH rest) auto
    have ix: "nat (sint n - sint a) - 1 = nat (sint c) + (nat (sint n - (sint a + sint c)) - 1)"
      using False c Cons.prems(1) by (simp add: nat_diff_distrib)
    have "vec_get (delays (fc # fs)) (nat (sint n - sint a) - 1) = vec_get (delays fs) (nat (sint n - (sint a + sint c)) - 1)"
      unfolding ix fc delays_simps by (rule vec_get_replicate_append)
    then show ?thesis using False fc sum IH by simp
  qed
qed

lemma get_delay_reads_delays:
  assumes "counts_ok fs"
  shows "get_delay n fs = (if 0 < sint n then vec_get (delays fs) (nat (sint n) - 1) else None)"
  using get_delay_from_exact [of 0 n fs] assms by (auto simp: get_delay_def counts_ok_def)

lemma get_delay_none_iff:
  assumes "counts_ok fs"
  shows "get_delay n fs = None \<longleftrightarrow> sint n \<le> 0 \<or> int (length (delays fs)) < sint n"
  using get_delay_reads_delays [OF assms, of n] by (auto simp: vec_get_def nat_less_iff)

lemma schedule_delay_exact:
  assumes "counts_ok (frequencies m)"
  shows "schedule_delay m n =
    (if 0 \<le> sint n then vec_get (start_after m # delays (frequencies m)) (nat (sint n)) else None)"
proof (cases "n = 0")
  case True
  then show ?thesis by (simp add: schedule_delay_def vec_get_def)
next
  case False
  then have "sint n \<noteq> 0" using signed_word_eqI [of n 0] by (metis signed_0)
  moreover have "vec_get (x # xs) (nat i) = vec_get xs (nat i - 1)" if "0 < i" for x i and xs :: "i32 list"
    using that by (auto simp: vec_get_def nth_Cons')
  ultimately show ?thesis
    using False by (auto simp: schedule_delay_def get_delay_reads_delays [OF assms])
qed

lemma delays_of_defaults:
  "delays (frequencies (cpt_default_mapping refund_default)) =
     [1800, 1800, 1800, 1800, 7200, 7200, 21600, 21600, 21600, 43200, 43200, 43200, 43200,
      86400, 86400, 86400, 86400]"
  "length (delays (frequencies (cpt_default_mapping connector_pt_mapping_default))) = 5"
  "length (delays (frequencies (owr_default_mapping outgoing_webhook_retry_mapping_default))) = 15"
  "length (delays (frequencies (rrp_default_mapping revenue_recovery_payment_mapping_default))) = 14"
  by (simp_all add: refund_default_def connector_pt_mapping_default_def retry_mapping_default_def
      outgoing_webhook_retry_mapping_default_def revenue_recovery_payment_mapping_default_def
      numeral_eq_Suc)

lemma counts_ok_defaults:
  "counts_ok (frequencies (cpt_default_mapping refund_default))"
  "counts_ok (frequencies (cpt_default_mapping connector_pt_mapping_default))"
  "counts_ok (frequencies (owr_default_mapping outgoing_webhook_retry_mapping_default))"
  "counts_ok (frequencies (rrp_default_mapping revenue_recovery_payment_mapping_default))"
  by (simp_all add: counts_ok_def delays_of_defaults)
    (simp_all add: refund_default_def connector_pt_mapping_default_def retry_mapping_default_def
      outgoing_webhook_retry_mapping_default_def revenue_recovery_payment_mapping_default_def)

text \<open>The configured maximum number of retries is not read by any of the schedule functions.\<close>

lemma max_retries_count_unused:
  "get_schedule_time (m\<lparr>cpt_max_retries_count := k\<rparr>) n = get_schedule_time m n"
  by (simp add: get_schedule_time_def)

section \<open>Properties\<close>

text \<open>
  C31. The schedule of a retry mapping is a list: the first try waits \<open>start_after\<close> seconds, the
  retry number \<open>n\<close> waits the \<open>n\<close>-th of the delays that the pairs of frequency and count stand for, and
  beyond the last of them, or for a negative number, there is no retry. This holds for each of the
  five schedule functions with the retry mapping it selects, the custom one of the payment method or
  of the merchant where there is one and the default one otherwise. It needs that no count is
  negative and that their sum fits an \<open>i32\<close>.
\<close>

theorem retry_schedule_exact:
  assumes "counts_ok (frequencies r)"
  shows "(cpt_default_mapping m = r \<longrightarrow> get_schedule_time m n = planned_delay r n)
    \<and> (owr_default_mapping w = r \<longrightarrow> get_outgoing_webhook_retry_schedule_time w n = planned_delay r n)
    \<and> (rrp_default_mapping v = r \<longrightarrow> get_pcr_payments_retry_schedule_time v n = planned_delay r n)
    \<and> (map_of (pmt_custom_pm_mapping p) pm = Some r \<longrightarrow> get_pm_schedule_time p pm n = planned_delay r n)
    \<and> (map_of (pmt_custom_pm_mapping p) pm = None \<and> pmt_default_mapping p = r \<longrightarrow> get_pm_schedule_time p pm n = planned_delay r n)
    \<and> (map_of (sis_custom_merchant_mapping i) mi = Some r \<longrightarrow>
         get_subscription_invoice_sync_retry_schedule_time i mi n = planned_delay r n)
    \<and> (map_of (sis_custom_merchant_mapping i) mi = None \<and> sis_default_mapping i = r \<longrightarrow>
         get_subscription_invoice_sync_retry_schedule_time i mi n = planned_delay r n)"
  using schedule_delay_exact [OF assms(1), of n] unfolding planned_delay_def
  by (auto simp: get_schedule_time_def get_outgoing_webhook_retry_schedule_time_def
      get_pcr_payments_retry_schedule_time_def get_pm_schedule_time_def
      get_subscription_invoice_sync_retry_schedule_time_def)

theorem retry_schedule_exact_witness:
  "counts_ok (frequencies (cpt_default_mapping refund_default)) \<and>
   get_schedule_time refund_default 0 = Some 60 \<and> get_schedule_time refund_default 5 = Some 7200 \<and>
   get_schedule_time refund_default 17 = Some 86400 \<and> get_schedule_time refund_default 18 = None"
proof -
  have s: "get_schedule_time refund_default n = planned_delay (cpt_default_mapping refund_default) n" for n
    using retry_schedule_exact [OF counts_ok_defaults(1)] by blast
  show ?thesis unfolding s planned_delay_def delays_of_defaults
    by (simp add: counts_ok_defaults vec_get_def numeral_eq_Suc) (simp add: refund_default_def)
qed

end
