(* ===== verification/Process_Tracker.thy ===== *)
theory Process_Tracker
  imports Retry_Schedule "HOL-Library.Option_ord"
begin

text \<open>
  The table of scheduled tasks: the row \<open>ProcessTracker\<close> and its updates
  (\<open>diesel_models/src/process_tracker.rs\<close>), the queries of
  \<open>diesel_models/src/query/process_tracker.rs\<close> and the operations the scheduler's store offers on them
  (\<open>scheduler/src/db/process_tracker.rs\<close>).

  The table is the list of its rows, in the order in which the database returns them; a query keeps
  the rows its predicate selects, an update rewrites them. Every call of the database or of Redis
  consumes one entry of \<open>outcomes\<close>: the call is answered, it is refused without any effect, or it
  takes effect and the reply is lost. In both other cases the caller sees an error. When the list is
  used up all calls are answered. A theorem about all values of \<open>outcomes\<close> therefore covers every
  pattern of failures.
\<close>

section \<open>Tasks\<close>

datatype process_tracker_status = Processing | New | Pending | ProcessStarted | Finish | Review

datatype application_source = Main_app | Cug

datatype api_version = V1 | V2

datatype process_tracker_runner =
    PaymentsSyncWorkflow | PaymentsPostCaptureVoidSyncWorkflow | RefundWorkflowRouter
  | DeleteTokenizeDataWorkflow | ApiKeyExpiryWorkflow | OutgoingWebhookRetryWorkflow
  | AttachPayoutAccountWorkflow | PaymentMethodStatusUpdateWorkflow
  | PaymentMethodModularForwardCompatWorkflow | PaymentMethodModularBackwardCompatWorkflow
  | PassiveRecoveryWorkflow | ProcessDisputeWorkflow | DisputeListWorkflow | InvoiceSyncflow
  | PayoutSyncWorkFlow | BatchBlocklistUpload | NetworkTokenizationWorkflow

fun runner_to_string :: "process_tracker_runner \<Rightarrow> string" where
  "runner_to_string PaymentsSyncWorkflow = ''PAYMENTS_SYNC_WORKFLOW''"
| "runner_to_string PaymentsPostCaptureVoidSyncWorkflow = ''PAYMENTS_POST_CAPTURE_VOID_SYNC_WORKFLOW''"
| "runner_to_string RefundWorkflowRouter = ''REFUND_WORKFLOW_ROUTER''"
| "runner_to_string DeleteTokenizeDataWorkflow = ''DELETE_TOKENIZE_DATA_WORKFLOW''"
| "runner_to_string ApiKeyExpiryWorkflow = ''API_KEY_EXPIRY_WORKFLOW''"
| "runner_to_string OutgoingWebhookRetryWorkflow = ''OUTGOING_WEBHOOK_RETRY_WORKFLOW''"
| "runner_to_string AttachPayoutAccountWorkflow = ''ATTACH_PAYOUT_ACCOUNT_WORKFLOW''"
| "runner_to_string PaymentMethodStatusUpdateWorkflow = ''PAYMENT_METHOD_STATUS_UPDATE_WORKFLOW''"
| "runner_to_string PaymentMethodModularForwardCompatWorkflow = ''PAYMENT_METHOD_MODULAR_FORWARD_COMPAT_WORKFLOW''"
| "runner_to_string PaymentMethodModularBackwardCompatWorkflow = ''PAYMENT_METHOD_MODULAR_BACKWARD_COMPAT_WORKFLOW''"
| "runner_to_string PassiveRecoveryWorkflow = ''PASSIVE_RECOVERY_WORKFLOW''"
| "runner_to_string ProcessDisputeWorkflow = ''PROCESS_DISPUTE_WORKFLOW''"
| "runner_to_string DisputeListWorkflow = ''DISPUTE_LIST_WORKFLOW''"
| "runner_to_string InvoiceSyncflow = ''INVOICE_SYNCFLOW''"
| "runner_to_string PayoutSyncWorkFlow = ''PAYOUT_SYNC_WORK_FLOW''"
| "runner_to_string BatchBlocklistUpload = ''BATCH_BLOCKLIST_UPLOAD''"
| "runner_to_string NetworkTokenizationWorkflow = ''NETWORK_TOKENIZATION_WORKFLOW''"

text \<open>A \<open>serde_json::Value\<close>; a number is kept as its text.\<close>

datatype json_value =
    JNull | JBool bool | JNumber string | JString string
  | JArray "json_value list" | JObject "(string \<times> json_value) list"

record process_tracker =
  pt_id :: string
  pt_name :: "string option"
  pt_tag :: "string list"
  pt_runner :: "string option"
  pt_retry_count :: i32
  pt_schedule_time :: "datetime option"
  pt_rule :: string
  pt_tracking_data :: json_value
  pt_business_status :: string
  pt_status :: process_tracker_status
  pt_event :: "string list"
  pt_created_at :: datetime
  pt_updated_at :: datetime
  pt_version :: api_version
  pt_application_source :: "application_source option"

text \<open>\<open>ProcessTrackerNew\<close> has the fields of a row.\<close>

type_synonym process_tracker_new = process_tracker

definition is_valid_business_status :: "process_tracker \<Rightarrow> string list \<Rightarrow> bool" where
  "is_valid_business_status t valid_statuses = list_ex (\<lambda>x. x = pt_business_status t) valid_statuses"

subsection \<open>Business statuses\<close>

definition GLOBAL_FAILURE :: string where "GLOBAL_FAILURE = ''GLOBAL_FAILURE''"
definition COMPLETED_BY_PT :: string where "COMPLETED_BY_PT = ''COMPLETED_BY_PT''"
definition FAILURE :: string where "FAILURE = ''FAILURE''"
definition REVOKED :: string where "REVOKED = ''Revoked''"
definition RETRIES_EXCEEDED :: string where "RETRIES_EXCEEDED = ''RETRIES_EXCEEDED''"
definition INITIAL_DELIVERY_ATTEMPT_SUCCESSFUL :: string where
  "INITIAL_DELIVERY_ATTEMPT_SUCCESSFUL = ''INITIAL_DELIVERY_ATTEMPT_SUCCESSFUL''"
definition GLOBAL_ERROR :: string where "GLOBAL_ERROR = ''GLOBAL_ERROR''"
definition RESOURCE_STATUS_MISMATCH :: string where "RESOURCE_STATUS_MISMATCH = ''RESOURCE_STATUS_MISMATCH''"
definition PENDING :: string where "PENDING = ''Pending''"

lemmas business_status_defs =
  GLOBAL_FAILURE_def COMPLETED_BY_PT_def FAILURE_def REVOKED_def RETRIES_EXCEEDED_def
  INITIAL_DELIVERY_ATTEMPT_SUCCESSFUL_def GLOBAL_ERROR_def RESOURCE_STATUS_MISMATCH_def PENDING_def

subsection \<open>Errors\<close>

datatype database_error =
    Db_DatabaseConnectionError | Db_NotFound | Db_UniqueViolation | Db_NoFieldsToUpdate
  | Db_QueryGenerationFailed | Db_Others

datatype storage_error =
    St_DatabaseConnectionError | St_ValueNotFound string | St_DuplicateValue string "string option"
  | St_DatabaseError database_error | St_MockDbError

fun storage_error_from :: "database_error \<Rightarrow> storage_error" where
  "storage_error_from Db_DatabaseConnectionError = St_DatabaseConnectionError"
| "storage_error_from Db_NotFound = St_ValueNotFound ''db value not found''"
| "storage_error_from Db_UniqueViolation = St_DuplicateValue ''db entity'' None"
| "storage_error_from e = St_DatabaseError e"

subsection \<open>Creating a task\<close>

text \<open>\<open>encoded\<close> is what \<open>encode_to_value\<close> makes of the tracking data, \<open>current_time\<close> the clock.\<close>

definition process_tracker_new ::
    "datetime \<Rightarrow> string \<Rightarrow> string \<Rightarrow> process_tracker_runner \<Rightarrow> string list \<Rightarrow> ('e + json_value) \<Rightarrow>
     i32 option \<Rightarrow> datetime \<Rightarrow> api_version \<Rightarrow> application_source \<Rightarrow> database_error + process_tracker_new" where
  "process_tracker_new current_time process_tracker_id task runner tag encoded retry_count schedule_time
       api_version application_source =
     and_then (map_err (\<lambda>_. Db_Others) encoded) (\<lambda>tracking_data.
       Inr \<lparr>pt_id = process_tracker_id,
            pt_name = Some task,
            pt_tag = tag,
            pt_runner = Some (runner_to_string runner),
            pt_retry_count = (case retry_count of Some c \<Rightarrow> c | None \<Rightarrow> 0),
            pt_schedule_time = Some schedule_time,
            pt_rule = [],
            pt_tracking_data = tracking_data,
            pt_business_status = PENDING,
            pt_status = New,
            pt_event = [],
            pt_created_at = current_time,
            pt_updated_at = current_time,
            pt_version = api_version,
            pt_application_source = Some application_source\<rparr>)"

definition get_process_tracker_id :: "process_tracker_runner \<Rightarrow> string \<Rightarrow> string \<Rightarrow> string \<Rightarrow> string" where
  "get_process_tracker_id runner task_name txn_id merchant_id =
     runner_to_string runner @ ''_'' @ task_name @ ''_'' @ txn_id @ ''_'' @ merchant_id"

section \<open>Updates\<close>

datatype process_tracker_update =
    Update "string option" "i32 option" "datetime option" "json_value option" "string option"
      "process_tracker_status option" "datetime option"
  | StatusUpdate process_tracker_status "string option"
  | StatusRetryUpdate process_tracker_status i32 datetime

record process_tracker_update_internal =
  u_name :: "string option"
  u_retry_count :: "i32 option"
  u_schedule_time :: "datetime option"
  u_tracking_data :: "json_value option"
  u_business_status :: "string option"
  u_status :: "process_tracker_status option"
  u_updated_at :: "datetime option"

definition update_internal_default :: "datetime \<Rightarrow> process_tracker_update_internal" where
  "update_internal_default current_time =
     \<lparr>u_name = None, u_retry_count = None, u_schedule_time = None, u_tracking_data = None,
      u_business_status = None, u_status = None, u_updated_at = Some current_time\<rparr>"

fun update_internal_from :: "datetime \<Rightarrow> process_tracker_update \<Rightarrow> process_tracker_update_internal" where
  "update_internal_from current_time
     (Update name retry_count schedule_time tracking_data business_status status updated_at) =
     \<lparr>u_name = name, u_retry_count = retry_count, u_schedule_time = schedule_time,
      u_tracking_data = tracking_data, u_business_status = business_status, u_status = status,
      u_updated_at = updated_at\<rparr>"
| "update_internal_from current_time (StatusUpdate status business_status) =
     (update_internal_default current_time)\<lparr>u_status := Some status, u_business_status := business_status\<rparr>"
| "update_internal_from current_time (StatusRetryUpdate status retry_count schedule_time) =
     (update_internal_default current_time)
       \<lparr>u_status := Some status, u_retry_count := Some retry_count, u_schedule_time := Some schedule_time\<rparr>"

text \<open>
  \<open>AsChangeset\<close>: a field that is \<open>None\<close> is left out of the \<open>SET\<close> clause; when all are, the query
  cannot be built.
\<close>

definition or_keep :: "'a option \<Rightarrow> 'a \<Rightarrow> 'a" where
  "or_keep x old = (case x of Some v \<Rightarrow> v | None \<Rightarrow> old)"

definition set_fields :: "process_tracker_update_internal \<Rightarrow> process_tracker \<Rightarrow> process_tracker" where
  "set_fields u r =
     r\<lparr>pt_name := (case u_name u of Some v \<Rightarrow> Some v | None \<Rightarrow> pt_name r),
       pt_retry_count := or_keep (u_retry_count u) (pt_retry_count r),
       pt_schedule_time := (case u_schedule_time u of Some v \<Rightarrow> Some v | None \<Rightarrow> pt_schedule_time r),
       pt_tracking_data := or_keep (u_tracking_data u) (pt_tracking_data r),
       pt_business_status := or_keep (u_business_status u) (pt_business_status r),
       pt_status := or_keep (u_status u) (pt_status r),
       pt_updated_at := or_keep (u_updated_at u) (pt_updated_at r)\<rparr>"

definition no_fields :: "process_tracker_update_internal \<Rightarrow> bool" where
  "no_fields u \<longleftrightarrow> u_name u = None \<and> u_retry_count u = None \<and> u_schedule_time u = None \<and>
     u_tracking_data u = None \<and> u_business_status u = None \<and> u_status u = None \<and> u_updated_at u = None"

section \<open>The store and its calls\<close>

datatype call_outcome = Answered | Refused | Reply_lost

record store =
  rows :: "process_tracker list"
  clock :: datetime
  outcomes :: "call_outcome list"

definition call_service ::
    "'e \<Rightarrow> 'e \<Rightarrow> ('z store_scheme \<Rightarrow> ('e, 'r, 'z store_scheme) st_result) \<Rightarrow>
     'z store_scheme \<Rightarrow> ('e, 'r, 'z store_scheme) st_result" where
  "call_service refused lost op s =
     (case outcomes s of
        [] \<Rightarrow> op s
      | Answered # os \<Rightarrow> op (s\<lparr>outcomes := os\<rparr>)
      | Refused # os \<Rightarrow> (Inl refused, s\<lparr>outcomes := os\<rparr>)
      | Reply_lost # os \<Rightarrow> (Inl lost, snd (op (s\<lparr>outcomes := os\<rparr>))))"

abbreviation db_call ::
    "('z store_scheme \<Rightarrow> (database_error, 'r, 'z store_scheme) st_result) \<Rightarrow>
     'z store_scheme \<Rightarrow> (database_error, 'r, 'z store_scheme) st_result" where
  "db_call \<equiv> call_service Db_DatabaseConnectionError Db_Others"

definition on_err :: "('e \<Rightarrow> 'f) \<Rightarrow> ('e, 'r, 's) st_result \<Rightarrow> ('f, 'r, 's) st_result" where
  "on_err f r = (map_err f (fst r), snd r)"

definition bind_st :: "('e, 'a, 's) st_result \<Rightarrow> ('a \<Rightarrow> 's \<Rightarrow> ('e, 'b, 's) st_result) \<Rightarrow> ('e, 'b, 's) st_result" where
  "bind_st r k = (case r of (Inl e, s) \<Rightarrow> (Inl e, s) | (Inr a, s) \<Rightarrow> k a s)"

section \<open>Queries\<close>

definition update_rows :: "(process_tracker \<Rightarrow> bool) \<Rightarrow> (process_tracker \<Rightarrow> process_tracker) \<Rightarrow>
    process_tracker list \<Rightarrow> process_tracker list" where
  "update_rows p f rs = map (\<lambda>r. if p r then f r else r) rs"

definition q_insert_process :: "process_tracker_new \<Rightarrow> 'z store_scheme \<Rightarrow> (database_error, process_tracker, 'z store_scheme) st_result" where
  "q_insert_process new =
     db_call (\<lambda>s. if pt_id new \<in> pt_id ` set (rows s) then (Inl Db_UniqueViolation, s)
                  else (Inr new, s\<lparr>rows := rows s @ [new]\<rparr>))"

definition generic_update_by_id :: "string \<Rightarrow> process_tracker_update_internal \<Rightarrow> 'z store_scheme \<Rightarrow> (database_error, process_tracker, 'z store_scheme) st_result" where
  "generic_update_by_id i u =
     db_call (\<lambda>s. if no_fields u then (Inl Db_NoFieldsToUpdate, s)
                  else case find (\<lambda>r. pt_id r = i) (rows s) of
                         None \<Rightarrow> (Inl Db_NotFound, s)
                       | Some r \<Rightarrow> (Inr (set_fields u r),
                                   s\<lparr>rows := update_rows (\<lambda>r. pt_id r = i) (set_fields u) (rows s)\<rparr>))"

definition q_update :: "process_tracker \<Rightarrow> process_tracker_update \<Rightarrow> 'z store_scheme \<Rightarrow> (database_error, process_tracker, 'z store_scheme) st_result" where
  "q_update this process s =
     (case generic_update_by_id (pt_id this) (update_internal_from (clock s) process) s of
        (Inl Db_NoFieldsToUpdate, s') \<Rightarrow> (Inr this, s')
      | r \<Rightarrow> r)"

definition q_update_process_status_by_ids :: "string list \<Rightarrow> process_tracker_update \<Rightarrow> 'z store_scheme \<Rightarrow> (database_error, nat, 'z store_scheme) st_result" where
  "q_update_process_status_by_ids task_ids task_update s =
     (let u = update_internal_from (clock s) task_update in
      db_call (\<lambda>s. if no_fields u then (Inl Db_Others, s)
                   else (Inr (length (filter (\<lambda>r. pt_id r \<in> set task_ids) (rows s))),
                         s\<lparr>rows := update_rows (\<lambda>r. pt_id r \<in> set task_ids) (set_fields u) (rows s)\<rparr>)) s)"

definition q_find_process_by_id :: "string \<Rightarrow> 'z store_scheme \<Rightarrow> (database_error, process_tracker option, 'z store_scheme) st_result" where
  "q_find_process_by_id i = db_call (\<lambda>s. (Inr (find (\<lambda>r. pt_id r = i) (rows s)), s))"

definition between :: "datetime option \<Rightarrow> datetime \<Rightarrow> datetime \<Rightarrow> bool" where
  "between t l u = (case t of None \<Rightarrow> False | Some t \<Rightarrow> l \<le> t \<and> t \<le> u)"

definition q_find_processes_by_time_status ::
    "datetime \<Rightarrow> datetime \<Rightarrow> process_tracker_status \<Rightarrow> int option \<Rightarrow> api_version \<Rightarrow> 'z store_scheme \<Rightarrow>
     (database_error, process_tracker list, 'z store_scheme) st_result" where
  "q_find_processes_by_time_status time_lower_limit time_upper_limit status limit version =
     db_call (\<lambda>s.
       let found = filter (\<lambda>r. between (pt_schedule_time r) time_lower_limit time_upper_limit \<and>
                               pt_status r = status \<and> pt_version r = version) (rows s)
       in (case limit of
             None \<Rightarrow> Inr found
           | Some n \<Rightarrow> (if n < 0 then Inl Db_Others else Inr (take (nat n) found)), s))"

definition q_find_processes_to_clean ::
    "datetime \<Rightarrow> datetime \<Rightarrow> string \<Rightarrow> nat \<Rightarrow> 'z store_scheme \<Rightarrow>
     (database_error, process_tracker list, 'z store_scheme) st_result" where
  "q_find_processes_to_clean time_lower_limit time_upper_limit runner limit s =
     bind_st
       (db_call (\<lambda>s. (Inr (filter (\<lambda>r. between (pt_schedule_time r) time_lower_limit time_upper_limit \<and>
          pt_status r = ProcessStarted \<and> pt_runner r = Some runner) (rows s)), s)) s)
       (\<lambda>processes s. (Inr (take limit (sort_key pt_schedule_time processes)), s))"

definition limbo_update :: "datetime \<Rightarrow> process_tracker \<Rightarrow> process_tracker" where
  "limbo_update schedule_time r = r\<lparr>pt_status := Processing, pt_schedule_time := Some schedule_time\<rparr>"

definition q_reinitialize_limbo_processes :: "string list \<Rightarrow> datetime \<Rightarrow> 'z store_scheme \<Rightarrow> (database_error, nat, 'z store_scheme) st_result" where
  "q_reinitialize_limbo_processes ids schedule_time =
     db_call (\<lambda>s. let p = (\<lambda>r. pt_status r = ProcessStarted \<and> pt_id r \<in> set ids) in
       (Inr (length (filter p (rows s))), s\<lparr>rows := update_rows p (limbo_update schedule_time) (rows s)\<rparr>))"

section \<open>Operations of the store\<close>

abbreviation to_storage :: "(database_error, 'r, 's) st_result \<Rightarrow> (storage_error, 'r, 's) st_result" where
  "to_storage \<equiv> on_err storage_error_from"

definition API_VERSION :: api_version where
  "API_VERSION = V1"

definition find_process_by_id :: "string \<Rightarrow> 'z store_scheme \<Rightarrow> (storage_error, process_tracker option, 'z store_scheme) st_result" where
  "find_process_by_id i s = to_storage (q_find_process_by_id i s)"

definition reinitialize_limbo_processes :: "string list \<Rightarrow> datetime \<Rightarrow> 'z store_scheme \<Rightarrow> (storage_error, nat, 'z store_scheme) st_result" where
  "reinitialize_limbo_processes ids schedule_time s = to_storage (q_reinitialize_limbo_processes ids schedule_time s)"

definition find_processes_by_time_status ::
    "datetime \<Rightarrow> datetime \<Rightarrow> process_tracker_status \<Rightarrow> int option \<Rightarrow> 'z store_scheme \<Rightarrow>
     (storage_error, process_tracker list, 'z store_scheme) st_result" where
  "find_processes_by_time_status time_lower_limit time_upper_limit status limit s =
     to_storage (q_find_processes_by_time_status time_lower_limit time_upper_limit status limit API_VERSION s)"

definition insert_process :: "process_tracker_new \<Rightarrow> 'z store_scheme \<Rightarrow> (storage_error, process_tracker, 'z store_scheme) st_result" where
  "insert_process new s = to_storage (q_insert_process new s)"

definition update_process :: "process_tracker \<Rightarrow> process_tracker_update \<Rightarrow> 'z store_scheme \<Rightarrow> (storage_error, process_tracker, 'z store_scheme) st_result" where
  "update_process this process s = to_storage (q_update this process s)"

definition reset_process :: "process_tracker \<Rightarrow> datetime \<Rightarrow> 'z store_scheme \<Rightarrow> (storage_error, unit, 'z store_scheme) st_result" where
  "reset_process this schedule_time s =
     bind_st (update_process this (StatusRetryUpdate New 0 schedule_time) s) (\<lambda>_ s. (Inr (), s))"

definition retry_process :: "process_tracker \<Rightarrow> datetime \<Rightarrow> 'z store_scheme \<Rightarrow> (storage_error, unit, 'z store_scheme) st_result" where
  "retry_process this schedule_time s =
     (let retry_count = pt_retry_count this + 1 in
      bind_st (update_process this (StatusRetryUpdate Pending retry_count schedule_time) s) (\<lambda>_ s. (Inr (), s)))"

definition finish_process_with_business_status :: "process_tracker \<Rightarrow> string \<Rightarrow> 'z store_scheme \<Rightarrow> (storage_error, unit, 'z store_scheme) st_result" where
  "finish_process_with_business_status this business_status s =
     bind_st (update_process this (StatusUpdate Finish (Some business_status)) s) (\<lambda>_ s. (Inr (), s))"

definition process_tracker_update_process_status_by_ids :: "string list \<Rightarrow> process_tracker_update \<Rightarrow> 'z store_scheme \<Rightarrow> (storage_error, nat, 'z store_scheme) st_result" where
  "process_tracker_update_process_status_by_ids task_ids task_update s =
     to_storage (q_update_process_status_by_ids task_ids task_update s)"

lemmas store_operations =
  find_process_by_id_def reinitialize_limbo_processes_def find_processes_by_time_status_def
  insert_process_def update_process_def process_tracker_update_process_status_by_ids_def

section \<open>Results of calls\<close>

lemma on_err_simps [simp, result_simps]:
  "on_err f (Inl e, s) = (Inl (f e), s)"
  "on_err f (Inr a, s) = (Inr a, s)"
  "snd (on_err f r) = snd r"
  by (simp_all add: on_err_def)

lemma on_err_eq_Inr [simp]: "on_err f r = (Inr a, s) \<longleftrightarrow> r = (Inr a, s)"
  by (cases r; cases "fst r") (auto simp: on_err_def)

lemma bind_st_simps [simp, result_simps]:
  "bind_st (Inl e, s) k = (Inl e, s)"
  "bind_st (Inr a, s) k = k a s"
  by (simp_all add: bind_st_def)

lemma bind_st_unit [simp]:
  "snd (bind_st r (\<lambda>_ s. (Inr (), s))) = snd r"
  "fst (bind_st r (\<lambda>_ s. (Inr (), s))) = Inr () \<longleftrightarrow> (\<exists>a. fst r = Inr a)"
  by (cases r; cases "fst r"; simp add: bind_st_def)+

lemma outcomes_same [simp]: "outcomes s = os \<Longrightarrow> s\<lparr>outcomes := os\<rparr> = s"
  by (cases s) simp

text \<open>What a call can do: nothing, or what its operation does, whether or not its caller learns of it.\<close>

lemma call_service_cases [consumes 1, case_names Answered Refused Lost]:
  assumes "call_service e1 e2 op s = (r, s')"
  obtains os where "op (s\<lparr>outcomes := os\<rparr>) = (r, s')"
        | os where "r = Inl e1" and "s' = s\<lparr>outcomes := os\<rparr>"
        | os where "r = Inl e2" and "s' = snd (op (s\<lparr>outcomes := os\<rparr>))"
proof (cases "outcomes s")
  case Nil
  with assms show ?thesis by (intro that(1) [of "[]"]) (simp add: call_service_def)
next
  case (Cons c os)
  with assms that show ?thesis by (cases c) (auto simp: call_service_def)
qed

lemma call_service_snd:
  "\<exists>os. snd (call_service e1 e2 op s) = s\<lparr>outcomes := os\<rparr> \<or>
        snd (call_service e1 e2 op s) = snd (op (s\<lparr>outcomes := os\<rparr>))"
proof -
  obtain r s' where c: "call_service e1 e2 op s = (r, s')" by fastforce
  from c show ?thesis by (cases rule: call_service_cases) (metis c snd_conv)+
qed

lemma call_service_answered:
  "outcomes s = [] \<Longrightarrow> call_service e1 e2 op s = op s"
  "outcomes s = Answered # os \<Longrightarrow> call_service e1 e2 op s = op (s\<lparr>outcomes := os\<rparr>)"
  by (simp_all add: call_service_def)

section \<open>Rows under updates\<close>

text \<open>What every update of a task promises: the key of the row stays.\<close>

locale row_update =
  fixes upd :: "process_tracker \<Rightarrow> process_tracker"
  assumes upd_id: "pt_id (upd r) = pt_id r"
begin

lemma ids_kept: "map pt_id (update_rows p upd rs) = map pt_id rs"
  by (simp add: update_rows_def upd_id)

lemma find_updated:
  "find (\<lambda>r. pt_id r = i) (update_rows p upd rs) =
     map_option (\<lambda>r. if p r then upd r else r) (find (\<lambda>r. pt_id r = i) rs)"
  by (induction rs) (auto simp: update_rows_def upd_id)

end

lemma set_fields_id: "pt_id (set_fields u r) = pt_id r"
  by (simp add: set_fields_def)

interpretation sf: row_update "set_fields u" for u
  by unfold_locales (rule set_fields_id)

interpretation lu: row_update "limbo_update t" for t
  by unfold_locales (simp add: limbo_update_def)

end
