(* ===== verification/Scheduler.thy ===== *)
theory Scheduler
  imports Process_Tracker "HOL-Library.Multiset"
begin

text \<open>
  The scheduler: a producer that moves the tasks that are due from the table into a Redis stream, in
  batches and under a lock, and consumers that take the batches and run the workflows of their tasks
  (\<open>scheduler/src/producer.rs\<close>, \<open>consumer.rs\<close>, \<open>utils.rs\<close>, \<open>db/queue.rs\<close>, \<open>consumer/types/batch.rs\<close>,
  \<open>consumer/workflows.rs\<close>, \<open>configs/\<close>).

  The state extends the store by what Redis holds for the scheduler: the stream entries that no
  consumer has read yet, the streams whose consumer group exists and the lock keys that are set. A
  reader of a consumer group gets the oldest entry of its stream that no reader of the group has got;
  a group created at the end of a stream never gets the entries that are there already. Logging and
  metrics are left out. The JSON text of a list of tasks is a value of the type \<open>'j\<close>, made and read by
  the two functions of a \<open>redis_codec\<close>, which stand for the serialisation library.
\<close>

section \<open>Settings\<close>

record producer_settings =
  upper_fetch_limit :: int
  lower_fetch_limit :: int
  lock_key :: string
  lock_ttl :: int
  batch_size :: nat

record consumer_settings =
  disabled :: bool
  consumer_group :: string

record server =
  port :: nat
  workers :: nat
  host :: string

record scheduler_settings =
  stream :: string
  cug_stream :: string
  producer :: producer_settings
  consumer :: consumer_settings
  loop_interval :: nat
  graceful_shutdown_interval :: nat
  server :: server

definition producer_settings_default :: producer_settings where
  "producer_settings_default =
     \<lparr>upper_fetch_limit = 0, lower_fetch_limit = 1800, lock_key = ''PRODUCER_LOCKING_KEY'',
      lock_ttl = 160, batch_size = 200\<rparr>"

definition consumer_settings_default :: consumer_settings where
  "consumer_settings_default = \<lparr>disabled = False, consumer_group = ''SCHEDULER_GROUP''\<rparr>"

text \<open>\<open>physical_cpus\<close> is the number the \<open>num_cpus\<close> library reports.\<close>

definition server_default :: "nat \<Rightarrow> server" where
  "server_default physical_cpus = \<lparr>port = 8080, workers = physical_cpus, host = ''localhost''\<rparr>"

definition scheduler_settings_default :: "nat \<Rightarrow> scheduler_settings" where
  "scheduler_settings_default physical_cpus =
     \<lparr>stream = ''SCHEDULER_STREAM'', cug_stream = ''CUG_SCHEDULER_STREAM'',
      producer = producer_settings_default, consumer = consumer_settings_default,
      loop_interval = 5000, graceful_shutdown_interval = 60000, server = server_default physical_cpus\<rparr>"

datatype application_error = InvalidConfigurationValueError string

text \<open>\<open>is_default_or_empty\<close> of a string; \<open>invalid_when\<close> is \<open>when\<close> with the error as its second branch.\<close>

definition invalid_when :: "bool \<Rightarrow> string \<Rightarrow> application_error + unit" where
  "invalid_when b msg = (if b then Inl (InvalidConfigurationValueError msg) else Inr ())"

definition producer_settings_validate :: "producer_settings \<Rightarrow> application_error + unit" where
  "producer_settings_validate c = invalid_when (lock_key c = []) ''producer lock key must not be empty''"

definition server_validate :: "server \<Rightarrow> application_error + unit" where
  "server_validate c = invalid_when (host c = []) ''server host must not be empty''"

definition scheduler_settings_validate :: "scheduler_settings \<Rightarrow> application_error + unit" where
  "scheduler_settings_validate c =
     and_then (invalid_when (stream c = []) ''scheduler stream must not be empty'') (\<lambda>_.
     and_then (invalid_when (cug_stream c = []) ''scheduler cug_stream must not be empty'') (\<lambda>_.
     and_then (invalid_when (consumer_group (consumer c) = []) ''scheduler consumer group must not be empty'') (\<lambda>_.
     and_then (producer_settings_validate (producer c)) (\<lambda>_.
     and_then (server_validate (server c)) (\<lambda>_. Inr ())))))"

section \<open>Errors\<close>

text \<open>
  Of the errors of Redis the scheduler tells apart only the first; \<open>RedisCommandFailed\<close> stands for the
  variants that report a failed command.
\<close>

datatype redis_error = StreamEmptyOrNotAvailable | RedisConnectionError | RedisCommandFailed

datatype process_tracker_error =
    UnexpectedFlow | SerializationFailed | DeserializationFailed | MissingRequiredField
  | BatchInsertionFailed | BatchNotFound | BatchUpdateFailed | BatchDeleteFailed
  | ConfigurationError | ProcessUpdateFailed | ProcessFetchingFailed | NotImplemented
  | EStorageError storage_error | ERedisError redis_error
  | Panic

text \<open>\<open>Panic\<close> is not an error value of the source: it marks that the thread unwinds.\<close>

datatype scheduler_flow = Producer | Consumer | Cleaner

section \<open>Batches\<close>

record process_tracker_batch =
  b_id :: string
  b_group_name :: string
  b_stream_name :: string
  b_connection_name :: string
  b_created_time :: datetime
  b_rule :: string
  b_trackers :: "process_tracker list"

datatype 'j field_value = Text string | Json 'j

type_synonym 'j stream_entry = "(string \<times> 'j field_value) list"

record 'j redis_codec =
  trackers_to_json :: "process_tracker list \<Rightarrow> unit + 'j"
  trackers_from_json :: "'j \<Rightarrow> unit + process_tracker list"

definition unix_timestamp :: "datetime \<Rightarrow> int" where
  "unix_timestamp t = t div 1000000000"

definition to_redis_field_value_pairs :: "'j redis_codec \<Rightarrow> process_tracker_batch \<Rightarrow> process_tracker_error + 'j stream_entry" where
  "to_redis_field_value_pairs cd b =
     and_then (map_err (\<lambda>_. SerializationFailed) (trackers_to_json cd (b_trackers b))) (\<lambda>trackers.
       Inr [(''id'', Text (b_id b)),
            (''group_name'', Text (b_group_name b)),
            (''stream_name'', Text (b_stream_name b)),
            (''connection_name'', Text (b_connection_name b)),
            (''created_time'', Text (show_int (unix_timestamp (b_created_time b)))),
            (''rule'', Text (b_rule b)),
            (''trackers'', Json trackers)])"

text \<open>\<open>str::parse::<i64>\<close>: an optional sign and at least one decimal digit, in the range of \<open>i64\<close>.\<close>

fun parse_digits :: "nat \<Rightarrow> string \<Rightarrow> nat option" where
  "parse_digits acc [] = Some acc"
| "parse_digits acc (c # cs) =
     (if c \<in> set ''0123456789'' then parse_digits (10 * acc + (of_char c - 48)) cs else None)"

definition in_i64 :: "int \<Rightarrow> int option" where
  "in_i64 i = (if - (2 ^ 63) \<le> i \<and> i < 2 ^ 63 then Some i else None)"

fun parse_i64 :: "string \<Rightarrow> int option" where
  "parse_i64 [] = None"
| "parse_i64 (c # cs) =
     (if c = CHR ''-'' then (if cs = [] then None else Option.bind (parse_digits 0 cs) (\<lambda>n. in_i64 (- int n)))
      else if c = CHR ''+'' then (if cs = [] then None else Option.bind (parse_digits 0 cs) (\<lambda>n. in_i64 (int n)))
      else Option.bind (parse_digits 0 (c # cs)) (\<lambda>n. in_i64 (int n)))"

definition text_field :: "'j stream_entry \<Rightarrow> string \<Rightarrow> process_tracker_error + string" where
  "text_field entry k = (case map_of entry k of Some (Text t) \<Rightarrow> Inr t | _ \<Rightarrow> Inl MissingRequiredField)"

definition json_field :: "'j stream_entry \<Rightarrow> string \<Rightarrow> process_tracker_error + 'j" where
  "json_field entry k = (case map_of entry k of Some (Json j) \<Rightarrow> Inr j | _ \<Rightarrow> Inl MissingRequiredField)"

text \<open>\<open>dt_range\<close> bounds what \<open>OffsetDateTime::from_unix_timestamp\<close> accepts.\<close>

definition from_unix_timestamp :: "datetime \<times> datetime \<Rightarrow> int \<Rightarrow> datetime option" where
  "from_unix_timestamp dt_range t =
     (if fst dt_range \<le> seconds t \<and> seconds t \<le> snd dt_range then Some (seconds t) else None)"

definition from_redis_stream_entry ::
    "'j redis_codec \<Rightarrow> datetime \<times> datetime \<Rightarrow> 'j stream_entry \<Rightarrow> process_tracker_error + process_tracker_batch" where
  "from_redis_stream_entry cd dt_range entry =
     and_then (text_field entry ''id'') (\<lambda>id.
     and_then (text_field entry ''group_name'') (\<lambda>group_name.
     and_then (text_field entry ''stream_name'') (\<lambda>stream_name.
     and_then (text_field entry ''connection_name'') (\<lambda>connection_name.
     and_then (text_field entry ''created_time'') (\<lambda>created_time.
     and_then (ok_or (parse_i64 created_time) DeserializationFailed) (\<lambda>timestamp.
     and_then (ok_or (from_unix_timestamp dt_range timestamp) MissingRequiredField) (\<lambda>created_time.
     and_then (text_field entry ''rule'') (\<lambda>rule.
     and_then (json_field entry ''trackers'') (\<lambda>trackers.
     and_then (map_err (\<lambda>_. DeserializationFailed) (trackers_from_json cd trackers)) (\<lambda>trackers.
       Inr \<lparr>b_id = id, b_group_name = group_name, b_stream_name = stream_name,
            b_connection_name = connection_name, b_created_time = created_time, b_rule = rule,
            b_trackers = trackers\<rparr>))))))))))"

section \<open>State\<close>

record 'j world = store +
  undelivered :: "(string \<times> 'j stream_entry) list"
  groups :: "(string \<times> string) set"
  lock_keys :: "string set"
  uuid :: string
  dt_range :: "datetime \<times> datetime"

abbreviation redis_call ::
    "('j world \<Rightarrow> (redis_error, 'r, 'j world) st_result) \<Rightarrow> 'j world \<Rightarrow> (redis_error, 'r, 'j world) st_result" where
  "redis_call \<equiv> call_service RedisCommandFailed RedisCommandFailed"

definition get_redis_conn :: "'j world \<Rightarrow> (redis_error, unit, 'j world) st_result" where
  "get_redis_conn = call_service RedisConnectionError RedisConnectionError (\<lambda>s. (Inr (), s))"

subsection \<open>The queue interface\<close>

definition consumer_group_create :: "string \<Rightarrow> string \<Rightarrow> 'j world \<Rightarrow> (redis_error, unit, 'j world) st_result" where
  "consumer_group_create stream_name group_name s =
     bind_st (get_redis_conn s) (\<lambda>_.
       redis_call (\<lambda>s. if (stream_name, group_name) \<in> groups s then (Inl RedisCommandFailed, s)
                       else (Inr (), s\<lparr>groups := insert (stream_name, group_name) (groups s),
                                      undelivered := filter (\<lambda>e. fst e \<noteq> stream_name) (undelivered s)\<rparr>)))"

definition set_key_if_not_exists_with_expiry :: "string \<Rightarrow> 'j world \<Rightarrow> (redis_error, bool, 'j world) st_result" where
  "set_key_if_not_exists_with_expiry key =
     redis_call (\<lambda>s. if key \<in> lock_keys s then (Inr False, s) else (Inr True, s\<lparr>lock_keys := insert key (lock_keys s)\<rparr>))"

definition set_expiry :: "string \<Rightarrow> 'j world \<Rightarrow> (redis_error, unit, 'j world) st_result" where
  "set_expiry key = redis_call (\<lambda>s. (Inr (), s))"

definition delete_key :: "string \<Rightarrow> 'j world \<Rightarrow> (redis_error, unit, 'j world) st_result" where
  "delete_key key = redis_call (\<lambda>s. (Inr (), s\<lparr>lock_keys := lock_keys s - {key}\<rparr>))"

definition acquire_pt_lock :: "string \<Rightarrow> 'j world \<Rightarrow> (redis_error, bool, 'j world) st_result" where
  "acquire_pt_lock key s =
     bind_st (get_redis_conn s) (\<lambda>_ s.
       case set_key_if_not_exists_with_expiry key s of
         (Inr True, s) \<Rightarrow>
           (case set_expiry key s of
              (Inr _, s) \<Rightarrow> (Inr True, s)
            | (Inl _, s) \<Rightarrow> (Inr False, snd (delete_key key s)))
       | (Inr False, s) \<Rightarrow> (Inr False, s)
       | (Inl _, s) \<Rightarrow> (Inr False, s))"

definition release_pt_lock :: "string \<Rightarrow> 'j world \<Rightarrow> (redis_error, bool, 'j world) st_result" where
  "release_pt_lock key s =
     bind_st (get_redis_conn s) (\<lambda>_ s.
       case delete_key key s of (Inr _, s) \<Rightarrow> (Inr True, s) | (Inl _, s) \<Rightarrow> (Inr False, s))"

definition stream_append_entry :: "string \<Rightarrow> 'j stream_entry \<Rightarrow> 'j world \<Rightarrow> (redis_error, unit, 'j world) st_result" where
  "stream_append_entry stream_name entry s =
     bind_st (get_redis_conn s) (\<lambda>_.
       redis_call (\<lambda>s. (Inr (), s\<lparr>undelivered := undelivered s @ [(stream_name, entry)]\<rparr>)))"

section \<open>The producer\<close>

text \<open>\<open>chunks\<close> of a slice, for a positive size.\<close>

fun chunks :: "nat \<Rightarrow> 'a list \<Rightarrow> 'a list list" where
  "chunks n [] = []"
| "chunks n (x # xs) = take (Suc (n - 1)) (x # xs) # chunks n (drop (n - 1) xs)"

definition divide_into_batches ::
    "nat \<Rightarrow> process_tracker list \<Rightarrow> datetime \<Rightarrow> string \<Rightarrow> scheduler_settings \<Rightarrow> application_source \<Rightarrow>
     process_tracker_error + process_tracker_batch list" where
  "divide_into_batches chunk_size tasks batch_creation_time batch_id conf application_source =
     (let stream_name = (case application_source of Main_app \<Rightarrow> stream conf | Cug \<Rightarrow> cug_stream conf) in
      if chunk_size = 0 then Inl Panic
      else Inr (map (\<lambda>item.
        \<lparr>b_id = batch_id, b_group_name = consumer_group (consumer conf), b_stream_name = stream_name,
         b_connection_name = [], b_created_time = batch_creation_time, b_rule = [],
         b_trackers = item\<rparr>) (chunks chunk_size tasks)))"

definition divide :: "'j world \<Rightarrow> process_tracker list \<Rightarrow> scheduler_settings \<Rightarrow> application_source \<Rightarrow>
    process_tracker_error + process_tracker_batch list" where
  "divide s tasks conf application_source =
     divide_into_batches (batch_size (producer conf)) tasks (clock s) (uuid s) conf application_source"

definition update_status_and_append ::
    "'j redis_codec \<Rightarrow> scheduler_flow \<Rightarrow> process_tracker_batch \<Rightarrow> 'j world \<Rightarrow> (process_tracker_error, unit, 'j world) st_result" where
  "update_status_and_append cd flow pt_batch s =
     (let process_ids = map pt_id (b_trackers pt_batch) in
      bind_st
        (case flow of
           Producer \<Rightarrow>
             bind_st (on_err (\<lambda>_. ProcessUpdateFailed)
               (process_tracker_update_process_status_by_ids process_ids (StatusUpdate Processing None) s))
               (\<lambda>_ s. (Inr (), s))
         | Cleaner \<Rightarrow>
             bind_st (on_err (\<lambda>_. ProcessUpdateFailed) (reinitialize_limbo_processes process_ids (clock s) s))
               (\<lambda>_ s. (Inr (), s))
         | _ \<Rightarrow> (Inl UnexpectedFlow, s))
        (\<lambda>_ s.
           try_st s (to_redis_field_value_pairs cd pt_batch) (\<lambda>field_value_pairs.
             case on_err (\<lambda>_. BatchInsertionFailed) (stream_append_entry (b_stream_name pt_batch) field_value_pairs s) of
               (Inr x, s) \<Rightarrow> (Inr x, s)
             | (Inl err, s) \<Rightarrow>
                 (Inl err, snd (process_tracker_update_process_status_by_ids process_ids (StatusUpdate Processing None) s)))))"

fun append_batches :: "'j redis_codec \<Rightarrow> scheduler_flow \<Rightarrow> process_tracker_batch list \<Rightarrow> 'j world \<Rightarrow> 'j world" where
  "append_batches cd flow [] s = s"
| "append_batches cd flow (batch # batches) s =
     append_batches cd flow batches (snd (update_status_and_append cd flow batch s))"

definition divide_and_append_tasks ::
    "'j redis_codec \<Rightarrow> scheduler_flow \<Rightarrow> process_tracker list \<Rightarrow> scheduler_settings \<Rightarrow> application_source \<Rightarrow>
     'j world \<Rightarrow> (process_tracker_error, unit, 'j world) st_result" where
  "divide_and_append_tasks cd flow tasks settings application_source s =
     try_st s (divide s tasks settings application_source) (\<lambda>batches. (Inr (), append_batches cd flow batches s))"

definition checked_add :: "datetime \<times> datetime \<Rightarrow> datetime \<Rightarrow> int \<Rightarrow> datetime option" where
  "checked_add limits t d = (if fst limits \<le> t + d \<and> t + d \<le> snd limits then Some (t + d) else None)"

definition fetch_producer_tasks ::
    "scheduler_settings \<Rightarrow> 'j world \<Rightarrow> (process_tracker_error, process_tracker list, 'j world) st_result" where
  "fetch_producer_tasks conf s =
     (let upper = upper_fetch_limit (producer conf);
          lower = lower_fetch_limit (producer conf);
          now = clock s
      in try_st s (ok_or (checked_add (dt_range s) now (seconds upper)) ConfigurationError) (\<lambda>time_upper_limit.
         try_st s (ok_or (checked_add (dt_range s) now (- seconds lower)) ConfigurationError) (\<lambda>time_lower_limit.
         bind_st (on_err (\<lambda>_. ProcessFetchingFailed)
           (find_processes_by_time_status time_lower_limit time_upper_limit New None s)) (\<lambda>new_tasks s.
         bind_st (on_err (\<lambda>_. ProcessFetchingFailed)
           (find_processes_by_time_status time_lower_limit time_upper_limit Pending None s)) (\<lambda>pending_tasks s.
           (Inr (new_tasks @ pending_tasks), s))))))"

definition lock_acquire_release ::
    "scheduler_settings \<Rightarrow> ('j world \<Rightarrow> (process_tracker_error, unit, 'j world) st_result) \<Rightarrow>
     'j world \<Rightarrow> (process_tracker_error, unit, 'j world) st_result" where
  "lock_acquire_release settings callback s =
     bind_st (on_err (\<lambda>_. ERedisError RedisConnectionError) (acquire_pt_lock (lock_key (producer settings)) s)) (\<lambda>acquired s.
       if acquired
       then case callback s of
              (Inl Panic, s) \<Rightarrow> (Inl Panic, s)
            | (result, s) \<Rightarrow>
                bind_st (on_err ERedisError (release_pt_lock (lock_key (producer settings)) s)) (\<lambda>_ s. (result, s))
       else (Inr (), s))"

definition producer_callback ::
    "'j redis_codec \<Rightarrow> scheduler_settings \<Rightarrow> 'j world \<Rightarrow> (process_tracker_error, unit, 'j world) st_result" where
  "producer_callback cd settings s =
     bind_st (fetch_producer_tasks settings s) (\<lambda>tasks s.
       let (cug_tasks, main_tasks) = partition (\<lambda>task. pt_application_source task = Some Cug) tasks in
       bind_st (divide_and_append_tasks cd Producer main_tasks settings Main_app s) (\<lambda>_ s.
       bind_st (divide_and_append_tasks cd Producer cug_tasks settings Cug s) (\<lambda>_ s. (Inr (), s))))"

definition run_producer_flow ::
    "'j redis_codec \<Rightarrow> scheduler_settings \<Rightarrow> 'j world \<Rightarrow> (process_tracker_error, unit, 'j world) st_result" where
  "run_producer_flow cd settings s = lock_acquire_release settings (producer_callback cd settings) s"

section \<open>Consumers\<close>

definition valid_business_statuses :: "string list" where
  "valid_business_statuses = [PENDING]"

text \<open>
  \<open>XREADGROUP\<close> with count 1: the oldest entry of the stream that its group has not got yet. When there is
  none, the answer does not have the type of a list of entries, which is reported as
  \<open>StreamEmptyOrNotAvailable\<close>.
\<close>

definition stream_read :: "string \<Rightarrow> string \<Rightarrow> 'j world \<Rightarrow> (redis_error, 'j stream_entry, 'j world) st_result" where
  "stream_read stream_name group_name =
     redis_call (\<lambda>s.
       if (stream_name, group_name) \<notin> groups s then (Inl RedisCommandFailed, s)
       else case find (\<lambda>e. fst e = stream_name) (undelivered s) of
              None \<Rightarrow> (Inl StreamEmptyOrNotAvailable, s)
            | Some e \<Rightarrow> (Inr (snd e), s\<lparr>undelivered := remove1 e (undelivered s)\<rparr>))"

text \<open>Acknowledging and deleting an entry changes nothing that is still to be delivered.\<close>

definition stream_acknowledge_entries :: "'j world \<Rightarrow> (redis_error, unit, 'j world) st_result" where
  "stream_acknowledge_entries = redis_call (\<lambda>s. (Inr (), s))"

definition stream_delete_entries :: "'j world \<Rightarrow> (redis_error, unit, 'j world) st_result" where
  "stream_delete_entries = redis_call (\<lambda>s. (Inr (), s))"

definition get_batches ::
    "'j redis_codec \<Rightarrow> string \<Rightarrow> string \<Rightarrow> 'j world \<Rightarrow> (process_tracker_error, process_tracker_batch list, 'j world) st_result" where
  "get_batches cd stream_name group_name s =
     (case stream_read stream_name group_name s of
        (Inl StreamEmptyOrNotAvailable, s) \<Rightarrow> (Inr [], s)
      | (Inl _, s) \<Rightarrow> (Inl BatchNotFound, s)
      | (Inr entry, s) \<Rightarrow>
          try_st s (from_redis_stream_entry cd (dt_range s) entry) (\<lambda>batch.
            bind_st (on_err (\<lambda>_. BatchUpdateFailed) (stream_acknowledge_entries s)) (\<lambda>_ s.
            bind_st (on_err (\<lambda>_. BatchDeleteFailed) (stream_delete_entries s)) (\<lambda>_ s.
              (Inr [batch], s)))))"

definition fetch_consumer_tasks ::
    "'j redis_codec \<Rightarrow> string \<Rightarrow> string \<Rightarrow> 'j world \<Rightarrow> (process_tracker_error, process_tracker list, 'j world) st_result" where
  "fetch_consumer_tasks cd stream_name group_name s =
     bind_st (get_batches cd stream_name group_name s) (\<lambda>batches s.
       if batches = [] then (Inr [], s)
       else
         let tasks = concat (map (\<lambda>batch.
               filter (\<lambda>task. is_valid_business_status task valid_business_statuses) (b_trackers batch)) batches);
             task_ids = map pt_id tasks
         in bind_st (on_err (\<lambda>_. ProcessFetchingFailed)
              (process_tracker_update_process_status_by_ids task_ids (StatusUpdate ProcessStarted None) s)) (\<lambda>_ s.
              (Inr (map (\<lambda>x. x\<lparr>pt_status := ProcessStarted\<rparr>) tasks), s)))"

text \<open>The operation of the queue interface, which gets the connection first.\<close>

definition store_fetch_consumer_tasks ::
    "'j redis_codec \<Rightarrow> string \<Rightarrow> string \<Rightarrow> 'j world \<Rightarrow> (process_tracker_error, process_tracker list, 'j world) st_result" where
  "store_fetch_consumer_tasks cd stream_name group_name s =
     bind_st (on_err ERedisError (get_redis_conn s)) (\<lambda>_. fetch_consumer_tasks cd stream_name group_name)"

definition consumer_error_handler :: "process_tracker \<Rightarrow> 'j world \<Rightarrow> (process_tracker_error, unit, 'j world) st_result" where
  "consumer_error_handler process s =
     bind_st (on_err (\<lambda>_. ProcessUpdateFailed)
       (process_tracker_update_process_status_by_ids [pt_id process] (StatusUpdate Finish (Some GLOBAL_ERROR)) s))
       (\<lambda>_ s. (Inr (), s))"

definition create_task :: "process_tracker_new \<Rightarrow> 'j world \<Rightarrow> (storage_error, unit, 'j world) st_result" where
  "create_task process_tracker_entry s = bind_st (insert_process process_tracker_entry s) (\<lambda>_ s. (Inr (), s))"

text \<open>A workflow: the three operations of the trait \<open>ProcessTrackerWorkflow\<close>.\<close>

record 'j workflow =
  wf_execute :: "process_tracker \<Rightarrow> 'j world \<Rightarrow> (process_tracker_error, unit, 'j world) st_result"
  wf_success_handler :: "process_tracker \<Rightarrow> 'j world \<Rightarrow> 'j world"
  wf_error_handler :: "process_tracker \<Rightarrow> process_tracker_error \<Rightarrow> 'j world \<Rightarrow> (process_tracker_error, unit, 'j world) st_result"

definition default_workflow :: "'j workflow" where
  "default_workflow =
     \<lparr>wf_execute = (\<lambda>_ s. (Inl NotImplemented, s)),
      wf_success_handler = (\<lambda>_ s. s),
      wf_error_handler = (\<lambda>_ _ s. (Inl NotImplemented, s))\<rparr>"

definition execute_workflow :: "'j workflow \<Rightarrow> process_tracker \<Rightarrow> 'j world \<Rightarrow> (process_tracker_error, unit, 'j world) st_result" where
  "execute_workflow operation process s =
     (case wf_execute operation process s of
        (Inr _, s) \<Rightarrow> (Inr (), wf_success_handler operation process s)
      | (Inl error, s) \<Rightarrow>
          (case wf_error_handler operation process error s of
             (Inr _, s) \<Rightarrow> (Inr (), s)
           | (Inl _, s) \<Rightarrow> (Inr (), snd (finish_process_with_business_status process GLOBAL_FAILURE s))))"

fun run_workflows :: "(process_tracker \<Rightarrow> 'j workflow) \<Rightarrow> process_tracker list \<Rightarrow> 'j world \<Rightarrow> 'j world" where
  "run_workflows selector [] s = s"
| "run_workflows selector (task # tasks) s =
     run_workflows selector tasks (snd (execute_workflow (selector task) task s))"

definition consumer_operations ::
    "'j redis_codec \<Rightarrow> application_source \<Rightarrow> scheduler_settings \<Rightarrow> (process_tracker \<Rightarrow> 'j workflow) \<Rightarrow>
     'j world \<Rightarrow> (process_tracker_error, unit, 'j world) st_result" where
  "consumer_operations cd application_source settings selector s =
     (let stream_name = (case application_source of Main_app \<Rightarrow> stream settings | Cug \<Rightarrow> cug_stream settings);
          group_name = consumer_group (consumer settings);
          s = snd (consumer_group_create stream_name group_name s)
      in bind_st (store_fetch_consumer_tasks cd stream_name group_name s) (\<lambda>tasks s.
           (Inr (), run_workflows selector tasks s)))"

section \<open>Facts about batches\<close>

lemma chunks_concat [simp]: "concat (chunks n xs) = xs"
  by (induction n xs rule: chunks.induct) simp_all

lemma chunks_size:
  "0 < n \<Longrightarrow> c \<in> set (chunks n xs) \<Longrightarrow> c \<noteq> [] \<and> length c \<le> n"
  by (induction n xs rule: chunks.induct) auto

lemma divide_into_batches_exact:
  assumes "divide_into_batches n tasks t i conf src = Inr bs"
  shows "concat (map b_trackers bs) = tasks"
    and "b \<in> set bs \<Longrightarrow> b_stream_name b = (case src of Main_app \<Rightarrow> stream conf | Cug \<Rightarrow> cug_stream conf)"
    and "b \<in> set bs \<Longrightarrow> b_trackers b \<noteq> [] \<and> length (b_trackers b) \<le> n"
  using assms chunks_size [of n _ tasks]
  by (auto simp: divide_into_batches_def comp_def split: if_splits)

subsection \<open>Entries of the stream\<close>

definition codec_ok :: "'j redis_codec \<Rightarrow> bool" where
  "codec_ok cd \<longleftrightarrow> (\<forall>ts j. trackers_to_json cd ts = Inr j \<longrightarrow> trackers_from_json cd j = Inr ts)"

lemma parse_digits_append:
  "parse_digits a (xs @ ys) = Option.bind (parse_digits a xs) (\<lambda>b. parse_digits b ys)"
  by (induction xs arbitrary: a) simp_all

lemma digit_char:
  fixes d :: nat
  assumes "d < 10"
  shows "char_of (48 + d) \<in> set ''0123456789''" and "of_char (char_of (48 + d) :: char) = 48 + d"
proof -
  have "d = 0 \<or> d = 1 \<or> d = 2 \<or> d = 3 \<or> d = 4 \<or> d = 5 \<or> d = 6 \<or> d = 7 \<or> d = 8 \<or> d = 9"
    using assms by arith
  then show "char_of (48 + d) \<in> set ''0123456789''"
    by (elim disjE) (simp_all add: char_of_def bit_0)
  show "of_char (char_of (48 + d) :: char) = 48 + d" using assms by simp
qed

lemma parse_digits_digit: "d < 10 \<Longrightarrow> parse_digits a [char_of (48 + d)] = Some (10 * a + d)"
  using digit_char [of d] by simp

lemma parse_digits_show_nat: "parse_digits 0 (show_nat n) = Some n"
proof (induction n rule: show_nat.induct)
  case (1 n)
  show ?case
  proof (cases "n < 10")
    case True
    then show ?thesis using parse_digits_digit [of n 0] by (simp add: show_nat.simps [of n])
  next
    case False
    with 1 show ?thesis
      using parse_digits_digit [of "n mod 10" "n div 10"]
      by (simp add: show_nat.simps [of n] parse_digits_append)
  qed
qed

lemma show_nat_first: "\<exists>c cs. show_nat n = c # cs \<and> c \<in> set ''0123456789''"
proof (induction n rule: show_nat.induct)
  case (1 n)
  show ?case
  proof (cases "n < 10")
    case True
    then show ?thesis using digit_char(1) [of n] by (simp add: show_nat.simps [of n])
  next
    case False
    with 1 obtain c cs where "show_nat (n div 10) = c # cs" "c \<in> set ''0123456789''" by blast
    with False show ?thesis by (simp add: show_nat.simps [of n])
  qed
qed

lemma parse_i64_show_int:
  assumes "- (2 ^ 63) \<le> i" "i < 2 ^ 63"
  shows "parse_i64 (show_int i) = Some i"
proof -
  obtain c cs where n: "show_nat (nat (if i < 0 then - i else i)) = c # cs" and c: "c \<in> set ''0123456789''"
    using show_nat_first by blast
  have p: "parse_digits 0 (c # cs) = Some (nat (if i < 0 then - i else i))"
    unfolding n [symmetric] by (rule parse_digits_show_nat)
  have sgn: "c \<noteq> CHR ''-''" "c \<noteq> CHR ''+''" using c by auto
  show ?thesis
  proof (cases "i < 0")
    case True
    with n p assms show ?thesis by (simp add: show_int_def in_i64_def del: parse_digits.simps)
  next
    case False
    with n p sgn assms show ?thesis by (simp add: show_int_def in_i64_def del: parse_digits.simps)
  qed
qed

lemma redis_entry_fields:
  assumes "to_redis_field_value_pairs cd b = Inr e"
  obtains j where "trackers_to_json cd (b_trackers b) = Inr j"
    and "text_field e ''id'' = Inr (b_id b)" and "text_field e ''group_name'' = Inr (b_group_name b)"
    and "text_field e ''stream_name'' = Inr (b_stream_name b)"
    and "text_field e ''connection_name'' = Inr (b_connection_name b)"
    and "text_field e ''created_time'' = Inr (show_int (unix_timestamp (b_created_time b)))"
    and "text_field e ''rule'' = Inr (b_rule b)" and "json_field e ''trackers'' = Inr j"
proof -
  obtain j where j: "trackers_to_json cd (b_trackers b) = Inr j"
    using assms by (cases "trackers_to_json cd (b_trackers b)") (simp_all add: to_redis_field_value_pairs_def)
  then have e: "e = [(''id'', Text (b_id b)), (''group_name'', Text (b_group_name b)),
     (''stream_name'', Text (b_stream_name b)), (''connection_name'', Text (b_connection_name b)),
     (''created_time'', Text (show_int (unix_timestamp (b_created_time b)))),
     (''rule'', Text (b_rule b)), (''trackers'', Json j)]"
    using assms by (simp add: to_redis_field_value_pairs_def)
  show thesis by (rule that [OF j]) (simp_all add: e text_field_def json_field_def)
qed

lemma entry_decodes_trackers:
  assumes "codec_ok cd" "to_redis_field_value_pairs cd b = Inr e" "from_redis_stream_entry cd lim e = Inr b'"
  shows "b_trackers b' = b_trackers b"
proof -
  obtain j where j: "trackers_to_json cd (b_trackers b) = Inr j" and e: "json_field e ''trackers'' = Inr j"
    by (rule redis_entry_fields [OF assms(2)]) blast
  have "trackers_from_json cd j = Inr (b_trackers b)" using assms(1) j by (simp add: codec_ok_def)
  then show ?thesis using assms(3) e by (auto simp: from_redis_stream_entry_def and_then_eq_Inr)
qed

lemma from_redis_to_redis:
  assumes cd: "codec_ok cd" and e: "to_redis_field_value_pairs cd b = Inr e"
    and t: "t = unix_timestamp (b_created_time b)" "- (2 ^ 63) \<le> t" "t < 2 ^ 63"
    and lim: "fst lim \<le> seconds t" "seconds t \<le> snd lim"
  shows "from_redis_stream_entry cd lim e = Inr (b\<lparr>b_created_time := seconds t\<rparr>)"
proof -
  obtain j where j: "trackers_to_json cd (b_trackers b) = Inr j"
    and fs: "text_field e ''id'' = Inr (b_id b)" "text_field e ''group_name'' = Inr (b_group_name b)"
      "text_field e ''stream_name'' = Inr (b_stream_name b)"
      "text_field e ''connection_name'' = Inr (b_connection_name b)"
      "text_field e ''created_time'' = Inr (show_int (unix_timestamp (b_created_time b)))"
      "text_field e ''rule'' = Inr (b_rule b)" "json_field e ''trackers'' = Inr j"
    by (rule redis_entry_fields [OF e])
  have "trackers_from_json cd j = Inr (b_trackers b)" using cd j by (simp add: codec_ok_def)
  then show ?thesis
    using parse_i64_show_int [of t] t lim by (simp add: from_redis_stream_entry_def fs from_unix_timestamp_def)
qed

section \<open>What the calls do to the state\<close>

definition mark :: "datetime \<Rightarrow> process_tracker_update \<Rightarrow> string list \<Rightarrow> process_tracker list \<Rightarrow> process_tracker list" where
  "mark now u ids = update_rows (\<lambda>r. pt_id r \<in> set ids) (set_fields (update_internal_from now u))"

lemma set_fields_idem: "set_fields u (set_fields u r) = set_fields u r"
  by (cases u) (simp add: set_fields_def or_keep_def split: option.splits)

lemma mark_mark: "mark now u ids (mark now u ids' rs) = mark now u (ids' @ ids) rs"
  by (auto simp: mark_def update_rows_def set_fields_idem set_fields_id)

lemma mark_idem [simp]: "mark now u ids (mark now u ids rs) = mark now u ids rs"
  by (auto simp: mark_def update_rows_def set_fields_idem set_fields_id)

lemma mark_Nil [simp]: "mark now u [] rs = rs"
  by (simp add: mark_def update_rows_def map_idI)

lemma status_update_fields [simp]:
  "no_fields (update_internal_from now (StatusUpdate st b)) = False"
  "no_fields (update_internal_from now (StatusRetryUpdate st n t)) = False"
  "pt_status (set_fields (update_internal_from now (StatusUpdate st b)) r) = st"
  "pt_business_status (set_fields (update_internal_from now (StatusUpdate st b)) r) = or_keep b (pt_business_status r)"
  "pt_status (set_fields (update_internal_from now (StatusRetryUpdate st n t)) r) = st"
  "pt_business_status (set_fields (update_internal_from now (StatusRetryUpdate st n t)) r) = pt_business_status r"
  by (simp_all add: no_fields_def update_internal_default_def set_fields_def or_keep_def)

declare update_internal_from.simps [simp del]

lemma update_by_ids_answered:
  "outcomes s = [] \<Longrightarrow>
     process_tracker_update_process_status_by_ids ids (StatusUpdate st b) s =
       (Inr (length (filter (\<lambda>r. pt_id r \<in> set ids) (rows s))), s\<lparr>rows := mark (clock s) (StatusUpdate st b) ids (rows s)\<rparr>)"
  by (simp add: process_tracker_update_process_status_by_ids_def q_update_process_status_by_ids_def
      call_service_answered Let_def mark_def)

text \<open>
  \<open>changed s s' rs es\<close>: the table has become \<open>rs\<close> and the undelivered entries \<open>es\<close>, and but for the
  outcomes of future calls nothing else has changed.
\<close>

definition changed :: "'j world \<Rightarrow> 'j world \<Rightarrow> process_tracker list \<Rightarrow> (string \<times> 'j stream_entry) list \<Rightarrow> bool" where
  "changed s s' rs es \<longleftrightarrow> rows s' = rs \<and> undelivered s' = es \<and> clock s' = clock s \<and> groups s' = groups s \<and>
     lock_keys s' = lock_keys s \<and> uuid s' = uuid s \<and> dt_range s' = dt_range s"

abbreviation unchanged :: "'j world \<Rightarrow> 'j world \<Rightarrow> bool" where
  "unchanged s s' \<equiv> changed s s' (rows s) (undelivered s)"

lemma update_by_ids_effect:
  assumes "process_tracker_update_process_status_by_ids ids (StatusUpdate st b) s = (r, s')"
  shows "unchanged s s' \<and> (\<exists>e. r = Inl e) \<or>
         changed s s' (mark (clock s) (StatusUpdate st b) ids (rows s)) (undelivered s)"
proof -
  obtain r0 s0 where c0: "call_service Db_DatabaseConnectionError Db_Others
      (\<lambda>s'. (Inr (length (filter (\<lambda>r. pt_id r \<in> set ids) (rows s'))),
             s'\<lparr>rows := mark (clock s) (StatusUpdate st b) ids (rows s')\<rparr>)) s = (r0, s0)" (is "?call = _")
    by fastforce
  have "on_err storage_error_from ?call = (r, s')"
    using assms by (simp add: process_tracker_update_process_status_by_ids_def q_update_process_status_by_ids_def
      Let_def mark_def)
  with c0 have c: "?call = (r0, s')" and r: "r = map_err storage_error_from r0" by (simp_all add: on_err_def)
  from c show ?thesis by (cases rule: call_service_cases) (auto simp: r changed_def)
qed

lemma get_redis_conn_effect:
  "get_redis_conn s = (r, s') \<Longrightarrow> unchanged s s'"
  unfolding get_redis_conn_def by (erule call_service_cases) (auto simp: changed_def)

lemma stream_append_answered:
  "outcomes s = [] \<Longrightarrow> stream_append_entry n e s = (Inr (), s\<lparr>undelivered := undelivered s @ [(n, e)]\<rparr>)"
  by (simp add: stream_append_entry_def get_redis_conn_def call_service_answered)

lemma stream_append_effect:
  assumes "stream_append_entry n e s = (r, s')"
  shows "unchanged s s' \<and> (\<exists>err. r = Inl err) \<or> changed s s' (rows s) (undelivered s @ [(n, e)])"
proof -
  obtain c s1 where g: "get_redis_conn s = (c, s1)" by fastforce
  note s1 = get_redis_conn_effect [OF this]
  show ?thesis
  proof (cases c)
    case (Inl err)
    with assms g s1 show ?thesis by (auto simp: stream_append_entry_def)
  next
    case (Inr u)
    with assms g have
      "call_service RedisCommandFailed RedisCommandFailed (\<lambda>s. (Inr (), s\<lparr>undelivered := undelivered s @ [(n, e)]\<rparr>)) s1 = (r, s')"
      by (simp add: stream_append_entry_def)
    then show ?thesis by (cases rule: call_service_cases) (use s1 in \<open>auto simp: changed_def\<close>)
  qed
qed

abbreviation "set_processing now ids \<equiv> mark now (StatusUpdate Processing None) ids"

lemma update_status_and_append_answered:
  assumes "outcomes s = []" "to_redis_field_value_pairs cd b = Inr e"
  shows "update_status_and_append cd Producer b s =
    (Inr (), s\<lparr>rows := set_processing (clock s) (map pt_id (b_trackers b)) (rows s),
              undelivered := undelivered s @ [(b_stream_name b, e)]\<rparr>)"
  using assms
  by (simp add: update_status_and_append_def update_by_ids_answered stream_append_answered Let_def)

lemma update_status_and_append_effect:
  assumes "update_status_and_append cd Producer b s = (r, s')"
  shows "unchanged s s' \<or>
         changed s s' (set_processing (clock s) (map pt_id (b_trackers b)) (rows s)) (undelivered s) \<or>
         (\<exists>e. to_redis_field_value_pairs cd b = Inr e \<and>
              changed s s' (set_processing (clock s) (map pt_id (b_trackers b)) (rows s))
                (undelivered s @ [(b_stream_name b, e)]))"
proof -
  define ids where "ids = map pt_id (b_trackers b)"
  obtain r1 s1 where u: "process_tracker_update_process_status_by_ids ids (StatusUpdate Processing None) s = (r1, s1)"
    by fastforce
  note s1 = update_by_ids_effect [OF this]
  show ?thesis
  proof (cases r1)
    case (Inl err)
    with assms u have "s' = s1" by (simp add: update_status_and_append_def ids_def)
    with s1 show ?thesis unfolding ids_def by auto
  next
    case (Inr n)
    with s1 have s1: "changed s s1 (set_processing (clock s) ids (rows s)) (undelivered s)" by auto
    show ?thesis
    proof (cases "to_redis_field_value_pairs cd b")
      case (Inl err)
      with assms u Inr have "s' = s1" by (simp add: update_status_and_append_def ids_def)
      with s1 show ?thesis unfolding ids_def by auto
    next
      case e: (Inr e)
      obtain r2 s2 where a: "stream_append_entry (b_stream_name b) e s1 = (r2, s2)" by fastforce
      note s2 = stream_append_effect [OF this]
      obtain r3 s3 where v: "process_tracker_update_process_status_by_ids ids (StatusUpdate Processing None) s2 = (r3, s3)"
        by fastforce
      note s3 = update_by_ids_effect [OF this]
      have "s' = s2 \<or> s' = s3"
        using assms u Inr e a v by (cases r2) (auto simp: update_status_and_append_def ids_def)
      then have "changed s s' (set_processing (clock s) ids (rows s)) (undelivered s) \<or>
        changed s s' (set_processing (clock s) ids (rows s)) (undelivered s @ [(b_stream_name b, e)])"
        using s1 s2 s3 by (elim disjE conjE) (simp_all add: changed_def)
      then show ?thesis using e unfolding ids_def by blast
    qed
  qed
qed

lemma find_by_status_effect:
  assumes "find_processes_by_time_status l u st None s = (r, s')"
  shows "unchanged s s' \<and>
    (\<forall>ts. r = Inr ts \<longrightarrow> ts = filter (\<lambda>r. between (pt_schedule_time r) l u \<and> pt_status r = st \<and> pt_version r = API_VERSION) (rows s))"
proof -
  obtain r0 s0 where c0: "call_service Db_DatabaseConnectionError Db_Others
      (\<lambda>s. (Inr (filter (\<lambda>r. between (pt_schedule_time r) l u \<and> pt_status r = st \<and> pt_version r = API_VERSION) (rows s)), s)) s = (r0, s0)"
    (is "?call = _") by fastforce
  have "on_err storage_error_from ?call = (r, s')"
    using assms by (simp add: find_processes_by_time_status_def q_find_processes_by_time_status_def Let_def)
  with c0 have c: "?call = (r0, s')" and r: "r = map_err storage_error_from r0" by (simp_all add: on_err_def)
  from c show ?thesis by (cases rule: call_service_cases) (auto simp: r changed_def)
qed

lemma find_by_status_answered:
  "outcomes s = [] \<Longrightarrow> find_processes_by_time_status l u st None s =
    (Inr (filter (\<lambda>r. between (pt_schedule_time r) l u \<and> pt_status r = st \<and> pt_version r = API_VERSION) (rows s)), s)"
  by (simp add: find_processes_by_time_status_def q_find_processes_by_time_status_def call_service_answered Let_def)

text \<open>The tasks a producer picks: new and pending ones of this version, scheduled in its window.\<close>

definition due_tasks :: "scheduler_settings \<Rightarrow> 'j world \<Rightarrow> process_tracker_status \<Rightarrow> process_tracker list" where
  "due_tasks conf s st =
     filter (\<lambda>r. between (pt_schedule_time r) (clock s - seconds (lower_fetch_limit (producer conf)))
                   (clock s + seconds (upper_fetch_limit (producer conf))) \<and>
                 pt_status r = st \<and> pt_version r = API_VERSION) (rows s)"

lemma fetch_producer_tasks_effect:
  assumes "fetch_producer_tasks conf s = (r, s')"
  shows "unchanged s s' \<and>
    (\<forall>ts. r = Inr ts \<longrightarrow> ts = due_tasks conf s New @ due_tasks conf s Pending)"
proof -
  define l where "l = clock s - seconds (lower_fetch_limit (producer conf))"
  define u where "u = clock s + seconds (upper_fetch_limit (producer conf))"
  obtain r1 s1 where f1: "find_processes_by_time_status l u New None s = (r1, s1)" by fastforce
  obtain r2 s2 where f2: "find_processes_by_time_status l u Pending None s1 = (r2, s2)" by fastforce
  note e1 = find_by_status_effect [OF f1] and e2 = find_by_status_effect [OF f2]
  have "s' = s \<and> (\<exists>e. r = Inl e) \<or> s' = s1 \<and> (\<exists>e. r = Inl e) \<or> s' = s2 \<and> (\<exists>e. r = Inl e) \<or>
    s' = s2 \<and> (\<exists>a b. r1 = Inr a \<and> r2 = Inr b \<and> r = Inr (a @ b))"
    using assms f1 f2 unfolding fetch_producer_tasks_def Let_def l_def u_def checked_add_def
    by (cases r1; cases r2) (auto split: if_splits)
  then show ?thesis
    using e1 e2 by (elim disjE) (auto simp: due_tasks_def l_def u_def changed_def)
qed

definition entry_trackers :: "'j redis_codec \<Rightarrow> datetime \<times> datetime \<Rightarrow> 'j stream_entry \<Rightarrow> process_tracker list" where
  "entry_trackers cd lim e = (case from_redis_stream_entry cd lim e of Inr b \<Rightarrow> b_trackers b | Inl _ \<Rightarrow> [])"

lemma entry_trackers_appended:
  assumes "codec_ok cd" "to_redis_field_value_pairs cd b = Inr e"
  shows "entry_trackers cd lim e = b_trackers b \<or> entry_trackers cd lim e = []"
  using entry_decodes_trackers [OF assms, of lim] by (auto simp: entry_trackers_def split: sum.splits)

lemma redis_noop_effect:
  assumes "call_service e1 e2 (\<lambda>s. (Inr (), s)) s = (r, s')"
  shows "unchanged s s'"
  using assms by (cases rule: call_service_cases) (auto simp: changed_def)

lemma stream_read_effect:
  assumes "stream_read n g s = (r, s')"
  shows "unchanged s s' \<and> (\<exists>err. r = Inl err) \<or>
    (\<exists>e. (n, e) \<in> set (undelivered s) \<and> changed s s' (rows s) (remove1 (n, e) (undelivered s)) \<and>
         (\<forall>x. r = Inr x \<longrightarrow> x = e) \<and> r \<noteq> Inl StreamEmptyOrNotAvailable)"
proof -
  define read where "read = (\<lambda>w :: 'a world. if (n, g) \<notin> groups w then (Inl RedisCommandFailed, w)
       else case find (\<lambda>e. fst e = n) (undelivered w) of
              None \<Rightarrow> (Inl StreamEmptyOrNotAvailable, w)
            | Some e \<Rightarrow> (Inr (snd e), w\<lparr>undelivered := remove1 e (undelivered w)\<rparr>))"
  have op: "unchanged w w' \<and> (\<exists>err. q = Inl err) \<or>
    (\<exists>e. (n, e) \<in> set (undelivered w) \<and> changed w w' (rows w) (remove1 (n, e) (undelivered w)) \<and> q = Inr e)"
    if "read w = (q, w')" for q w w'
    using that unfolding read_def
    by (auto simp: changed_def find_Some_iff in_set_conv_nth split: if_splits option.splits)
  have "call_service RedisCommandFailed RedisCommandFailed read s = (r, s')"
    using assms by (simp add: stream_read_def read_def)
  then show ?thesis
  proof (cases rule: call_service_cases)
    case (Answered os)
    from op [OF this] show ?thesis by (auto simp: changed_def)
  next
    case (Refused os)
    then show ?thesis by (simp add: changed_def)
  next
    case (Lost os)
    obtain q w' where "read (s\<lparr>outcomes := os\<rparr>) = (q, w')" by fastforce
    from op [OF this] this Lost show ?thesis by (auto simp: changed_def)
  qed
qed

lemma get_batches_effect:
  assumes "get_batches cd n g s = (r, s')"
  shows "unchanged s s' \<and> (\<forall>bs. r = Inr bs \<longrightarrow> bs = []) \<or>
    (\<exists>e. (n, e) \<in> set (undelivered s) \<and> changed s s' (rows s) (remove1 (n, e) (undelivered s)) \<and>
         (\<forall>bs. r = Inr bs \<longrightarrow> (\<exists>b. bs = [b] \<and> from_redis_stream_entry cd (dt_range s) e = Inr b)))"
proof -
  obtain r1 s1 where rd: "stream_read n g s = (r1, s1)" by fastforce
  note s1 = stream_read_effect [OF this]
  show ?thesis
  proof (cases r1)
    case (Inl err)
    have "(r, s') = (case err of StreamEmptyOrNotAvailable \<Rightarrow> (Inr [], s1) | _ \<Rightarrow> (Inl BatchNotFound, s1))"
      using assms unfolding get_batches_def rd Inl by simp
    then have "s' = s1" "\<forall>bs. r = Inr bs \<longrightarrow> bs = [] \<and> err = StreamEmptyOrNotAvailable"
      by (simp_all split: redis_error.splits)
    then show ?thesis using s1 unfolding Inl by blast
  next
    case (Inr e)
    then have s1: "(n, e) \<in> set (undelivered s)" "changed s s1 (rows s) (remove1 (n, e) (undelivered s))"
      using s1 by auto
    obtain r2 s2 where a: "stream_acknowledge_entries s1 = (r2, s2)" by fastforce
    obtain r3 s3 where d: "stream_delete_entries s2 = (r3, s3)" by fastforce
    have "unchanged s1 s2" "unchanged s2 s3"
      using a d unfolding stream_acknowledge_entries_def stream_delete_entries_def by (blast intro: redis_noop_effect)+
    then have fr: "changed s s2 (rows s) (remove1 (n, e) (undelivered s))"
      "changed s s3 (rows s) (remove1 (n, e) (undelivered s))"
      using s1(2) by (simp_all add: changed_def)
    have "(s' = s1 \<or> s' = s2 \<or> s' = s3) \<and>
      (\<forall>bs. r = Inr bs \<longrightarrow> (\<exists>b. bs = [b] \<and> from_redis_stream_entry cd (dt_range s1) e = Inr b))"
      using assms rd Inr a d
      by (cases "from_redis_stream_entry cd (dt_range s1) e"; cases r2; cases r3) (auto simp: get_batches_def)
    moreover have "dt_range s1 = dt_range s" using s1(2) by (simp add: changed_def)
    ultimately show ?thesis using s1 fr by auto
  qed
qed

abbreviation valid_tasks :: "process_tracker list \<Rightarrow> process_tracker list" where
  "valid_tasks \<equiv> filter (\<lambda>t. is_valid_business_status t valid_business_statuses)"

lemma fetch_consumer_tasks_effect:
  assumes "fetch_consumer_tasks cd n g s = (r, s')"
  shows "unchanged s s' \<and> (\<forall>ts. r = Inr ts \<longrightarrow> ts = []) \<or>
    (\<exists>e vs. (n, e) \<in> set (undelivered s) \<and> vs = valid_tasks (entry_trackers cd (dt_range s) e) \<and>
       (changed s s' (rows s) (remove1 (n, e) (undelivered s)) \<and> (\<exists>err. r = Inl err) \<or>
        changed s s' (mark (clock s) (StatusUpdate ProcessStarted None) (map pt_id vs) (rows s))
          (remove1 (n, e) (undelivered s)) \<and>
        (\<forall>ts. r = Inr ts \<longrightarrow> ts = map (\<lambda>x. x\<lparr>pt_status := ProcessStarted\<rparr>) vs)))"
proof -
  obtain r1 s1 where gb: "get_batches cd n g s = (r1, s1)" by fastforce
  note s1 = get_batches_effect [OF this]
  show ?thesis
  proof (cases "\<exists>b. r1 = Inr [b]")
    case False
    then consider e where "r1 = Inl e" | "r1 = Inr []"
      using s1 by (cases r1) auto
    then show ?thesis
    proof cases
      case 1
      with assms gb have "s' = s1" "r = Inl e" by (simp_all add: fetch_consumer_tasks_def)
      then show ?thesis using s1 by blast
    next
      case 2
      with assms gb have "s' = s1" "r = Inr []" by (simp_all add: fetch_consumer_tasks_def)
      then show ?thesis using s1 2 by simp
    qed
  next
    case True
    then obtain b where b: "r1 = Inr [b]" ..
    with s1 obtain e where e: "(n, e) \<in> set (undelivered s)" "from_redis_stream_entry cd (dt_range s) e = Inr b"
      and ch: "changed s s1 (rows s) (remove1 (n, e) (undelivered s))" by auto
    define vs where "vs = valid_tasks (entry_trackers cd (dt_range s) e)"
    have vs: "vs = valid_tasks (b_trackers b)" by (simp add: vs_def entry_trackers_def e(2))
    obtain r2 s2 where up: "process_tracker_update_process_status_by_ids (map pt_id vs) (StatusUpdate ProcessStarted None) s1 = (r2, s2)"
      by fastforce
    note s2 = update_by_ids_effect [OF this]
    have res: "s' = s2" "r = (case r2 of Inl _ \<Rightarrow> Inl ProcessFetchingFailed | Inr _ \<Rightarrow> Inr (map (\<lambda>x. x\<lparr>pt_status := ProcessStarted\<rparr>) vs))"
      using assms gb b up by (cases r2; simp add: fetch_consumer_tasks_def vs)+
    have "changed s s' (rows s) (remove1 (n, e) (undelivered s)) \<and> (\<exists>err. r = Inl err) \<or>
        changed s s' (mark (clock s) (StatusUpdate ProcessStarted None) (map pt_id vs) (rows s))
          (remove1 (n, e) (undelivered s)) \<and>
        (\<forall>ts. r = Inr ts \<longrightarrow> ts = map (\<lambda>x. x\<lparr>pt_status := ProcessStarted\<rparr>) vs)"
      using s2 ch res by (elim disjE conjE exE) (auto simp: changed_def split: sum.splits)
    then show ?thesis using e(1) vs_def by blast
  qed
qed

lemma store_fetch_consumer_tasks_effect:
  assumes "store_fetch_consumer_tasks cd n g s = (r, s')"
  shows "unchanged s s' \<and> (\<forall>ts. r = Inr ts \<longrightarrow> ts = []) \<or>
    (\<exists>e vs. (n, e) \<in> set (undelivered s) \<and> vs = valid_tasks (entry_trackers cd (dt_range s) e) \<and>
       (changed s s' (rows s) (remove1 (n, e) (undelivered s)) \<and> (\<exists>err. r = Inl err) \<or>
        changed s s' (mark (clock s) (StatusUpdate ProcessStarted None) (map pt_id vs) (rows s))
          (remove1 (n, e) (undelivered s)) \<and>
        (\<forall>ts. r = Inr ts \<longrightarrow> ts = map (\<lambda>x. x\<lparr>pt_status := ProcessStarted\<rparr>) vs)))"
proof -
  obtain c s1 where g: "get_redis_conn s = (c, s1)" by fastforce
  have s1: "rows s1 = rows s" "undelivered s1 = undelivered s" "clock s1 = clock s" "dt_range s1 = dt_range s"
    "changed s1 s' rs es = changed s s' rs es" for rs es
    using get_redis_conn_effect [OF g] by (simp_all add: changed_def)
  show ?thesis
  proof (cases c)
    case (Inl e)
    then have "r = Inl (ERedisError e)" "s1 = s'"
      using assms g by (simp_all add: store_fetch_consumer_tasks_def on_err_def)
    then show ?thesis using get_redis_conn_effect [OF g] by simp
  next
    case (Inr u)
    then have "fetch_consumer_tasks cd n g s1 = (r, s')"
      using assms g by (simp add: store_fetch_consumer_tasks_def on_err_def)
    from fetch_consumer_tasks_effect [OF this] show ?thesis by (simp only: s1)
  qed
qed

section \<open>The lock\<close>

definition locks_changed :: "'j world \<Rightarrow> 'j world \<Rightarrow> string set \<Rightarrow> bool" where
  "locks_changed s s' ks \<longleftrightarrow> lock_keys s' = ks \<and> rows s' = rows s \<and> undelivered s' = undelivered s \<and>
     clock s' = clock s \<and> groups s' = groups s \<and> uuid s' = uuid s \<and> dt_range s' = dt_range s"

lemma unchanged_locks: "unchanged s s' \<longleftrightarrow> locks_changed s s' (lock_keys s)"
  by (auto simp: changed_def locks_changed_def)

lemma delete_key_effect:
  assumes "delete_key k s = (r, s')"
  shows "unchanged s s' \<and> (\<exists>e. r = Inl e) \<or> locks_changed s s' (lock_keys s - {k})"
  using assms unfolding delete_key_def by (cases rule: call_service_cases) (auto simp: changed_def locks_changed_def)

lemma set_key_effect:
  assumes "set_key_if_not_exists_with_expiry k s = (r, s')"
  shows "if k \<in> lock_keys s then unchanged s s' \<and> r \<noteq> Inr True
    else unchanged s s' \<and> r \<noteq> Inr True \<or> locks_changed s s' (insert k (lock_keys s))"
  using assms unfolding set_key_if_not_exists_with_expiry_def
  by (cases rule: call_service_cases) (auto simp: changed_def locks_changed_def split: if_splits)

lemma acquire_pt_lock_effect:
  assumes "acquire_pt_lock k s = (r, s')"
  shows "if r = Inr True then k \<notin> lock_keys s \<and> locks_changed s s' (insert k (lock_keys s))
    else locks_changed s s' (lock_keys s) \<or> locks_changed s s' (insert k (lock_keys s))"
proof -
  obtain c s1 where g: "get_redis_conn s = (c, s1)" by fastforce
  note s1 = get_redis_conn_effect [OF this]
  obtain r2 s2 where k: "set_key_if_not_exists_with_expiry k s1 = (r2, s2)" by fastforce
  note s2 = set_key_effect [OF this]
  obtain r3 s3 where x: "set_expiry k s2 = (r3, s3)" by fastforce
  then have s3: "unchanged s2 s3" unfolding set_expiry_def by (rule redis_noop_effect)
  obtain r4 s4 where d: "delete_key k s3 = (r4, s4)" by fastforce
  note s4 = delete_key_effect [OF this]
  consider "c \<noteq> Inr ()" "s' = s1" "r \<noteq> Inr True"
    | "c = Inr ()" "r2 \<noteq> Inr True" "s' = s2" "r \<noteq> Inr True"
    | "c = Inr ()" "r2 = Inr True" "r3 = Inr ()" "s' = s3" "r = Inr True"
    | "c = Inr ()" "r2 = Inr True" "r3 \<noteq> Inr ()" "s' = s4" "r \<noteq> Inr True"
  proof (cases c)
    case (Inl e)
    with assms g show ?thesis by (intro that(1)) (auto simp: acquire_pt_lock_def)
  next
    case (Inr u)
    then show ?thesis
      using assms g k x d that(2-4) by (cases r2; cases r3) (auto simp: acquire_pt_lock_def split: bool.splits)
  qed
  then show ?thesis
  proof cases
    case 1
    with s1 show ?thesis by (simp add: unchanged_locks)
  next
    case 2
    with s1 s2 show ?thesis by (auto simp: changed_def locks_changed_def split: if_splits)
  next
    case 3
    with s1 s2 s3 show ?thesis by (auto simp: changed_def locks_changed_def split: if_splits)
  next
    case 4
    with s1 s2 have "k \<notin> lock_keys s" by (auto simp: changed_def split: if_splits)
    with 4 s1 s2 s3 s4 show ?thesis by (auto simp: changed_def locks_changed_def split: if_splits)
  qed
qed

lemma release_pt_lock_effect:
  assumes "release_pt_lock k s = (r, s')"
  shows "unchanged s s' \<or> locks_changed s s' (lock_keys s - {k})"
proof -
  obtain c s1 where g: "get_redis_conn s = (c, s1)" by fastforce
  note s1 = get_redis_conn_effect [OF this]
  obtain r2 s2 where d: "delete_key k s1 = (r2, s2)" by fastforce
  note s2 = delete_key_effect [OF this]
  have "s' = s1 \<or> s' = s2" using assms g d by (cases c; cases r2) (auto simp: release_pt_lock_def)
  then show ?thesis using s1 s2 by (auto simp: changed_def locks_changed_def)
qed

section \<open>Updates of one task\<close>

lemma call_service_rel:
  assumes "\<And>w. Q w (snd (op w))" "\<And>os w'. Q (s\<lparr>outcomes := os\<rparr>) w' \<Longrightarrow> Q s w'" "\<And>os. Q s (s\<lparr>outcomes := os\<rparr>)"
  shows "Q s (snd (call_service e1 e2 op s))"
  using call_service_snd [of e1 e2 op s] assms by metis

lemma mark_single:
  "mark now u [i] = update_rows (\<lambda>r. pt_id r = i) (set_fields (update_internal_from now u))"
  by (simp add: mark_def)

lemma update_process_effect:
  assumes "\<not> no_fields (update_internal_from (clock s) u)"
  shows "unchanged s (snd (update_process t u s)) \<or>
    changed s (snd (update_process t u s)) (mark (clock s) u [pt_id t] (rows s)) (undelivered s)"
proof -
  define upd where "upd = (\<lambda>w :: 'a world. case find (\<lambda>r. pt_id r = pt_id t) (rows w) of
      None \<Rightarrow> (Inl Db_NotFound, w)
    | Some r \<Rightarrow> (Inr (set_fields (update_internal_from (clock s) u) r),
        w\<lparr>rows := mark (clock s) u [pt_id t] (rows w)\<rparr>))"
  obtain r1 s1 where g: "generic_update_by_id (pt_id t) (update_internal_from (clock s) u) s = (r1, s1)" by fastforce
  then have "call_service Db_DatabaseConnectionError Db_Others upd s = (r1, s1)"
    using assms unfolding upd_def mark_single by (simp add: generic_update_by_id_def)
  moreover have "unchanged w (snd (upd w)) \<or> changed w (snd (upd w)) (mark (clock s) u [pt_id t] (rows w)) (undelivered w)"
    for w by (auto simp: upd_def changed_def split: option.splits)
  then have "unchanged s (snd (call_service Db_DatabaseConnectionError Db_Others upd s)) \<or>
    changed s (snd (call_service Db_DatabaseConnectionError Db_Others upd s)) (mark (clock s) u [pt_id t] (rows s)) (undelivered s)"
    by (rule call_service_rel) (simp_all add: changed_def)
  ultimately have s1: "unchanged s s1 \<or> changed s s1 (mark (clock s) u [pt_id t] (rows s)) (undelivered s)" by simp
  have "snd (update_process t u s) = s1"
    using g by (cases r1) (auto simp: update_process_def q_update_def on_err_def split: database_error.splits)
  with s1 show ?thesis by simp
qed

text \<open>Finishing, retrying and resetting a task and the handling of its error write one row.\<close>

lemma finish_process_effect:
  "unchanged s (snd (finish_process_with_business_status t b s)) \<or>
   changed s (snd (finish_process_with_business_status t b s))
     (mark (clock s) (StatusUpdate Finish (Some b)) [pt_id t] (rows s)) (undelivered s)"
  using update_process_effect [of s "StatusUpdate Finish (Some b)" t]
  by (simp add: finish_process_with_business_status_def)

lemma retry_process_effect:
  "unchanged s (snd (retry_process t time s)) \<or>
   changed s (snd (retry_process t time s))
     (mark (clock s) (StatusRetryUpdate Pending (pt_retry_count t + 1) time) [pt_id t] (rows s)) (undelivered s)"
  using update_process_effect [of s "StatusRetryUpdate Pending (pt_retry_count t + 1) time" t]
  by (simp add: retry_process_def)

lemma reset_process_effect:
  "unchanged s (snd (reset_process t time s)) \<or>
   changed s (snd (reset_process t time s))
     (mark (clock s) (StatusRetryUpdate New 0 time) [pt_id t] (rows s)) (undelivered s)"
  using update_process_effect [of s "StatusRetryUpdate New 0 time" t]
  by (simp add: reset_process_def)

lemma consumer_error_handler_effect:
  "unchanged s (snd (consumer_error_handler t s)) \<or>
   changed s (snd (consumer_error_handler t s))
     (mark (clock s) (StatusUpdate Finish (Some GLOBAL_ERROR)) [pt_id t] (rows s)) (undelivered s)"
proof -
  obtain r s' where u: "process_tracker_update_process_status_by_ids [pt_id t] (StatusUpdate Finish (Some GLOBAL_ERROR)) s = (r, s')"
    by fastforce
  then have "snd (consumer_error_handler t s) = s'" by (simp add: consumer_error_handler_def)
  with update_by_ids_effect [OF u] show ?thesis by auto
qed

lemma create_task_effect:
  "unchanged s (snd (create_task new s)) \<or>
   pt_id new \<notin> pt_id ` set (rows s) \<and> changed s (snd (create_task new s)) (rows s @ [new]) (undelivered s)"
proof -
  define ins where "ins = (\<lambda>w :: 'a world. if pt_id new \<in> pt_id ` set (rows w) then (Inl Db_UniqueViolation, w)
     else (Inr new, w\<lparr>rows := rows w @ [new]\<rparr>))"
  obtain r1 s1 where c: "call_service Db_DatabaseConnectionError Db_Others ins s = (r1, s1)" by fastforce
  then have "snd (create_task new s) = s1"
    by (simp add: create_task_def insert_process_def q_insert_process_def ins_def)
  moreover have "unchanged w (snd (ins w)) \<or> pt_id new \<notin> pt_id ` set (rows w) \<and> changed w (snd (ins w)) (rows w @ [new]) (undelivered w)"
    for w by (simp add: ins_def changed_def)
  then have "unchanged s (snd (call_service Db_DatabaseConnectionError Db_Others ins s)) \<or> pt_id new \<notin> pt_id ` set (rows s) \<and>
    changed s (snd (call_service Db_DatabaseConnectionError Db_Others ins s)) (rows s @ [new]) (undelivered s)"
    by (rule call_service_rel) (simp_all add: changed_def)
  ultimately show ?thesis using c by simp
qed

section \<open>A run of the producer without failures\<close>

definition encoded_as :: "'j redis_codec \<Rightarrow> process_tracker_batch \<Rightarrow> string \<times> 'j stream_entry \<Rightarrow> bool" where
  "encoded_as cd b e \<longleftrightarrow> fst e = b_stream_name b \<and> to_redis_field_value_pairs cd b = Inr (snd e)"

abbreviation batch_ids :: "process_tracker_batch list \<Rightarrow> string list" where
  "batch_ids bs \<equiv> map pt_id (concat (map b_trackers bs))"

lemma mark_cong: "set ids = set ids' \<Longrightarrow> mark now u ids = mark now u ids'"
  by (simp add: mark_def)

lemma append_batches_answered:
  assumes "\<And>ts. \<exists>j. trackers_to_json cd ts = Inr j" and "outcomes s = []"
  shows "\<exists>es. list_all2 (encoded_as cd) bs es \<and>
    append_batches cd Producer bs s =
      s\<lparr>rows := set_processing (clock s) (batch_ids bs) (rows s), undelivered := undelivered s @ es\<rparr>"
  using assms(2)
proof (induction bs arbitrary: s)
  case (Cons b bs)
  obtain j where "trackers_to_json cd (b_trackers b) = Inr j" using assms(1) by blast
  then obtain e where e: "to_redis_field_value_pairs cd b = Inr e"
    by (simp add: to_redis_field_value_pairs_def)
  define s1 where "s1 = s\<lparr>rows := set_processing (clock s) (map pt_id (b_trackers b)) (rows s),
    undelivered := undelivered s @ [(b_stream_name b, e)]\<rparr>"
  have step: "append_batches cd Producer (b # bs) s = append_batches cd Producer bs s1"
    using update_status_and_append_answered [OF Cons.prems e] by (simp add: s1_def)
  have "outcomes s1 = []" using Cons.prems by (simp add: s1_def)
  from Cons.IH [OF this] obtain es where "list_all2 (encoded_as cd) bs es"
    and "append_batches cd Producer bs s1 =
      s1\<lparr>rows := set_processing (clock s1) (batch_ids bs) (rows s1), undelivered := undelivered s1 @ es\<rparr>" by blast
  moreover have "encoded_as cd b (b_stream_name b, e)" using e by (simp add: encoded_as_def)
  ultimately show ?case
    unfolding step by (intro exI [of _ "(b_stream_name b, e) # es"]) (simp add: s1_def mark_mark)
qed simp

definition batches_for :: "scheduler_settings \<Rightarrow> process_tracker_batch list \<Rightarrow> bool" where
  "batches_for conf bs \<longleftrightarrow>
     (\<forall>b \<in> set bs. b_trackers b \<noteq> [] \<and> length (b_trackers b) \<le> batch_size (producer conf) \<and>
        (\<forall>t \<in> set (b_trackers b).
           b_stream_name b = (if pt_application_source t = Some Cug then cug_stream conf else stream conf)))"

lemma divide_and_append_answered:
  assumes "\<And>ts. \<exists>j. trackers_to_json cd ts = Inr j" and "outcomes s = []" and "0 < batch_size (producer conf)"
    and "\<forall>t \<in> set tasks. pt_application_source t = Some Cug \<longleftrightarrow> src = Cug"
  shows "\<exists>bs es. concat (map b_trackers bs) = tasks \<and> batches_for conf bs \<and> list_all2 (encoded_as cd) bs es \<and>
    divide_and_append_tasks cd Producer tasks conf src s =
      (Inr (), s\<lparr>rows := set_processing (clock s) (map pt_id tasks) (rows s), undelivered := undelivered s @ es\<rparr>)"
proof -
  obtain bs where bs: "divide s tasks conf src = Inr bs"
    using assms(3) by (auto simp: divide_def divide_into_batches_def Let_def)
  note d = divide_into_batches_exact [OF bs [unfolded divide_def]]
  obtain es where "list_all2 (encoded_as cd) bs es" "append_batches cd Producer bs s =
      s\<lparr>rows := set_processing (clock s) (batch_ids bs) (rows s), undelivered := undelivered s @ es\<rparr>"
    using append_batches_answered [OF assms(1,2)] by blast
  moreover have "batches_for conf bs"
    unfolding batches_for_def
  proof (intro ballI conjI)
    fix b t assume b: "b \<in> set bs" and t: "t \<in> set (b_trackers b)"
    then have "t \<in> set tasks" using d(1) by auto
    then show "b_stream_name b = (if pt_application_source t = Some Cug then cug_stream conf else stream conf)"
      using assms(4) d(2) [OF b] by (cases src) auto
  qed (use d(3) in auto)
  ultimately show ?thesis
    using bs d(1) by (intro exI [of _ bs] exI [of _ es]) (simp add: divide_and_append_tasks_def)
qed

lemma fetch_producer_tasks_answered:
  assumes "outcomes s = []"
    and "checked_add (dt_range s) (clock s) (seconds (upper_fetch_limit (producer conf))) \<noteq> None"
    and "checked_add (dt_range s) (clock s) (- seconds (lower_fetch_limit (producer conf))) \<noteq> None"
  shows "fetch_producer_tasks conf s = (Inr (due_tasks conf s New @ due_tasks conf s Pending), s)"
  using assms
  by (auto simp: fetch_producer_tasks_def Let_def checked_add_def find_by_status_answered due_tasks_def split: if_splits)

lemma producer_callback_answered:
  assumes enc: "\<And>ts. \<exists>j. trackers_to_json cd ts = Inr j" and os: "outcomes s = []"
    and lim: "checked_add (dt_range s) (clock s) (seconds (upper_fetch_limit (producer conf))) \<noteq> None"
      "checked_add (dt_range s) (clock s) (- seconds (lower_fetch_limit (producer conf))) \<noteq> None"
    and bsz: "0 < batch_size (producer conf)"
    and tasks: "tasks = due_tasks conf s New @ due_tasks conf s Pending"
  shows "\<exists>bs es. mset (concat (map b_trackers bs)) = mset tasks \<and> batches_for conf bs \<and> list_all2 (encoded_as cd) bs es \<and>
    producer_callback cd conf s =
      (Inr (), s\<lparr>rows := set_processing (clock s) (map pt_id tasks) (rows s), undelivered := undelivered s @ es\<rparr>)"
proof -
  define p where "p = (\<lambda>t :: process_tracker. pt_application_source t = Some Cug)"
  obtain bs1 es1 where 1: "concat (map b_trackers bs1) = filter (Not \<circ> p) tasks" "batches_for conf bs1"
      "list_all2 (encoded_as cd) bs1 es1"
    and r1: "divide_and_append_tasks cd Producer (filter (Not \<circ> p) tasks) conf Main_app s =
      (Inr (), s\<lparr>rows := set_processing (clock s) (map pt_id (filter (Not \<circ> p) tasks)) (rows s), undelivered := undelivered s @ es1\<rparr>)"
    using divide_and_append_answered [OF enc os bsz, of "filter (Not \<circ> p) tasks" Main_app] by (auto simp: p_def)
  define s1 where "s1 = s\<lparr>rows := set_processing (clock s) (map pt_id (filter (Not \<circ> p) tasks)) (rows s), undelivered := undelivered s @ es1\<rparr>"
  have os1: "outcomes s1 = []" using os by (simp add: s1_def)
  obtain bs2 es2 where 2: "concat (map b_trackers bs2) = filter p tasks" "batches_for conf bs2"
      "list_all2 (encoded_as cd) bs2 es2"
    and r2: "divide_and_append_tasks cd Producer (filter p tasks) conf Cug s1 =
      (Inr (), s1\<lparr>rows := set_processing (clock s1) (map pt_id (filter p tasks)) (rows s1), undelivered := undelivered s1 @ es2\<rparr>)"
    using divide_and_append_answered [OF enc os1 bsz, of "filter p tasks" Cug] by (auto simp: p_def)
  have ids: "set (map pt_id (filter (Not \<circ> p) tasks) @ map pt_id (filter p tasks)) = set (map pt_id tasks)" by auto
  have rows2: "set_processing (clock s1) (map pt_id (filter p tasks)) (rows s1) = set_processing (clock s) (map pt_id tasks) (rows s)"
    using mark_cong [OF ids] by (simp add: s1_def mark_mark)
  have "producer_callback cd conf s =
    (Inr (), s\<lparr>rows := set_processing (clock s) (map pt_id tasks) (rows s), undelivered := undelivered s @ (es1 @ es2)\<rparr>)"
    using fetch_producer_tasks_answered [OF os lim] r1 r2 rows2
    by (simp add: producer_callback_def tasks [symmetric] p_def [symmetric] partition_filter1 partition_filter2 s1_def comp_def)
  moreover have "mset (concat (map b_trackers (bs1 @ bs2))) = mset tasks"
    using 1(1) 2(1) multiset_partition [of "mset tasks" p] by (simp add: comp_def)
  moreover have "batches_for conf (bs1 @ bs2)" using 1(2) 2(2) by (auto simp: batches_for_def)
  moreover have "list_all2 (encoded_as cd) (bs1 @ bs2) (es1 @ es2)" using 1(3) 2(3) by (rule list_all2_appendI)
  ultimately show ?thesis by blast
qed

lemma acquire_pt_lock_answered:
  "outcomes s = [] \<Longrightarrow> k \<notin> lock_keys s \<Longrightarrow>
     acquire_pt_lock k s = (Inr True, s\<lparr>lock_keys := insert k (lock_keys s)\<rparr>)"
  by (simp add: acquire_pt_lock_def get_redis_conn_def set_key_if_not_exists_with_expiry_def set_expiry_def
      call_service_answered)

lemma release_pt_lock_answered:
  "outcomes s = [] \<Longrightarrow> release_pt_lock k s = (Inr True, s\<lparr>lock_keys := lock_keys s - {k}\<rparr>)"
  by (simp add: release_pt_lock_def get_redis_conn_def delete_key_def call_service_answered)

lemma due_tasks_locks [simp]: "due_tasks conf (s\<lparr>lock_keys := ks\<rparr>) st = due_tasks conf s st"
  by (simp add: due_tasks_def)

lemma run_producer_flow_answered:
  assumes enc: "\<And>ts. \<exists>j. trackers_to_json cd ts = Inr j" and os: "outcomes s = []"
    and lim: "checked_add (dt_range s) (clock s) (seconds (upper_fetch_limit (producer conf))) \<noteq> None"
      "checked_add (dt_range s) (clock s) (- seconds (lower_fetch_limit (producer conf))) \<noteq> None"
    and bsz: "0 < batch_size (producer conf)" and key: "lock_key (producer conf) \<notin> lock_keys s"
    and tasks: "tasks = due_tasks conf s New @ due_tasks conf s Pending"
  shows "\<exists>bs es. mset (concat (map b_trackers bs)) = mset tasks \<and> batches_for conf bs \<and> list_all2 (encoded_as cd) bs es \<and>
    fst (run_producer_flow cd conf s) = Inr () \<and>
    changed s (snd (run_producer_flow cd conf s)) (set_processing (clock s) (map pt_id tasks) (rows s)) (undelivered s @ es)"
proof -
  define s1 where "s1 = s\<lparr>lock_keys := insert (lock_key (producer conf)) (lock_keys s)\<rparr>"
  have acq: "acquire_pt_lock (lock_key (producer conf)) s = (Inr True, s1)"
    unfolding s1_def using os key by (rule acquire_pt_lock_answered)
  have s1: "outcomes s1 = []" "dt_range s1 = dt_range s" "clock s1 = clock s" using os by (simp_all add: s1_def)
  have "tasks = due_tasks conf s1 New @ due_tasks conf s1 Pending" by (simp add: tasks s1_def)
  from producer_callback_answered [OF enc s1(1) lim [folded s1(2,3)] bsz this] obtain bs es
    where b: "mset (concat (map b_trackers bs)) = mset tasks" "batches_for conf bs" "list_all2 (encoded_as cd) bs es"
      and c: "producer_callback cd conf s1 =
      (Inr (), s1\<lparr>rows := set_processing (clock s1) (map pt_id tasks) (rows s1), undelivered := undelivered s1 @ es\<rparr>)"
    by blast
  have "run_producer_flow cd conf s = (Inr (), s1\<lparr>rows := set_processing (clock s1) (map pt_id tasks) (rows s1),
      undelivered := undelivered s1 @ es, lock_keys := lock_keys s1 - {lock_key (producer conf)}\<rparr>)"
    by (simp add: run_producer_flow_def lock_acquire_release_def acq c release_pt_lock_answered s1(1))
  then show ?thesis using b key by (intro exI [of _ bs] exI [of _ es]) (simp add: changed_def s1_def)
qed

section \<open>Properties\<close>

text \<open>
  What the producer writes into the stream is what a consumer reads from it: decoding the
  entry made of a batch gives the batch back, its creation time cut to whole seconds. The
  serialisation of the tasks is assumed to be readable again, and the creation time to lie in the
  range of the time library.
\<close>

theorem batch_redis_roundtrip:
  assumes "codec_ok cd" and "to_redis_field_value_pairs cd b = Inr entry"
    and "t = unix_timestamp (b_created_time b)" and "- (2 ^ 63) \<le> t" and "t < 2 ^ 63"
    and "fst limits \<le> seconds t" and "seconds t \<le> snd limits"
  shows "from_redis_stream_entry cd limits entry = Inr (b\<lparr>b_created_time := seconds t\<rparr>) \<and> seconds t \<le> b_created_time b \<and>
    b_created_time b < seconds (t + 1)"
proof -
  have "seconds t \<le> b_created_time b \<and> b_created_time b < seconds (t + 1)"
    using div_mult_mod_eq [of "b_created_time b" 1000000000] pos_mod_sign [of 1000000000 "b_created_time b"]
      pos_mod_bound [of 1000000000 "b_created_time b"]
    unfolding assms(3) seconds_def unix_timestamp_def by (simp only: distrib_right) linarith
  with from_redis_to_redis [OF assms] show ?thesis by blast
qed

text \<open>A task, a state and a serialisation for the witnesses.\<close>

definition plain_codec :: "process_tracker list redis_codec" where
  "plain_codec = \<lparr>trackers_to_json = Inr, trackers_from_json = Inr\<rparr>"

definition sample_task :: "string \<Rightarrow> process_tracker" where
  "sample_task i = \<lparr>pt_id = i, pt_name = Some ''PAYMENTS_SYNC'', pt_tag = [], pt_runner = Some ''PAYMENTS_SYNC_WORKFLOW'',
     pt_retry_count = 0, pt_schedule_time = Some 60000000000, pt_rule = [], pt_tracking_data = JNull,
     pt_business_status = PENDING, pt_status = New, pt_event = [], pt_created_at = 0, pt_updated_at = 0,
     pt_version = V1, pt_application_source = Some Main_app\<rparr>"

definition sample_world :: "process_tracker list \<Rightarrow> process_tracker list world" where
  "sample_world rs = \<lparr>rows = rs, clock = 60500000000, outcomes = [], undelivered = [],
     groups = {(''SCHEDULER_STREAM'', ''SCHEDULER_GROUP'')}, lock_keys = {}, uuid = ''batch'',
     dt_range = (- 377705116800000000000, 253402300799999999999)\<rparr>"

lemma plain_codec_ok: "codec_ok plain_codec" "\<forall>ts. \<exists>j. trackers_to_json plain_codec ts = Inr j"
  by (simp_all add: codec_ok_def plain_codec_def)

theorem batch_redis_roundtrip_witness:
  "\<exists>b entry. b_created_time b = 60500000000 \<and> b_trackers b = [sample_task ''t1''] \<and>
     to_redis_field_value_pairs plain_codec b = Inr entry \<and>
     from_redis_stream_entry plain_codec (dt_range (sample_world [])) entry = Inr (b\<lparr>b_created_time := 60000000000\<rparr>)"
proof -
  define b where "b = \<lparr>b_id = ''batch'', b_group_name = ''SCHEDULER_GROUP'', b_stream_name = ''SCHEDULER_STREAM'',
    b_connection_name = [], b_created_time = 60500000000, b_rule = [], b_trackers = [sample_task ''t1'']\<rparr>"
  obtain entry where e: "to_redis_field_value_pairs plain_codec b = Inr entry"
    by (simp add: to_redis_field_value_pairs_def plain_codec_def)
  have t: "60 = unix_timestamp (b_created_time b)" by (simp add: b_def unix_timestamp_def)
  have "from_redis_stream_entry plain_codec (dt_range (sample_world [])) entry = Inr (b\<lparr>b_created_time := seconds 60\<rparr>) \<and>
    seconds 60 \<le> b_created_time b \<and> b_created_time b < seconds (60 + 1)"
    by (rule batch_redis_roundtrip [OF plain_codec_ok(1) e t]) (simp_all add: sample_world_def seconds_def)
  with e show ?thesis by (intro exI [of _ b] exI [of _ entry]) (simp add: b_def seconds_def)
qed

text \<open>
  A run of the producer in which no call fails takes exactly the tasks that are due: the new and
  the pending ones of this API version whose schedule time lies in the configured window around now.
  It sets them to processing, leaves every other row alone, gives the lock back, and appends batches
  that hold each of those tasks once, none empty and none longer than the batch size, each in the
  stream of the application its tasks belong to.
\<close>

theorem producer_run_exact:
  assumes "\<forall>ts. \<exists>j. trackers_to_json cd ts = Inr j" and "outcomes s = []"
    and "checked_add (dt_range s) (clock s) (seconds (upper_fetch_limit (producer conf))) \<noteq> None"
    and "checked_add (dt_range s) (clock s) (- seconds (lower_fetch_limit (producer conf))) \<noteq> None"
    and "0 < batch_size (producer conf)" and "lock_key (producer conf) \<notin> lock_keys s"
    and "tasks = due_tasks conf s New @ due_tasks conf s Pending"
  shows "\<exists>bs es. mset (concat (map b_trackers bs)) = mset tasks \<and> batches_for conf bs \<and> list_all2 (encoded_as cd) bs es \<and>
    fst (run_producer_flow cd conf s) = Inr () \<and>
    changed s (snd (run_producer_flow cd conf s))
      (map (\<lambda>r. if pt_id r \<in> pt_id ` set tasks then r\<lparr>pt_status := Processing, pt_updated_at := clock s\<rparr> else r) (rows s))
      (undelivered s @ es)"
proof -
  have "set_fields (update_internal_from (clock s) (StatusUpdate Processing None)) r =
      r\<lparr>pt_status := Processing, pt_updated_at := clock s\<rparr>" for r :: process_tracker
    by (cases r) (simp add: set_fields_def update_internal_from.simps update_internal_default_def or_keep_def)
  then have "set_processing (clock s) (map pt_id tasks) (rows s) =
    map (\<lambda>r. if pt_id r \<in> pt_id ` set tasks then r\<lparr>pt_status := Processing, pt_updated_at := clock s\<rparr> else r) (rows s)"
    by (simp add: mark_def update_rows_def)
  with run_producer_flow_answered [OF assms(1) [THEN spec] assms(2-)] show ?thesis by simp
qed

theorem producer_run_exact_witness:
  "due_tasks (scheduler_settings_default 4) (sample_world [sample_task ''t1'']) New = [sample_task ''t1''] \<and>
   (\<exists>bs es. mset (concat (map b_trackers bs)) = {#sample_task ''t1''#} \<and> list_all2 (encoded_as plain_codec) bs es \<and>
     changed (sample_world [sample_task ''t1''])
       (snd (run_producer_flow plain_codec (scheduler_settings_default 4) (sample_world [sample_task ''t1''])))
       [(sample_task ''t1'')\<lparr>pt_status := Processing, pt_updated_at := 60500000000\<rparr>] es)"
proof -
  let ?w = "sample_world [sample_task ''t1'']" and ?c = "scheduler_settings_default 4"
  have due: "due_tasks ?c ?w New = [sample_task ''t1'']" "due_tasks ?c ?w Pending = []"
    by (simp_all add: due_tasks_def sample_world_def sample_task_def scheduler_settings_default_def
        producer_settings_default_def between_def seconds_def API_VERSION_def)
  have "[sample_task ''t1''] = due_tasks ?c ?w New @ due_tasks ?c ?w Pending" by (simp add: due)
  from producer_run_exact [OF plain_codec_ok(2) _ _ _ _ _ this]
  have "\<exists>bs es. mset (concat (map b_trackers bs)) = mset [sample_task ''t1''] \<and> batches_for ?c bs \<and>
     list_all2 (encoded_as plain_codec) bs es \<and> fst (run_producer_flow plain_codec ?c ?w) = Inr () \<and>
     changed ?w (snd (run_producer_flow plain_codec ?c ?w))
      (map (\<lambda>r. if pt_id r \<in> pt_id ` set [sample_task ''t1''] then r\<lparr>pt_status := Processing, pt_updated_at := clock ?w\<rparr> else r) (rows ?w))
      (undelivered ?w @ es)"
    by (simp add: sample_world_def scheduler_settings_default_def producer_settings_default_def checked_add_def seconds_def)
  then show ?thesis using due by (auto simp: sample_world_def)
qed

end
