(* ===== verification/Scheduler_System.thy ===== *)
theory Scheduler_System
  imports Scheduler
begin

text \<open>
  Producers, consumers and the rest of the application working on the same table and the same
  streams. A step is one call of a handler: a producer takes the lock, reads the tasks that are due,
  sends one batch, gives the lock back; a consumer fetches a batch; a workflow that is running ends;
  the application creates, finishes or resets a task. Calls of different parties interleave freely,
  the clock runs on, and every call may fail in the ways of \<open>call_outcome\<close>. Two parameters open what
  the code does not exclude: \<open>expiry\<close> lets the lock run out while its owner works, and \<open>resettable\<close> is
  the set of tasks the application may reset at any time.
\<close>

section \<open>Steps\<close>

datatype producer_state = Idle | Fetching | Sending "process_tracker_batch list"

record 'j system =
  wld :: "'j world"
  producers :: "producer_state list"
  running :: "process_tracker list"

text \<open>The batches of one producer run, in the order in which they are sent.\<close>

definition producer_batches :: "scheduler_settings \<Rightarrow> 'j world \<Rightarrow> process_tracker list \<Rightarrow> process_tracker_error + process_tracker_batch list" where
  "producer_batches conf s tasks =
     (let (cug_tasks, main_tasks) = partition (\<lambda>task. pt_application_source task = Some Cug) tasks in
      and_then (divide s main_tasks conf Main_app) (\<lambda>main_batches.
      and_then (divide s cug_tasks conf Cug) (\<lambda>cug_batches. Inr (main_batches @ cug_batches))))"

definition stream_of :: "scheduler_settings \<Rightarrow> application_source \<Rightarrow> string" where
  "stream_of conf src = (case src of Main_app \<Rightarrow> stream conf | Cug \<Rightarrow> cug_stream conf)"

text \<open>
  What a workflow does to its own task before it ends, including the handlers of its errors: any
  sequence of the operations it may call on it, or nothing when it crashes.
\<close>

inductive workflow_updates :: "process_tracker \<Rightarrow> 'j world \<Rightarrow> 'j world \<Rightarrow> bool" for t where
  wf_start: "workflow_updates t s s"
| wf_finish: "workflow_updates t s s' \<Longrightarrow> workflow_updates t s (snd (finish_process_with_business_status t b s'))"
| wf_retry: "workflow_updates t s s' \<Longrightarrow> workflow_updates t s (snd (retry_process t time s'))"
| wf_reset: "workflow_updates t s s' \<Longrightarrow> workflow_updates t s (snd (reset_process t time s'))"
| wf_error: "workflow_updates t s s' \<Longrightarrow> workflow_updates t s (snd (consumer_error_handler t s'))"

inductive sched_step ::
    "'j redis_codec \<Rightarrow> scheduler_settings \<Rightarrow> bool \<Rightarrow> string set \<Rightarrow> 'j system \<Rightarrow> 'j system \<Rightarrow> bool"
  for cd conf expiry resettable where
  create: "pt_status new = New \<Longrightarrow>
    sched_step cd conf expiry resettable S (S\<lparr>wld := snd (create_task new (wld S))\<rparr>)"
| acquire: "p < length (producers S) \<Longrightarrow> producers S ! p = Idle \<Longrightarrow>
    acquire_pt_lock (lock_key (producer conf)) (wld S) = (r, w) \<Longrightarrow>
    sched_step cd conf expiry resettable S
      (S\<lparr>wld := w, producers := (producers S)[p := if r = Inr True then Fetching else Idle]\<rparr>)"
| fetch: "p < length (producers S) \<Longrightarrow> producers S ! p = Fetching \<Longrightarrow>
    fetch_producer_tasks conf (wld S) = (Inr tasks, w) \<Longrightarrow> producer_batches conf w tasks = Inr bs \<Longrightarrow>
    sched_step cd conf expiry resettable S (S\<lparr>wld := w, producers := (producers S)[p := Sending bs]\<rparr>)"
| fetch_failed: "p < length (producers S) \<Longrightarrow> producers S ! p = Fetching \<Longrightarrow>
    fetch_producer_tasks conf (wld S) = (Inl e, w) \<Longrightarrow>
    sched_step cd conf expiry resettable S (S\<lparr>wld := w, producers := (producers S)[p := Sending []]\<rparr>)"
| fetch_panicked: "p < length (producers S) \<Longrightarrow> producers S ! p = Fetching \<Longrightarrow>
    fetch_producer_tasks conf (wld S) = (Inr tasks, w) \<Longrightarrow> producer_batches conf w tasks = Inl e \<Longrightarrow>
    sched_step cd conf expiry resettable S (S\<lparr>wld := w, producers := (producers S)[p := Idle]\<rparr>)"
| send: "p < length (producers S) \<Longrightarrow> producers S ! p = Sending (b # bs) \<Longrightarrow>
    update_status_and_append cd Producer b (wld S) = (r, w) \<Longrightarrow>
    sched_step cd conf expiry resettable S (S\<lparr>wld := w, producers := (producers S)[p := Sending bs]\<rparr>)"
| release: "p < length (producers S) \<Longrightarrow> producers S ! p = Sending [] \<Longrightarrow>
    release_pt_lock (lock_key (producer conf)) (wld S) = (r, w) \<Longrightarrow>
    sched_step cd conf expiry resettable S (S\<lparr>wld := w, producers := (producers S)[p := Idle]\<rparr>)"
| join_group: "consumer_group_create (stream_of conf src) (consumer_group (consumer conf)) (wld S) = (r, w) \<Longrightarrow>
    sched_step cd conf expiry resettable S (S\<lparr>wld := w\<rparr>)"
| consume: "store_fetch_consumer_tasks cd (stream_of conf src) (consumer_group (consumer conf)) (wld S) = (r, w) \<Longrightarrow>
    sched_step cd conf expiry resettable S
      (S\<lparr>wld := w, running := running S @ (case r of Inr ts \<Rightarrow> ts | Inl _ \<Rightarrow> [])\<rparr>)"
| work: "t \<in> set (running S) \<Longrightarrow> workflow_updates t (wld S) w \<Longrightarrow>
    sched_step cd conf expiry resettable S (S\<lparr>wld := w, running := remove1 t (running S)\<rparr>)"
| finish: "b \<noteq> PENDING \<Longrightarrow>
    sched_step cd conf expiry resettable S (S\<lparr>wld := snd (finish_process_with_business_status t b (wld S))\<rparr>)"
| reset: "pt_id t \<in> resettable \<Longrightarrow>
    sched_step cd conf expiry resettable S (S\<lparr>wld := snd (reset_process t time (wld S))\<rparr>)"
| environment: "clock (wld S) \<le> now \<Longrightarrow> mset rs = mset (rows (wld S)) \<Longrightarrow>
    sched_step cd conf expiry resettable S (S\<lparr>wld := (wld S)\<lparr>clock := now, rows := rs, outcomes := os, uuid := u\<rparr>\<rparr>)"
| lock_expires: "expiry \<Longrightarrow>
    sched_step cd conf expiry resettable S
      (S\<lparr>wld := (wld S)\<lparr>lock_keys := lock_keys (wld S) - {lock_key (producer conf)}\<rparr>\<rparr>)"

definition initial :: "'j system \<Rightarrow> bool" where
  "initial S \<longleftrightarrow> distinct (map pt_id (rows (wld S))) \<and> undelivered (wld S) = [] \<and>
     (\<forall>p \<in> set (producers S). p = Idle) \<and> running S = []"

abbreviation sched_steps ::
    "'j redis_codec \<Rightarrow> scheduler_settings \<Rightarrow> bool \<Rightarrow> string set \<Rightarrow> 'j system \<Rightarrow> 'j system \<Rightarrow> bool" where
  "sched_steps cd conf expiry resettable \<equiv> (sched_step cd conf expiry resettable)\<^sup>*\<^sup>*"

section \<open>Where a task is\<close>

fun producer_tasks :: "producer_state \<Rightarrow> process_tracker list" where
  "producer_tasks (Sending bs) = concat (map b_trackers bs)"
| "producer_tasks _ = []"

definition in_hand :: "'j system \<Rightarrow> process_tracker list" where
  "in_hand S = concat (map producer_tasks (producers S))"

definition in_stream :: "'j redis_codec \<Rightarrow> 'j system \<Rightarrow> process_tracker list" where
  "in_stream cd S = concat (map (\<lambda>e. entry_trackers cd (dt_range (wld S)) (snd e)) (undelivered (wld S)))"

definition copies :: "string \<Rightarrow> process_tracker list \<Rightarrow> nat" where
  "copies i ts = length (filter (\<lambda>t. pt_id t = i) ts)"

lemma copies_simps [simp]:
  "copies i [] = 0"
  "copies i (t # ts) = (if pt_id t = i then 1 else 0) + copies i ts"
  "copies i (xs @ ys) = copies i xs + copies i ys"
  by (simp_all add: copies_def)

lemma copies_zero: "copies i ts = 0 \<longleftrightarrow> i \<notin> pt_id ` set ts"
  by (auto simp: copies_def filter_empty_conv)

lemma copies_pos: "0 < copies i ts \<longleftrightarrow> i \<in> pt_id ` set ts"
  using copies_zero [of i ts] by linarith

lemma copies_mset: "mset xs = mset ys \<Longrightarrow> copies i xs = copies i ys"
  unfolding copies_def by (metis mset_filter size_mset)

lemma copies_filter_le: "copies i (filter p ts) \<le> copies i ts"
  by (induction ts) simp_all

lemma copies_distinct: "distinct (map pt_id ts) \<Longrightarrow> copies i ts \<le> 1"
  by (induction ts) (auto simp: copies_zero)

lemma copies_map_status [simp]: "copies i (map (\<lambda>x. x\<lparr>pt_status := st\<rparr>) ts) = copies i ts"
  by (induction ts) simp_all

lemma copies_remove1: "t \<in> set ts \<Longrightarrow> copies i (remove1 t ts) + (if pt_id t = i then 1 else 0) = copies i ts"
  by (induction ts) auto

lemma copies_concat_remove1:
  "x \<in> set xs \<Longrightarrow> copies i (concat (map f (remove1 x xs))) + copies i (f x) = copies i (concat (map f xs))"
  by (induction xs) auto

lemma copies_concat_filter: "copies i (concat (map f (filter p xs))) \<le> copies i (concat (map f xs))"
  by (induction xs) simp_all

lemma copies_list_update:
  "p < length ps \<Longrightarrow>
     copies i (concat (map f (ps[p := x]))) + copies i (f (ps ! p)) = copies i (concat (map f ps)) + copies i (f x)"
proof (induction ps arbitrary: p)
  case (Cons a ps)
  show ?case
  proof (cases p)
    case (Suc q)
    with Cons.IH [of q] Cons.prems show ?thesis by simp
  qed simp
qed simp

section \<open>Effects of steps\<close>

lemma changed_refl [simp, intro]: "unchanged s s"
  by (simp add: changed_def)

lemma mark_ids [simp]: "map pt_id (mark now u ids rs) = map pt_id rs"
  unfolding mark_def by (rule sf.ids_kept)

definition taken :: "string \<Rightarrow> process_tracker list \<Rightarrow> bool" where
  "taken i rs \<longleftrightarrow> i \<in> pt_id ` set rs \<and> (\<forall>r \<in> set rs. pt_id r = i \<longrightarrow> pt_status r \<notin> {New, Pending})"

lemma mark_pt_ids [simp]: "pt_id ` set (mark now u ids rs) = pt_id ` set rs"
  using mark_ids [of now u ids rs] by (metis set_map)

lemma taken_mark_status:
  "taken i rs \<or> i \<in> set ids \<and> i \<in> pt_id ` set rs \<Longrightarrow> st \<notin> {New, Pending} \<Longrightarrow>
     taken i (mark now (StatusUpdate st b) ids rs)"
  unfolding taken_def mark_pt_ids by (auto simp: mark_def update_rows_def set_fields_id)

lemma taken_mark_other: "i \<notin> set ids \<Longrightarrow> taken i (mark now u ids rs) = taken i rs"
  unfolding taken_def mark_pt_ids by (fastforce simp: mark_def update_rows_def set_fields_id)

lemma taken_mset: "mset rs = mset rs' \<Longrightarrow> taken i rs = taken i rs'"
  unfolding taken_def by (metis mset_eq_setD)

text \<open>A workflow writes only the row of its own task.\<close>

lemma workflow_updates_frame:
  assumes "workflow_updates t s s'"
  shows "undelivered s' = undelivered s \<and> lock_keys s' = lock_keys s \<and> dt_range s' = dt_range s \<and>
    map pt_id (rows s') = map pt_id (rows s) \<and>
    filter (\<lambda>r. pt_id r \<noteq> pt_id t) (rows s') = filter (\<lambda>r. pt_id r \<noteq> pt_id t) (rows s)"
proof -
  have other: "filter (\<lambda>r. pt_id r \<noteq> pt_id t) (mark now u [pt_id t] rs) = filter (\<lambda>r. pt_id r \<noteq> pt_id t) rs" for now u rs
    by (induction rs) (simp_all add: mark_def update_rows_def set_fields_id)
  have upd: "undelivered w' = undelivered w \<and> lock_keys w' = lock_keys w \<and> dt_range w' = dt_range w \<and>
    map pt_id (rows w') = map pt_id (rows w) \<and>
    filter (\<lambda>r. pt_id r \<noteq> pt_id t) (rows w') = filter (\<lambda>r. pt_id r \<noteq> pt_id t) (rows w)"
    if "unchanged w w' \<or> changed w w' (mark now u [pt_id t] (rows w)) (undelivered w)" for w w' :: "'a world" and now u
    using that by (auto simp: changed_def other)
  show ?thesis using assms
  proof induction
    case (wf_finish s s' b)
    then show ?case using upd [OF finish_process_effect [of s' t b]] by simp
  next
    case (wf_retry s s' time)
    then show ?case using upd [OF retry_process_effect [of s' t time]] by simp
  next
    case (wf_reset s s' time)
    then show ?case using upd [OF reset_process_effect [of s' t time]] by simp
  next
    case (wf_error s s')
    then show ?case using upd [OF consumer_error_handler_effect [of s' t]] by simp
  qed simp
qed

lemma consumer_group_create_effect:
  assumes "consumer_group_create n g s = (r, s')"
  shows "rows s' = rows s \<and> lock_keys s' = lock_keys s \<and> dt_range s' = dt_range s \<and>
    (undelivered s' = undelivered s \<or> undelivered s' = filter (\<lambda>e. fst e \<noteq> n) (undelivered s))"
proof -
  let ?Q = "\<lambda>w w' :: 'a world. rows w' = rows w \<and> lock_keys w' = lock_keys w \<and> dt_range w' = dt_range w \<and>
    (undelivered w' = undelivered w \<or> undelivered w' = filter (\<lambda>e. fst e \<noteq> n) (undelivered w))"
  obtain c s1 where g: "get_redis_conn s = (c, s1)" by fastforce
  note s1 = get_redis_conn_effect [OF this]
  have "?Q s1 (snd (call_service RedisCommandFailed RedisCommandFailed
     (\<lambda>s. if (n, g) \<in> groups s then (Inl RedisCommandFailed, s)
          else (Inr (), s\<lparr>groups := insert (n, g) (groups s),
                         undelivered := filter (\<lambda>e. fst e \<noteq> n) (undelivered s)\<rparr>)) s1))" (is "?Q s1 (snd ?call)")
    by (rule call_service_rel) simp_all
  moreover have "s' = s1 \<or> s' = snd ?call"
    using assms g by (cases c) (auto simp: consumer_group_create_def)
  ultimately show ?thesis using s1 by (auto simp: changed_def)
qed

lemma producer_batches_tasks:
  assumes "producer_batches conf w tasks = Inr bs"
  shows "mset (concat (map b_trackers bs)) = mset tasks"
proof -
  define p where "p = (\<lambda>t :: process_tracker. pt_application_source t = Some Cug)"
  obtain ms cs where "divide w (filter (Not \<circ> p) tasks) conf Main_app = Inr ms" "divide w (filter p tasks) conf Cug = Inr cs"
    and bs: "bs = ms @ cs"
    using assms by (auto simp: producer_batches_def and_then_eq_Inr p_def [symmetric] comp_def)
  then have "concat (map b_trackers ms) = filter (Not \<circ> p) tasks" "concat (map b_trackers cs) = filter p tasks"
    unfolding divide_def by (blast intro: divide_into_batches_exact(1))+
  then show ?thesis using bs multiset_partition [of "mset tasks" p] by (simp add: comp_def)
qed

section \<open>The lock keeps producers apart\<close>

definition lock_ok :: "scheduler_settings \<Rightarrow> 'j system \<Rightarrow> bool" where
  "lock_ok conf S \<longleftrightarrow>
     (\<forall>p < length (producers S). producers S ! p \<noteq> Idle \<longrightarrow> lock_key (producer conf) \<in> lock_keys (wld S)) \<and>
     (\<forall>p < length (producers S). \<forall>q < length (producers S).
        producers S ! p \<noteq> Idle \<longrightarrow> producers S ! q \<noteq> Idle \<longrightarrow> p = q)"

lemma lock_ok_keys:
  assumes "lock_ok conf S" "lock_keys (wld S) \<subseteq> lock_keys (wld S')" "producers S' = producers S"
  shows "lock_ok conf S'"
  using assms unfolding lock_ok_def by auto

lemma lock_ok_owner:
  assumes ok: "lock_ok conf S" and own: "p < length (producers S)" "producers S ! p \<noteq> Idle"
    and keys: "x = Idle \<or> lock_keys w = lock_keys (wld S)"
  shows "lock_ok conf (S\<lparr>wld := w, producers := (producers S)[p := x]\<rparr>)"
proof -
  have "producers S ! q = Idle" if "q < length (producers S)" "q \<noteq> p" for q
    using ok own that unfolding lock_ok_def by blast
  then have "(producers S)[p := x] ! q = (if q = p then x else Idle)" if "q < length (producers S)" for q
    using own(1) that by (simp add: nth_list_update)
  moreover have "lock_key (producer conf) \<in> lock_keys (wld S)" using ok own unfolding lock_ok_def by blast
  ultimately show ?thesis using keys unfolding lock_ok_def by (auto split: if_splits)
qed

lemma lock_ok_step:
  assumes "sched_step cd conf False R S S'" and "lock_ok conf S"
  shows "lock_ok conf S'"
  using assms
proof cases
  case (create new)
  with create_task_effect [of "wld S" new] assms(2) show ?thesis
    by (intro lock_ok_keys [OF assms(2)]) (auto simp: changed_def)
next
  case (acquire p r w)
  show ?thesis
  proof (cases "r = Inr True")
    case True
    with acquire_pt_lock_effect [OF acquire(4)] have "lock_key (producer conf) \<notin> lock_keys (wld S)"
      and k: "lock_keys w = insert (lock_key (producer conf)) (lock_keys (wld S))" by (auto simp: locks_changed_def)
    with assms(2) have "\<forall>q < length (producers S). producers S ! q = Idle" unfolding lock_ok_def by blast
    with acquire True k show ?thesis unfolding lock_ok_def by (auto simp: nth_list_update)
  next
    case False
    with acquire_pt_lock_effect [OF acquire(4)] have "lock_keys (wld S) \<subseteq> lock_keys w" by (auto simp: locks_changed_def)
    moreover have "(producers S)[p := Idle] = producers S" using acquire by (metis list_update_id)
    ultimately show ?thesis using acquire False by (intro lock_ok_keys [OF assms(2)]) auto
  qed
next
  case (fetch p tasks w bs)
  with fetch_producer_tasks_effect [OF fetch(4)] show ?thesis
    by (auto intro!: lock_ok_owner [OF assms(2)] simp: changed_def)
next
  case (fetch_failed p e w)
  with fetch_producer_tasks_effect [OF fetch_failed(4)] show ?thesis
    by (auto intro!: lock_ok_owner [OF assms(2)] simp: changed_def)
next
  case (fetch_panicked p tasks w e)
  then show ?thesis by (auto intro!: lock_ok_owner [OF assms(2)])
next
  case (send p b bs r w)
  with update_status_and_append_effect [OF send(4)] show ?thesis
    by (auto intro!: lock_ok_owner [OF assms(2)] simp: changed_def)
next
  case (release p r w)
  then show ?thesis by (auto intro!: lock_ok_owner [OF assms(2)])
next
  case (join_group src r w)
  with consumer_group_create_effect [OF join_group(2)] show ?thesis by (intro lock_ok_keys [OF assms(2)]) auto
next
  case (consume src r w)
  with store_fetch_consumer_tasks_effect [OF consume(2)] show ?thesis
    by (intro lock_ok_keys [OF assms(2)]) (auto simp: changed_def)
next
  case (work t w)
  with workflow_updates_frame [OF work(3)] show ?thesis by (intro lock_ok_keys [OF assms(2)]) auto
next
  case (finish b t)
  with finish_process_effect [of "wld S" t b] show ?thesis
    by (intro lock_ok_keys [OF assms(2)]) (auto simp: changed_def)
next
  case (reset t time)
  with reset_process_effect [of "wld S" t time] show ?thesis
    by (intro lock_ok_keys [OF assms(2)]) (auto simp: changed_def)
next
  case environment
  then show ?thesis by (intro lock_ok_keys [OF assms(2)]) auto
next
  case lock_expires
  then show ?thesis by simp
qed

lemma nothing_in_hand:
  assumes "lock_ok conf S" "p < length (producers S)" "producers S ! p = Fetching"
  shows "in_hand S = []"
proof -
  have own: "producers S ! p \<noteq> Idle" using assms(3) by simp
  have "producers S ! q = Idle" if "q < length (producers S)" "q \<noteq> p" for q
    using assms(1,2) own that unfolding lock_ok_def by blast
  then have "producer_tasks (producers S ! q) = []" if "q < length (producers S)" for q
    using assms(3) that by (cases "q = p") simp_all
  then show ?thesis by (auto simp: in_hand_def in_set_conv_nth)
qed

section \<open>A task is in one place at most\<close>

definition at_most_once :: "'j redis_codec \<Rightarrow> string \<Rightarrow> 'j system \<Rightarrow> bool" where
  "at_most_once cd i S \<longleftrightarrow>
     distinct (map pt_id (rows (wld S))) \<and>
     copies i (in_hand S) + copies i (in_stream cd S) + copies i (running S) \<le> 1 \<and>
     (0 < copies i (in_stream cd S) + copies i (running S) \<longrightarrow> taken i (rows (wld S))) \<and>
     (0 < copies i (in_hand S) \<longrightarrow> i \<in> pt_id ` set (rows (wld S)))"

lemma at_most_once_mono:
  assumes inv: "at_most_once cd i S" and "distinct (map pt_id (rows (wld S')))"
    and ids: "pt_id ` set (rows (wld S)) \<subseteq> pt_id ` set (rows (wld S'))"
    and "copies i (in_hand S') + copies i (in_stream cd S') + copies i (running S') \<le>
         copies i (in_hand S) + copies i (in_stream cd S) + copies i (running S)"
    and "copies i (in_hand S') \<le> copies i (in_hand S)"
    and "0 < copies i (in_stream cd S') + copies i (running S') \<Longrightarrow> taken i (rows (wld S'))"
  shows "at_most_once cd i S'"
  using assms unfolding at_most_once_def by (auto dest: subsetD [OF ids])

lemma in_stream_eq:
  "undelivered (wld S') = undelivered (wld S) \<Longrightarrow> dt_range (wld S') = dt_range (wld S) \<Longrightarrow> in_stream cd S' = in_stream cd S"
  by (simp add: in_stream_def)

lemma in_hand_update:
  "p < length (producers S) \<Longrightarrow>
     copies i (in_hand (S\<lparr>wld := w, producers := (producers S)[p := x]\<rparr>)) + copies i (producer_tasks (producers S ! p)) =
     copies i (in_hand S) + copies i (producer_tasks x)"
  unfolding in_hand_def by simp (rule copies_list_update)

lemma taken_frame:
  assumes "filter (\<lambda>r. pt_id r \<noteq> j) rs' = filter (\<lambda>r. pt_id r \<noteq> j) rs" "i \<noteq> j"
  shows "taken i rs' = taken i rs"
proof -
  have "taken i rs = taken i (filter (\<lambda>r. pt_id r \<noteq> j) rs)" for rs
    using assms(2) by (auto simp: taken_def)
  with assms(1) show ?thesis by metis
qed

lemma at_most_once_send:
  assumes cd: "codec_ok cd" and inv: "at_most_once cd i S"
    and p: "p < length (producers S)" "producers S ! p = Sending (b # bs)"
    and u: "update_status_and_append cd Producer b (wld S) = (r, w)"
  shows "at_most_once cd i (S\<lparr>wld := w, producers := (producers S)[p := Sending bs]\<rparr>)" (is "at_most_once cd i ?S")
proof -
  define rs' where "rs' = set_processing (clock (wld S)) (map pt_id (b_trackers b)) (rows (wld S))"
  have hand: "copies i (in_hand ?S) + copies i (b_trackers b) = copies i (in_hand S)"
    using in_hand_update [OF p(1), where i = i and w = w and x = "Sending bs"] p(2) by simp
  have taken': "taken i rs'" if "taken i (rows (wld S)) \<or> 0 < copies i (b_trackers b)"
  proof -
    have "i \<in> pt_id ` set (rows (wld S))" if "0 < copies i (b_trackers b)"
      using inv hand that unfolding at_most_once_def by linarith
    then show ?thesis using that unfolding rs'_def by (intro taken_mark_status) (auto simp: copies_pos)
  qed
  have ids: "map pt_id rs' = map pt_id (rows (wld S))" by (simp add: rs'_def)
  consider "unchanged (wld S) w"
    | "changed (wld S) w rs' (undelivered (wld S))"
    | e where "to_redis_field_value_pairs cd b = Inr e" "changed (wld S) w rs' (undelivered (wld S) @ [(b_stream_name b, e)])"
    using update_status_and_append_effect [OF u] unfolding rs'_def by blast
  then show ?thesis
  proof cases
    case 1
    then have "in_stream cd ?S = in_stream cd S" by (intro in_stream_eq) (simp_all add: changed_def)
    with 1 hand inv show ?thesis
      by (intro at_most_once_mono [OF inv]) (auto simp: changed_def at_most_once_def)
  next
    case 2
    then have "in_stream cd ?S = in_stream cd S" by (intro in_stream_eq) (simp_all add: changed_def)
    with 2 hand inv ids taken' show ?thesis
      by (intro at_most_once_mono [OF inv]) (auto simp: changed_def at_most_once_def simp flip: set_map)
  next
    case 3
    from entry_trackers_appended [OF cd 3(1), of "dt_range (wld S)"]
    have "copies i (in_stream cd ?S) = copies i (in_stream cd S) \<or>
      copies i (in_stream cd ?S) = copies i (in_stream cd S) + copies i (b_trackers b)"
      using 3(2) by (auto simp: in_stream_def changed_def)
    with 3 hand inv ids taken' show ?thesis
      by (intro at_most_once_mono [OF inv]) (auto simp: changed_def at_most_once_def simp flip: set_map)
  qed
qed

lemma due_tasks_copies:
  assumes "distinct (map pt_id (rows s))" and ts: "ts = due_tasks conf s New @ due_tasks conf s Pending"
  shows "copies i ts \<le> 1" and "0 < copies i ts \<Longrightarrow> i \<in> pt_id ` set (rows s) \<and> \<not> taken i (rows s)"
proof -
  have "copies i (filter p rs) + copies i (filter q rs) \<le> copies i rs" if "\<And>r. p r \<Longrightarrow> \<not> q r" for p q rs
    using that by (induction rs) auto
  from this [of "\<lambda>r. between (pt_schedule_time r) (clock s - seconds (lower_fetch_limit (producer conf)))
                   (clock s + seconds (upper_fetch_limit (producer conf))) \<and> pt_status r = New \<and> pt_version r = API_VERSION"
     "\<lambda>r. between (pt_schedule_time r) (clock s - seconds (lower_fetch_limit (producer conf)))
                   (clock s + seconds (upper_fetch_limit (producer conf))) \<and> pt_status r = Pending \<and> pt_version r = API_VERSION"
     "rows s"]
  have "copies i (due_tasks conf s New) + copies i (due_tasks conf s Pending) \<le> copies i (rows s)"
    unfolding due_tasks_def by simp
  then show "copies i ts \<le> 1" using copies_distinct [OF assms(1), of i] ts by simp
  show "i \<in> pt_id ` set (rows s) \<and> \<not> taken i (rows s)" if "0 < copies i ts"
    using that unfolding ts copies_pos by (fastforce simp: due_tasks_def taken_def)
qed

lemma at_most_once_fetch:
  assumes ok: "lock_ok conf S" and inv: "at_most_once cd i S"
    and p: "p < length (producers S)" "producers S ! p = Fetching"
    and f: "fetch_producer_tasks conf (wld S) = (Inr tasks, w)" and bs: "producer_batches conf w tasks = Inr bs"
  shows "at_most_once cd i (S\<lparr>wld := w, producers := (producers S)[p := Sending bs]\<rparr>)" (is "at_most_once cd i ?S")
proof -
  from fetch_producer_tasks_effect [OF f] have un: "unchanged (wld S) w"
    and tasks: "tasks = due_tasks conf (wld S) New @ due_tasks conf (wld S) Pending" by blast+
  have stream: "in_stream cd ?S = in_stream cd S" using un by (intro in_stream_eq) (simp_all add: changed_def)
  have "copies i (in_hand ?S) = copies i (concat (map b_trackers bs))"
    using in_hand_update [OF p(1), where i = i and w = w and x = "Sending bs"] p(2) nothing_in_hand [OF ok p] by simp
  then have hand: "copies i (in_hand ?S) = copies i tasks"
    using copies_mset [OF producer_batches_tasks [OF bs]] by simp
  have d: "distinct (map pt_id (rows (wld S)))" using inv by (simp add: at_most_once_def)
  note c = due_tasks_copies [OF d tasks]
  show ?thesis
  proof (cases "0 < copies i tasks")
    case True
    with c(2) inv have "copies i (in_stream cd S) + copies i (running S) = 0" by (auto simp: at_most_once_def)
    with c un inv hand stream show ?thesis by (auto simp: at_most_once_def changed_def)
  next
    case False
    with un inv hand stream show ?thesis by (auto simp: at_most_once_def changed_def)
  qed
qed

lemma at_most_once_consume:
  assumes inv: "at_most_once cd i S"
    and f: "store_fetch_consumer_tasks cd n g (wld S) = (r, w)"
  shows "at_most_once cd i (S\<lparr>wld := w, running := running S @ (case r of Inr ts \<Rightarrow> ts | Inl _ \<Rightarrow> [])\<rparr>)" (is "at_most_once cd i ?S")
proof -
  have hand: "in_hand ?S = in_hand S" by (simp add: in_hand_def)
  consider "unchanged (wld S) w" "running ?S = running S"
    | e vs where "(n, e) \<in> set (undelivered (wld S))" "vs = valid_tasks (entry_trackers cd (dt_range (wld S)) e)"
        "changed (wld S) w (rows (wld S)) (remove1 (n, e) (undelivered (wld S)))" "running ?S = running S"
    | e vs where "(n, e) \<in> set (undelivered (wld S))" "vs = valid_tasks (entry_trackers cd (dt_range (wld S)) e)"
        "changed (wld S) w (mark (clock (wld S)) (StatusUpdate ProcessStarted None) (map pt_id vs) (rows (wld S)))
          (remove1 (n, e) (undelivered (wld S)))"
        "copies i (running ?S) \<le> copies i (running S) + copies i vs"
    using store_fetch_consumer_tasks_effect [OF f] by (cases r) (auto 0 3)
  then show ?thesis
  proof cases
    case 1
    then have "in_stream cd ?S = in_stream cd S" by (intro in_stream_eq) (simp_all add: changed_def)
    with 1 inv hand show ?thesis by (auto simp: at_most_once_def changed_def)
  next
    case (2 e vs)
    have "copies i (in_stream cd ?S) + copies i (entry_trackers cd (dt_range (wld S)) e) = copies i (in_stream cd S)"
      using copies_concat_remove1 [OF 2(1), of i "\<lambda>e. entry_trackers cd (dt_range (wld S)) (snd e)"] 2(3)
      by (simp add: in_stream_def changed_def)
    with 2 inv hand show ?thesis
      by (intro at_most_once_mono [OF inv]) (auto simp: at_most_once_def changed_def)
  next
    case (3 e vs)
    have "copies i (in_stream cd ?S) + copies i (entry_trackers cd (dt_range (wld S)) e) = copies i (in_stream cd S)"
      using copies_concat_remove1 [OF 3(1), of i "\<lambda>e. entry_trackers cd (dt_range (wld S)) (snd e)"] 3(3)
      by (simp add: in_stream_def changed_def)
    moreover have "copies i vs \<le> copies i (entry_trackers cd (dt_range (wld S)) e)"
      unfolding 3(2) by (rule copies_filter_le)
    moreover have "taken i (rows w)" if "taken i (rows (wld S))"
      using 3(3) taken_mark_status [of i "rows (wld S)"] that by (simp add: changed_def)
    moreover have "map pt_id (rows w) = map pt_id (rows (wld S))" using 3(3) by (simp add: changed_def)
    ultimately show ?thesis using 3(4) inv hand
      by (intro at_most_once_mono [OF inv]) (auto simp: at_most_once_def simp flip: set_map)
  qed
qed

lemma at_most_once_work:
  assumes inv: "at_most_once cd i S" and t: "t \<in> set (running S)" and u: "workflow_updates t (wld S) w"
  shows "at_most_once cd i (S\<lparr>wld := w, running := remove1 t (running S)\<rparr>)" (is "at_most_once cd i ?S")
proof -
  note fr = workflow_updates_frame [OF u]
  have stream: "in_stream cd ?S = in_stream cd S" using fr by (intro in_stream_eq) simp_all
  have hand: "in_hand ?S = in_hand S" by (simp add: in_hand_def)
  have run: "copies i (remove1 t (running S)) + (if pt_id t = i then 1 else 0) = copies i (running S)"
    using t by (rule copies_remove1)
  have ids: "map pt_id (rows w) = map pt_id (rows (wld S))" using fr by blast
  have "taken i (rows w)" if pos: "0 < copies i (in_stream cd ?S) + copies i (running ?S)"
  proof -
    have "pt_id t \<noteq> i" using inv pos run stream by (auto simp: at_most_once_def split: if_splits)
    then have "taken i (rows w) = taken i (rows (wld S))" using fr by (intro taken_frame) auto
    moreover have "0 < copies i (in_stream cd S) + copies i (running S)" using pos run stream by auto
    ultimately show ?thesis using inv by (auto simp: at_most_once_def)
  qed
  then show ?thesis using inv hand stream run ids
    by (intro at_most_once_mono [OF inv]) (auto simp: at_most_once_def simp flip: set_map)
qed

text \<open>A producer that changes its state with nothing in its hands, and a write to one row.\<close>

lemma at_most_once_switch:
  assumes inv: "at_most_once cd i S" and p: "p < length (producers S)" "producer_tasks (producers S ! p) = []"
    and x: "producer_tasks x = []"
    and w: "rows w = rows (wld S)" "undelivered w = undelivered (wld S)" "dt_range w = dt_range (wld S)"
  shows "at_most_once cd i (S\<lparr>wld := w, producers := (producers S)[p := x]\<rparr>)" (is "at_most_once cd i ?S")
proof -
  have "in_stream cd ?S = in_stream cd S" using w by (intro in_stream_eq) simp_all
  moreover have "copies i (in_hand ?S) = copies i (in_hand S)"
    using in_hand_update [OF p(1), where i = i and w = w and x = x] p(2) x by simp
  ultimately show ?thesis using inv w by (simp add: at_most_once_def)
qed

lemma at_most_once_write:
  assumes inv: "at_most_once cd i S" and w: "unchanged (wld S) w \<or> changed (wld S) w (mark now u [j] (rows (wld S))) (undelivered (wld S))"
    and taken: "taken i (rows (wld S)) \<Longrightarrow> taken i (mark now u [j] (rows (wld S)))"
  shows "at_most_once cd i (S\<lparr>wld := w\<rparr>)" (is "at_most_once cd i ?S")
proof -
  have "in_stream cd ?S = in_stream cd S" using w by (intro in_stream_eq) (auto simp: changed_def)
  moreover have "in_hand ?S = in_hand S" by (simp add: in_hand_def)
  moreover have "map pt_id (rows w) = map pt_id (rows (wld S))" using w by (auto simp: changed_def)
  moreover have "taken i (rows w)" if "taken i (rows (wld S))" using w taken [OF that] that by (auto simp: changed_def)
  ultimately show ?thesis using inv by (auto simp: at_most_once_def simp flip: set_map)
qed

lemma at_most_once_create:
  assumes inv: "at_most_once cd i S"
  shows "at_most_once cd i (S\<lparr>wld := snd (create_task new (wld S))\<rparr>)" (is "at_most_once cd i ?S")
proof -
  have hand: "in_hand ?S = in_hand S" by (simp add: in_hand_def)
  note e = create_task_effect [of "wld S" new]
  have stream: "in_stream cd ?S = in_stream cd S" using e by (intro in_stream_eq) (auto simp: changed_def)
  have "taken i (rows (wld ?S))" if "taken i (rows (wld S))" using that e by (auto simp: taken_def changed_def)
  then show ?thesis using inv hand stream e
    by (intro at_most_once_mono [OF inv]) (auto simp: at_most_once_def changed_def)
qed

lemma at_most_once_join:
  assumes inv: "at_most_once cd i S" and j: "consumer_group_create n g (wld S) = (r, w)"
  shows "at_most_once cd i (S\<lparr>wld := w\<rparr>)" (is "at_most_once cd i ?S")
proof -
  note e = consumer_group_create_effect [OF j]
  have "copies i (in_stream cd ?S) \<le> copies i (in_stream cd S)"
    using e copies_concat_filter [of i "\<lambda>e. entry_trackers cd (dt_range (wld S)) (snd e)" "\<lambda>e. fst e \<noteq> n" "undelivered (wld S)"]
    by (auto simp: in_stream_def)
  moreover have "in_hand ?S = in_hand S" by (simp add: in_hand_def)
  ultimately show ?thesis using inv e by (intro at_most_once_mono [OF inv]) (auto simp: at_most_once_def)
qed

lemma at_most_once_step:
  assumes step: "sched_step cd conf expiry R S S'" and cd: "codec_ok cd" and ok: "lock_ok conf S"
    and inv: "at_most_once cd i S" and i: "i \<notin> R"
  shows "at_most_once cd i S'"
  using step
proof cases
  case (create new)
  with at_most_once_create [OF inv] show ?thesis by simp
next
  case (acquire p r w)
  with acquire_pt_lock_effect [OF acquire(4)] show ?thesis
    by (auto intro!: at_most_once_switch [OF inv] simp: locks_changed_def split: if_splits)
next
  case (fetch p tasks w bs)
  with at_most_once_fetch [OF ok inv fetch(2-5)] show ?thesis by simp
next
  case (fetch_failed p e w)
  with fetch_producer_tasks_effect [OF fetch_failed(4)] show ?thesis
    by (auto intro!: at_most_once_switch [OF inv] simp: changed_def)
next
  case (fetch_panicked p tasks w e)
  with fetch_producer_tasks_effect [OF fetch_panicked(4)] show ?thesis
    by (auto intro!: at_most_once_switch [OF inv] simp: changed_def)
next
  case (send p b bs r w)
  with at_most_once_send [OF cd inv send(2-4)] show ?thesis by simp
next
  case (release p r w)
  with release_pt_lock_effect [OF release(4)] show ?thesis
    by (auto intro!: at_most_once_switch [OF inv] simp: locks_changed_def changed_def)
next
  case (join_group src r w)
  with at_most_once_join [OF inv join_group(2)] show ?thesis by simp
next
  case (consume src r w)
  with at_most_once_consume [OF inv consume(2)] show ?thesis by simp
next
  case (work t w)
  with at_most_once_work [OF inv work(2,3)] show ?thesis by simp
next
  case (finish b t)
  then show ?thesis using at_most_once_write [OF inv finish_process_effect taken_mark_status] by simp
next
  case (reset t time)
  then have "i \<notin> set [pt_id t]" using i by auto
  with reset show ?thesis using at_most_once_write [OF inv reset_process_effect] by (simp add: taken_mark_other)
next
  case (environment now rs os u)
  have "in_hand S' = in_hand S" "running S' = running S" "in_stream cd S' = in_stream cd S"
    by (simp_all add: environment(1) in_hand_def in_stream_def)
  moreover have "distinct (map pt_id rs) = distinct (map pt_id (rows (wld S)))"
    using environment(3) by (intro mset_eq_imp_distinct_iff) (metis mset_map)
  moreover have "set rs = set (rows (wld S))" using environment(3) by (rule mset_eq_setD)
  ultimately show ?thesis using inv taken_mset [OF environment(3)] by (simp add: at_most_once_def environment(1))
next
  case lock_expires
  then have "in_hand S' = in_hand S" "running S' = running S" "in_stream cd S' = in_stream cd S"
    by (simp_all add: in_hand_def in_stream_def)
  then show ?thesis using inv lock_expires by (simp add: at_most_once_def)
qed

lemma initial_ok: "initial S \<Longrightarrow> lock_ok conf S \<and> at_most_once cd i S"
proof -
  assume init: "initial S"
  then have "in_hand S = []" by (auto simp: initial_def in_hand_def)
  moreover have "\<forall>p < length (producers S). producers S ! p = Idle" using init by (simp add: initial_def)
  ultimately show ?thesis using init by (simp add: initial_def lock_ok_def at_most_once_def in_stream_def)
qed

lemma reachable_ok:
  assumes "sched_steps cd conf False R S S'" and "initial S" and "codec_ok cd" and "i \<notin> R"
  shows "lock_ok conf S' \<and> at_most_once cd i S'"
  using assms(1)
proof induction
  case base
  show ?case using initial_ok [OF assms(2)] .
next
  case (step S1 S2)
  then show ?case using lock_ok_step [OF step(2)] at_most_once_step [OF step(2) assms(3) _ _ assms(4)] by blast
qed

section \<open>Tasks that never run again\<close>

text \<open>
  Two reasons keep a task from running again: its row is taken and no copy of it is on the way, or
  its business status is not the pending one, on the row and on every copy on the way. Both are a
  condition \<open>Q\<close> on the table and a condition \<open>N\<close> on the copies with the laws below, and under these
  laws no step starts the task.
\<close>

definition blocked :: "string \<Rightarrow> (process_tracker list \<Rightarrow> bool) \<Rightarrow> (process_tracker \<Rightarrow> bool) \<Rightarrow> 'j redis_codec \<Rightarrow> 'j system \<Rightarrow> bool" where
  "blocked i Q N cd S \<longleftrightarrow> Q (rows (wld S)) \<and>
     (\<forall>t \<in> set (in_hand S) \<union> set (in_stream cd S). pt_id t = i \<longrightarrow> N t) \<and> i \<notin> pt_id ` set (running S)"

lemma in_hand_update_set:
  "set (in_hand (S\<lparr>wld := w, producers := (producers S)[p := x]\<rparr>)) \<subseteq> set (in_hand S) \<union> set (producer_tasks x)"
  unfolding in_hand_def using set_update_subset_insert [of "producers S" p x] by (auto dest!: subsetD)

locale blocked_task =
  fixes i :: string and Q :: "process_tracker list \<Rightarrow> bool" and N :: "process_tracker \<Rightarrow> bool" and R :: "string set"
  assumes has_row: "Q rs \<Longrightarrow> i \<in> pt_id ` set rs"
    and due: "Q rs \<Longrightarrow> r \<in> set rs \<Longrightarrow> pt_id r = i \<Longrightarrow> pt_status r \<in> {New, Pending} \<Longrightarrow> N r"
    and dropped: "N t \<Longrightarrow> \<not> is_valid_business_status t valid_business_statuses"
    and marked: "Q rs \<Longrightarrow> st \<in> {Processing, ProcessStarted} \<Longrightarrow> Q (mark now (StatusUpdate st None) ids rs)"
    and finished: "Q rs \<Longrightarrow> b \<noteq> PENDING \<Longrightarrow> Q (mark now (StatusUpdate Finish (Some b)) ids rs)"
    and resets: "Q rs \<Longrightarrow> j \<in> R \<Longrightarrow> Q (mark now (StatusRetryUpdate New 0 time) [j] rs)"
    and others: "Q rs \<Longrightarrow> j \<noteq> i \<Longrightarrow> filter (\<lambda>r. pt_id r \<noteq> j) rs' = filter (\<lambda>r. pt_id r \<noteq> j) rs \<Longrightarrow> Q rs'"
    and added: "Q rs \<Longrightarrow> pt_id new \<noteq> i \<Longrightarrow> Q (rs @ [new])"
    and reordered: "Q rs \<Longrightarrow> mset rs' = mset rs \<Longrightarrow> Q rs'"
begin

lemma blocked_rows:
  assumes b: "blocked i Q N cd S" and "Q (rows w)" "undelivered w = undelivered (wld S)" "dt_range w = dt_range (wld S)"
  shows "blocked i Q N cd (S\<lparr>wld := w\<rparr>)"
proof -
  have "in_stream cd (S\<lparr>wld := w\<rparr>) = in_stream cd S" using assms(3,4) by (intro in_stream_eq) simp_all
  then show ?thesis using b assms(2) by (simp add: blocked_def in_hand_def)
qed

lemma blocked_switch:
  assumes b: "blocked i Q N cd S" and "Q (rows w)" "undelivered w = undelivered (wld S)" "dt_range w = dt_range (wld S)"
    and x: "\<forall>t \<in> set (producer_tasks x). pt_id t = i \<longrightarrow> N t"
  shows "blocked i Q N cd (S\<lparr>wld := w, producers := (producers S)[p := x]\<rparr>)"
proof -
  have "in_stream cd (S\<lparr>wld := w, producers := (producers S)[p := x]\<rparr>) = in_stream cd S"
    using assms(3,4) by (intro in_stream_eq) simp_all
  then show ?thesis using b assms(2) x in_hand_update_set [where S = S and w = w and p = p and x = x] by (auto simp: blocked_def dest!: subsetD)
qed

lemma blocked_fetch:
  assumes b: "blocked i Q N cd S" and f: "fetch_producer_tasks conf (wld S) = (Inr tasks, w)"
    and bs: "producer_batches conf w tasks = Inr bs"
  shows "blocked i Q N cd (S\<lparr>wld := w, producers := (producers S)[p := Sending bs]\<rparr>)"
proof -
  from fetch_producer_tasks_effect [OF f] have un: "unchanged (wld S) w"
    and tasks: "tasks = due_tasks conf (wld S) New @ due_tasks conf (wld S) Pending" by blast+
  have Q: "Q (rows (wld S))" using b by (simp add: blocked_def)
  have "N t" if "t \<in> set tasks" "pt_id t = i" for t
    using that due [OF Q] unfolding tasks by (auto simp: due_tasks_def)
  moreover have "set (concat (map b_trackers bs)) = set tasks"
    using producer_batches_tasks [OF bs] by (rule mset_eq_setD)
  ultimately show ?thesis using un Q by (intro blocked_switch [OF b]) (auto simp: changed_def)
qed

lemma blocked_send:
  assumes b: "blocked i Q N cd S" and cd: "codec_ok cd"
    and p: "p < length (producers S)" "producers S ! p = Sending (x # xs)"
    and u: "update_status_and_append cd Producer x (wld S) = (r, w)"
  shows "blocked i Q N cd (S\<lparr>wld := w, producers := (producers S)[p := Sending xs]\<rparr>)" (is "blocked i Q N cd ?S")
proof -
  have Q: "Q (rows (wld S))" using b by (simp add: blocked_def)
  note e = update_status_and_append_effect [OF u]
  have "Q (rows w)" using e Q marked [OF Q, of Processing] by (auto simp: changed_def)
  moreover have "Sending (x # xs) \<in> set (producers S)" using p nth_mem by metis
  then have hand: "set (concat (map b_trackers (x # xs))) \<subseteq> set (in_hand S)" by (force simp: in_hand_def)
  have "dt_range w = dt_range (wld S)" using e by (auto simp: changed_def)
  moreover consider "undelivered w = undelivered (wld S)"
    | y where "to_redis_field_value_pairs cd x = Inr y" "undelivered w = undelivered (wld S) @ [(b_stream_name x, y)]"
    using e by (auto simp: changed_def)
  then have "set (in_stream cd ?S) \<subseteq> set (in_stream cd S) \<union> set (b_trackers x)"
  proof cases
    case 1
    with \<open>dt_range w = dt_range (wld S)\<close> show ?thesis by (simp add: in_stream_def)
  next
    case (2 y)
    with \<open>dt_range w = dt_range (wld S)\<close> show ?thesis
      using entry_trackers_appended [OF cd 2(1), of "dt_range (wld S)"] by (auto simp: in_stream_def)
  qed
  moreover have "set (in_hand ?S) \<subseteq> set (in_hand S)"
    using in_hand_update_set [where S = S and w = w and p = p and x = "Sending xs"] hand by auto
  moreover have "set (b_trackers x) \<subseteq> set (in_hand S)" using hand by simp
  moreover have "running ?S = running S" "wld ?S = w" by simp_all
  ultimately show ?thesis using b unfolding blocked_def by (auto dest!: subsetD)
qed

lemma blocked_consume:
  assumes b: "blocked i Q N cd S" and f: "store_fetch_consumer_tasks cd n g (wld S) = (r, w)"
  shows "blocked i Q N cd (S\<lparr>wld := w, running := running S @ (case r of Inr ts \<Rightarrow> ts | Inl _ \<Rightarrow> [])\<rparr>)" (is "blocked i Q N cd ?S")
proof -
  have Q: "Q (rows (wld S))" using b by (simp add: blocked_def)
  note e = store_fetch_consumer_tasks_effect [OF f]
  have "Q (rows w)" using e Q marked [OF Q, of ProcessStarted] by (auto simp: changed_def)
  moreover have hand: "in_hand ?S = in_hand S" by (simp add: in_hand_def)
  moreover have "dt_range w = dt_range (wld S)" "set (undelivered w) \<subseteq> set (undelivered (wld S))"
    using e by (auto simp: changed_def dest: subsetD [OF set_remove1_subset])
  then have "set (in_stream cd ?S) \<subseteq> set (in_stream cd S)" by (auto simp: in_stream_def)
  moreover have "i \<notin> pt_id ` set ts" if r: "r = Inr ts" for ts
  proof
    assume "i \<in> pt_id ` set ts"
    with e r obtain x t where "(n, x) \<in> set (undelivered (wld S))" "t \<in> set (valid_tasks (entry_trackers cd (dt_range (wld S)) x))"
      "pt_id t = i" by auto
    then have "t \<in> set (in_stream cd S)" "is_valid_business_status t valid_business_statuses"
      by (force simp: in_stream_def)+
    with b dropped \<open>pt_id t = i\<close> show False by (auto simp: blocked_def)
  qed
  ultimately show ?thesis using b by (cases r) (auto simp: blocked_def)
qed

lemma blocked_step:
  assumes step: "sched_step cd conf expiry R S S'" and cd: "codec_ok cd" and b: "blocked i Q N cd S"
  shows "blocked i Q N cd S'"
proof -
  have Q: "Q (rows (wld S))" using b by (simp add: blocked_def)
  show ?thesis using step
  proof cases
    case (create new)
    note e = create_task_effect [of "wld S" new]
    have "pt_id new \<noteq> i" if "pt_id new \<notin> pt_id ` set (rows (wld S))" using has_row [OF Q] that by blast
    then have "Q (rows (snd (create_task new (wld S))))" using e Q added [OF Q] unfolding changed_def by metis
    then show ?thesis unfolding create(1) by (rule blocked_rows [OF b]) (use e in \<open>auto simp: changed_def\<close>)
  next
    case (acquire p r w)
    with acquire_pt_lock_effect [OF acquire(4)] Q show ?thesis
      by (auto intro!: blocked_switch [OF b] simp: locks_changed_def split: if_splits)
  next
    case (fetch p tasks w bs)
    with blocked_fetch [OF b fetch(4,5)] show ?thesis by simp
  next
    case (fetch_failed p e w)
    with fetch_producer_tasks_effect [OF fetch_failed(4)] Q show ?thesis
      by (auto intro!: blocked_switch [OF b] simp: changed_def)
  next
    case (fetch_panicked p tasks w e)
    with fetch_producer_tasks_effect [OF fetch_panicked(4)] Q show ?thesis
      by (auto intro!: blocked_switch [OF b] simp: changed_def)
  next
    case (send p x xs r w)
    with blocked_send [OF b cd send(2-4)] show ?thesis by simp
  next
    case (release p r w)
    with release_pt_lock_effect [OF release(4)] Q show ?thesis
      by (auto intro!: blocked_switch [OF b] simp: locks_changed_def changed_def)
  next
    case (join_group src r w)
    have "set (in_stream cd S') \<subseteq> set (in_stream cd S)"
      using consumer_group_create_effect [OF join_group(2)] by (auto simp: in_stream_def join_group(1))
    with join_group consumer_group_create_effect [OF join_group(2)] b show ?thesis
      by (auto simp: blocked_def in_hand_def)
  next
    case (consume src r w)
    with blocked_consume [OF b consume(2)] show ?thesis by simp
  next
    case (work t w)
    note fr = workflow_updates_frame [OF work(3)]
    have "pt_id t \<noteq> i" using b work(2) by (auto simp: blocked_def)
    then have "Q (rows w)" using others [OF Q] fr by blast
    then have "blocked i Q N cd (S\<lparr>wld := w\<rparr>)" using fr by (intro blocked_rows [OF b]) simp_all
    then show ?thesis unfolding work(1) using set_remove1_subset [of t "running S"]
      by (auto simp: blocked_def in_hand_def in_stream_def)
  next
    case (finish bs t)
    with finish_process_effect [of "wld S" t bs] Q finished [OF Q finish(2)] show ?thesis
      by (auto intro!: blocked_rows [OF b] simp: changed_def)
  next
    case (reset t time)
    with reset_process_effect [of "wld S" t time] Q resets [OF Q reset(2)] show ?thesis
      by (auto intro!: blocked_rows [OF b] simp: changed_def)
  next
    case (environment now rs os u)
    with Q reordered [OF Q environment(3)] show ?thesis by (auto intro!: blocked_rows [OF b])
  next
    case lock_expires
    with Q show ?thesis by (auto intro!: blocked_rows [OF b])
  qed
qed

lemma blocked_steps:
  assumes "sched_steps cd conf expiry R S S'" "codec_ok cd" "blocked i Q N cd S"
  shows "blocked i Q N cd S'"
  using assms(1) by induction (use assms(2,3) blocked_step in blast)+

end

subsection \<open>The two reasons\<close>

definition shut :: "string \<Rightarrow> process_tracker list \<Rightarrow> bool" where
  "shut i rs \<longleftrightarrow> i \<in> pt_id ` set rs \<and> (\<forall>r \<in> set rs. pt_id r = i \<longrightarrow> pt_business_status r \<noteq> PENDING)"

lemma shut_mark:
  assumes "shut i rs" and "\<And>r. pt_business_status r \<noteq> PENDING \<Longrightarrow> pt_business_status (set_fields (update_internal_from now u) r) \<noteq> PENDING"
  shows "shut i (mark now u ids rs)"
  using assms unfolding shut_def mark_pt_ids by (fastforce simp: mark_def update_rows_def set_fields_id)

lemma shut_filter: "i \<noteq> j \<Longrightarrow> shut i (filter (\<lambda>r. pt_id r \<noteq> j) rs) = shut i rs"
  by (auto simp: shut_def)

interpretation stranded: blocked_task i "taken i" "\<lambda>_. False" "- {i}" for i
proof unfold_locales
  fix rs rs' and j and now time st ids b and new t r :: process_tracker
  assume t: "taken i rs"
  show "i \<in> pt_id ` set rs" using t by (simp add: taken_def)
  show "st \<in> {Processing, ProcessStarted} \<Longrightarrow> taken i (mark now (StatusUpdate st None) ids rs)"
    using t by (intro taken_mark_status) auto
  show "taken i (mark now (StatusUpdate Finish (Some b)) ids rs)" using t by (intro taken_mark_status) auto
  show "j \<in> - {i} \<Longrightarrow> taken i (mark now (StatusRetryUpdate New 0 time) [j] rs)"
    using t taken_mark_other [of i "[j]"] by auto
  show "j \<noteq> i \<Longrightarrow> filter (\<lambda>r. pt_id r \<noteq> j) rs' = filter (\<lambda>r. pt_id r \<noteq> j) rs \<Longrightarrow> taken i rs'"
    using t taken_frame [of j rs' rs i] by auto
  show "pt_id new \<noteq> i \<Longrightarrow> taken i (rs @ [new])" using t by (auto simp: taken_def)
  show "mset rs' = mset rs \<Longrightarrow> taken i rs'" using t taken_mset [of rs' rs i] by simp
  show "r \<in> set rs \<Longrightarrow> pt_id r = i \<Longrightarrow> pt_status r \<in> {New, Pending} \<Longrightarrow> False" using t by (auto simp: taken_def)
qed simp

interpretation closed: blocked_task i "shut i" "\<lambda>t. pt_business_status t \<noteq> PENDING" R for i R
proof unfold_locales
  fix rs rs' and j and now time st ids b and new t r :: process_tracker
  show "pt_business_status t \<noteq> PENDING \<Longrightarrow> \<not> is_valid_business_status t valid_business_statuses"
    by (simp add: is_valid_business_status_def valid_business_statuses_def)
  assume t: "shut i rs"
  show "i \<in> pt_id ` set rs" using t by (simp add: shut_def)
  show "shut i (mark now (StatusUpdate st None) ids rs)" using t by (rule shut_mark) (simp add: or_keep_def)
  show "b \<noteq> PENDING \<Longrightarrow> shut i (mark now (StatusUpdate Finish (Some b)) ids rs)"
    using t by (intro shut_mark) (simp_all add: or_keep_def)
  show "shut i (mark now (StatusRetryUpdate New 0 time) [j] rs)" using t by (rule shut_mark) simp
  show "j \<noteq> i \<Longrightarrow> filter (\<lambda>r. pt_id r \<noteq> j) rs' = filter (\<lambda>r. pt_id r \<noteq> j) rs \<Longrightarrow> shut i rs'"
    using t shut_filter [of i j rs] shut_filter [of i j rs'] by auto
  show "pt_id new \<noteq> i \<Longrightarrow> shut i (rs @ [new])" using t by (auto simp: shut_def)
  show "mset rs' = mset rs \<Longrightarrow> shut i rs'" using t unfolding shut_def by (metis mset_eq_setD)
  show "r \<in> set rs \<Longrightarrow> pt_id r = i \<Longrightarrow> pt_business_status r \<noteq> PENDING" using t by (auto simp: shut_def)
qed

lemma sched_step_resettable:
  assumes "sched_step cd conf expiry R S S'" and "R \<subseteq> R'"
  shows "sched_step cd conf expiry R' S S'"
  using assms(1) by cases (use assms(2) in \<open>auto intro: sched_step.intros split del: if_split\<close>)

lemma sched_steps_resettable:
  assumes "sched_steps cd conf expiry R S S'" and "R \<subseteq> R'"
  shows "sched_steps cd conf expiry R' S S'"
  using assms(1) by induction (auto intro: rtranclp.rtrancl_into_rtrancl sched_step_resettable [OF _ assms(2)])

section \<open>A producer run is a sequence of steps\<close>

lemma append_batches_append: "append_batches cd flow (xs @ ys) s = append_batches cd flow ys (append_batches cd flow xs s)"
  by (induction xs arbitrary: s) simp_all

lemma append_batches_clock:
  "clock (append_batches cd Producer bs s) = clock s \<and> uuid (append_batches cd Producer bs s) = uuid s"
proof (induction bs arbitrary: s)
  case (Cons b bs)
  have "clock (snd (update_status_and_append cd Producer b s)) = clock s \<and>
    uuid (snd (update_status_and_append cd Producer b s)) = uuid s"
    using update_status_and_append_effect [where cd = cd and b = b and s = s, OF surjective_pairing] by (auto simp: changed_def)
  with Cons.IH show ?case by simp
qed simp

lemma send_steps:
  assumes "p < length (producers S)" "producers S ! p = Sending bs"
  shows "sched_steps cd conf expiry R S
    (S\<lparr>wld := append_batches cd Producer bs (wld S), producers := (producers S)[p := Sending []]\<rparr>)"
  using assms
proof (induction bs arbitrary: S)
  case Nil
  then have "S\<lparr>wld := wld S, producers := (producers S)[p := Sending []]\<rparr> = S"
    by (metis list_update_id system.surjective system.update_convs(1) system.update_convs(2))
  then show ?case by simp
next
  case (Cons b bs)
  define S1 where "S1 = S\<lparr>wld := snd (update_status_and_append cd Producer b (wld S)), producers := (producers S)[p := Sending bs]\<rparr>"
  have "sched_step cd conf expiry R S S1"
    unfolding S1_def by (rule sched_step.send [OF Cons.prems surjective_pairing])
  moreover have "p < length (producers S1)" "producers S1 ! p = Sending bs" using Cons.prems by (simp_all add: S1_def)
  from Cons.IH [OF this] have "sched_steps cd conf expiry R S1
    (S1\<lparr>wld := append_batches cd Producer bs (wld S1), producers := (producers S1)[p := Sending []]\<rparr>)" .
  ultimately show ?case by (simp add: S1_def converse_rtranclp_into_rtranclp)
qed

lemma divide_cong: "clock s = clock s' \<Longrightarrow> uuid s = uuid s' \<Longrightarrow> divide s ts conf src = divide s' ts conf src"
  by (simp add: divide_def)

lemma producer_callback_batches:
  assumes f: "fetch_producer_tasks conf s = (Inr tasks, s1)" and c: "producer_callback cd conf s = (r, s')" and "r \<noteq> Inl Panic"
  shows "\<exists>bs. producer_batches conf s1 tasks = Inr bs \<and> s' = append_batches cd Producer bs s1"
proof -
  define p where "p = (\<lambda>t :: process_tracker. pt_application_source t = Some Cug)"
  have panic: "divide w ts conf src = Inl e \<Longrightarrow> e = Panic" for w ts src e
    by (auto simp: divide_def divide_into_batches_def Let_def split: if_splits)
  have c: "bind_st (divide_and_append_tasks cd Producer (filter (Not \<circ> p) tasks) conf Main_app s1) (\<lambda>_ s.
       bind_st (divide_and_append_tasks cd Producer (filter p tasks) conf Cug s) (\<lambda>_ s. (Inr (), s))) = (r, s')"
    using c f by (simp add: producer_callback_def p_def comp_def)
  then obtain ms where ms: "divide s1 (filter (Not \<circ> p) tasks) conf Main_app = Inr ms"
    using panic [of s1 "filter (Not \<circ> p) tasks" Main_app] assms(3)
    by (cases "divide s1 (filter (Not \<circ> p) tasks) conf Main_app") (auto simp: divide_and_append_tasks_def)
  define s2 where "s2 = append_batches cd Producer ms s1"
  have d: "divide s2 (filter p tasks) conf Cug = divide s1 (filter p tasks) conf Cug"
    using append_batches_clock [of cd ms s1] by (intro divide_cong) (simp_all add: s2_def)
  obtain cs where cs: "divide s1 (filter p tasks) conf Cug = Inr cs"
    using c ms panic [of s1 "filter p tasks" Cug] assms(3) d
    by (cases "divide s1 (filter p tasks) conf Cug") (auto simp: divide_and_append_tasks_def s2_def)
  have "s' = append_batches cd Producer cs s2" using c ms cs d by (simp add: divide_and_append_tasks_def s2_def)
  moreover have "producer_batches conf s1 tasks = Inr (ms @ cs)"
    using ms cs by (simp add: producer_batches_def p_def [symmetric] comp_def)
  ultimately show ?thesis by (simp add: append_batches_append s2_def)
qed

lemma producer_callback_failed:
  "fetch_producer_tasks conf s = (Inl e, s1) \<Longrightarrow> producer_callback cd conf s = (Inl e, s1)"
  by (simp add: producer_callback_def)

lemma callback_steps:
  assumes p: "p < length (producers S)" "producers S ! p = Fetching"
    and c: "producer_callback cd conf (wld S) = (r, w)" and r: "r \<noteq> Inl Panic"
  shows "sched_steps cd conf expiry R S (S\<lparr>wld := w, producers := (producers S)[p := Sending []]\<rparr>)"
proof (cases "fetch_producer_tasks conf (wld S)")
  case f: (Pair q w1)
  show ?thesis
  proof (cases q)
    case (Inl e)
    then have "w = w1" using producer_callback_failed f c by (metis prod.inject)
    then show ?thesis using sched_step.fetch_failed [OF p f [unfolded Inl]] by blast
  next
    case (Inr tasks)
    from producer_callback_batches [OF f [unfolded Inr] c r] obtain bs
      where bs: "producer_batches conf w1 tasks = Inr bs" and w: "w = append_batches cd Producer bs w1" by blast
    define S1 where "S1 = S\<lparr>wld := w1, producers := (producers S)[p := Sending bs]\<rparr>"
    have "sched_step cd conf expiry R S S1"
      unfolding S1_def by (rule sched_step.fetch [OF p f [unfolded Inr] bs])
    moreover have "p < length (producers S1)" "producers S1 ! p = Sending bs" using p by (simp_all add: S1_def)
    from send_steps [OF this] have "sched_steps cd conf expiry R S1
      (S1\<lparr>wld := append_batches cd Producer bs (wld S1), producers := (producers S1)[p := Sending []]\<rparr>)" .
    ultimately show ?thesis by (simp add: S1_def w converse_rtranclp_into_rtranclp)
  qed
qed

lemma idle_again:
  assumes "p < length (producers S)" "producers S ! p = Idle"
  shows "S\<lparr>wld := w, producers := (producers S)[p := Idle]\<rparr> = S\<lparr>wld := w\<rparr>"
  using assms by (cases S) (simp, metis list_update_id)

lemma run_producer_flow_steps:
  assumes p: "p < length (producers S)" "producers S ! p = Idle"
    and run: "run_producer_flow cd conf (wld S) = (r, w)" and r: "r \<noteq> Inl Panic"
  shows "sched_steps cd conf expiry R S (S\<lparr>wld := w\<rparr>)"
proof -
  obtain q w1 where a: "acquire_pt_lock (lock_key (producer conf)) (wld S) = (q, w1)" by fastforce
  note acq = sched_step.acquire [OF p a, of cd expiry R]
  show ?thesis
  proof (cases "q = Inr True")
    case False
    then have "w = w1" using run a by (cases q) (auto simp: run_producer_flow_def lock_acquire_release_def)
    with acq False idle_again [OF p] show ?thesis by simp
  next
    case True
    define S1 where "S1 = S\<lparr>wld := w1, producers := (producers S)[p := Fetching]\<rparr>"
    have 1: "sched_step cd conf expiry R S S1" using acq True by (simp add: S1_def)
    obtain c w2 where cb: "producer_callback cd conf w1 = (c, w2)" by fastforce
    have nopanic: "c \<noteq> Inl Panic"
      using run a True cb r by (auto simp: run_producer_flow_def lock_acquire_release_def)
    obtain l w3 where rl: "release_pt_lock (lock_key (producer conf)) w2 = (l, w3)" by fastforce
    have "w = w3"
      using run a True cb rl nopanic
      by (cases c; cases l) (auto simp: run_producer_flow_def lock_acquire_release_def split: process_tracker_error.splits)
    have p1: "p < length (producers S1)" "producers S1 ! p = Fetching" using p by (simp_all add: S1_def)
    define S2 where "S2 = S1\<lparr>wld := w2, producers := (producers S1)[p := Sending []]\<rparr>"
    have 2: "sched_steps cd conf expiry R S1 S2"
      unfolding S2_def by (rule callback_steps [OF p1 _ nopanic]) (simp add: S1_def cb)
    have p2: "p < length (producers S2)" "producers S2 ! p = Sending []" using p1 by (simp_all add: S2_def)
    have "release_pt_lock (lock_key (producer conf)) (wld S2) = (l, w3)" using rl by (simp add: S2_def)
    from sched_step.release [OF p2 this, of cd expiry R]
    have "sched_step cd conf expiry R S2 (S\<lparr>wld := w\<rparr>)"
      using idle_again [OF p, of w] \<open>w = w3\<close> by (simp add: S1_def S2_def)
    with 1 2 show ?thesis by (meson converse_rtranclp_into_rtranclp rtranclp.rtrancl_into_rtrancl)
  qed
qed

lemma update_status_and_append_refused:
  assumes os: "outcomes s = Answered # Answered # Refused # os" and e: "to_redis_field_value_pairs cd b = Inr e"
  shows "fst (update_status_and_append cd Producer b s) = Inl BatchInsertionFailed"
    and "changed s (snd (update_status_and_append cd Producer b s))
      (set_processing (clock s) (map pt_id (b_trackers b)) (rows s)) (undelivered s)"
proof -
  define ids where "ids = map pt_id (b_trackers b)"
  define s1 where "s1 = s\<lparr>outcomes := Answered # Refused # os, rows := set_processing (clock s) ids (rows s)\<rparr>"
  have u: "process_tracker_update_process_status_by_ids ids (StatusUpdate Processing None) s =
    (Inr (length (filter (\<lambda>r. pt_id r \<in> set ids) (rows s))), s1)"
    using os by (simp add: process_tracker_update_process_status_by_ids_def q_update_process_status_by_ids_def
      call_service_def Let_def s1_def mark_def)
  have a: "stream_append_entry (b_stream_name b) e s1 = (Inl RedisCommandFailed, s1\<lparr>outcomes := os\<rparr>)"
    by (simp add: stream_append_entry_def get_redis_conn_def call_service_def s1_def)
  obtain r w where v: "process_tracker_update_process_status_by_ids ids (StatusUpdate Processing None) (s1\<lparr>outcomes := os\<rparr>) = (r, w)"
    by fastforce
  have "update_status_and_append cd Producer b s = (Inl BatchInsertionFailed, w)"
    using u a v e by (simp add: update_status_and_append_def ids_def)
  then show "fst (update_status_and_append cd Producer b s) = Inl BatchInsertionFailed"
    and "changed s (snd (update_status_and_append cd Producer b s)) (set_processing (clock s) (map pt_id (b_trackers b)) (rows s)) (undelivered s)"
    using update_by_ids_effect [OF v] by (auto simp: changed_def s1_def ids_def)
qed

section \<open>Properties\<close>

text \<open>A system of one producer for the witnesses, and a run of it up to its first batch.\<close>

definition sample_system :: "process_tracker list \<Rightarrow> process_tracker list system" where
  "sample_system rs = \<lparr>wld = sample_world rs, producers = [Idle], running = []\<rparr>"

lemma initial_sample: "initial (sample_system [sample_task ''t1''])"
  by (simp add: initial_def sample_system_def sample_world_def)

lemma sample_limits:
  "checked_add (dt_range (sample_world rs)) (clock (sample_world rs)) (seconds (upper_fetch_limit (producer (scheduler_settings_default 4)))) \<noteq> None"
  "checked_add (dt_range (sample_world rs)) (clock (sample_world rs)) (- seconds (lower_fetch_limit (producer (scheduler_settings_default 4)))) \<noteq> None"
  by (simp_all add: sample_world_def scheduler_settings_default_def producer_settings_default_def checked_add_def seconds_def)

lemma sample_due:
  "due_tasks (scheduler_settings_default 4) (sample_world [sample_task ''t1'']) New = [sample_task ''t1'']"
  "due_tasks (scheduler_settings_default 4) (sample_world [sample_task ''t1'']) Pending = []"
  by (simp_all add: due_tasks_def sample_world_def sample_task_def scheduler_settings_default_def
      producer_settings_default_def between_def seconds_def API_VERSION_def)

definition sample_batch :: process_tracker_batch where
  "sample_batch = \<lparr>b_id = ''batch'', b_group_name = ''SCHEDULER_GROUP'', b_stream_name = ''SCHEDULER_STREAM'',
     b_connection_name = [], b_created_time = 60500000000, b_rule = [], b_trackers = [sample_task ''t1'']\<rparr>"

definition sample_sending :: "call_outcome list \<Rightarrow> process_tracker list system" where
  "sample_sending os = \<lparr>wld = (sample_world [sample_task ''t1''])\<lparr>lock_keys := {''PRODUCER_LOCKING_KEY''}, outcomes := os\<rparr>,
     producers = [Sending [sample_batch]], running = []\<rparr>"

lemma sample_sending_reached:
  "sched_steps plain_codec (scheduler_settings_default 4) False {} (sample_system [sample_task ''t1'']) (sample_sending os)"
proof -
  let ?c = "scheduler_settings_default 4" and ?w = "sample_world [sample_task ''t1'']"
  let ?w1 = "?w\<lparr>lock_keys := {''PRODUCER_LOCKING_KEY''}\<rparr>"
  let ?S1 = "\<lparr>wld = ?w1, producers = [Fetching], running = []\<rparr>"
  have key: "lock_key (producer ?c) = ''PRODUCER_LOCKING_KEY''"
    by (simp add: scheduler_settings_default_def producer_settings_default_def)
  have w: "outcomes ?w = []" "lock_keys ?w = {}" by (simp_all add: sample_world_def)
  have "acquire_pt_lock (lock_key (producer ?c)) (wld (sample_system [sample_task ''t1''])) = (Inr True, ?w1)"
    using acquire_pt_lock_answered [OF w(1)] w(2) by (simp add: key sample_system_def)
  from sched_step.acquire [OF _ _ this, of 0 plain_codec False "{}"]
  have 1: "sched_step plain_codec ?c False {} (sample_system [sample_task ''t1'']) ?S1" by (simp add: sample_system_def)
  have f: "fetch_producer_tasks ?c ?w1 = (Inr [sample_task ''t1''], ?w1)"
    using fetch_producer_tasks_answered [of ?w1 ?c] sample_limits [of "[sample_task ''t1'']"] w(1) by (simp add: sample_due)
  have b: "producer_batches ?c ?w1 [sample_task ''t1''] = Inr [sample_batch]"
    by (simp add: producer_batches_def divide_def divide_into_batches_def sample_batch_def sample_world_def
        scheduler_settings_default_def producer_settings_default_def consumer_settings_default_def sample_task_def)
  have "sched_step plain_codec ?c False {} ?S1 (?S1\<lparr>wld := ?w1, producers := (producers ?S1)[0 := Sending [sample_batch]]\<rparr>)"
    by (rule sched_step.fetch [OF _ _ _ b]) (simp_all add: f)
  moreover have "sched_step plain_codec ?c False {} (?S1\<lparr>wld := ?w1, producers := (producers ?S1)[0 := Sending [sample_batch]]\<rparr>)
    (sample_sending os)"
    using sched_step.environment [where S = "?S1\<lparr>wld := ?w1, producers := (producers ?S1)[0 := Sending [sample_batch]]\<rparr>"
      and now = "clock ?w1" and rs = "rows ?w1" and os = os and u = "uuid ?w1" and cd = plain_codec and conf = ?c
      and expiry = False and resettable = "{}"]
    by (simp add: sample_sending_def sample_world_def)
  ultimately show ?thesis using 1 by (meson converse_rtranclp_into_rtranclp r_into_rtranclp)
qed





text \<open>
  A batch that cannot be appended is lost. When the table has been updated and Redis then refuses
  the entry, the producer reports the failure, but it writes the status that the tasks already have;
  so they stay out of the streams, no producer picks them up again, and unless the application resets
  them they are never run, however long the scheduler goes on.
\<close>

theorem failed_append_strands_task:
  assumes run: "sched_steps cd conf False resettable S0 S" and init: "initial S0" and cd: "codec_ok cd"
    and i: "i \<notin> resettable" and p: "p < length (producers S)" "producers S ! p = Sending (b # bs)"
    and b: "i \<in> pt_id ` set (b_trackers b)" and e: "to_redis_field_value_pairs cd b = Inr e"
    and os: "outcomes (wld S) = Answered # Answered # Refused # os"
    and S1: "S1 = S\<lparr>wld := snd (update_status_and_append cd Producer b (wld S)), producers := (producers S)[p := Sending bs]\<rparr>"
    and later: "sched_steps cd conf expiry resettable S1 S'"
  shows "fst (update_status_and_append cd Producer b (wld S)) = Inl BatchInsertionFailed \<and>
    sched_step cd conf False resettable S S1 \<and> i \<notin> pt_id ` set (running S') \<and> taken i (rows (wld S'))"
proof -
  have inv: "at_most_once cd i S" using reachable_ok [OF run init cd i] by blast
  have step: "sched_step cd conf False resettable S S1"
    unfolding S1 by (rule sched_step.send [OF p surjective_pairing])
  have r: "fst (update_status_and_append cd Producer b (wld S)) = Inl BatchInsertionFailed"
    and und: "undelivered (wld S1) = undelivered (wld S)" "dt_range (wld S1) = dt_range (wld S)"
    and rs: "rows (wld S1) = set_processing (clock (wld S)) (map pt_id (b_trackers b)) (rows (wld S))"
    using update_status_and_append_refused [OF os e] by (simp_all add: S1 changed_def)
  have hand: "copies i (in_hand S1) + copies i (b_trackers b) = copies i (in_hand S)"
    using in_hand_update [OF p(1), where i = i and x = "Sending bs"] p(2) by (simp add: S1)
  have "0 < copies i (b_trackers b)" using b by (simp add: copies_pos)
  with inv hand have zero: "copies i (in_hand S1) = 0" "copies i (in_stream cd S) = 0" "copies i (running S) = 0"
    and row: "i \<in> pt_id ` set (rows (wld S))" by (auto simp: at_most_once_def)
  have "in_stream cd S1 = in_stream cd S" using und by (rule in_stream_eq)
  moreover have "taken i (rows (wld S1))" unfolding rs using b row by (intro taken_mark_status) auto
  ultimately have "blocked i (taken i) (\<lambda>_. False) cd S1"
    using zero by (auto simp: blocked_def copies_zero S1)
  moreover have "sched_steps cd conf expiry (- {i}) S1 S'" by (rule sched_steps_resettable [OF later]) (use i in auto)
  ultimately have "blocked i (taken i) (\<lambda>_. False) cd S'" using stranded.blocked_steps cd by blast
  with r step show ?thesis by (auto simp: blocked_def)
qed

theorem failed_append_strands_task_witness:
  "\<exists>S S1 e. S = sample_sending [Answered, Answered, Refused] \<and>
     S1 = S\<lparr>wld := snd (update_status_and_append plain_codec Producer sample_batch (wld S)), producers := (producers S)[0 := Sending []]\<rparr> \<and>
     to_redis_field_value_pairs plain_codec sample_batch = Inr e \<and>
     fst (update_status_and_append plain_codec Producer sample_batch (wld S)) = Inl BatchInsertionFailed \<and>
     sched_step plain_codec (scheduler_settings_default 4) False {} S S1 \<and> ''t1'' \<notin> pt_id ` set (running S1) \<and> taken ''t1'' (rows (wld S1))"
proof -
  let ?S = "sample_sending [Answered, Answered, Refused]"
  let ?S1 = "?S\<lparr>wld := snd (update_status_and_append plain_codec Producer sample_batch (wld ?S)), producers := (producers ?S)[0 := Sending []]\<rparr>"
  obtain e where e: "to_redis_field_value_pairs plain_codec sample_batch = Inr e"
    by (simp add: to_redis_field_value_pairs_def plain_codec_def)
  have "fst (update_status_and_append plain_codec Producer sample_batch (wld ?S)) = Inl BatchInsertionFailed \<and>
    sched_step plain_codec (scheduler_settings_default 4) False {} ?S ?S1 \<and>
    ''t1'' \<notin> pt_id ` set (running ?S1) \<and> taken ''t1'' (rows (wld ?S1))"
    by (rule failed_append_strands_task [OF sample_sending_reached initial_sample plain_codec_ok(1) _ _ _ _ e _ refl rtranclp.rtrancl_refl])
      (simp_all add: sample_sending_def sample_batch_def sample_task_def)
  with e show ?thesis by blast
qed

text \<open>
  A whole run of the producer is a sequence of steps of the system, taken by one producer that is
  idle before and after it: what holds after every sequence of steps holds after it, whatever the other
  parties do between two runs. The exception is a run that panics, which only a batch size of zero
  brings about.
\<close>

theorem producer_run_refines_steps:
  assumes "p < length (producers S)" and "producers S ! p = Idle"
    and "run_producer_flow cd conf (wld S) = (r, w)" and "r \<noteq> Inl Panic"
  shows "sched_steps cd conf expiry resettable S (S\<lparr>wld := w\<rparr>)"
  by (rule run_producer_flow_steps [OF assms])

theorem producer_run_refines_steps_witness:
  "sched_steps plain_codec (scheduler_settings_default 4) False {} (sample_system [sample_task ''t1''])
     ((sample_system [sample_task ''t1''])\<lparr>wld :=
        snd (run_producer_flow plain_codec (scheduler_settings_default 4) (sample_world [sample_task ''t1'']))\<rparr>)"
proof -
  let ?c = "scheduler_settings_default 4" and ?w = "sample_world [sample_task ''t1'']"
  have "fst (run_producer_flow plain_codec ?c ?w) = Inr ()"
    using run_producer_flow_answered [OF plain_codec_ok(2) [THEN spec] _ sample_limits _ _ refl]
    by (auto simp: sample_world_def scheduler_settings_default_def producer_settings_default_def)
  then have run: "run_producer_flow plain_codec ?c (wld (sample_system [sample_task ''t1''])) =
    (Inr (), snd (run_producer_flow plain_codec ?c ?w))"
    by (simp add: sample_system_def prod_eq_iff)
  show ?thesis by (rule producer_run_refines_steps [OF _ _ run, of 0]) (simp_all add: sample_system_def)
qed

end
