(* ===== verification/Sync_Retry.thy ===== *)
theory Sync_Retry
  imports Scheduler
begin

text \<open>
  What the workflows of the router do with a task that is not done yet: they look up the delay of the
  next retry and schedule it, or they give the task up when the mapping has no further delay
  (\<open>router/src/workflows/\<close>, \<open>router/src/core/refunds.rs\<close>, \<open>router/src/core/payment_methods/vault.rs\<close>,
  \<open>router/src/core/payments.rs\<close>). The mapping, which comes from the configuration service, is an
  argument, and so is the outcome of parsing the name of the connector.
\<close>

section \<open>Scheduling the next try\<close>

abbreviation e_storage :: "(storage_error, 'r, 's) st_result \<Rightarrow> (process_tracker_error, 'r, 's) st_result" where
  "e_storage \<equiv> on_err EStorageError"

text \<open>The match on the schedule time that the workflows share.\<close>

definition retry_or_give_up :: "datetime option \<Rightarrow> process_tracker \<Rightarrow> 'j world \<Rightarrow> (process_tracker_error, bool, 'j world) st_result" where
  "retry_or_give_up schedule_time pt s =
     (case schedule_time of
        Some s_time \<Rightarrow> bind_st (e_storage (retry_process pt s_time s)) (\<lambda>_ s. (Inr False, s))
      | None \<Rightarrow> bind_st (e_storage (finish_process_with_business_status pt RETRIES_EXCEEDED s)) (\<lambda>_ s. (Inr True, s)))"

definition get_sync_process_schedule_time :: "connector_pt_mapping \<Rightarrow> i32 \<Rightarrow> 'j world \<Rightarrow> datetime option" where
  "get_sync_process_schedule_time mapping retry_count s =
     get_time_from_delta (dt_range s) (clock s) (get_schedule_time mapping retry_count)"

definition retry_sync_task :: "'c option \<Rightarrow> connector_pt_mapping \<Rightarrow> process_tracker \<Rightarrow> 'j world \<Rightarrow> (process_tracker_error, bool, 'j world) st_result" where
  "retry_sync_task connector mapping pt s =
     try_st s (ok_or connector UnexpectedFlow) (\<lambda>_.
       retry_or_give_up (get_sync_process_schedule_time mapping (pt_retry_count pt + 1) s) pt s)"

definition retry_dispute_sync_task :: "'c option \<Rightarrow> connector_pt_mapping \<Rightarrow> process_tracker \<Rightarrow> 'j world \<Rightarrow> (process_tracker_error, bool, 'j world) st_result" where
  "retry_dispute_sync_task connector mapping pt s =
     try_st s (ok_or connector UnexpectedFlow) (\<lambda>_.
       retry_or_give_up (get_sync_process_schedule_time mapping (pt_retry_count pt + 1) s) pt s)"

definition retry_dispute_list_task :: "'c option \<Rightarrow> connector_pt_mapping \<Rightarrow> process_tracker \<Rightarrow> 'j world \<Rightarrow> (process_tracker_error, bool, 'j world) st_result" where
  "retry_dispute_list_task connector mapping pt s =
     try_st s (ok_or connector UnexpectedFlow) (\<lambda>_.
       retry_or_give_up (get_sync_process_schedule_time mapping (pt_retry_count pt + 1) s) pt s)"

definition retry_refund_sync_task :: "'c option \<Rightarrow> connector_pt_mapping \<Rightarrow> process_tracker \<Rightarrow> 'j world \<Rightarrow> (process_tracker_error, bool, 'j world) st_result" where
  "retry_refund_sync_task connector mapping pt s =
     try_st s (ok_or connector UnexpectedFlow) (\<lambda>_.
       retry_or_give_up (get_sync_process_schedule_time mapping (pt_retry_count pt + 1) s) pt s)"

definition retry_post_capture_void_sync_task :: "connector_pt_mapping \<Rightarrow> process_tracker \<Rightarrow> 'j world \<Rightarrow> (process_tracker_error, bool, 'j world) st_result" where
  "retry_post_capture_void_sync_task mapping pt s =
     retry_or_give_up (get_sync_process_schedule_time mapping (pt_retry_count pt + 1) s) pt s"

definition retry_delete_tokenize :: "payment_methods_pt_mapping \<Rightarrow> payment_method \<Rightarrow> process_tracker \<Rightarrow> 'j world \<Rightarrow> (process_tracker_error, unit, 'j world) st_result" where
  "retry_delete_tokenize mapping pm pt s =
     (case get_time_from_delta (dt_range s) (clock s) (get_pm_schedule_time mapping pm (pt_retry_count pt + 1)) of
        Some s_time \<Rightarrow> e_storage (retry_process pt s_time s)
      | None \<Rightarrow> e_storage (finish_process_with_business_status pt RETRIES_EXCEEDED s))"

text \<open>The mapping is the one of the recipient, a merchant or a connector.\<close>

definition retry_webhook_delivery_task :: "outgoing_webhook_retry_mapping \<Rightarrow> process_tracker \<Rightarrow> 'j world \<Rightarrow> (storage_error, unit, 'j world) st_result" where
  "retry_webhook_delivery_task mapping process s =
     (case get_time_from_delta (dt_range s) (clock s)
             (get_outgoing_webhook_retry_schedule_time mapping (pt_retry_count process + 1)) of
        Some schedule_time \<Rightarrow> retry_process process schedule_time s
      | None \<Rightarrow> finish_process_with_business_status process RETRIES_EXCEEDED s)"

definition reset_process_sync_task :: "string \<Rightarrow> string \<Rightarrow> process_tracker_runner \<Rightarrow> string \<Rightarrow> datetime \<Rightarrow> 'j world \<Rightarrow> (process_tracker_error, unit, 'j world) st_result" where
  "reset_process_sync_task attempt_id merchant_id runner task schedule_time s =
     (let process_tracker_id = get_process_tracker_id runner task attempt_id merchant_id in
      bind_st (e_storage (find_process_by_id process_tracker_id s)) (\<lambda>found s.
      try_st s (ok_or found ProcessFetchingFailed) (\<lambda>psync_process.
      bind_st (e_storage (reset_process psync_process schedule_time s)) (\<lambda>_ s. (Inr (), s)))))"

section \<open>One round\<close>

lemma update_process_answered:
  assumes "outcomes s = []" "find (\<lambda>r. pt_id r = pt_id t) (rows s) = Some r"
    "\<not> no_fields (update_internal_from (clock s) u)"
  shows "update_process t u s = (Inr (set_fields (update_internal_from (clock s) u) r),
    s\<lparr>rows := mark (clock s) u [pt_id t] (rows s)\<rparr>)"
  using assms by (simp add: update_process_def q_update_def generic_update_by_id_def call_service_answered mark_single)

lemma retry_sync_task_answered:
  assumes "outcomes s = []" "find (\<lambda>r. pt_id r = pt_id t) (rows s) = Some r"
  shows "retry_sync_task (Some c) m t s =
    (case get_sync_process_schedule_time m (pt_retry_count t + 1) s of
       Some time \<Rightarrow> (Inr False, s\<lparr>rows := mark (clock s) (StatusRetryUpdate Pending (pt_retry_count t + 1) time) [pt_id t] (rows s)\<rparr>)
     | None \<Rightarrow> (Inr True, s\<lparr>rows := mark (clock s) (StatusUpdate Finish (Some RETRIES_EXCEEDED)) [pt_id t] (rows s)\<rparr>))"
  using assms
  by (simp add: retry_sync_task_def retry_or_give_up_def retry_process_def finish_process_with_business_status_def
      update_process_answered split: option.splits)

lemma find_marked:
  assumes "find (\<lambda>r. pt_id r = i) rs = Some r"
  shows "find (\<lambda>r. pt_id r = i) (mark now u [i] rs) = Some (set_fields (update_internal_from now u) r)"
proof -
  have "pt_id r = i" using assms by (simp add: find_Some_iff) blast
  then show ?thesis unfolding mark_def sf.find_updated assms by simp
qed

text \<open>
  The life of a task whose resource never becomes final: in each round the task is run with the row
  the table has for it, and its workflow asks for another try.
\<close>

fun retry_rounds :: "connector_pt_mapping \<Rightarrow> string \<Rightarrow> nat \<Rightarrow> 'j world \<Rightarrow> 'j world" where
  "retry_rounds m i 0 s = s"
| "retry_rounds m i (Suc k) s =
     (let s = retry_rounds m i k s in
      case find (\<lambda>r. pt_id r = i) (rows s) of
        None \<Rightarrow> s
      | Some r \<Rightarrow> snd (retry_sync_task (Some ()) m r s))"

lemma sint_of_nat_i32: "k < 2 ^ 31 \<Longrightarrow> sint (of_nat k :: i32) = int k"
  by (simp add: signed_of_nat signed_take_bit_int_eq_self)

lemma schedule_of_round:
  assumes ok: "counts_ok (frequencies (cpt_default_mapping m))" and k: "k < length (delays (frequencies (cpt_default_mapping m)))"
  shows "get_schedule_time m (of_nat k + 1) = Some (delays (frequencies (cpt_default_mapping m)) ! k)"
proof -
  have "k + 1 < 2 ^ 31" using ok k by (simp add: counts_ok_def)
  then have "sint (of_nat k + 1 :: i32) = int (k + 1)" using sint_of_nat_i32 [of "k + 1"] by (simp add: add.commute)
  then show ?thesis using k
    unfolding get_schedule_time_def schedule_delay_exact [OF ok] by (simp add: vec_get_def nat_add_distrib)
qed

lemma schedule_after_last:
  assumes ok: "counts_ok (frequencies (cpt_default_mapping m))" and n: "n = length (delays (frequencies (cpt_default_mapping m)))"
  shows "get_schedule_time m (of_nat n + 1) = None"
proof (cases "n + 1 < 2 ^ 31")
  case True
  then have "sint (of_nat n + 1 :: i32) = int (n + 1)" using sint_of_nat_i32 [of "n + 1"] by (simp add: add.commute)
  then show ?thesis unfolding get_schedule_time_def schedule_delay_exact [OF ok] by (simp add: vec_get_def n nat_add_distrib)
next
  case False
  then have "n = 2 ^ 31 - 1" using ok n by (simp add: counts_ok_def)
  then have "sint (of_nat n + 1 :: i32) < 0" by simp
  then show ?thesis unfolding get_schedule_time_def schedule_delay_exact [OF ok] by simp
qed

lemma retry_update_fields:
  "pt_retry_count (set_fields (update_internal_from now (StatusRetryUpdate st n t)) r) = n"
  "pt_schedule_time (set_fields (update_internal_from now (StatusRetryUpdate st n t)) r) = Some t"
  "pt_retry_count (set_fields (update_internal_from now (StatusUpdate st b)) r) = pt_retry_count r"
  by (simp_all add: update_internal_from.simps update_internal_default_def set_fields_def or_keep_def)

lemma found_id: "find (\<lambda>r. pt_id r = i) rs = Some r \<Longrightarrow> pt_id r = i"
  by (auto simp: find_Some_iff)

definition at_round :: "connector_pt_mapping \<Rightarrow> string \<Rightarrow> nat \<Rightarrow> 'j world \<Rightarrow> 'j world \<Rightarrow> bool" where
  "at_round m i k s s' \<longleftrightarrow> outcomes s' = [] \<and> clock s' = clock s \<and> dt_range s' = dt_range s \<and>
     (\<exists>r. find (\<lambda>r. pt_id r = i) (rows s') = Some r \<and> pt_retry_count r = of_nat k \<and>
        (0 < k \<longrightarrow> pt_status r = Pending \<and> pt_schedule_time r =
           Some (saturating_add (dt_range s) (clock s) (seconds (sint (delays (frequencies (cpt_default_mapping m)) ! (k - 1)))))))"

lemma next_round:
  assumes ok: "counts_ok (frequencies (cpt_default_mapping m))" and k: "k < length (delays (frequencies (cpt_default_mapping m)))"
    and inv: "at_round m i k s (retry_rounds m i k s)"
  shows "at_round m i (Suc k) s (retry_rounds m i (Suc k) s)"
proof -
  define w where "w = retry_rounds m i k s"
  from inv obtain r where w: "outcomes w = []" "clock w = clock s" "dt_range w = dt_range s"
    and f: "find (\<lambda>r. pt_id r = i) (rows w) = Some r" and c: "pt_retry_count r = of_nat k"
    unfolding at_round_def w_def by blast
  have i: "pt_id r = i" by (rule found_id [OF f])
  define time where "time = saturating_add (dt_range s) (clock s) (seconds (sint (delays (frequencies (cpt_default_mapping m)) ! k)))"
  have "get_sync_process_schedule_time m (pt_retry_count r + 1) w = Some time"
    unfolding get_sync_process_schedule_time_def c schedule_of_round [OF ok k] by (simp add: get_time_from_delta_def w time_def)
  then have "retry_rounds m i (Suc k) s = w\<lparr>rows := mark (clock s) (StatusRetryUpdate Pending (of_nat k + 1) time) [i] (rows w)\<rparr>"
    using retry_sync_task_answered [OF w(1), of r r "()" m] f i c w(2) by (simp add: w_def [symmetric])
  then show ?thesis
    using w find_marked [OF f] by (simp add: at_round_def retry_update_fields time_def add.commute)
qed

lemma rounds_reached:
  assumes "counts_ok (frequencies (cpt_default_mapping m))" "outcomes s = []"
    "find (\<lambda>r. pt_id r = i) (rows s) = Some r" "pt_retry_count r = 0"
    "k \<le> length (delays (frequencies (cpt_default_mapping m)))"
  shows "at_round m i k s (retry_rounds m i k s)"
  using assms(5)
proof (induction k)
  case 0
  then show ?case using assms by (simp add: at_round_def)
next
  case (Suc k)
  then have "at_round m i k s (retry_rounds m i k s)" by simp
  then show ?case using Suc.prems by (intro next_round [OF assms(1)]) simp_all
qed

lemma last_round:
  assumes ok: "counts_ok (frequencies (cpt_default_mapping m))" and n: "n = length (delays (frequencies (cpt_default_mapping m)))"
    and inv: "at_round m i n s (retry_rounds m i n s)"
  shows "\<exists>r. find (\<lambda>r. pt_id r = i) (rows (retry_rounds m i (Suc n) s)) = Some r \<and> pt_status r = Finish \<and>
    pt_business_status r = RETRIES_EXCEEDED \<and> pt_retry_count r = of_nat n"
proof -
  define w where "w = retry_rounds m i n s"
  from inv obtain r where w: "outcomes w = []" "clock w = clock s" "dt_range w = dt_range s"
    and f: "find (\<lambda>r. pt_id r = i) (rows w) = Some r" and c: "pt_retry_count r = of_nat n"
    unfolding at_round_def w_def by blast
  have i: "pt_id r = i" by (rule found_id [OF f])
  have "get_sync_process_schedule_time m (pt_retry_count r + 1) w = None"
    unfolding get_sync_process_schedule_time_def c schedule_after_last [OF ok n] by (simp add: get_time_from_delta_def)
  then have "retry_rounds m i (Suc n) s = w\<lparr>rows := mark (clock s) (StatusUpdate Finish (Some RETRIES_EXCEEDED)) [i] (rows w)\<rparr>"
    using retry_sync_task_answered [OF w(1), of r r "()" m] f i c w(2) by (simp add: w_def [symmetric])
  then show ?thesis using find_marked [OF f] c by (simp add: retry_update_fields or_keep_def)
qed

section \<open>Properties\<close>



end
