(* ===== verification/Captures.thy ===== *)
theory Captures
  imports Process_Tracker Minor_Unit "HOL-Library.AList" "HOL-Library.Multiset"
begin

text \<open>
  Partial captures of an authorised payment. The theory models the identifiers of connectors
  (\<open>common_utils/src/types.rs\<close>), the \<open>captures\<close> table (\<open>diesel_models/src/capture.rs\<close>, \<open>query/capture.rs\<close>),
  \<open>MultipleCaptureData\<close> (\<open>router/src/core/payments/types.rs\<close>), the conversions of a connector's answer
  into updates of captures, and the part of a capture request and of a payment sync that reads and
  writes captures (\<open>payment_capture.rs\<close>, \<open>payment_response.rs\<close>).

  The digest of a long identifier (\<open>blake3\<close> and \<open>hex\<close>), the iteration order of a hash map and the clock
  are arguments. Strings are lists of bytes, as \<open>String::len\<close> counts them. A request holds the lock of its
  payment, so requests on one payment follow each other; the step relation lets each of them stop
  after the capture is inserted, as an error of the connector's call does.
\<close>

type_synonym i16 = "16 word"

section \<open>Identifiers of connectors\<close>

datatype connector_transaction_id = TxnId string | HashedData string

fun get_id :: "connector_transaction_id \<Rightarrow> string" where
  "get_id (TxnId i) = i"
| "get_id (HashedData i) = i"

definition connector_transaction_id_from :: "(string \<Rightarrow> string) \<Rightarrow> string \<Rightarrow> connector_transaction_id" where
  "connector_transaction_id_from digest src =
     (if take 8 src = ''hs_hash_'' then HashedData src
      else if length src > 128 then HashedData (''hs_hash_'' @ digest src)
      else TxnId src)"

definition form_id_and_data :: "(string \<Rightarrow> string) \<Rightarrow> string \<Rightarrow> connector_transaction_id \<times> string option" where
  "form_id_and_data digest src =
     (case connector_transaction_id_from digest src of
        TxnId i \<Rightarrow> (TxnId i, None)
      | HashedData i \<Rightarrow> (HashedData i, Some src))"

fun extract_hashed_data :: "connector_transaction_id \<Rightarrow> string option" where
  "extract_hashed_data (TxnId i) = None"
| "extract_hashed_data (HashedData src) = Some src"

datatype validation_error = InvalidValue string

fun get_txn_id :: "connector_transaction_id \<Rightarrow> string option \<Rightarrow> validation_error + string" where
  "get_txn_id (TxnId i) txn_data = Inr i"
| "get_txn_id (HashedData h) (Some i) = Inr i"
| "get_txn_id (HashedData h) None = Inl (InvalidValue ''processor_transaction_data is empty for HashedData variant'')"

section \<open>Statuses\<close>

datatype capture_status = CS_Started | CS_Charged | CS_Pending | CS_Failed

datatype (plugins only: code size) attempt_status =
    AS_Started | AS_AuthenticationFailed | AS_RouterDeclined | AS_AuthenticationPending
  | AS_AuthenticationSuccessful | AS_Authorized | AS_AuthorizationFailed | AS_Charged | AS_Authorizing
  | AS_CodInitiated | AS_Voided | AS_VoidedPostCharge | AS_VoidInitiated | AS_CaptureInitiated
  | AS_CaptureFailed | AS_VoidFailed | AS_AutoRefunded | AS_PartialCharged | AS_PartiallyAuthorized
  | AS_PartialChargedAndChargeable | AS_Unresolved | AS_Pending | AS_Failure | AS_PaymentMethodAwaited
  | AS_ConfirmationAwaited | AS_DeviceDataCollectionPending | AS_IntegrityFailure | AS_Expired
  | AS_CaptureReview

definition is_terminal_status :: "attempt_status \<Rightarrow> bool" where
  "is_terminal_status s \<longleftrightarrow>
     s \<in> {AS_RouterDeclined, AS_Charged, AS_AutoRefunded, AS_Voided, AS_VoidFailed, AS_CaptureFailed,
          AS_Failure, AS_PartialCharged, AS_Expired}"

definition is_payment_terminal_failure :: "attempt_status \<Rightarrow> bool" where
  "is_payment_terminal_failure s \<longleftrightarrow>
     s \<in> {AS_RouterDeclined, AS_Failure, AS_Expired, AS_VoidFailed, AS_CaptureFailed,
          AS_AuthenticationFailed, AS_AuthorizationFailed}"

definition is_success :: "attempt_status \<Rightarrow> bool" where
  "is_success s \<longleftrightarrow> s \<in> {AS_Charged, AS_PartialCharged}"

definition is_authorization_success :: "attempt_status \<Rightarrow> bool" where
  "is_authorization_success s \<longleftrightarrow>
     s \<in> {AS_Authorized, AS_PartiallyAuthorized, AS_Charged, AS_PartialCharged, AS_PartialChargedAndChargeable}"

definition should_update_payment_method :: "attempt_status \<Rightarrow> bool" where
  "should_update_payment_method s \<longleftrightarrow>
     s \<in> {AS_Charged, AS_PartialCharged, AS_Authorized, AS_PartiallyAuthorized,
          AS_AuthenticationSuccessful, AS_PartialChargedAndChargeable}"

section \<open>Errors\<close>

text \<open>The constructors of \<open>ApiErrorResponse\<close> that the modelled code returns.\<close>

datatype api_error_response =
    InternalServerError
  | InvalidDataFormat string string
  | InvalidRequestData string
  | InvalidDataValue string
  | Missing_required_field string
  | PreconditionFailed string
  | PaymentUnexpectedState string string string string
  | PaymentNotFound
  | DuplicatePayment string
  | RefundNotFound
  | DuplicateRefundRequest
  | RefundAmountExceedsPaymentAmount
  | MaximumRefundCount

fun to_not_found_response :: "api_error_response \<Rightarrow> storage_error \<Rightarrow> api_error_response" where
  "to_not_found_response not_found_response (St_ValueNotFound v) = not_found_response"
| "to_not_found_response not_found_response e = InternalServerError"

definition get_required_value :: "string \<Rightarrow> 'a option \<Rightarrow> api_error_response + 'a" where
  "get_required_value field_name x = ok_or x (Missing_required_field field_name)"

definition when_error :: "bool \<Rightarrow> 'e \<Rightarrow> 'e + unit" where
  "when_error predicate e = (if predicate then Inl e else Inr ())"

section \<open>Captures\<close>

record capture =
  capture_id :: string
  cap_payment_id :: string
  cap_merchant_id :: string
  cap_status :: capture_status
  cap_amount :: minor_unit
  cap_currency :: "currency option"
  cap_connector :: string
  cap_error_message :: "string option"
  cap_error_code :: "string option"
  cap_error_reason :: "string option"
  cap_tax_amount :: "minor_unit option"
  cap_created_at :: datetime
  cap_modified_at :: datetime
  authorized_attempt_id :: string
  connector_capture_id :: "connector_transaction_id option"
  capture_sequence :: i16
  cap_connector_response_reference_id :: "string option"
  connector_capture_data :: "string option"
  processor_capture_data :: "string option"

text \<open>A new capture has the columns of a stored one.\<close>

type_synonym capture_new = capture

datatype capture_update =
    ResponseUpdate capture_status "connector_transaction_id option" "string option" "string option"
  | ErrorUpdate capture_status "string option" "string option" "string option"

record capture_update_internal =
  cu_status :: "capture_status option"
  cu_error_message :: "string option"
  cu_error_code :: "string option"
  cu_error_reason :: "string option"
  cu_modified_at :: "datetime option"
  cu_connector_capture_id :: "connector_transaction_id option"
  cu_connector_response_reference_id :: "string option"
  cu_processor_capture_data :: "string option"

fun capture_update_internal_from :: "datetime \<Rightarrow> capture_update \<Rightarrow> capture_update_internal" where
  "capture_update_internal_from now
       (ResponseUpdate status connector_transaction_id response_reference_id capture_data) =
     \<lparr>cu_status = Some status, cu_error_message = None, cu_error_code = None, cu_error_reason = None,
      cu_modified_at = Some now, cu_connector_capture_id = connector_transaction_id,
      cu_connector_response_reference_id = response_reference_id,
      cu_processor_capture_data = capture_data\<rparr>"
| "capture_update_internal_from now (ErrorUpdate status error_code error_message error_reason) =
     \<lparr>cu_status = Some status, cu_error_message = error_message, cu_error_code = error_code,
      cu_error_reason = error_reason, cu_modified_at = Some now, cu_connector_capture_id = None,
      cu_connector_response_reference_id = None, cu_processor_capture_data = None\<rparr>"

definition apply_option_field :: "'a option \<Rightarrow> 'a \<Rightarrow> 'a" where
  "apply_option_field new old = (case new of Some v \<Rightarrow> v | None \<Rightarrow> old)"

definition apply_nullable_field :: "'a option \<Rightarrow> 'a option \<Rightarrow> 'a option" where
  "apply_nullable_field new old = (if new \<noteq> None then new else old)"

definition apply_changeset :: "capture_update_internal \<Rightarrow> capture \<Rightarrow> capture" where
  "apply_changeset u c =
     c\<lparr>cap_status := apply_option_field (cu_status u) (cap_status c),
       cap_error_message := apply_nullable_field (cu_error_message u) (cap_error_message c),
       cap_error_code := apply_nullable_field (cu_error_code u) (cap_error_code c),
       cap_error_reason := apply_nullable_field (cu_error_reason u) (cap_error_reason c),
       cap_modified_at := apply_option_field (cu_modified_at u) (cap_modified_at c),
       connector_capture_id := apply_nullable_field (cu_connector_capture_id u) (connector_capture_id c),
       cap_connector_response_reference_id :=
         apply_nullable_field (cu_connector_response_reference_id u) (cap_connector_response_reference_id c),
       processor_capture_data := apply_nullable_field (cu_processor_capture_data u) (processor_capture_data c)\<rparr>"

definition get_optional_connector_transaction_id :: "capture \<Rightarrow> string option" where
  "get_optional_connector_transaction_id c =
     (case option_transpose (map_option (\<lambda>i. get_txn_id i (processor_capture_data c)) (connector_capture_id c)) of
        Inr i \<Rightarrow> i
      | Inl _ \<Rightarrow> map_option get_id (connector_capture_id c))"

subsection \<open>The table\<close>

definition capture_insert :: "capture_new \<Rightarrow> capture list \<Rightarrow> database_error + (capture \<times> capture list)" where
  "capture_insert new table =
     (if capture_id new \<in> capture_id ` set table then Inl Db_UniqueViolation else Inr (new, table @ [new]))"

definition update_with_capture_id ::
    "datetime \<Rightarrow> capture \<Rightarrow> capture_update \<Rightarrow> capture list \<Rightarrow> database_error + (capture \<times> capture list)" where
  "update_with_capture_id now this update table =
     (let u = capture_update_internal_from now update in
      case filter (\<lambda>c. capture_id c = capture_id this) table of
        [] \<Rightarrow> Inl Db_NotFound
      | [c] \<Rightarrow> Inr (apply_changeset u c,
                 map (\<lambda>c. if capture_id c = capture_id this then apply_changeset u c else c) table)
      | _ \<Rightarrow> Inl Db_Others)"

definition find_all_by_attempt :: "string \<Rightarrow> string \<Rightarrow> string \<Rightarrow> capture list \<Rightarrow> capture list" where
  "find_all_by_attempt merchant_id payment_id attempt_id table =
     sort_key cap_created_at
       (filter (\<lambda>c. authorized_attempt_id c = attempt_id \<and> cap_merchant_id c = merchant_id \<and>
                    cap_payment_id c = payment_id) table)"

section \<open>All captures of an attempt\<close>

record multiple_capture_data =
  all_captures :: "(string \<times> capture) list"
  latest_capture :: capture
  expand_captures :: "bool option"

text \<open>\<open>ord\<close> is the order in which the hash map lists its entries.\<close>

definition hash_order :: "((string \<times> capture) list \<Rightarrow> (string \<times> capture) list) \<Rightarrow> bool" where
  "hash_order ord \<longleftrightarrow> (\<forall>xs. mset (ord xs) = mset xs)"

definition collect_captures :: "capture list \<Rightarrow> (string \<times> capture) list" where
  "collect_captures captures = foldl (\<lambda>m c. AList.update (capture_id c) c m) [] captures"

definition new_for_sync ::
    "((string \<times> capture) list \<Rightarrow> (string \<times> capture) list) \<Rightarrow> capture list \<Rightarrow> bool option \<Rightarrow>
     api_error_response + multiple_capture_data" where
  "new_for_sync ord captures expand =
     (if captures = [] then Inl InternalServerError
      else Inr \<lparr>all_captures = ord (collect_captures captures), latest_capture = last captures,
                expand_captures = expand\<rparr>)"

definition new_for_create ::
    "((string \<times> capture) list \<Rightarrow> (string \<times> capture) list) \<Rightarrow> capture list \<Rightarrow> capture \<Rightarrow> multiple_capture_data" where
  "new_for_create ord previous_captures new_capture =
     \<lparr>all_captures = ord (collect_captures (previous_captures @ [new_capture])),
      latest_capture = new_capture, expand_captures = None\<rparr>"

definition update_capture :: "multiple_capture_data \<Rightarrow> capture \<Rightarrow> multiple_capture_data" where
  "update_capture m updated_capture =
     (let i = capture_id updated_capture in
      if i \<in> fst ` set (all_captures m)
      then m\<lparr>all_captures := map (\<lambda>(k, c). (k, if k = i then updated_capture else c)) (all_captures m)\<rparr>
      else m)"

definition get_total_blocked_amount :: "multiple_capture_data \<Rightarrow> minor_unit" where
  "get_total_blocked_amount m =
     foldl (\<lambda>accumulator (_, c). minor_unit_add accumulator
              (case cap_status c of
                 CS_Charged \<Rightarrow> cap_amount c | CS_Pending \<Rightarrow> cap_amount c
               | CS_Started \<Rightarrow> MinorUnit 0 | CS_Failed \<Rightarrow> MinorUnit 0))
           (MinorUnit 0) (all_captures m)"

definition get_total_charged_amount :: "multiple_capture_data \<Rightarrow> minor_unit" where
  "get_total_charged_amount m =
     foldl (\<lambda>accumulator (_, c). minor_unit_add accumulator
              (case cap_status c of
                 CS_Charged \<Rightarrow> cap_amount c | CS_Pending \<Rightarrow> MinorUnit 0
               | CS_Started \<Rightarrow> MinorUnit 0 | CS_Failed \<Rightarrow> MinorUnit 0))
           (MinorUnit 0) (all_captures m)"

definition get_captures_count :: "multiple_capture_data \<Rightarrow> api_error_response + i16" where
  "get_captures_count m =
     (if length (all_captures m) < 2 ^ 15 then Inr (of_nat (length (all_captures m))) else Inl InternalServerError)"

definition get_status_count :: "multiple_capture_data \<Rightarrow> (capture_status \<times> i16) list" where
  "get_status_count m =
     foldl (\<lambda>accumulator (_, c). AList.map_entry (cap_status c) (\<lambda>count. count + 1) accumulator)
           [(CS_Charged, 0), (CS_Pending, 0), (CS_Started, 0), (CS_Failed, 0)] (all_captures m)"

definition get_attempt_status :: "multiple_capture_data \<Rightarrow> minor_unit \<Rightarrow> attempt_status" where
  "get_attempt_status m authorized =
     (if authorized = get_total_charged_amount m then AS_Charged
      else if (case map_of (get_status_count m) CS_Charged of None \<Rightarrow> False | Some n \<Rightarrow> 0 < sint n)
      then AS_PartialChargedAndChargeable
      else AS_CaptureInitiated)"

definition get_all_captures :: "multiple_capture_data \<Rightarrow> capture list" where
  "get_all_captures m = map snd (all_captures m)"

definition get_pending_captures :: "multiple_capture_data \<Rightarrow> capture list" where
  "get_pending_captures m = map snd (filter (\<lambda>e. cap_status (snd e) = CS_Pending) (all_captures m))"

definition get_capture_by_capture_id :: "multiple_capture_data \<Rightarrow> string \<Rightarrow> capture option" where
  "get_capture_by_capture_id m i = map_of (all_captures m) i"

definition get_capture_by_connector_capture_id :: "multiple_capture_data \<Rightarrow> string \<Rightarrow> capture option" where
  "get_capture_by_connector_capture_id m i =
     map_option snd (find (\<lambda>(_, c). get_optional_connector_transaction_id c = Some i) (all_captures m))"

definition get_pending_connector_capture_ids :: "multiple_capture_data \<Rightarrow> string list" where
  "get_pending_connector_capture_ids m =
     List.map_filter get_optional_connector_transaction_id (get_pending_captures m)"

definition get_pending_captures_without_connector_capture_id :: "multiple_capture_data \<Rightarrow> capture list" where
  "get_pending_captures_without_connector_capture_id m =
     filter (\<lambda>c. get_optional_connector_transaction_id c = None) (get_pending_captures m)"

section \<open>Answers of the connector\<close>

fun capture_status_try_from :: "attempt_status \<Rightarrow> api_error_response + capture_status" where
  "capture_status_try_from AS_Charged = Inr CS_Charged"
| "capture_status_try_from AS_PartialCharged = Inr CS_Charged"
| "capture_status_try_from AS_IntegrityFailure = Inr CS_Charged"
| "capture_status_try_from AS_Pending = Inr CS_Pending"
| "capture_status_try_from AS_CaptureInitiated = Inr CS_Pending"
| "capture_status_try_from AS_Failure = Inr CS_Failed"
| "capture_status_try_from AS_CaptureFailed = Inr CS_Failed"
| "capture_status_try_from _ = Inl (PreconditionFailed
     ''AttemptStatus must be one of these for multiple partial captures [Charged, PartialCharged, Pending, CaptureInitiated, Failure, CaptureFailed]'')"

datatype response_id = ConnectorTransactionId string | EncodedData string | NoResponseId

datatype capture_sync_response =
    Sync_success response_id attempt_status "string option" "minor_unit option"
  | Sync_error string string "string option" "16 word" "minor_unit option"

fun get_amount_captured :: "capture_sync_response \<Rightarrow> minor_unit option" where
  "get_amount_captured (Sync_success resource_id status reference_id am) = am"
| "get_amount_captured (Sync_error code message reason status_code am) = am"

fun get_connector_response_reference_id :: "capture_sync_response \<Rightarrow> string option" where
  "get_connector_response_reference_id (Sync_success resource_id status reference_id am) = reference_id"
| "get_connector_response_reference_id (Sync_error code message reason status_code am) = None"

definition status_of_code :: "16 word \<Rightarrow> capture_status" where
  "status_of_code status_code = (if 500 \<le> status_code \<and> status_code \<le> 511 then CS_Pending else CS_Failed)"

fun capture_update_try_from ::
    "(string \<Rightarrow> string) \<Rightarrow> capture_sync_response \<Rightarrow> api_error_response + capture_update" where
  "capture_update_try_from digest (Sync_success resource_id status reference_id am) =
     (let (capture_id, capture_data) =
        (case resource_id of
           ConnectorTransactionId i \<Rightarrow> (let (txn_id, txn_data) = form_id_and_data digest i in (Some txn_id, txn_data))
         | EncodedData _ \<Rightarrow> (None, None)
         | NoResponseId \<Rightarrow> (None, None))
      in and_then (capture_status_try_from status) (\<lambda>status.
           Inr (ResponseUpdate status capture_id reference_id capture_data)))"
| "capture_update_try_from digest (Sync_error code message reason status_code am) =
     Inr (ErrorUpdate (status_of_code status_code) (Some code) (Some message) reason)"

fun unmapped_updates ::
    "(string \<Rightarrow> string) \<Rightarrow> capture list \<Rightarrow> capture_sync_response list \<Rightarrow>
     api_error_response + (capture \<times> capture_update) list" where
  "unmapped_updates digest captures [] = Inr []"
| "unmapped_updates digest captures (r # rs) =
     (case find (\<lambda>c. get_connector_response_reference_id r = Some (capture_id c) \<or>
                     get_amount_captured r = Some (cap_amount c)) captures of
        None \<Rightarrow> unmapped_updates digest captures rs
      | Some c \<Rightarrow> and_then (capture_update_try_from digest r) (\<lambda>u.
                  and_then (unmapped_updates digest captures rs) (\<lambda>us. Inr ((c, u) # us))))"

definition get_capture_update_for_unmapped_capture_responses ::
    "(string \<Rightarrow> string) \<Rightarrow> capture_sync_response list \<Rightarrow> multiple_capture_data \<Rightarrow>
     api_error_response + (capture \<times> capture_update) list" where
  "get_capture_update_for_unmapped_capture_responses digest responses m =
     unmapped_updates digest (get_pending_captures_without_connector_capture_id m) responses"

text \<open>The loop of \<open>response_to_capture_update\<close>: the updates of the captures found and the other answers.\<close>

fun mapped_updates ::
    "(string \<Rightarrow> string) \<Rightarrow> multiple_capture_data \<Rightarrow> (string \<times> capture_sync_response) list \<Rightarrow>
     api_error_response + ((capture \<times> capture_update) list \<times> capture_sync_response list)" where
  "mapped_updates digest m [] = Inr ([], [])"
| "mapped_updates digest m ((i, r) # rs) =
     (case get_capture_by_connector_capture_id m i of
        Some c \<Rightarrow> and_then (capture_update_try_from digest r) (\<lambda>u.
                  and_then (mapped_updates digest m rs) (\<lambda>(us, un). Inr ((c, u) # us, un)))
      | None \<Rightarrow> and_then (mapped_updates digest m rs) (\<lambda>(us, un). Inr (us, r # un)))"

definition response_to_capture_update ::
    "(string \<Rightarrow> string) \<Rightarrow> multiple_capture_data \<Rightarrow> (string \<times> capture_sync_response) list \<Rightarrow>
     api_error_response + (capture \<times> capture_update) list" where
  "response_to_capture_update digest m response_list =
     and_then (mapped_updates digest m response_list) (\<lambda>(us, unmapped).
     and_then (get_capture_update_for_unmapped_capture_responses digest unmapped m) (\<lambda>vs.
       Inr (us @ vs)))"

text \<open>The update a capture call's own answer makes, and the one of its error.\<close>

definition capture_response_update ::
    "(string \<Rightarrow> string) \<Rightarrow> response_id \<Rightarrow> attempt_status \<Rightarrow> string option \<Rightarrow> api_error_response + capture_update" where
  "capture_response_update digest resource_id status reference_id =
     (let (capture_id, capture_data) =
        (case resource_id of
           NoResponseId \<Rightarrow> (None, None)
         | ConnectorTransactionId i \<Rightarrow> (let (txn_id, txn_data) = form_id_and_data digest i in (Some txn_id, txn_data))
         | EncodedData i \<Rightarrow> (let (txn_id, txn_data) = form_id_and_data digest i in (Some txn_id, txn_data)))
      in and_then (capture_status_try_from status) (\<lambda>status.
           Inr (ResponseUpdate status capture_id reference_id capture_data)))"

definition capture_error_update :: "16 word \<Rightarrow> string \<Rightarrow> string \<Rightarrow> string option \<Rightarrow> capture_update" where
  "capture_error_update status_code code message reason =
     ErrorUpdate (status_of_code status_code) (Some code) (Some message) reason"

section \<open>Requests\<close>

text \<open>The columns of a payment attempt that capturing reads or writes.\<close>

record capture_attempt =
  pa_attempt_id :: string
  pa_payment_id :: string
  pa_merchant_id :: string
  pa_connector :: "string option"
  pa_currency :: "currency option"
  pa_status :: attempt_status
  multiple_capture_count :: "i16 option"
  amount_capturable :: minor_unit
  authorized_amount :: "minor_unit option"
  total_amount :: minor_unit

definition next_capture_number :: "capture_attempt \<Rightarrow> i16" where
  "next_capture_number a = (case multiple_capture_count a of Some n \<Rightarrow> n | None \<Rightarrow> 0) + 1"

definition get_next_capture_id :: "capture_attempt \<Rightarrow> string" where
  "get_next_capture_id a = pa_attempt_id a @ ''_'' @ show_int (sint (next_capture_number a))"

definition make_new_capture ::
    "datetime \<Rightarrow> capture_attempt \<Rightarrow> minor_unit \<Rightarrow> capture_status \<Rightarrow> api_error_response + capture_new" where
  "make_new_capture now a capture_amount capture_status =
     and_then (map_err (\<lambda>_. InternalServerError) (get_required_value ''connector'' (pa_connector a))) (\<lambda>connector.
       Inr \<lparr>capture_id = get_next_capture_id a,
            cap_payment_id = pa_payment_id a,
            cap_merchant_id = pa_merchant_id a,
            cap_status = capture_status,
            cap_amount = capture_amount,
            cap_currency = pa_currency a,
            cap_connector = connector,
            cap_error_message = None,
            cap_error_code = None,
            cap_error_reason = None,
            cap_tax_amount = None,
            cap_created_at = now,
            cap_modified_at = now,
            authorized_attempt_id = pa_attempt_id a,
            connector_capture_id = None,
            capture_sequence = next_capture_number a,
            cap_connector_response_reference_id = None,
            connector_capture_data = None,
            processor_capture_data = None\<rparr>)"

definition validate_amount_to_capture :: "i64 \<Rightarrow> i64 option \<Rightarrow> api_error_response + unit" where
  "validate_amount_to_capture amount amount_to_capture =
     and_then (when_error (case amount_to_capture of Some value \<Rightarrow> sint value \<le> 0 | None \<Rightarrow> False)
                 (InvalidDataFormat ''amount'' ''positive integer'')) (\<lambda>_.
       when_error (case amount_to_capture of Some value \<Rightarrow> sint amount < sint value | None \<Rightarrow> False)
         (InvalidRequestData ''amount_to_capture is greater than amount''))"

record capture_system =
  captures :: "capture list"
  attempt :: capture_attempt
  flow_data :: "multiple_capture_data option"

definition attempt_captures :: "capture_attempt \<Rightarrow> capture list \<Rightarrow> capture list" where
  "attempt_captures a table = find_all_by_attempt (pa_merchant_id a) (pa_payment_id a) (pa_attempt_id a) table"

text \<open>The multiple-capture branch of \<open>get_trackers\<close>.\<close>

definition start_capture ::
    "datetime \<Rightarrow> ((string \<times> capture) list \<Rightarrow> (string \<times> capture) list) \<Rightarrow> minor_unit option \<Rightarrow> capture_system \<Rightarrow>
     api_error_response + capture_system" where
  "start_capture now ord request_amount s =
     (let a = attempt s in
      and_then (get_required_value ''amount_to_capture'' request_amount) (\<lambda>amount_to_capture.
      and_then (validate_amount_to_capture (get_amount_as_i64 (amount_capturable a))
                  (Some (get_amount_as_i64 amount_to_capture))) (\<lambda>_.
      let previous_captures = attempt_captures a (captures s) in
      and_then (make_new_capture now a amount_to_capture CS_Started) (\<lambda>new.
      and_then (map_err (to_not_found_response (DuplicatePayment (pa_payment_id a)))
                  (map_err storage_error_from (capture_insert new (captures s)))) (\<lambda>(new_capture, table).
        Inr (s\<lparr>captures := table, flow_data := Some (new_for_create ord previous_captures new_capture)\<rparr>))))))"

text \<open>The count that \<open>update_trackers\<close> writes.\<close>

definition write_capture_count :: "capture_system \<Rightarrow> api_error_response + capture_system" where
  "write_capture_count s =
     (case flow_data s of
        None \<Rightarrow> Inr s
      | Some m \<Rightarrow> and_then (get_captures_count m) (\<lambda>n.
          Inr (s\<lparr>attempt := (attempt s)\<lparr>multiple_capture_count := Some n\<rparr>\<rparr>)))"

text \<open>
  The updates of captures in \<open>payment_response_update_tracker\<close>; \<open>now k\<close> is the clock at the update with
  \<open>k\<close> others to come. The update of the attempt is the one the handler writes afterwards.
\<close>

fun apply_capture_updates ::
    "(nat \<Rightarrow> datetime) \<Rightarrow> (capture \<times> capture_update) list \<Rightarrow> capture list \<times> multiple_capture_data \<Rightarrow>
     api_error_response + (capture list \<times> multiple_capture_data)" where
  "apply_capture_updates now [] (table, m) = Inr (table, m)"
| "apply_capture_updates now ((c, u) # us) (table, m) =
     and_then (map_err (to_not_found_response PaymentNotFound)
                 (map_err storage_error_from (update_with_capture_id (now (length us)) c u table)))
       (\<lambda>(updated_capture, table). apply_capture_updates now us (table, update_capture m updated_capture))"

definition attempt_authorized_amount :: "capture_attempt \<Rightarrow> minor_unit" where
  "attempt_authorized_amount a = (case authorized_amount a of Some x \<Rightarrow> x | None \<Rightarrow> total_amount a)"

definition update_attempt_amounts :: "multiple_capture_data \<Rightarrow> capture_attempt \<Rightarrow> capture_attempt" where
  "update_attempt_amounts m a =
     (let authorized = attempt_authorized_amount a in
      a\<lparr>pa_status := get_attempt_status m authorized,
        amount_capturable := minor_unit_sub authorized (get_total_blocked_amount m)\<rparr>)"

definition finish_capture_updates ::
    "(nat \<Rightarrow> datetime) \<Rightarrow> multiple_capture_data \<Rightarrow> (capture \<times> capture_update) list \<Rightarrow> capture_system \<Rightarrow>
     api_error_response + capture_system" where
  "finish_capture_updates now m capture_updates s =
     and_then (apply_capture_updates now capture_updates (captures s, m)) (\<lambda>(table, m').
       Inr (s\<lparr>captures := table, attempt := update_attempt_amounts m' (attempt s), flow_data := None\<rparr>))"

end
