(* ===== verification/Refunds.thy ===== *)
theory Refunds
  imports Captures
begin

text \<open>
  Creating refunds: the validators of \<open>router/src/core/utils/refunds_validator.rs\<close>, the bookkeeping in the
  payment intent (\<open>common_types/src/payments.rs\<close>, \<open>hyperswitch_domain_models/src/payments.rs\<close>), the
  queries of \<open>diesel_models/src/query/refund.rs\<close> and the checks and the insertion of
  \<open>refund_create_core\<close> and \<open>validate_and_create_refund\<close> (\<open>router/src/core/refunds.rs\<close>), with Postgres as the
  only store. The checks that belong to the connector or to split payments are arguments of a request,
  and so are the generated identifiers and the clock. The rows carry the columns these functions read.

  The theorems: requests that follow each other never refund more than was captured, for a payment
  whose identifier at the connector is stored as it is; for an identifier long enough to be hashed the
  earlier refunds are not found, because they are looked up by the identifier and stored by its hash.
\<close>

section \<open>Data\<close>

datatype refund_status = RS_Failure | RS_ManualReview | RS_Pending | RS_Success | RS_TransactionFailure

definition refund_is_success :: "refund_status \<Rightarrow> bool" where
  "refund_is_success st \<longleftrightarrow> st = RS_Success"

record refund =
  internal_reference_id :: string
  refund_id :: string
  rf_payment_id :: string
  rf_merchant_id :: string
  rf_processor_merchant_id :: "string option"
  rf_connector_transaction_id :: connector_transaction_id
  rf_processor_transaction_data :: "string option"
  refund_amount :: minor_unit
  refund_status :: refund_status

definition is_refund_applied :: "refund \<Rightarrow> bool" where
  "is_refund_applied r \<longleftrightarrow> refund_status r \<in> {RS_ManualReview, RS_Pending, RS_Success}"

datatype (plugins only: code size) intent_status =
    IS_Succeeded | IS_Failed | IS_Cancelled | IS_CancelledPostCapture | IS_Processing
  | IS_RequiresCustomerAction | IS_RequiresMerchantAction | IS_RequiresPaymentMethod
  | IS_RequiresConfirmation | IS_RequiresCapture | IS_PartiallyCaptured
  | IS_PartiallyCapturedAndCapturable | IS_PartiallyAuthorizedAndRequiresCapture
  | IS_PartiallyCapturedAndProcessing | IS_Conflicted | IS_Expired | IS_Review

fun intent_status_to_string :: "intent_status \<Rightarrow> string" where
  "intent_status_to_string IS_Succeeded = ''succeeded''"
| "intent_status_to_string IS_Failed = ''failed''"
| "intent_status_to_string IS_Cancelled = ''cancelled''"
| "intent_status_to_string IS_CancelledPostCapture = ''cancelled_post_capture''"
| "intent_status_to_string IS_Processing = ''processing''"
| "intent_status_to_string IS_RequiresCustomerAction = ''requires_customer_action''"
| "intent_status_to_string IS_RequiresMerchantAction = ''requires_merchant_action''"
| "intent_status_to_string IS_RequiresPaymentMethod = ''requires_payment_method''"
| "intent_status_to_string IS_RequiresConfirmation = ''requires_confirmation''"
| "intent_status_to_string IS_RequiresCapture = ''requires_capture''"
| "intent_status_to_string IS_PartiallyCaptured = ''partially_captured''"
| "intent_status_to_string IS_PartiallyCapturedAndCapturable = ''partially_captured_and_capturable''"
| "intent_status_to_string IS_PartiallyAuthorizedAndRequiresCapture =
     ''partially_authorized_and_requires_capture''"
| "intent_status_to_string IS_PartiallyCapturedAndProcessing = ''partially_captured_and_processing''"
| "intent_status_to_string IS_Conflicted = ''conflicted''"
| "intent_status_to_string IS_Expired = ''expired''"
| "intent_status_to_string IS_Review = ''review''"

datatype post_capture_void_status = PCV_Succeeded | PCV_Pending | PCV_Failed

record post_capture_void_response =
  pcv_status :: post_capture_void_status
  pcv_connector_reference_id :: "string option"
  pcv_description :: "string option"
  pcv_updated_at :: datetime

record payment_intent_state_metadata =
  total_refunded_amount :: "minor_unit option"
  total_disputed_amount :: "minor_unit option"
  post_capture_void :: "post_capture_void_response option"

definition state_metadata_default :: payment_intent_state_metadata where
  "state_metadata_default = \<lparr>total_refunded_amount = None, total_disputed_amount = None, post_capture_void = None\<rparr>"

definition with_total_refunded_amount :: "minor_unit \<Rightarrow> payment_intent_state_metadata \<Rightarrow> payment_intent_state_metadata" where
  "with_total_refunded_amount am md = md\<lparr>total_refunded_amount := Some am\<rparr>"

definition with_total_disputed_amount :: "minor_unit \<Rightarrow> payment_intent_state_metadata \<Rightarrow> payment_intent_state_metadata" where
  "with_total_disputed_amount am md = md\<lparr>total_disputed_amount := Some am\<rparr>"

definition unwrap_or :: "'a option \<Rightarrow> 'a \<Rightarrow> 'a" where
  "unwrap_or x d = (case x of Some v \<Rightarrow> v | None \<Rightarrow> d)"

definition get_blocked_amount :: "payment_intent_state_metadata \<Rightarrow> minor_unit" where
  "get_blocked_amount md =
     MinorUnit (get_amount_as_i64 (unwrap_or (total_disputed_amount md) minor_unit_zero) +
                get_amount_as_i64 (unwrap_or (total_refunded_amount md) minor_unit_zero))"

definition is_post_capture_void_pending :: "payment_intent_state_metadata \<Rightarrow> bool" where
  "is_post_capture_void_pending md \<longleftrightarrow> map_option pcv_status (post_capture_void md) = Some PCV_Pending"

definition is_post_capture_void_issued :: "payment_intent_state_metadata \<Rightarrow> bool" where
  "is_post_capture_void_issued md \<longleftrightarrow> post_capture_void md \<noteq> None"

definition is_post_capture_void_successful :: "payment_intent_state_metadata \<Rightarrow> bool" where
  "is_post_capture_void_successful md \<longleftrightarrow> map_option pcv_status (post_capture_void md) = Some PCV_Succeeded"

text \<open>The columns of the payment intent and of the attempt that refunds read or write.\<close>

record refund_intent =
  ri_payment_id :: string
  ri_status :: intent_status
  amount_captured :: "minor_unit option"
  ri_created_at :: datetime
  state_metadata :: "payment_intent_state_metadata option"

definition prevent_refund_after_post_capture_void :: "refund_intent \<Rightarrow> api_error_response + unit" where
  "prevent_refund_after_post_capture_void pi =
     (if unwrap_or (map_option is_post_capture_void_issued (state_metadata pi)) False
      then Inl (PreconditionFailed ''Refund void cannot be performed after a post-capture void has been issued'')
      else Inr ())"

definition validate_amount_against_intent_state_metadata ::
    "refund_intent \<Rightarrow> minor_unit option \<Rightarrow> validation_error + unit" where
  "validate_amount_against_intent_state_metadata pi requested_amount =
     (let captured = get_amount_as_i64 (unwrap_or (amount_captured pi) minor_unit_zero);
          blocked_amount = get_amount_as_i64 (get_blocked_amount (unwrap_or (state_metadata pi) state_metadata_default));
          requested = get_amount_as_i64 (unwrap_or requested_amount minor_unit_zero);
          total = blocked_amount + requested
      in if sint captured < sint total
         then Inl (InvalidValue ''Requested amount exceeds available captured amount.'') else Inr ())"

section \<open>Validators\<close>

datatype refund_validation_error =
    UnsuccessfulPaymentAttempt | Refund_amount_exceeds | OrderExpired | MaxRefundCountReached | DuplicateRefund

definition validate_success_transaction :: "attempt_status \<Rightarrow> refund_validation_error + unit" where
  "validate_success_transaction status =
     (if status \<noteq> AS_Charged then Inl UnsuccessfulPaymentAttempt else Inr ())"

definition refunded_amount :: "refund \<Rightarrow> i64 option" where
  "refunded_amount r =
     (if refund_status r \<noteq> RS_Failure \<and> refund_status r \<noteq> RS_TransactionFailure
      then Some (get_amount_as_i64 (refund_amount r)) else None)"

definition validate_refund_amount :: "i64 \<Rightarrow> refund list \<Rightarrow> i64 \<Rightarrow> refund_validation_error + unit" where
  "validate_refund_amount captured all_refunds am =
     (let total_refunded_amount = sum_list (List.map_filter refunded_amount all_refunds) in
      when_error (sint (captured - total_refunded_amount) < sint am) Refund_amount_exceeds)"

definition whole_days :: "int \<Rightarrow> int" where
  "whole_days d = (let day = seconds 86400 in if 0 \<le> d then d div day else - ((- d) div day))"

definition validate_payment_order_age :: "datetime \<Rightarrow> datetime \<Rightarrow> i64 \<Rightarrow> refund_validation_error + unit" where
  "validate_payment_order_age current_time created_at refund_max_age =
     when_error (sint refund_max_age < whole_days (current_time - created_at)) OrderExpired"

definition validate_maximum_refund_against_payment_attempt :: "refund list \<Rightarrow> nat \<Rightarrow> refund_validation_error + unit" where
  "validate_maximum_refund_against_payment_attempt all_refunds refund_max_attempts =
     when_error (refund_max_attempts < length all_refunds) MaxRefundCountReached"

definition LOWER_LIMIT :: i64 where "LOWER_LIMIT = 1"
definition UPPER_LIMIT :: i64 where "UPPER_LIMIT = 100"
definition DEFAULT_LIMIT :: i64 where "DEFAULT_LIMIT = 10"

definition validate_refund_list :: "i64 option \<Rightarrow> api_error_response + i64" where
  "validate_refund_list limit =
     (case limit of
        Some limit_val \<Rightarrow>
          (if \<not> (sint LOWER_LIMIT \<le> sint limit_val \<and> sint limit_val \<le> sint UPPER_LIMIT)
           then Inl (InvalidRequestData ''limit should be in between 1 and 100'') else Inr limit_val)
      | None \<Rightarrow> Inr DEFAULT_LIMIT)"

subsection \<open>Split refunds\<close>

datatype stripe_charge_type = Stripe_direct | Stripe_destination

datatype payment_charge_type = Stripe stripe_charge_type

record stripe_split_refund_request =
  revert_platform_fee :: "bool option"
  revert_transfer :: "bool option"

datatype adyen_split_type =
    BalanceAccount | AcquiringFees | PaymentFee | AdyenFees | AdyenCommission | AdyenMarkup
  | Interchange | SchemeFee | Commission | TopUp | Vat

record adyen_split_item =
  split_amount :: "minor_unit option"
  split_type :: adyen_split_type
  split_account :: "string option"
  split_reference :: string
  split_description :: "string option"

record adyen_split_data =
  split_store :: "string option"
  split_items :: "adyen_split_item list"

datatype split_refund =
    StripeSplitRefund stripe_split_refund_request
  | AdyenSplitRefund adyen_split_data
  | XenditSplitRefund string

datatype charge_refunds_options = Destination_charge bool bool | Direct_charge bool

definition validate_stripe_charge_refund ::
    "payment_charge_type option \<Rightarrow> split_refund option \<Rightarrow> api_error_response + charge_refunds_options" where
  "validate_stripe_charge_refund charge_type_option split_refund_request =
     and_then (ok_or charge_type_option InternalServerError) (\<lambda>charge_type.
     and_then (case split_refund_request of
                 Some (StripeSplitRefund r) \<Rightarrow> Inr r
               | _ \<Rightarrow> Inl (Missing_required_field ''stripe_split_refund'')) (\<lambda>refund_request.
       case charge_type of
         Stripe Stripe_direct \<Rightarrow>
           and_then (get_required_value ''revert_platform_fee'' (revert_platform_fee refund_request)) (\<lambda>fee.
             Inr (Direct_charge fee))
       | Stripe Stripe_destination \<Rightarrow>
           and_then (get_required_value ''revert_platform_fee'' (revert_platform_fee refund_request)) (\<lambda>fee.
           and_then (get_required_value ''revert_transfer'' (revert_transfer refund_request)) (\<lambda>transfer.
             Inr (Destination_charge fee transfer)))))"

definition check_split_item :: "adyen_split_item list \<Rightarrow> adyen_split_item \<Rightarrow> api_error_response + unit" where
  "check_split_item payment_items item =
     (case find (\<lambda>p. split_reference item = split_reference p) payment_items of
        Some p \<Rightarrow>
          (if (case (split_account item, split_account p) of (Some a, Some b) \<Rightarrow> a \<noteq> b | _ \<Rightarrow> False)
           then Inl (InvalidRequestData (''Invalid refund account for split item, reference: '' @ split_reference item))
           else if split_type item \<noteq> split_type p
           then Inl (InvalidRequestData (''Invalid refund split_type for split item, reference: '' @ split_reference item))
           else Inr ())
      | None \<Rightarrow>
          Inl (InvalidRequestData (''No matching payment split item found for reference: '' @ split_reference item)))"

fun check_split_items :: "adyen_split_item list \<Rightarrow> adyen_split_item list \<Rightarrow> api_error_response + unit" where
  "check_split_items payment_items [] = Inr ()"
| "check_split_items payment_items (item # items) =
     and_then (check_split_item payment_items item) (\<lambda>_. check_split_items payment_items items)"

definition validate_adyen_charge_refund :: "adyen_split_data \<Rightarrow> adyen_split_data \<Rightarrow> api_error_response + unit" where
  "validate_adyen_charge_refund payment request =
     (if split_store request \<noteq> split_store payment
      then Inl (InvalidDataValue ''split_payments.adyen_split_payment.store'')
      else check_split_items (split_items payment) (split_items request))"

text \<open>Of the answer of Xendit only the user of the sub-account is read.\<close>

datatype xendit_charge_response_data = MultipleSplits "string option" | SingleSplit string

fun validate_xendit_charge_refund :: "xendit_charge_response_data \<Rightarrow> string \<Rightarrow> api_error_response + string option" where
  "validate_xendit_charge_refund (MultipleSplits for_user) request_user =
     (if for_user \<noteq> Some request_user
      then Inl (InvalidDataValue ''xendit_split_refund.for_user_id does not match xendit_split_payment.for_user_id'')
      else Inr (Some request_user))"
| "validate_xendit_charge_refund (SingleSplit for_user) request_user =
     (if for_user \<noteq> request_user
      then Inl (InvalidDataValue ''xendit_split_refund.for_user_id does not match xendit_split_payment.for_user_id'')
      else Inr (Some request_user))"

section \<open>Queries\<close>

definition of_processor :: "string \<Rightarrow> refund \<Rightarrow> bool" where
  "of_processor processor_merchant_id r \<longleftrightarrow> rf_processor_merchant_id r = Some processor_merchant_id \<or>
     rf_processor_merchant_id r = None \<and> rf_merchant_id r = processor_merchant_id"

definition find_by_connector_transaction_id :: "string \<Rightarrow> string \<Rightarrow> refund list \<Rightarrow> refund list" where
  "find_by_connector_transaction_id processor_merchant_id transaction_id table =
     filter (\<lambda>r. of_processor processor_merchant_id r \<and> get_id (rf_connector_transaction_id r) = transaction_id) table"

definition find_by_payment_id :: "string \<Rightarrow> string \<Rightarrow> refund list \<Rightarrow> refund list" where
  "find_by_payment_id payment_id processor_merchant_id table =
     filter (\<lambda>r. of_processor processor_merchant_id r \<and> rf_payment_id r = payment_id) table"

text \<open>\<open>(merchant_id, refund_id)\<close> is the primary key of the table.\<close>

definition refund_insert :: "refund \<Rightarrow> refund list \<Rightarrow> database_error + (refund \<times> refund list)" where
  "refund_insert new table =
     (if (rf_merchant_id new, refund_id new) \<in> (\<lambda>r. (rf_merchant_id r, refund_id r)) ` set table
      then Inl Db_UniqueViolation else Inr (new, table @ [new]))"

section \<open>Creating a refund\<close>

record refund_system =
  refunds :: "refund list"
  refund_intent :: refund_intent

text \<open>
  What a request brings: the columns of the attempt and of the two merchants, the amount, the
  identifiers, the configured limits, the clock, and the results of the checks made elsewhere.
\<close>

record refund_request =
  rq_amount :: "minor_unit option"
  rq_refund_id :: "api_error_response + string"
  rq_internal_reference_id :: string
  rq_merchant_id :: "string option"
  rq_processor_merchant_id :: string
  rq_provider_merchant_id :: string
  rq_attempt_transaction_id :: "string option"
  rq_attempt_total_amount :: minor_unit
  rq_attempt_currency :: "currency option"
  rq_attempt_connector :: "string option"
  rq_max_age :: i64
  rq_max_attempts :: nat
  rq_now :: datetime
  rq_split_check :: "api_error_response + unit"
  rq_connector_check :: "api_error_response + unit"

definition total_amount_captured :: "refund_request \<Rightarrow> refund_intent \<Rightarrow> minor_unit" where
  "total_amount_captured rq pi = unwrap_or (amount_captured pi) (rq_attempt_total_amount rq)"

definition is_db_unique_violation :: "storage_error \<Rightarrow> bool" where
  "is_db_unique_violation e =
     (case e of St_DatabaseError d \<Rightarrow> d = Db_UniqueViolation | St_DuplicateValue _ _ \<Rightarrow> True | _ \<Rightarrow> False)"

text \<open>
  Up to the insertion of the refund and its errors. What follows is not part of the definition: the
  execution at the connector, which changes the status of the row, and the update of the intent by
  \<open>update_intent_state_metadata_for_refund\<close>, which runs in a task of its own.
\<close>

definition validate_and_create_refund ::
    "(string \<Rightarrow> string) \<Rightarrow> refund_request \<Rightarrow> minor_unit \<Rightarrow> refund_system \<Rightarrow> api_error_response + (refund \<times> refund_system)" where
  "validate_and_create_refund digest rq amount s =
     (let pi = refund_intent s in
      and_then (rq_split_check rq) (\<lambda>_.
      and_then (rq_refund_id rq) (\<lambda>new_refund_id.
      and_then (when_error (unwrap_or (map_option (\<lambda>m. m \<noteq> rq_processor_merchant_id rq) (rq_merchant_id rq)) False)
                  (InvalidDataFormat ''merchant_id'' ''merchant_id from merchant account'')) (\<lambda>_.
      and_then (ok_or (rq_attempt_transaction_id rq) InternalServerError) (\<lambda>transaction_id.
      let all_refunds = find_by_connector_transaction_id (rq_processor_merchant_id rq) transaction_id (refunds s) in
      and_then (get_required_value ''currency'' (rq_attempt_currency rq)) (\<lambda>_.
      and_then (map_err (\<lambda>_. InvalidDataFormat ''created_at''
                           (''created_at not older than '' @ show_int (sint (rq_max_age rq)) @ '' days''))
                  (validate_payment_order_age (rq_now rq) (ri_created_at pi) (rq_max_age rq))) (\<lambda>_.
      and_then (map_err (\<lambda>_. RefundAmountExceedsPaymentAmount)
                  (validate_refund_amount (get_amount_as_i64 (total_amount_captured rq pi)) all_refunds
                     (get_amount_as_i64 amount))) (\<lambda>_.
      and_then (map_err (\<lambda>_. MaximumRefundCount)
                  (validate_maximum_refund_against_payment_attempt all_refunds (rq_max_attempts rq))) (\<lambda>_.
      and_then (ok_or (rq_attempt_connector rq) InternalServerError) (\<lambda>_.
      and_then (rq_connector_check rq) (\<lambda>_.
      let (stored_id, transaction_data) = form_id_and_data digest transaction_id;
          new = \<lparr>internal_reference_id = rq_internal_reference_id rq,
                 refund_id = new_refund_id,
                 rf_payment_id = ri_payment_id pi,
                 rf_merchant_id = rq_provider_merchant_id rq,
                 rf_processor_merchant_id = Some (rq_processor_merchant_id rq),
                 rf_connector_transaction_id = stored_id,
                 rf_processor_transaction_data = transaction_data,
                 refund_amount = amount,
                 refund_status = RS_Pending\<rparr>
      in case map_err storage_error_from (refund_insert new (refunds s)) of
           Inr (r, table) \<Rightarrow> Inr (r, s\<lparr>refunds := table\<rparr>)
         | Inl e \<Rightarrow> Inl (if is_db_unique_violation e then DuplicateRefundRequest else RefundNotFound))))))))))))"

definition refund_create_core ::
    "(string \<Rightarrow> string) \<Rightarrow> refund_request \<Rightarrow> refund_system \<Rightarrow> api_error_response + (refund \<times> refund_system)" where
  "refund_create_core digest rq s =
     (let pi = refund_intent s in
      and_then (when_error (\<not> (ri_status pi = IS_Succeeded \<or> ri_status pi = IS_PartiallyCaptured))
                  (PaymentUnexpectedState ''refund'' ''status'' (intent_status_to_string (ri_status pi))
                     ''succeeded, partially_captured'')) (\<lambda>_.
      and_then (map_err (\<lambda>_. RefundAmountExceedsPaymentAmount)
                  (validate_amount_against_intent_state_metadata pi (rq_amount rq))) (\<lambda>_.
      and_then (prevent_refund_after_post_capture_void pi) (\<lambda>_.
      and_then (ok_or (case rq_amount rq of Some x \<Rightarrow> Some x | None \<Rightarrow> amount_captured pi) InternalServerError) (\<lambda>amount.
      and_then (when_error (amount \<le> MinorUnit 0) (InvalidDataFormat ''amount'' ''positive integer'')) (\<lambda>_.
        validate_and_create_refund digest rq amount s))))))"

text \<open>
  The totals that the intent keeps of its succeeded refunds and of its disputes. Both functions work
  on the intent \<open>pi\<close> their caller read earlier and write the whole of its metadata back.
\<close>

definition write_state_metadata :: "payment_intent_state_metadata \<Rightarrow> refund_system \<Rightarrow> refund_system" where
  "write_state_metadata md s = s\<lparr>refund_intent := (refund_intent s)\<lparr>state_metadata := Some md\<rparr>\<rparr>"

definition update_intent_state_metadata_for_refund :: "string \<Rightarrow> refund_intent \<Rightarrow> refund_system \<Rightarrow> refund_system" where
  "update_intent_state_metadata_for_refund processor_merchant_id pi s =
     (let all_refunds = find_by_payment_id (ri_payment_id pi) processor_merchant_id (refunds s);
          total = sum_list (map (\<lambda>r. get_amount_as_i64 (refund_amount r))
                    (filter (\<lambda>r. refund_is_success (refund_status r)) all_refunds))
      in write_state_metadata (with_total_refunded_amount (MinorUnit total)
           (unwrap_or (state_metadata pi) state_metadata_default)) s)"

definition update_intent_state_metadata_for_dispute :: "minor_unit \<Rightarrow> refund_intent \<Rightarrow> refund_system \<Rightarrow> refund_system" where
  "update_intent_state_metadata_for_dispute dispute_amount pi s =
     (let md = unwrap_or (state_metadata pi) state_metadata_default;
          disputed = (case total_disputed_amount md of Some am \<Rightarrow> minor_unit_add am dispute_amount | None \<Rightarrow> dispute_amount)
      in write_state_metadata (with_total_disputed_amount disputed md) s)"

end
