(* ===== verification/Capture_Flow.thy ===== *)
theory Capture_Flow
  imports Captures
begin

text \<open>
  What the definitions of \<open>Captures\<close> promise. The identifier of a connector survives being stored,
  hashed or not. The totals of \<open>MultipleCaptureData\<close> are sums over the captures of the attempt in any
  order of the hash map. The step relation runs the requests on one payment one after the other: a
  capture request inserts a capture, writes the count and applies the connector's answer, or stops
  after the insertion; a sync applies the answers about all captures. The invariant says that the
  charged and pending captures never exceed the authorised amount and that the capturable amount is
  exactly what is left.
\<close>

section \<open>Identifiers\<close>

lemma stored_id_reads_back:
  "connector_transaction_id_from digest (get_id (fst (form_id_and_data digest src))) = fst (form_id_and_data digest src)"
  by (simp add: form_id_and_data_def connector_transaction_id_from_def)

lemma formed_id_gives_src:
  "get_txn_id (fst (form_id_and_data digest src)) (snd (form_id_and_data digest src)) = Inr src"
  by (simp add: form_id_and_data_def connector_transaction_id_from_def)

lemma stored_id_length:
  assumes "\<forall>s. length (digest s) = 50" "take 8 src \<noteq> ''hs_hash_''"
  shows "length (get_id (fst (form_id_and_data digest src))) \<le> 128"
  using assms by (simp add: form_id_and_data_def connector_transaction_id_from_def)

lemma response_update_sets_id:
  assumes "form_id_and_data digest src = (i, d)"
  shows "get_optional_connector_transaction_id
           (apply_changeset (capture_update_internal_from now (ResponseUpdate st (Some i) ref d)) c) = Some src"
  using assms formed_id_gives_src [of digest src]
  by (cases i; cases d)
     (auto simp: get_optional_connector_transaction_id_def apply_changeset_def apply_nullable_field_def
        apply_option_field_def)

text \<open>
  The identifier a connector gives is recovered from what is stored of it: the text column read
  back is the identifier that was written, and the identifier with its data column gives the
  connector's identifier, hashed or not. A capture updated with it is found under it, whatever it
  stored before. What is stored in the column has at most 128 bytes when the digest has 50, for every
  identifier that does not itself start with \<open>hs_hash_\<close>.
\<close>

theorem connector_id_roundtrip:
  assumes "\<forall>s. length (digest s) = 50" and "take 8 src \<noteq> ''hs_hash_''"
  shows "(case form_id_and_data digest src of (i, d) \<Rightarrow>
            get_txn_id i d = Inr src
          \<and> connector_transaction_id_from digest (get_id i) = i
          \<and> length (get_id i) \<le> 128
          \<and> get_optional_connector_transaction_id
              (apply_changeset (capture_update_internal_from now (ResponseUpdate st (Some i) ref d)) c) = Some src)"
  using formed_id_gives_src [of digest src] stored_id_reads_back [of digest src]
    stored_id_length [OF assms] response_update_sets_id [of digest src _ _ now st ref c]
  by (auto split: prod.splits)

theorem connector_id_roundtrip_witness:
  "(case form_id_and_data (\<lambda>s. replicate 50 CHR ''0'') (replicate 200 CHR ''a'') of (i, d) \<Rightarrow>
      get_txn_id i d = Inr (replicate 200 CHR ''a'') \<and> length (get_id i) \<le> 128)"
proof -
  have "take 8 (replicate 200 CHR ''a'') \<noteq> ''hs_hash_''" by code_simp
  then show ?thesis
    using connector_id_roundtrip [of "\<lambda>s. replicate 50 CHR ''0''" "replicate 200 CHR ''a''"]
    by (auto split: prod.splits)
qed

section \<open>Totals\<close>

definition blocking :: "capture_status \<Rightarrow> bool" where
  "blocking st \<longleftrightarrow> st = CS_Charged \<or> st = CS_Pending"

definition blocked_of :: "capture \<Rightarrow> int" where
  "blocked_of c = (if blocking (cap_status c) then amount_value (cap_amount c) else 0)"

definition charged_of :: "capture \<Rightarrow> int" where
  "charged_of c = (if cap_status c = CS_Charged then amount_value (cap_amount c) else 0)"

definition sum_captures :: "(capture \<Rightarrow> int) \<Rightarrow> capture list \<Rightarrow> int" where
  "sum_captures f cs = sum_list (map f cs)"

lemma sum_captures_mset: "sum_captures f cs = sum_mset (image_mset f (mset cs))"
  unfolding sum_captures_def by (metis mset_map sum_mset_sum_list)

definition agrees :: "multiple_capture_data \<Rightarrow> capture list \<Rightarrow> bool" where
  "agrees m cs \<longleftrightarrow> mset (all_captures m) = image_mset (\<lambda>c. (capture_id c, c)) (mset cs)"

lemma agrees_cong: "mset cs = mset ds \<Longrightarrow> agrees m cs \<Longrightarrow> agrees m ds"
  by (simp add: agrees_def)

lemma agrees_captures: "agrees m cs \<Longrightarrow> mset (map snd (all_captures m)) = mset cs"
  by (simp add: agrees_def multiset.map_comp comp_def)

lemma agrees_sum: "agrees m cs \<Longrightarrow> sum_captures f (map snd (all_captures m)) = sum_captures f cs"
  using agrees_captures [of m cs] by (simp only: sum_captures_mset)

lemma foldl_amounts:
  "foldl (\<lambda>acc (_, c). minor_unit_add acc (f c)) (MinorUnit w) xs
     = MinorUnit (w + word_of_int (sum_captures (\<lambda>c. amount_value (f c)) (map snd xs)))"
  by (induction xs arbitrary: w) (auto simp: minor_unit_add_def sum_captures_def)

lemma get_total_blocked_amount_sum:
  "get_total_blocked_amount m = MinorUnit (word_of_int (sum_captures blocked_of (map snd (all_captures m))))"
proof -
  have "(\<lambda>c. amount_value (case cap_status c of CS_Charged \<Rightarrow> cap_amount c | CS_Pending \<Rightarrow> cap_amount c
               | CS_Started \<Rightarrow> MinorUnit 0 | CS_Failed \<Rightarrow> MinorUnit 0)) = blocked_of"
    by (auto simp: blocked_of_def blocking_def split: capture_status.splits)
  then show ?thesis by (simp add: get_total_blocked_amount_def foldl_amounts)
qed

lemma get_total_charged_amount_sum:
  "get_total_charged_amount m = MinorUnit (word_of_int (sum_captures charged_of (map snd (all_captures m))))"
proof -
  have "(\<lambda>c. amount_value (case cap_status c of CS_Charged \<Rightarrow> cap_amount c | CS_Pending \<Rightarrow> MinorUnit 0
               | CS_Started \<Rightarrow> MinorUnit 0 | CS_Failed \<Rightarrow> MinorUnit 0)) = charged_of"
    by (auto simp: charged_of_def split: capture_status.splits)
  then show ?thesis by (simp add: get_total_charged_amount_def foldl_amounts)
qed

lemma status_count_fold:
  "map_of (foldl (\<lambda>acc (_, c). AList.map_entry (cap_status c) (\<lambda>n. n + 1) acc) acc xs) st
     = map_option (\<lambda>n. n + of_nat (length (filter (\<lambda>e. cap_status (snd e) = st) xs))) (map_of acc st)"
  by (induction xs arbitrary: acc)
     (auto simp: map_of_map_entry option.map_comp comp_def option.map_ident ac_simps split: option.splits)

lemma get_status_count_exact:
  "map_of (get_status_count m) st = Some (of_nat (length (filter (\<lambda>e. cap_status (snd e) = st) (all_captures m))))"
  by (cases st) (simp_all add: get_status_count_def status_count_fold)

lemma get_attempt_status_exact:
  assumes "agrees m cs" "length cs < 2 ^ 15" "fits_i64 (sum_captures charged_of cs)"
  shows "get_attempt_status m authorized =
           (if amount_value authorized = sum_captures charged_of cs then AS_Charged
            else if CS_Charged \<in> cap_status ` set cs then AS_PartialChargedAndChargeable
            else AS_CaptureInitiated)"
proof -
  let ?n = "length (filter (\<lambda>e. cap_status (snd e) = CS_Charged) (all_captures m))"
  have len: "length (all_captures m) = length cs"
    using agrees_captures [OF assms(1)] by (metis length_map size_mset)
  have n: "?n < 2 ^ 15" 
    using assms(2) length_filter_le [of "\<lambda>e. cap_status (snd e) = CS_Charged" "all_captures m"] len by linarith
  then have "sint (of_nat ?n :: i16) = int ?n" by (simp add: signed_of_nat signed_take_bit_int_eq_self)
  moreover have "0 < ?n \<longleftrightarrow> CS_Charged \<in> cap_status ` set (map snd (all_captures m))"
    by (force simp: filter_empty_conv image_iff)
  moreover have "set (map snd (all_captures m)) = set cs" using agrees_captures [OF assms(1)] by (metis set_mset_mset)
  moreover have "authorized = get_total_charged_amount m \<longleftrightarrow> amount_value authorized = sum_captures charged_of cs"
    unfolding get_total_charged_amount_sum agrees_sum [OF assms(1)]
    by (metis minor_unit.sel minor_unit_of_value sint_of_int_fits [OF assms(3)])
  ultimately show ?thesis by (auto simp: get_attempt_status_def get_status_count_exact)
qed

section \<open>Building and updating\<close>

lemma alist_update_new: "k \<notin> fst ` set al \<Longrightarrow> AList.update k v al = al @ [(k, v)]"
  by (induction al) auto

lemma collect_captures_distinct:
  "distinct (map capture_id cs) \<Longrightarrow> collect_captures cs = map (\<lambda>c. (capture_id c, c)) cs"
  by (induction cs rule: rev_induct) (simp_all add: collect_captures_def alist_update_new image_image)

lemma new_agrees:
  assumes "hash_order ord" "distinct (map capture_id cs)"
  shows "agrees \<lparr>all_captures = ord (collect_captures cs), latest_capture = c, expand_captures = e\<rparr> cs"
  using assms by (simp add: agrees_def hash_order_def collect_captures_distinct)

definition of_attempt :: "capture_attempt \<Rightarrow> capture \<Rightarrow> bool" where
  "of_attempt a c \<longleftrightarrow> authorized_attempt_id c = pa_attempt_id a \<and> cap_merchant_id c = pa_merchant_id a \<and>
     cap_payment_id c = pa_payment_id a"

abbreviation mine :: "capture_attempt \<Rightarrow> capture list \<Rightarrow> capture list" where
  "mine a table \<equiv> filter (of_attempt a) table"

lemma attempt_captures_mset: "mset (attempt_captures a table) = mset (mine a table)"
  by (simp add: attempt_captures_def find_all_by_attempt_def of_attempt_def)

lemma distinct_ids_mset: "mset xs = mset ys \<Longrightarrow> distinct (map capture_id ys) \<Longrightarrow> distinct (map capture_id xs)"
  by (metis mset_eq_imp_distinct_iff mset_map)

lemma distinct_ids_mine: "distinct (map capture_id table) \<Longrightarrow> distinct (map capture_id (mine a table))"
  by (rule distinct_map_filter)

lemma same_id_same_capture:
  "distinct (map capture_id cs) \<Longrightarrow> c \<in> set cs \<Longrightarrow> d \<in> set cs \<Longrightarrow> capture_id c = capture_id d \<Longrightarrow> c = d"
  by (auto simp: distinct_map inj_on_def)

fun update_status :: "capture_update \<Rightarrow> capture_status" where
  "update_status (ResponseUpdate st i r d) = st"
| "update_status (ErrorUpdate st code message reason) = st"

abbreviation changed_by :: "datetime \<Rightarrow> capture_update \<Rightarrow> capture \<Rightarrow> capture" where
  "changed_by now u \<equiv> apply_changeset (capture_update_internal_from now u)"

lemma changed_by_simps [simp]:
  "capture_id (changed_by now u c) = capture_id c"
  "cap_amount (changed_by now u c) = cap_amount c"
  "cap_status (changed_by now u c) = update_status u"
  "of_attempt a (changed_by now u c) = of_attempt a c"
  by (cases u; simp add: apply_changeset_def apply_option_field_def of_attempt_def)+

definition write_row :: "string \<Rightarrow> (capture \<Rightarrow> capture) \<Rightarrow> capture \<Rightarrow> capture" where
  "write_row i f c = (if capture_id c = i then f c else c)"

lemma write_row_id [simp]: "capture_id (write_row i (changed_by now u) c) = capture_id c"
  by (simp add: write_row_def)

lemma filter_one_id:
  "distinct (map capture_id table) \<Longrightarrow> c \<in> set table \<Longrightarrow> filter (\<lambda>d. capture_id d = capture_id c) table = [c]"
proof (induction table)
  case (Cons d table)
  then show ?case by (auto simp: filter_empty_conv image_iff)
qed simp

lemma update_with_capture_id_row:
  assumes "distinct (map capture_id table)" "c \<in> set table" "capture_id this = capture_id c"
  shows "update_with_capture_id now this u table =
           Inr (changed_by now u c, map (write_row (capture_id c) (changed_by now u)) table)"
  using filter_one_id [OF assms(1,2)] assms(3)
  by (simp add: update_with_capture_id_def write_row_def [abs_def] Let_def)

lemma update_capture_agrees:
  assumes "agrees m cs" "distinct (map capture_id cs)" "c \<in> set cs"
  shows "agrees (update_capture m (changed_by now u c)) (map (write_row (capture_id c) (changed_by now u)) cs)"
proof -
  let ?i = "capture_id c" and ?f = "changed_by now u"
  let ?h = "\<lambda>(k, d). (k, if k = ?i then ?f c else d)"
  have "all_captures (update_capture m (?f c)) = map ?h (all_captures m)"
    by (auto simp: update_capture_def Let_def image_iff intro!: map_idI [symmetric])
  then have "mset (all_captures (update_capture m (?f c))) = image_mset (\<lambda>d. ?h (capture_id d, d)) (mset cs)"
    using assms(1) by (simp add: agrees_def multiset.map_comp comp_def)
  also have "\<dots> = image_mset (\<lambda>d. (capture_id d, write_row ?i ?f d)) (mset cs)"
    by (rule image_mset_cong) (use assms(2,3) same_id_same_capture in \<open>auto simp: write_row_def\<close>)
  also have "\<dots> = image_mset (\<lambda>d. (capture_id d, d)) (mset (map (write_row ?i ?f) cs))"
    by (simp add: multiset.map_comp comp_def)
  finally show ?thesis by (simp add: agrees_def)
qed

lemma mine_write_row: "mine a (map (write_row i (changed_by now u)) table) = map (write_row i (changed_by now u)) (mine a table)"
  by (induction table) (auto simp: write_row_def)

subsection \<open>A list of updates\<close>

text \<open>A row keeps its identity; its status stays or is the one of an update addressed to it.\<close>

definition touched :: "(capture \<times> capture_update) list \<Rightarrow> capture \<Rightarrow> capture \<Rightarrow> bool" where
  "touched us c d \<longleftrightarrow> capture_id d = capture_id c \<and> cap_amount d = cap_amount c \<and> (\<forall>a. of_attempt a d = of_attempt a c)
     \<and> (cap_status d = cap_status c \<or> (\<exists>(e, u) \<in> set us. capture_id e = capture_id c \<and> cap_status d = update_status u))"

lemma touched_refl: "list_all2 (touched us) cs cs"
  by (simp add: list_all2_same touched_def)

lemma touched_trans: "touched us c d \<Longrightarrow> touched us d e \<Longrightarrow> touched us c e"
  by (auto simp: touched_def)

lemma touched_all_trans:
  "list_all2 (touched us) cs ds \<Longrightarrow> list_all2 (touched us) ds es \<Longrightarrow> list_all2 (touched us) cs es"
  using touched_trans by (auto simp: list_all2_conv_all_nth)

lemma touched_write_row:
  assumes "(e, u) \<in> set us" "capture_id e = i"
  shows "touched us c (write_row i (changed_by now u) c)"
  using assms by (auto simp: touched_def write_row_def)

lemma apply_capture_updates_ok:
  assumes "distinct (map capture_id table)" "agrees m (mine a table)"
    and "\<forall>(c, u) \<in> set us. capture_id c \<in> capture_id ` set (mine a table)"
  shows "\<exists>table' m'. apply_capture_updates now us (table, m) = Inr (table', m') \<and>
           list_all2 (touched us) table table' \<and> distinct (map capture_id table') \<and> agrees m' (mine a table') \<and>
           map capture_id table' = map capture_id table"
  using assms
proof (induction us arbitrary: table m)
  case Nil
  then show ?case by (simp add: touched_refl)
next
  case (Cons x us)
  obtain e u where x: "x = (e, u)" by force
  then obtain c where c: "c \<in> set (mine a table)" "capture_id e = capture_id c" using Cons.prems(3) by auto
  let ?w = "write_row (capture_id c) (changed_by (now (length us)) u)"
  let ?m = "update_capture m (changed_by (now (length us)) u c)"
  have ids: "map capture_id (map ?w table) = map capture_id table" by simp
  have ag: "agrees ?m (mine a (map ?w table))"
    unfolding mine_write_row using Cons.prems(1,2) c(1) by (intro update_capture_agrees distinct_ids_mine)
  have "capture_id ` set (mine a (map ?w table)) = capture_id ` set (mine a table)"
    unfolding mine_write_row by (simp add: image_image)
  then have known: "\<forall>(c, u) \<in> set us. capture_id c \<in> capture_id ` set (mine a (map ?w table))"
    using Cons.prems(3) by simp
  have "distinct (map capture_id (map ?w table))" unfolding ids by (rule Cons.prems(1))
  from Cons.IH [OF this ag known] obtain table' m' where r: "apply_capture_updates now us (map ?w table, ?m) = Inr (table', m')"
      "list_all2 (touched us) (map ?w table) table'" "distinct (map capture_id table')"
      "agrees m' (mine a table')" "map capture_id table' = map capture_id (map ?w table)"
    by blast
  have "list_all2 (touched (x # us)) table (map ?w table)"
    using touched_write_row [of e u "x # us" "capture_id c"] x c(2) by (simp add: list_all2_conv_all_nth)
  moreover have "list_all2 (touched (x # us)) (map ?w table) table'"
    using r(2) by (rule list_all2_mono) (auto simp: touched_def)
  ultimately have "list_all2 (touched (x # us)) table table'"
    by (rule touched_all_trans)
  moreover have "apply_capture_updates now (x # us) (table, m) = Inr (table', m')"
    using update_with_capture_id_row [OF Cons.prems(1), of c e] c r(1) x by simp
  ultimately show ?case using r(3-5) ids by metis
qed

lemma list_all2_sum_le:
  fixes f g :: "capture \<Rightarrow> int"
  assumes "list_all2 R cs ds" "\<And>c d. c \<in> set cs \<Longrightarrow> R c d \<Longrightarrow> f d \<le> g c"
  shows "sum_captures f ds \<le> sum_captures g cs"
  using assms by (induction rule: list_all2_induct) (fastforce simp: sum_captures_def)+

lemma sum_one_id:
  "distinct (map capture_id cs) \<Longrightarrow> c \<in> set cs \<Longrightarrow>
     sum_captures (\<lambda>d. f d + (if d = c then x else 0)) cs = sum_captures f cs + x"
proof (induction cs)
  case (Cons d cs)
  then have "d = c \<Longrightarrow> c \<notin> set cs" by auto
  then have "d = c \<Longrightarrow> sum_captures (\<lambda>d. f d + (if d = c then x else 0)) cs = sum_captures f cs"
    unfolding sum_captures_def by (intro arg_cong [where f = sum_list] map_cong) auto
  then show ?case using Cons by (auto simp: sum_captures_def)
qed simp

lemma touched_mine:
  "list_all2 (touched us) table table' \<Longrightarrow> list_all2 (touched us) (mine a table) (mine a table')"
  by (induction rule: list_all2_induct) (auto simp: touched_def)

lemma blocked_of_bounds: "0 < amount_value (cap_amount c) \<Longrightarrow> 0 \<le> blocked_of c \<and> blocked_of c \<le> amount_value (cap_amount c)"
  by (simp add: blocked_of_def)

lemma touched_amounts:
  "list_all2 (touched us) cs ds \<Longrightarrow> \<forall>c \<in> set cs. P (cap_amount c) \<Longrightarrow> \<forall>d \<in> set ds. P (cap_amount d)"
  by (induction rule: list_all2_induct) (auto simp: touched_def)

section \<open>Answers about all captures\<close>

text \<open>The connector reports no capture as charged or pending that is recorded as failed or unanswered.\<close>

definition keeps_failed ::
    "(string \<Rightarrow> string) \<Rightarrow> multiple_capture_data \<Rightarrow> (string \<times> capture_sync_response) list \<Rightarrow> bool" where
  "keeps_failed digest m rs \<longleftrightarrow>
     (\<forall>(i, r) \<in> set rs. \<forall>c u. get_capture_by_connector_capture_id m i = Some c \<longrightarrow>
        capture_update_try_from digest r = Inr u \<longrightarrow> blocking (update_status u) \<longrightarrow> blocking (cap_status c))"

definition sound_updates :: "capture list \<Rightarrow> (capture \<times> capture_update) list \<Rightarrow> bool" where
  "sound_updates cs us \<longleftrightarrow>
     (\<forall>(c, u) \<in> set us. c \<in> set cs \<and> (blocking (update_status u) \<longrightarrow> blocking (cap_status c)))"

lemma unmapped_updates_sound:
  assumes "unmapped_updates digest cs rs = Inr us" "\<forall>c \<in> set cs. c \<in> set ds \<and> blocking (cap_status c)"
  shows "sound_updates ds us"
  using assms
proof (induction rs arbitrary: us)
  case (Cons r rs)
  then show ?case
    by (auto simp: sound_updates_def and_then_eq_Inr find_Some_iff split: option.splits)
qed (simp add: sound_updates_def)

lemma found_by_connector_id: "get_capture_by_connector_capture_id m i = Some c \<Longrightarrow> c \<in> set (map snd (all_captures m))"
  by (auto simp: get_capture_by_connector_capture_id_def find_Some_iff) (metis nth_mem snd_conv imageI)

lemma mapped_updates_sound:
  assumes "mapped_updates digest m rs = Inr (us, un)" "keeps_failed digest m rs"
  shows "sound_updates (map snd (all_captures m)) us"
  using assms
proof (induction digest m rs arbitrary: us un rule: mapped_updates.induct)
  case (2 digest m i r rs)
  have rest: "keeps_failed digest m rs" using 2(4) by (simp add: keeps_failed_def)
  show ?case
  proof (cases "get_capture_by_connector_capture_id m i")
    case None
    then show ?thesis using 2(1) [OF None _ rest] 2(3) by (auto simp: and_then_eq_Inr)
  next
    case (Some c)
    then obtain u vs where "capture_update_try_from digest r = Inr u" "mapped_updates digest m rs = Inr (vs, un)"
        "us = (c, u) # vs"
      using 2(3) by (auto simp: and_then_eq_Inr)
    then show ?thesis
      using 2(2) [OF Some _ rest] 2(4) found_by_connector_id [OF Some] Some
      by (auto simp: sound_updates_def keeps_failed_def)
  qed
qed (simp add: sound_updates_def)

lemma response_to_capture_update_sound:
  assumes "response_to_capture_update digest m rs = Inr us" "keeps_failed digest m rs"
  shows "sound_updates (map snd (all_captures m)) us"
proof -
  obtain vs un ws where "mapped_updates digest m rs = Inr (vs, un)"
      "unmapped_updates digest (get_pending_captures_without_connector_capture_id m) un = Inr ws" "us = vs @ ws"
    using assms(1)
    by (auto simp: response_to_capture_update_def and_then_eq_Inr get_capture_update_for_unmapped_capture_responses_def)
  moreover have "\<forall>c \<in> set (get_pending_captures_without_connector_capture_id m).
      c \<in> set (map snd (all_captures m)) \<and> blocking (cap_status c)"
    by (auto simp: get_pending_captures_without_connector_capture_id_def get_pending_captures_def blocking_def)
  ultimately show ?thesis
    using mapped_updates_sound assms(2) unmapped_updates_sound by (fastforce simp: sound_updates_def)
qed

section \<open>Requests on one payment\<close>

inductive capture_step :: "(string \<Rightarrow> string) \<Rightarrow> capture_system \<Rightarrow> capture_system \<Rightarrow> bool" for digest where
  begin_capture:
    "flow_data s = None \<Longrightarrow> hash_order ord \<Longrightarrow> start_capture now ord request_amount s = Inr s' \<Longrightarrow>
     capture_step digest s s'"
| count_captures:
    "write_capture_count s = Inr s' \<Longrightarrow> capture_step digest s s'"
| answer:
    "flow_data s = Some m \<Longrightarrow> capture_response_update digest resource_id status reference_id = Inr u \<Longrightarrow>
     finish_capture_updates now m [(latest_capture m, u)] s = Inr s' \<Longrightarrow> capture_step digest s s'"
| answer_error:
    "flow_data s = Some m \<Longrightarrow>
     finish_capture_updates now m [(latest_capture m, capture_error_update status_code code message reason)] s = Inr s' \<Longrightarrow>
     capture_step digest s s'"
| stop:
    "capture_step digest s (s\<lparr>flow_data := None\<rparr>)"
| sync:
    "flow_data s = None \<Longrightarrow> hash_order ord \<Longrightarrow>
     new_for_sync ord (attempt_captures (attempt s) (captures s)) expand = Inr m \<Longrightarrow>
     response_to_capture_update digest m responses = Inr us \<Longrightarrow> keeps_failed digest m responses \<Longrightarrow>
     finish_capture_updates now m us s = Inr s' \<Longrightarrow> capture_step digest s s'"

definition authorized :: "capture_system \<Rightarrow> int" where
  "authorized s = amount_value (attempt_authorized_amount (attempt s))"

abbreviation own :: "capture_system \<Rightarrow> capture list" where
  "own s \<equiv> mine (attempt s) (captures s)"

definition capture_initial :: "capture_system \<Rightarrow> bool" where
  "capture_initial s \<longleftrightarrow> distinct (map capture_id (captures s)) \<and> own s = [] \<and> flow_data s = None \<and>
     0 \<le> authorized s \<and> amount_capturable (attempt s) = attempt_authorized_amount (attempt s)"

definition table_ok :: "capture_system \<Rightarrow> bool" where
  "table_ok s \<longleftrightarrow> distinct (map capture_id (captures s)) \<and> (\<forall>c \<in> set (own s). 0 < amount_value (cap_amount c))"

definition amounts_ok :: "capture_system \<Rightarrow> bool" where
  "amounts_ok s \<longleftrightarrow> sum_captures blocked_of (own s) \<le> authorized s \<and>
     amount_value (amount_capturable (attempt s)) = authorized s - sum_captures blocked_of (own s)"

definition flow_ok :: "capture_system \<Rightarrow> bool" where
  "flow_ok s \<longleftrightarrow> (\<forall>m. flow_data s = Some m \<longrightarrow> agrees m (own s) \<and> latest_capture m \<in> set (own s) \<and>
     cap_status (latest_capture m) = CS_Started \<and>
     amount_value (cap_amount (latest_capture m)) \<le> amount_value (amount_capturable (attempt s)))"

lemma blocked_sum_nonneg: "table_ok s \<Longrightarrow> 0 \<le> sum_captures blocked_of (own s)"
  unfolding sum_captures_def by (rule sum_list_nonneg) (auto simp: table_ok_def blocked_of_def)

text \<open>The attempt keeps its identity and its authorised amount.\<close>

definition same_attempt :: "capture_attempt \<Rightarrow> capture_attempt \<Rightarrow> bool" where
  "same_attempt a b \<longleftrightarrow> of_attempt b = of_attempt a \<and> attempt_authorized_amount b = attempt_authorized_amount a"

lemma update_attempt_amounts_same: "same_attempt a (update_attempt_amounts m a)"
  by (simp add: same_attempt_def of_attempt_def [abs_def] attempt_authorized_amount_def update_attempt_amounts_def Let_def
      split: option.splits)

lemma amount_value_sub:
  "fits_i64 (amount_value a - amount_value b) \<Longrightarrow> amount_value (minor_unit_sub a b) = amount_value a - amount_value b"
  by (simp add: minor_unit_sub_def fits_i64_def sint_word_ariths signed_take_bit_int_eq_self)

lemma finish_capture_updates_ok:
  assumes s: "table_ok s" and m: "agrees m (own s)"
    and us: "\<forall>(c, u) \<in> set us. capture_id c \<in> capture_id ` set (own s)"
    and bound: "\<And>ds. list_all2 (touched us) (own s) ds \<Longrightarrow> sum_captures blocked_of ds \<le> authorized s"
  shows "\<exists>s'. finish_capture_updates now m us s = Inr s' \<and> table_ok s' \<and> amounts_ok s' \<and> flow_ok s' \<and>
           flow_data s' = None \<and> same_attempt (attempt s) (attempt s')"
proof -
  obtain table' m' where r: "apply_capture_updates now us (captures s, m) = Inr (table', m')"
      "list_all2 (touched us) (captures s) table'" "distinct (map capture_id table')" "agrees m' (mine (attempt s) table')"
    using apply_capture_updates_ok [OF _ m us] s unfolding table_ok_def by blast
  let ?s = "s\<lparr>captures := table', attempt := update_attempt_amounts m' (attempt s), flow_data := None\<rparr>"
  let ?B = "sum_captures blocked_of (mine (attempt s) table')"
  have same: "same_attempt (attempt s) (attempt ?s)" using update_attempt_amounts_same by simp
  then have own: "own ?s = mine (attempt s) table'" and auth: "authorized ?s = authorized s"
    by (simp_all add: same_attempt_def authorized_def)
  have t: "table_ok ?s"
    using touched_amounts [OF touched_mine [OF r(2), of "attempt s"], of "\<lambda>x. 0 < amount_value x"] s r(3)
    unfolding table_ok_def own by simp
  have le: "?B \<le> authorized s" by (rule bound [OF touched_mine [OF r(2)]])
  moreover have nonneg: "0 \<le> ?B" using blocked_sum_nonneg [OF t] unfolding own .
  ultimately have fit: "fits_i64 ?B" "fits_i64 (authorized s - ?B)"
    using amount_value_fits [of "attempt_authorized_amount (attempt s)"]
    by (simp_all add: fits_i64_def authorized_def)
  have "get_total_blocked_amount m' = MinorUnit (word_of_int ?B)"
    unfolding get_total_blocked_amount_sum agrees_sum [OF r(4)] ..
  then have "amount_value (amount_capturable (attempt ?s)) = authorized s - ?B"
    using fit amount_value_sub [of "attempt_authorized_amount (attempt s)" "MinorUnit (word_of_int ?B)"]
    by (simp add: update_attempt_amounts_def Let_def authorized_def sint_of_int_fits)
  then have "amounts_ok ?s" using le unfolding amounts_ok_def own auth by simp
  moreover have "finish_capture_updates now m us s = Inr ?s" using r(1) by (simp add: finish_capture_updates_def)
  ultimately show ?thesis using t same by (auto simp: flow_ok_def)
qed

lemma start_capture_Inr:
  assumes "start_capture now ord request_amount s = Inr s'"
  obtains x new where "request_amount = Some x" "0 < amount_value x" "amount_value x \<le> amount_value (amount_capturable (attempt s))"
    "make_new_capture now (attempt s) x CS_Started = Inr new" "capture_id new \<notin> capture_id ` set (captures s)"
    "s' = s\<lparr>captures := captures s @ [new],
            flow_data := Some (new_for_create ord (attempt_captures (attempt s) (captures s)) new)\<rparr>"
  using assms
  by (auto simp: start_capture_def Let_def and_then_eq_Inr get_required_value_def validate_amount_to_capture_def
      when_error_def capture_insert_def split: if_splits)

lemma make_new_capture_fields:
  assumes "make_new_capture now a x st = Inr new"
  shows "of_attempt a new" "cap_status new = st" "cap_amount new = x" "capture_id new = get_next_capture_id a"
  using assms by (auto simp: make_new_capture_def and_then_eq_Inr of_attempt_def)

lemma begin_capture_ok:
  assumes s: "table_ok s" "amounts_ok s" and "hash_order ord" "start_capture now ord request_amount s = Inr s'"
  shows "table_ok s' \<and> amounts_ok s' \<and> flow_ok s' \<and> attempt s' = attempt s"
proof -
  let ?old = "attempt_captures (attempt s) (captures s)"
  obtain x new where x: "0 < amount_value x" "amount_value x \<le> amount_value (amount_capturable (attempt s))"
      and new: "make_new_capture now (attempt s) x CS_Started = Inr new" "capture_id new \<notin> capture_id ` set (captures s)"
      and s': "s' = s\<lparr>captures := captures s @ [new], flow_data := Some (new_for_create ord ?old new)\<rparr>"
    using assms(4) by (rule start_capture_Inr)
  note f = make_new_capture_fields [OF new(1)]
  have own: "own s' = own s @ [new]" using f(1) by (simp add: s')
  have t: "table_ok s'" using s(1) new(2) x(1) f(3) unfolding table_ok_def own by (simp add: s')
  have b: "sum_captures blocked_of (own s') = sum_captures blocked_of (own s)"
    unfolding own using f(2) by (simp add: sum_captures_def blocked_of_def blocking_def)
  then have "amounts_ok s'" using s(2) by (simp add: amounts_ok_def authorized_def s')
  moreover have "agrees (new_for_create ord ?old new) (own s')"
  proof -
    have m: "mset (?old @ [new]) = mset (own s')" by (simp add: attempt_captures_mset own)
    have "distinct (map capture_id (own s'))" using t distinct_ids_mine unfolding table_ok_def by blast
    then have "distinct (map capture_id (?old @ [new]))" using m distinct_ids_mset by blast
    from new_agrees [OF assms(3) this] show ?thesis
      unfolding new_for_create_def by (rule agrees_cong [OF m])
  qed
  ultimately show ?thesis
    using t f(2,3) x(2) own by (auto simp: flow_ok_def s' new_for_create_def)
qed

lemma own_update_ok:
  assumes s: "table_ok s" "amounts_ok s" "flow_ok s" and m: "flow_data s = Some m"
  shows "\<exists>s'. finish_capture_updates now m [(latest_capture m, u)] s = Inr s' \<and> table_ok s' \<and> amounts_ok s' \<and> flow_ok s' \<and>
           flow_data s' = None \<and> same_attempt (attempt s) (attempt s')"
proof (rule finish_capture_updates_ok [OF s(1)])
  let ?c = "latest_capture m"
  have c: "agrees m (own s)" "?c \<in> set (own s)" "cap_status ?c = CS_Started"
      "amount_value (cap_amount ?c) \<le> amount_value (amount_capturable (attempt s))"
    using s(3) m by (auto simp: flow_ok_def)
  show "agrees m (own s)" by (rule c)
  show "\<forall>(c, u') \<in> set [(?c, u)]. capture_id c \<in> capture_id ` set (own s)" using c(2) by auto
  have d: "distinct (map capture_id (own s))" using s(1) distinct_ids_mine unfolding table_ok_def by blast
  show "sum_captures blocked_of ds \<le> authorized s" if "list_all2 (touched [(?c, u)]) (own s) ds" for ds
  proof -
    have "sum_captures blocked_of ds
        \<le> sum_captures (\<lambda>c. blocked_of c + (if c = ?c then amount_value (cap_amount ?c) else 0)) (own s)"
      using that
    proof (rule list_all2_sum_le)
      fix e e' assume e: "e \<in> set (own s)" and t: "touched [(?c, u)] e e'"
      have pos: "0 < amount_value (cap_amount e)" using s(1) e unfolding table_ok_def by blast
      show "blocked_of e' \<le> blocked_of e + (if e = ?c then amount_value (cap_amount ?c) else 0)"
      proof (cases "e = ?c")
        case True
        then show ?thesis using t pos c(3) by (auto simp: touched_def blocked_of_def blocking_def)
      next
        case False
        then have "capture_id ?c \<noteq> capture_id e" using same_id_same_capture [OF d e c(2)] by auto
        then show ?thesis using t False by (auto simp: touched_def blocked_of_def)
      qed
    qed
    also have "\<dots> = sum_captures blocked_of (own s) + amount_value (cap_amount ?c)"
      by (rule sum_one_id [OF d c(2)])
    also have "\<dots> \<le> authorized s" using c(4) s(2) by (simp add: amounts_ok_def)
    finally show ?thesis .
  qed
qed

lemma sync_update_ok:
  assumes s: "table_ok s" "amounts_ok s" and m: "agrees m (own s)" and us: "sound_updates (own s) us"
  shows "\<exists>s'. finish_capture_updates now m us s = Inr s' \<and> table_ok s' \<and> amounts_ok s' \<and> flow_ok s' \<and>
           flow_data s' = None \<and> same_attempt (attempt s) (attempt s')"
proof (rule finish_capture_updates_ok [OF s(1) m])
  show "\<forall>(c, u) \<in> set us. capture_id c \<in> capture_id ` set (own s)" using us by (auto simp: sound_updates_def)
  have d: "distinct (map capture_id (own s))" using s(1) distinct_ids_mine unfolding table_ok_def by blast
  show "sum_captures blocked_of ds \<le> authorized s" if "list_all2 (touched us) (own s) ds" for ds
  proof -
    have "sum_captures blocked_of ds \<le> sum_captures blocked_of (own s)"
      using that
    proof (rule list_all2_sum_le)
      fix e e' assume e: "e \<in> set (own s)" and t: "touched us e e'"
      have pos: "0 < amount_value (cap_amount e)" using s(1) e unfolding table_ok_def by blast
      have "blocking (cap_status e') \<Longrightarrow> blocking (cap_status e)"
        using t us e same_id_same_capture [OF d e] unfolding touched_def sound_updates_def by fastforce
      then show "blocked_of e' \<le> blocked_of e" using t pos by (auto simp: touched_def blocked_of_def)
    qed
    then show ?thesis using s(2) by (simp add: amounts_ok_def)
  qed
qed

lemma sync_agrees:
  assumes "table_ok s" "hash_order ord" "new_for_sync ord (attempt_captures (attempt s) (captures s)) expand = Inr m"
  shows "agrees m (own s)"
proof -
  let ?cs = "attempt_captures (attempt s) (captures s)"
  have "distinct (map capture_id ?cs)"
    using assms(1) distinct_ids_mset [OF attempt_captures_mset] distinct_ids_mine unfolding table_ok_def by blast
  from new_agrees [OF assms(2) this] have "agrees m ?cs"
    using assms(3) by (auto simp: new_for_sync_def split: if_splits)
  then show ?thesis by (rule agrees_cong [OF attempt_captures_mset])
qed

lemma sound_updates_cong: "set cs = set ds \<Longrightarrow> sound_updates cs us \<Longrightarrow> sound_updates ds us"
  by (simp add: sound_updates_def)

lemma write_capture_count_frame:
  assumes "write_capture_count s = Inr s'"
  shows "captures s' = captures s \<and> flow_data s' = flow_data s \<and>
    amount_capturable (attempt s') = amount_capturable (attempt s) \<and> same_attempt (attempt s) (attempt s')"
proof (cases "flow_data s")
  case None
  then show ?thesis using assms by (simp add: write_capture_count_def same_attempt_def)
next
  case (Some m)
  then obtain n where "s' = s\<lparr>attempt := (attempt s)\<lparr>multiple_capture_count := Some n\<rparr>\<rparr>"
    using assms by (auto simp: write_capture_count_def and_then_eq_Inr)
  then show ?thesis
    by (simp add: same_attempt_def of_attempt_def [abs_def] attempt_authorized_amount_def split: option.splits)
qed

lemma capture_step_ok:
  assumes "capture_step digest s s'" "table_ok s" "amounts_ok s" "flow_ok s"
  shows "table_ok s' \<and> amounts_ok s' \<and> flow_ok s' \<and> same_attempt (attempt s) (attempt s')"
  using assms
proof (cases rule: capture_step.cases)
  case (begin_capture ord now request_amount)
  show ?thesis using begin_capture_ok [OF assms(2,3) begin_capture(2,3)] by (simp add: same_attempt_def)
next
  case count_captures
  have "captures s' = captures s" "flow_data s' = flow_data s" "amount_capturable (attempt s') = amount_capturable (attempt s)"
      and a: "same_attempt (attempt s) (attempt s')"
    using write_capture_count_frame [OF count_captures] by auto
  moreover have "authorized s' = authorized s" "own s' = own s"
    using calculation by (simp_all add: authorized_def same_attempt_def)
  ultimately show ?thesis using assms(2-4) by (simp add: table_ok_def amounts_ok_def flow_ok_def)
next
  case (answer m resource_id status reference_id u now)
  then show ?thesis using own_update_ok [OF assms(2-4) answer(1), of now u] by auto
next
  case (answer_error m now status_code code message reason)
  then show ?thesis
    using own_update_ok [OF assms(2-4) answer_error(1), of now "capture_error_update status_code code message reason"] by auto
next
  case stop
  show ?thesis
    using assms(2,3) unfolding stop table_ok_def amounts_ok_def flow_ok_def authorized_def same_attempt_def by simp
next
  case (sync ord expand m responses us now)
  have m: "agrees m (own s)" by (rule sync_agrees [OF assms(2) sync(2,3)])
  then have "set (map snd (all_captures m)) = set (own s)" using agrees_captures by (metis set_mset_mset)
  then have "sound_updates (own s) us"
    by (rule sound_updates_cong [OF _ response_to_capture_update_sound [OF sync(4,5)]])
  then show ?thesis using sync_update_ok [OF assms(2,3) m, of us now] sync by auto
qed

lemma capture_steps_ok:
  assumes "(capture_step digest)\<^sup>*\<^sup>* s0 s" "capture_initial s0"
  shows "table_ok s \<and> amounts_ok s \<and> flow_ok s \<and> same_attempt (attempt s0) (attempt s)"
  using assms
proof (induction rule: rtranclp_induct)
  case base
  then show ?case
    by (auto simp: capture_initial_def table_ok_def amounts_ok_def flow_ok_def same_attempt_def sum_captures_def authorized_def)
next
  case (step s s')
  then have "table_ok s" "amounts_ok s" "flow_ok s" and a: "same_attempt (attempt s0) (attempt s)" by auto
  from capture_step_ok [OF step.hyps(2) this(1-3)] a show ?case by (auto simp: same_attempt_def)
qed


definition sample_attempt :: capture_attempt where
  "sample_attempt = \<lparr>pa_attempt_id = ''pay_1'', pa_payment_id = ''pay'', pa_merchant_id = ''m'', pa_connector = Some ''adyen'',
     pa_currency = None, pa_status = AS_Authorized, multiple_capture_count = None, amount_capturable = MinorUnit 100,
     authorized_amount = None, total_amount = MinorUnit 100\<rparr>"

definition sample_system :: capture_system where
  "sample_system = \<lparr>captures = [], attempt = sample_attempt, flow_data = None\<rparr>"

definition sample_started :: capture_system where
  "sample_started = projr (start_capture 0 id (Some (MinorUnit 60)) sample_system)"

definition sample_update :: capture_update where
  "sample_update = projr (capture_response_update id (ConnectorTransactionId ''psp_1'') AS_Charged None)"

definition sample_captured :: capture_system where
  "sample_captured =
     projr (finish_capture_updates (\<lambda>_. 1) (the (flow_data sample_started))
              [(latest_capture (the (flow_data sample_started)), sample_update)] sample_started)"

lemma sample_captured_reached: "(capture_step id)\<^sup>*\<^sup>* sample_system sample_captured"
proof -
  have "capture_step id sample_system sample_started"
  proof (rule begin_capture)
    show "flow_data sample_system = None" by (simp add: sample_system_def)
    show "hash_order id" by (simp add: hash_order_def)
    show "start_capture 0 id (Some (MinorUnit 60)) sample_system = Inr sample_started"
      unfolding sample_started_def by code_simp
  qed
  moreover have "capture_step id sample_started sample_captured"
  proof (rule answer)
    show "flow_data sample_started = Some (the (flow_data sample_started))" by code_simp
    show "capture_response_update id (ConnectorTransactionId ''psp_1'') AS_Charged None = Inr sample_update"
      unfolding sample_update_def by code_simp
    show "finish_capture_updates (\<lambda>_. 1) (the (flow_data sample_started))
            [(latest_capture (the (flow_data sample_started)), sample_update)] sample_started = Inr sample_captured"
      unfolding sample_captured_def by code_simp
  qed
  ultimately show ?thesis by (meson converse_rtranclp_into_rtranclp rtranclp.rtrancl_refl)
qed


section \<open>Where the requests fall short\<close>

text \<open>
  A request that ends between the insertion of its capture and the writing of the count leaves a
  capture under the number that every later request computes, so these are refused with an internal
  error: the error of the store is mapped by \<open>to_not_found_response\<close>, which never gives the
  \<open>DuplicatePayment\<close> it is called with.
\<close>

theorem interrupted_capture_refuses_next:
  assumes "start_capture now ord (Some x) s = Inr s'"
    and "0 < amount_value y" and "amount_value y \<le> amount_value (amount_capturable (attempt s))"
  shows "start_capture now' ord' (Some y) (s'\<lparr>flow_data := None\<rparr>) = Inl InternalServerError"
proof -
  obtain new where new: "make_new_capture now (attempt s) x CS_Started = Inr new"
      "captures s' = captures s @ [new]" "attempt s' = attempt s"
    using assms(1) by (rule start_capture_Inr) auto
  then obtain new' where "make_new_capture now' (attempt s) y CS_Started = Inr new'"
    by (auto simp: make_new_capture_def and_then_eq_Inr)
  moreover have "capture_id new' = capture_id new"
    using make_new_capture_fields(4) [OF new(1)] make_new_capture_fields(4) [OF calculation] by simp
  ultimately show ?thesis
    using assms(2,3) new(2,3)
    by (simp add: start_capture_def get_required_value_def validate_amount_to_capture_def when_error_def capture_insert_def)
qed

text \<open>
  Two answers of the same amount that carry no reference are both given to the first pending capture
  of that amount; the second capture gets neither.
\<close>

theorem equal_amounts_share_capture:
  assumes "get_amount_captured r1 = Some (cap_amount c)" "get_amount_captured r2 = Some (cap_amount c)"
    and "capture_update_try_from digest r1 = Inr u1" "capture_update_try_from digest r2 = Inr u2"
  shows "unmapped_updates digest (c # d # cs) [r1, r2] = Inr [(c, u1), (c, u2)]"
  using assms by simp

end
