(* ===== verification/Refund_Flow.thy ===== *)
theory Refund_Flow
  imports Refunds Capture_Flow
begin

text \<open>
  Refund requests on one payment that follow each other, with the answers of the connector and the
  bookkeeping in between. A refund counts against the captured amount unless it failed.
\<close>

section \<open>Amounts\<close>

definition failed :: "refund_status \<Rightarrow> bool" where
  "failed st \<longleftrightarrow> st = RS_Failure \<or> st = RS_TransactionFailure"

definition counted :: "refund \<Rightarrow> int" where
  "counted r = (if failed (refund_status r) then 0 else amount_value (refund_amount r))"

lemma refunded_amount_sum:
  "sum_list (List.map_filter refunded_amount rs) = word_of_int (\<Sum>r \<leftarrow> rs. counted r)"
  by (induction rs) (auto simp: map_filter_simps refunded_amount_def counted_def failed_def)

lemma counted_sum_nonneg: "\<forall>r \<in> set rs. 0 < amount_value (refund_amount r) \<Longrightarrow> 0 \<le> (\<Sum>r \<leftarrow> rs. counted r)"
  by (intro sum_list_nonneg) (auto simp: counted_def)

lemma validate_refund_amount_exact:
  assumes "\<forall>r \<in> set rs. 0 < amount_value (refund_amount r)" "(\<Sum>r \<leftarrow> rs. counted r) \<le> sint captured"
  shows "validate_refund_amount captured rs am = Inr () \<longleftrightarrow> sint am \<le> sint captured - (\<Sum>r \<leftarrow> rs. counted r)"
proof -
  let ?n = "\<Sum>r \<leftarrow> rs. counted r"
  have "0 \<le> ?n" by (rule counted_sum_nonneg [OF assms(1)])
  moreover have "fits_i64 (sint captured)" using amount_value_fits [of "MinorUnit captured"] by simp
  ultimately have f: "fits_i64 ?n" "fits_i64 (sint captured - ?n)" using assms(2) by (auto simp: fits_i64_def)
  then have "sint (captured - word_of_int ?n) = sint captured - ?n"
    using amount_value_sub [of "MinorUnit captured" "MinorUnit (word_of_int ?n)"]
    by (simp add: minor_unit_sub_def sint_of_int_fits)
  then show ?thesis by (auto simp: validate_refund_amount_def Let_def when_error_def refunded_amount_sum)
qed

section \<open>One request\<close>

lemma stored_short_id: "length tid \<le> 128 \<Longrightarrow> get_id (fst (form_id_and_data digest tid)) = tid"
  by (simp add: form_id_and_data_def connector_transaction_id_from_def)

lemma stored_long_id:
  assumes "length tid > 128" "take 8 tid \<noteq> ''hs_hash_''" "\<forall>s. length (digest s) = 50"
  shows "get_id (fst (form_id_and_data digest tid)) \<noteq> tid"
  using stored_id_length [OF assms(3,2)] assms(1) by auto

lemma validate_and_create_refund_Inr:
  assumes "validate_and_create_refund digest rq amount s = Inr (r, s')"
  obtains tid where "rq_attempt_transaction_id rq = Some tid"
    "validate_refund_amount (get_amount_as_i64 (total_amount_captured rq (refund_intent s)))
       (find_by_connector_transaction_id (rq_processor_merchant_id rq) tid (refunds s)) (get_amount_as_i64 amount) = Inr ()"
    "s' = s\<lparr>refunds := refunds s @ [r]\<rparr>" "refund_amount r = amount" "refund_status r = RS_Pending"
    "rf_connector_transaction_id r = fst (form_id_and_data digest tid)"
    "rf_processor_transaction_data r = snd (form_id_and_data digest tid)"
    "rf_processor_merchant_id r = Some (rq_processor_merchant_id rq)"
  using assms
  by (auto simp: validate_and_create_refund_def Let_def and_then_eq_Inr map_err_eq_Inr refund_insert_def split_beta
      split: sum.splits if_splits)

lemma refund_create_core_Inr:
  assumes "refund_create_core digest rq s = Inr (r, s')"
  obtains amount where "0 < amount_value amount" "validate_and_create_refund digest rq amount s = Inr (r, s')"
  using assms
  by (auto simp: refund_create_core_def Let_def and_then_eq_Inr map_err_eq_Inr when_error_def less_eq_minor_unit_def
      not_le split: if_splits)

section \<open>Requests that follow each other\<close>

text \<open>
  On one payment, whose transaction at the connector is \<open>tid\<close>: a refund request that succeeds; an answer
  of the connector about a refund, which may set any status but does not revive a failed refund; and
  the bookkeeping of refunds and disputes, from any copy of the intent that was read before.
\<close>

abbreviation found :: "string \<Rightarrow> string \<Rightarrow> refund_system \<Rightarrow> refund list" where
  "found pm tid s \<equiv> find_by_connector_transaction_id pm tid (refunds s)"

inductive refund_step :: "(string \<Rightarrow> string) \<Rightarrow> string \<Rightarrow> string \<Rightarrow> refund_system \<Rightarrow> refund_system \<Rightarrow> bool"
  for digest pm tid where
  create:
    "rq_processor_merchant_id rq = pm \<Longrightarrow> rq_attempt_transaction_id rq = Some tid \<Longrightarrow>
     refund_create_core digest rq s = Inr (r, s') \<Longrightarrow> refund_step digest pm tid s s'"
| settle:
    "refunds s = rs @ r # rs' \<Longrightarrow> (failed (refund_status r) \<Longrightarrow> failed st) \<Longrightarrow>
     refund_step digest pm tid s (s\<lparr>refunds := rs @ r\<lparr>refund_status := st\<rparr> # rs'\<rparr>)"
| book_refund:
    "refund_step digest pm tid s (update_intent_state_metadata_for_refund m pi s)"
| book_dispute:
    "refund_step digest pm tid s (update_intent_state_metadata_for_dispute am pi s)"

definition refunds_ok :: "string \<Rightarrow> string \<Rightarrow> minor_unit \<Rightarrow> refund_system \<Rightarrow> bool" where
  "refunds_ok pm tid c s \<longleftrightarrow> amount_captured (refund_intent s) = Some c
     \<and> (\<forall>r \<in> set (found pm tid s). 0 < amount_value (refund_amount r))
     \<and> (\<Sum>r \<leftarrow> found pm tid s. counted r) \<le> amount_value c"

lemma create_ok:
  assumes ok: "refunds_ok pm tid c s" and short: "length tid \<le> 128"
    and rq: "rq_processor_merchant_id rq = pm" "rq_attempt_transaction_id rq = Some tid"
    and run: "refund_create_core digest rq s = Inr (r, s')"
  shows "refunds_ok pm tid c s'"
proof -
  obtain amount where pos: "0 < amount_value amount" and v: "validate_and_create_refund digest rq amount s = Inr (r, s')"
    using run by (rule refund_create_core_Inr)
  from v obtain tid' where t: "rq_attempt_transaction_id rq = Some tid'"
      and val: "validate_refund_amount (get_amount_as_i64 (total_amount_captured rq (refund_intent s)))
        (find_by_connector_transaction_id (rq_processor_merchant_id rq) tid' (refunds s)) (get_amount_as_i64 amount) = Inr ()"
      and s': "s' = s\<lparr>refunds := refunds s @ [r]\<rparr>" and r: "refund_amount r = amount" "refund_status r = RS_Pending"
        "rf_connector_transaction_id r = fst (form_id_and_data digest tid')"
        "rf_processor_merchant_id r = Some (rq_processor_merchant_id rq)"
    by (rule validate_and_create_refund_Inr) auto
  have tid': "tid' = tid" using t rq(2) by simp
  have new: "found pm tid s' = found pm tid s @ [r]"
    using stored_short_id [OF short] r(3,4) rq(1) unfolding tid'
    by (simp add: s' find_by_connector_transaction_id_def of_processor_def)
  have cap: "total_amount_captured rq (refund_intent s) = c"
    using ok by (simp add: total_amount_captured_def refunds_ok_def unwrap_or_def)
  have "amount_value amount \<le> amount_value c - (\<Sum>r \<leftarrow> found pm tid s. counted r)"
    using val ok validate_refund_amount_exact [of "found pm tid s" "get_amount_as_i64 c"]
    unfolding cap tid' rq(1) refunds_ok_def by simp
  moreover have "counted r = amount_value amount" using r(1,2) by (simp add: counted_def failed_def)
  moreover have "refund_intent s' = refund_intent s" by (simp add: s')
  ultimately show ?thesis using ok pos r(1) unfolding refunds_ok_def new by auto
qed

lemma settle_found:
  "find_by_connector_transaction_id pm tid (rs @ r\<lparr>refund_status := st\<rparr> # rs') =
     find_by_connector_transaction_id pm tid rs
     @ map (\<lambda>r. r\<lparr>refund_status := st\<rparr>) (find_by_connector_transaction_id pm tid [r])
     @ find_by_connector_transaction_id pm tid rs'"
  by (simp add: find_by_connector_transaction_id_def of_processor_def)

lemma found_split:
  "find_by_connector_transaction_id pm tid (rs @ r # rs') =
     find_by_connector_transaction_id pm tid rs @ find_by_connector_transaction_id pm tid [r]
     @ find_by_connector_transaction_id pm tid rs'"
  by (simp add: find_by_connector_transaction_id_def)

lemma settle_ok:
  assumes ok: "refunds_ok pm tid c s" and rs: "refunds s = rs @ r # rs'" and st: "failed (refund_status r) \<Longrightarrow> failed st"
  shows "refunds_ok pm tid c (s\<lparr>refunds := rs @ r\<lparr>refund_status := st\<rparr> # rs'\<rparr>)"
proof (cases "find_by_connector_transaction_id pm tid [r]")
  case Nil
  then show ?thesis using ok unfolding refunds_ok_def rs by (simp add: settle_found found_split [of _ _ rs r rs'])
next
  case (Cons x xs)
  then have x: "find_by_connector_transaction_id pm tid [r] = [r]"
    by (simp add: find_by_connector_transaction_id_def split: if_splits)
  have "0 < amount_value (refund_amount r)"
    using ok unfolding refunds_ok_def rs found_split [of _ _ rs r rs'] x by simp
  then have "counted (r\<lparr>refund_status := st\<rparr>) \<le> counted r" using st by (auto simp: counted_def)
  then show ?thesis
    using ok unfolding refunds_ok_def rs by (simp add: settle_found found_split [of _ _ rs r rs'] x)
qed

lemma refund_steps_ok:
  assumes "(refund_step digest pm tid)\<^sup>*\<^sup>* s0 s" and "length tid \<le> 128" and "refunds_ok pm tid c s0"
  shows "refunds_ok pm tid c s"
  using assms
proof (induction rule: rtranclp_induct)
  case (step s s')
  then have ok: "refunds_ok pm tid c s" by simp
  from step.hyps(2) show ?case
  proof cases
    case (create rq r)
    show ?thesis by (rule create_ok [OF ok assms(2) create])
  next
    case (settle rs r rs' st)
    show ?thesis unfolding settle(1) by (rule settle_ok [OF ok settle(2)]) (rule settle(3))
  next
    case (book_refund m pi)
    then show ?thesis
      using ok by (simp add: refunds_ok_def update_intent_state_metadata_for_refund_def write_state_metadata_def Let_def)
  next
    case (book_dispute am pi)
    then show ?thesis
      using ok by (simp add: refunds_ok_def update_intent_state_metadata_for_dispute_def write_state_metadata_def Let_def)
  qed
qed


section \<open>A payment\<close>

definition sample_intent :: refund_intent where
  "sample_intent = \<lparr>ri_payment_id = ''pay'', ri_status = IS_Succeeded, amount_captured = Some (MinorUnit 100),
     ri_created_at = 0, state_metadata = None\<rparr>"

definition sample_request :: "string \<Rightarrow> string \<Rightarrow> i64 \<Rightarrow> refund_request" where
  "sample_request tid rid am =
     \<lparr>rq_amount = Some (MinorUnit am), rq_refund_id = Inr rid, rq_internal_reference_id = rid, rq_merchant_id = None,
      rq_processor_merchant_id = ''m'', rq_provider_merchant_id = ''m'', rq_attempt_transaction_id = Some tid,
      rq_attempt_total_amount = MinorUnit 100, rq_attempt_currency = Some (cur ''USD''), rq_attempt_connector = Some ''adyen'',
      rq_max_age = 365, rq_max_attempts = 10, rq_now = 0, rq_split_check = Inr (), rq_connector_check = Inr ()\<rparr>"

definition sample_refund :: "string \<Rightarrow> connector_transaction_id \<Rightarrow> string option \<Rightarrow> i64 \<Rightarrow> refund" where
  "sample_refund rid stored data am =
     \<lparr>internal_reference_id = rid, refund_id = rid, rf_payment_id = ''pay'', rf_merchant_id = ''m'',
      rf_processor_merchant_id = Some ''m'', rf_connector_transaction_id = stored, rf_processor_transaction_data = data,
      refund_amount = MinorUnit am, refund_status = RS_Pending\<rparr>"

lemmas sample_eval = refund_create_core_def validate_and_create_refund_def sample_request_def sample_intent_def
  sample_refund_def validate_amount_against_intent_state_metadata_def prevent_refund_after_post_capture_void_def
  get_blocked_amount_def state_metadata_default_def unwrap_or_def when_error_def get_required_value_def
  validate_payment_order_age_def whole_days_def validate_refund_amount_def
  validate_maximum_refund_against_payment_attempt_def total_amount_captured_def refund_insert_def
  find_by_connector_transaction_id_def of_processor_def less_eq_minor_unit_def minor_unit_zero_def
  List.map_filter_simps refunded_amount_def seconds_def Let_def

lemma sample_first:
  "refund_create_core digest (sample_request ''psp_1'' ''r1'' 60) \<lparr>refunds = [], refund_intent = sample_intent\<rparr> =
     Inr (sample_refund ''r1'' (TxnId ''psp_1'') None 60,
          \<lparr>refunds = [sample_refund ''r1'' (TxnId ''psp_1'') None 60], refund_intent = sample_intent\<rparr>)"
proof -
  have "form_id_and_data digest ''psp_1'' = (TxnId ''psp_1'', None)"
    by (simp add: form_id_and_data_def connector_transaction_id_from_def)
  then show ?thesis by (simp add: sample_eval)
qed


section \<open>Where the checks fall short\<close>

text \<open>
  A long identifier is stored hashed and looked up as it is. So the refunds of such a payment are never
  found, and while the first refund is pending, and so not in the totals of the intent, a second refund
  of the whole captured amount is accepted.
\<close>

theorem hashed_id_hides_refunds:
  assumes "length tid > 128" and "take 8 tid \<noteq> ''hs_hash_''" and "\<forall>s. length (digest s) = 50"
    and "rq_attempt_transaction_id rq = Some tid" and "rq_processor_merchant_id rq = pm"
    and "refund_create_core digest rq s = Inr (r, s')"
  shows "found pm tid s' = found pm tid s"
proof -
  obtain amount where v: "validate_and_create_refund digest rq amount s = Inr (r, s')"
    using assms(6) by (rule refund_create_core_Inr)
  from v have "s' = s\<lparr>refunds := refunds s @ [r]\<rparr> \<and> rf_connector_transaction_id r = fst (form_id_and_data digest tid)"
    by (rule validate_and_create_refund_Inr) (use assms(4) in auto)
  then show ?thesis using stored_long_id [OF assms(1-3)] by (simp add: find_by_connector_transaction_id_def)
qed

theorem hashed_id_refunds_twice:
  assumes "length tid > 128" and "take 8 tid \<noteq> ''hs_hash_''" and "\<forall>s. length (digest s) = 50"
  shows "\<exists>r1 s1 r2 s2.
      refund_create_core digest (sample_request tid ''r1'' 100) \<lparr>refunds = [], refund_intent = sample_intent\<rparr> = Inr (r1, s1)
    \<and> refund_create_core digest (sample_request tid ''r2'' 100) s1 = Inr (r2, s2)
    \<and> (\<Sum>r \<leftarrow> refunds s2. counted r) = 200"
proof -
  obtain h d where f: "form_id_and_data digest tid = (HashedData h, Some d)" and h: "h \<noteq> tid"
    using stored_long_id [OF assms] assms(1,2) by (auto simp: form_id_and_data_def connector_transaction_id_from_def)
  let ?r = "\<lambda>rid. sample_refund rid (HashedData h) (Some d) 100"
  have "refund_create_core digest (sample_request tid ''r1'' 100) \<lparr>refunds = [], refund_intent = sample_intent\<rparr> =
      Inr (?r ''r1'', \<lparr>refunds = [?r ''r1''], refund_intent = sample_intent\<rparr>)"
    using f by (simp add: sample_eval)
  moreover have "refund_create_core digest (sample_request tid ''r2'' 100) \<lparr>refunds = [?r ''r1''], refund_intent = sample_intent\<rparr> =
      Inr (?r ''r2'', \<lparr>refunds = [?r ''r1'', ?r ''r2''], refund_intent = sample_intent\<rparr>)"
    using f h by (simp add: sample_eval)
  moreover have "(\<Sum>r \<leftarrow> [?r ''r1'', ?r ''r2'']. counted r) = 200"
    by (simp add: counted_def failed_def sample_refund_def)
  ultimately show ?thesis by (metis refund_system.select_convs(1))
qed

text \<open>The check of the number of refunds passes with as many refunds as are allowed, and so lets one more through.\<close>

theorem one_refund_more_than_allowed:
  "validate_maximum_refund_against_payment_attempt all_refunds refund_max_attempts = Inr () \<longleftrightarrow>
     Suc (length all_refunds) \<le> Suc refund_max_attempts"
  by (simp add: validate_maximum_refund_against_payment_attempt_def when_error_def)

end
