(* ===== verification/Spec2Isabelle.thy ===== *)
theory Spec2Isabelle
  imports Cgraph_Sat Cgraph_Combine Euclid_Analyze Cards Knowledge_Truth Scheduler_System Sync_Retry Refund_Flow
begin

text \<open>
  \<^bold>\<open>Verification of parts of the hyperswitch payment switch.\<close>

  Paths are relative to \<open>src/crates/\<close>. Six parts of the program are modelled. They fall into two
  groups: the routing language, whose programs choose a connector for a payment, and the life of a
  payment after it has been authorised.

  \<^bold>\<open>1. The constraint graph\<close> (\<open>hyperswitch_constraint_graph/src\<close>). A graph of value nodes and
  aggregators with positive and negative, weak, normal and strong edges, that a checker evaluates in
  a context.

  \<^item> \<open>Dense_Map\<close>: \<open>dense_map.rs\<close>. The locale \<open>entity_keys\<close> is the contract of the trait \<open>EntityId\<close>; it is
    interpreted for nodes, edges and domains.
  \<^item> \<open>Cgraph_Types\<close>: \<open>types.rs\<close> and \<open>error.rs\<close>.
  \<^item> \<open>Cgraph_Builder\<close>: \<open>builder.rs\<close>, one definition per method, each with its error branches, and the wire
    form of a graph. The locale \<open>builder_operation\<close> is what every operation promises (it keeps the
    invariant of the tables and extends the builder); each operation is an interpretation of it. The
    theorems: the redundant tables agree in every reachable builder, identifiers stay valid, a repeated
    edge is found or refused in any domain, an aggregator gets exactly its predecessors, and a graph
    survives serialisation.
  \<^item> \<open>Cgraph_Check\<close>: \<open>graph.rs\<close>, the checker with its memo and cycle tables.
  \<^item> \<open>Cgraph_Sat\<close>: the meaning of a node, as an inductive relation without tables and traces, and that the
    checker decides it on acyclic graphs, never fails for structural reasons, and always returns.
  \<^item> \<open>Cgraph_Combine\<close>: \<open>combine\<close> of \<open>graph.rs\<close>.

  \<^bold>\<open>2. The routing language\<close> (\<open>euclid/src\<close>, \<open>euclid_macros/src\<close>). A program is a list of rules; it is
  interpreted directly, or lowered twice and interpreted then; an analysis rejects programs with
  branches that cannot hold, using a constraint graph of domain knowledge that a macro generates.

  \<^item> \<open>Euclid_Enums\<close>, \<open>Euclid_Dir\<close>, \<open>Euclid_Types\<close>: \<open>enums.rs\<close>, \<open>frontend/dir/enums.rs\<close>, \<open>frontend/dir.rs\<close>,
    \<open>frontend/dir/transformers.rs\<close>, \<open>types.rs\<close> and the enumerations of \<open>common_enums/src/enums.rs\<close>.
  \<^item> \<open>Euclid_Ast\<close>: \<open>frontend/ast.rs\<close>, \<open>backend/inputs.rs\<close>, \<open>backend/interpreter.rs\<close>.
  \<^item> \<open>Euclid_Lowering\<close>: \<open>frontend/ast/lowering.rs\<close>, \<open>frontend/dir/lowering.rs\<close>, \<open>frontend/vir.rs\<close>.
  \<^item> \<open>Euclid_Vir\<close>: \<open>backend/vir_interpreter.rs\<close>. The two interpreters agree on the programs over the keys
    both know, without \<open>/=\<close> on amounts, and on complete inputs.
  \<^item> \<open>Euclid_State_Machine\<close>: \<open>dssa/state_machine.rs\<close>, the managers that enumerate the contexts of a program.
  \<^item> \<open>Euclid_Contexts\<close>: the abstract enumeration (leaf paths and choices of values) and that the managers
    refine it. The locale \<open>rule_runner\<close> is what the managers of a rule and of a program share.
  \<^item> \<open>Euclid_Analysis\<close>, \<open>Euclid_Graph\<close>, \<open>Euclid_Analyze\<close>: \<open>dssa/analyzer.rs\<close> and \<open>dssa/graph.rs\<close>. The analyses
    decide whether a context can hold; an accepted program has no branch that is dead for its
    enumeration keys; the analysis returns on every program.
  \<^item> \<open>Knowledge_Macro\<close>, \<open>Knowledge_Graph\<close>, \<open>Knowledge_Truth\<close>: \<open>euclid_macros/src/inner/knowledge.rs\<close> and
    \<open>dssa/truth.rs\<close>. The generated code never panics and builds an acyclic graph, and what the default
    graph accepts is characterised.

  \<^bold>\<open>3. Card data\<close> (\<open>cards/src\<close>), in \<open>Cards\<close>: parsing, the Luhn check in eight-bit arithmetic, masking and
  expiry. \<^bold>\<open>Amounts\<close> (\<open>MinorUnit\<close> of \<open>common_utils/src/types.rs\<close>), in \<open>Minor_Unit\<close>: 64-bit words, with the
  range in which each operator is exact. Captures and refunds use them.

  \<^bold>\<open>4. The scheduler\<close> (\<open>scheduler/src\<close>, \<open>diesel_models/src/process_tracker.rs\<close>). A producer moves the tasks
  that are due from a table into Redis streams; consumers take them and run their workflows.

  \<^item> \<open>Process_Tracker\<close>: the rows, the updates and the operations of the store. A state is a record of the
    rows, the clock and the outcomes of the calls to come: a call is answered, is refused, or takes
    effect and loses its reply. The locale \<open>row_update\<close> is the contract of an update of rows,
    interpreted for the two updates of the table.
  \<^item> \<open>Retry_Schedule\<close>: \<open>consumer/types/process_data.rs\<close> and the schedule times of \<open>utils.rs\<close>.
  \<^item> \<open>Scheduler\<close>: \<open>producer.rs\<close>, \<open>consumer.rs\<close>, \<open>utils.rs\<close>, \<open>db/queue.rs\<close>, \<open>consumer/types/batch.rs\<close>,
    \<open>consumer/workflows.rs\<close>, \<open>configs/\<close>. The state extends the store by what Redis holds. The encoding of a
    batch is read back; a run of the producer takes exactly the tasks that are due.
  \<^item> \<open>Scheduler_System\<close>: any number of producers, consumers and workflows, one call per step, in any
    interleaving. A task is on the way at most once; a task that is closed is never run again. A run of
    the producer is a sequence of these steps. The locale \<open>blocked_task\<close> is what keeps a task from
    running; it is interpreted for closed tasks and for tasks that a failed append left behind.
  \<^item> \<open>Sync_Retry\<close>: how the workflows of the router (\<open>router/src/workflows\<close> and others) retry a task or give
    it up.

  \<^bold>\<open>5. Partial captures\<close>. \<open>Captures\<close> models the identifiers of connectors (\<open>common_utils/src/types.rs\<close>), the
  rows (\<open>diesel_models/src/capture.rs\<close>), \<open>MultipleCaptureData\<close> (\<open>router/src/core/payments/types.rs\<close>) and the
  parts of a capture request and of a sync that work on them (\<open>payment_capture.rs\<close>, \<open>payment_response.rs\<close> in
  \<open>router/src/core/payments/operations\<close>). \<open>Capture_Flow\<close> runs them one after the other and shows that the
  captures stay within the authorised amount.

  \<^bold>\<open>6. Refunds\<close>. \<open>Refunds\<close> models \<open>router/src/core/utils/refunds_validator.rs\<close>, the checks and the insertion
  of \<open>router/src/core/refunds.rs\<close> and the bookkeeping on the payment (\<open>common_types/src/payments.rs\<close>,
  \<open>hyperswitch_domain_models/src/payments.rs\<close>). \<open>Refund_Flow\<close> shows that refunds stay within what was captured.

  \<^bold>\<open>Conventions.\<close> \<open>Prelude\<close> holds what all parts share. A \<open>Result\<close> is a sum with \<open>Inl\<close> for the error; an
  operation that changes state returns its result with the new state, also when it fails. Machine
  integers are words. A hash table is a list without repetitions, and the order in which it is
  iterated is an argument, so the theorems hold for every order. The default build is modelled: version
  1 of the API, the release profile (arithmetic wraps), no optional features.

  \<^bold>\<open>Fuel.\<close> \<open>check_node_inner\<close> and \<open>cycle_dfs\<close> run on fuel, one unit per nested call. The cycle table stops a
  check at a node that is being checked, so the number of nodes plus one is enough (\<open>check_fuel\<close>,
  \<open>check_node_inner_fuel\<close>); the search for cycles visits a node with outgoing edges once, so the number
  of those nodes plus one is enough. The theorems of termination say that these results are never
  \<open>None\<close>. The loop \<open>for_each\<close> over contexts has no bound in its definition; that it ends is part of
  \<open>analyze_returns\<close>.

  \<^bold>\<open>What code outside the repository is assumed to do.\<close> Parameters stand for the derived parsers of
  \<open>strum\<close>, the calendar of \<open>time\<close>, the digest of long identifiers, the serialisation of tasks, the
  regular expressions of card networks, the configuration service and the connectors. A theorem that
  needs something of one of them says so in its hypotheses. The Redis commands and database queries are
  modelled by their documented effect.

  \<^bold>\<open>Defects the theorems record.\<close> \<open>/=\<close> on amounts is compiled to its opposite; a SEPA bank transfer is
  lowered to the direct debit; a strict bound does not fit itself; a number array meant as a range is
  a disjunction; the fraud rate of the acquirer cannot be compared; a negated key must also be
  asserted; acceptance of knowledge clauses can depend on the order of a hash table; a failed append
  strands its tasks; a reset task that was closed does not run; an interrupted capture blocks the
  following ones; equal amounts share a capture; refunds under a hashed identifier are not counted.

  \<^bold>\<open>Not modelled.\<close> The parser of the routing language, which is written in the combinators of a library;
  the endless loops, signals, logging and metrics around the scheduler; the calls of connectors and what
  a workflow does with their answers, beyond the captures and refunds they change; the lock a capture
  request holds on its payment, which is why the requests of \<open>Capture_Flow\<close> follow each other (the creation
  of a refund holds none, so \<open>Refund_Flow\<close> says nothing about two of them at once); the cache in front of
  the database; encryption; the API, storage, analytics and connector crates, which move data between
  formats and services; and the second version of the API.
\<close>

end
